(* ===== verification/Prelude.thy ===== *)
theory Prelude
  imports Main "HOL-Library.Sublist"
begin

text \<open>
  Shared layer of the development: the collections the component theories declare their
  facts into, and the generic lemmas on lists, maps and machine integers used by more than
  one component.

  \<^item> \<open>scan_progress\<close>: a scanner that succeeds has moved forward and has stayed
    inside its buffer.
  \<^item> \<open>wire_simps\<close>: evaluation rules for fields on the wire.
  \<^item> \<open>inv_intros\<close>: introduction rules of component invariants.
\<close>

named_theorems scan_progress \<open>a successful scan consumes input and stays in range\<close>
named_theorems wire_simps \<open>evaluation of wire fields\<close>
named_theorems inv_intros \<open>preservation of component invariants\<close>

section \<open>Byte strings\<close>

text \<open>
  A Go \<open>string\<close> or \<open>[]byte\<close> is a list of bytes. A HOL \<open>char\<close> is exactly one byte,
  so both are the type \<open>string\<close>; \<open>length\<close> counts bytes, as \<open>len\<close> does.
\<close>

type_synonym bytes = string

abbreviation byte :: "char \<Rightarrow> nat" where
  "byte c \<equiv> of_char c"

text \<open>The slice \<open>b[i:j]\<close>, for \<open>i \<le> j \<le> len(b)\<close>.\<close>

definition slice :: "'a list \<Rightarrow> nat \<Rightarrow> nat \<Rightarrow> 'a list" where
  "slice b i j = take (j - i) (drop i b)"

lemma slice_same [simp]: "slice b i i = []"
  by (simp add: slice_def)

lemma slice_0: "slice b 0 j = take j b"
  by (simp add: slice_def)

lemma length_slice [simp]: "j \<le> length b \<Longrightarrow> length (slice b i j) = j - i"
  by (simp add: slice_def)

lemma slice_append_exact [simp]:
  "slice (p @ m @ s) (length p) (length p + length m) = m"
  by (simp add: slice_def)

lemma slice_append:
  assumes "i \<le> j" "j \<le> k"
  shows "slice b i j @ slice b j k = slice b i k"
proof -
  have "take (k - i) (drop i b) = take ((j - i) + (k - j)) (drop i b)"
    using assms by simp
  also have "\<dots> = take (j - i) (drop i b) @ take (k - j) (drop j b)"
    using assms by (simp only: take_add drop_drop le_add_diff_inverse2)
  finally show ?thesis by (simp add: slice_def)
qed

lemma slice_Cons: "i < j \<Longrightarrow> j \<le> length b \<Longrightarrow> slice b i j = b ! i # slice b (Suc i) j"
  by (simp add: slice_def Cons_nth_drop_Suc [symmetric] take_Cons')

lemma slice_snoc: "i \<le> j \<Longrightarrow> j < length b \<Longrightarrow> slice b i (Suc j) = slice b i j @ [b ! j]"
  by (simp add: slice_def Suc_diff_le take_Suc_conv_app_nth)

section \<open>64-bit signed integers\<close>

text \<open>Go's \<open>int64\<close> arithmetic wraps: the representative in \<open>-2\<^sup>6\<^sup>3 .. 2\<^sup>6\<^sup>3 - 1\<close>.\<close>

definition wrap64 :: "int \<Rightarrow> int" where
  "wrap64 x = (x + 2 ^ 63) mod 2 ^ 64 - 2 ^ 63"

abbreviation max_int64 :: int where
  "max_int64 \<equiv> 2 ^ 63 - 1"

lemma wrap64_id: "- (2 ^ 63) \<le> x \<Longrightarrow> x \<le> max_int64 \<Longrightarrow> wrap64 x = x"
  by (simp add: wrap64_def)

lemma wrap64_range: "- (2 ^ 63) \<le> wrap64 x" "wrap64 x \<le> max_int64"
proof -
  have "0 \<le> (x + 2 ^ 63) mod 2 ^ 64" "(x + 2 ^ 63) mod 2 ^ 64 < 2 ^ 64"
    by simp_all
  then show "- (2 ^ 63) \<le> wrap64 x" "wrap64 x \<le> max_int64"
    unfolding wrap64_def by simp_all
qed

section \<open>Results\<close>

text \<open>Go's \<open>(T, error)\<close> results are values of a sum type: \<open>Inl\<close> is the error.\<close>

definition bind_result :: "'e + 'a \<Rightarrow> ('a \<Rightarrow> 'e + 'b) \<Rightarrow> 'e + 'b" where
  "bind_result m f = (case m of Inl e \<Rightarrow> Inl e | Inr x \<Rightarrow> f x)"

lemma bind_result_simps [simp]:
  "bind_result (Inl e) f = Inl e"
  "bind_result (Inr x) f = f x"
  by (simp_all add: bind_result_def)

lemma bind_result_Inr_iff:
  "bind_result m f = Inr y \<longleftrightarrow> (\<exists>x. m = Inr x \<and> f x = Inr y)"
  by (cases m) auto

section \<open>Step systems\<close>

text \<open>
  A component with state is a partial function \<open>exec\<close> from actions and states to states
  (\<open>None\<close>: the action is not enabled). \<open>reach exec s t\<close>: some actions lead from \<open>s\<close> to
  \<open>t\<close>; \<open>run\<close> executes a given list of actions.
\<close>

inductive reach :: "('a \<Rightarrow> 's \<Rightarrow> 's option) \<Rightarrow> 's \<Rightarrow> 's \<Rightarrow> bool"
  for exec :: "'a \<Rightarrow> 's \<Rightarrow> 's option" and s :: 's where
  reach_refl [intro]: "reach exec s s"
| reach_exec: "reach exec s t \<Longrightarrow> exec a t = Some u \<Longrightarrow> reach exec s u"

fun run :: "('a \<Rightarrow> 's \<Rightarrow> 's option) \<Rightarrow> 'a list \<Rightarrow> 's \<Rightarrow> 's option" where
  "run exec [] s = Some s"
| "run exec (a # as) s = Option.bind (exec a s) (run exec as)"

lemma reach_trans: "reach exec t u \<Longrightarrow> reach exec s t \<Longrightarrow> reach exec s u"
  by (induction rule: reach.induct) (auto intro: reach_exec)

lemma reach_run: "run exec as s = Some t \<Longrightarrow> reach exec s t"
proof (induction as arbitrary: s)
  case (Cons a as)
  then obtain v where "exec a s = Some v" "run exec as v = Some t"
    by (auto simp: bind_eq_Some_conv)
  with Cons.IH reach_exec [OF reach_refl] show ?case by (metis reach_trans)
qed auto

text \<open>The contract of an inductive invariant, and what it gives.\<close>

locale step_invariant =
  fixes exec :: "'a \<Rightarrow> 's \<Rightarrow> 's option" and I :: "'s \<Rightarrow> bool"
  assumes preserved: "I s \<Longrightarrow> exec a s = Some t \<Longrightarrow> I t"
begin

lemma reachable: "reach exec s t \<Longrightarrow> I s \<Longrightarrow> I t"
  by (induction rule: reach.induct) (auto intro: preserved)

lemma after_run: "run exec as s = Some t \<Longrightarrow> I s \<Longrightarrow> I t"
  using reachable reach_run by metis

end

section \<open>Maps\<close>

lemma ran_map_upd_subset: "ran (m(k \<mapsto> v)) \<subseteq> insert v (ran m)"
  by (auto simp: ran_def)

lemma map_delete_None [simp]: "(m(k := None)) k = None"
  by simp

lemma finite_dom_upd [simp, intro]: "finite (dom m) \<Longrightarrow> finite (dom (m(k := v)))"
  by (auto simp: dom_def intro: finite_subset [of _ "insert k (dom m)"])

end
