(* ===== verification/Go_Strings.thy ===== *)
theory Go_Strings
  imports Prelude
begin

text \<open>
  The part of Go's \<open>strings\<close> package the modelled code calls, on byte strings:
  \<open>HasPrefix\<close>, \<open>HasSuffix\<close>, \<open>Index\<close>, \<open>Contains\<close>, \<open>Join\<close>, \<open>SplitN\<close>, \<open>Split\<close>,
  \<open>TrimSpace\<close>, \<open>ToLower\<close> and \<open>EqualFold\<close>.

  \<open>TrimSpace\<close> removes the UTF-8 encodings of the code points for which
  \<open>unicode.IsSpace\<close> holds, at both ends. \<open>ToLower\<close> and \<open>EqualFold\<close> are used by the
  code only on the way to a comparison with ASCII text: the model maps ASCII letters and
  the non-ASCII code points whose lower-case (or folded) form is an ASCII letter, and
  leaves every other byte alone, which decides those comparisons as Go does.
\<close>

definition has_prefix :: "bytes \<Rightarrow> bytes \<Rightarrow> bool" where
  "has_prefix s p \<longleftrightarrow> take (length p) s = p"

definition has_suffix :: "bytes \<Rightarrow> bytes \<Rightarrow> bool" where
  "has_suffix s p \<longleftrightarrow> length p \<le> length s \<and> drop (length s - length p) s = p"

definition trim_prefix :: "bytes \<Rightarrow> bytes \<Rightarrow> bytes" where
  "trim_prefix s p = (if has_prefix s p then drop (length p) s else s)"

definition trim_suffix :: "bytes \<Rightarrow> bytes \<Rightarrow> bytes" where
  "trim_suffix s p = (if has_suffix s p then take (length s - length p) s else s)"

lemma has_prefix_iff: "has_prefix s p \<longleftrightarrow> (\<exists>t. s = p @ t)"
  unfolding has_prefix_def by (metis append_eq_conv_conj append_take_drop_id)

lemma has_prefix_append [simp]: "has_prefix (p @ s) p"
  by (simp add: has_prefix_def)

lemma has_suffix_append [simp]: "has_suffix (s @ p) p"
  by (simp add: has_suffix_def)

fun str_index :: "bytes \<Rightarrow> bytes \<Rightarrow> nat option" where
  "str_index [] p = (if p = [] then Some 0 else None)"
| "str_index (c # s) p =
     (if has_prefix (c # s) p then Some 0 else map_option Suc (str_index s p))"

definition str_contains :: "bytes \<Rightarrow> bytes \<Rightarrow> bool" where
  "str_contains s p \<longleftrightarrow> str_index s p \<noteq> None"

lemma str_index_Some:
  "str_index s p = Some i \<Longrightarrow> i + length p \<le> length s \<and> take (length p) (drop i s) = p"
proof (induction s p arbitrary: i rule: str_index.induct)
  case (1 p)
  then show ?case by (simp split: if_splits)
next
  case (2 c s p)
  show ?case
  proof (cases "has_prefix (c # s) p")
    case True
    then have "length p \<le> length (c # s)"
      by (metis has_prefix_iff le_add1 length_append)
    with True 2 show ?thesis by (simp add: has_prefix_def)
  next
    case False
    with 2 show ?thesis by auto
  qed
qed

lemma str_index_single:
  "str_index s [c] = None \<longleftrightarrow> c \<notin> set s"
  by (induction s "[c]" rule: str_index.induct) (auto simp: has_prefix_def)

lemma str_contains_single [simp]: "str_contains s [c] \<longleftrightarrow> c \<in> set s"
  using str_index_single [of s c] by (auto simp: str_contains_def)

lemma str_index_single_append:
  "c \<notin> set a \<Longrightarrow> str_index (a @ c # b) [c] = Some (length a)"
  by (induction a) (auto simp: has_prefix_def)

fun str_join :: "bytes list \<Rightarrow> bytes \<Rightarrow> bytes" where
  "str_join [] sep = []"
| "str_join [x] sep = x"
| "str_join (x # y # xs) sep = x @ sep @ str_join (y # xs) sep"

text \<open>\<open>strings.SplitN(s, sep, 2)\<close> for a non-empty separator.\<close>

definition split_n2 :: "bytes \<Rightarrow> bytes \<Rightarrow> bytes list" where
  "split_n2 s sep =
     (case str_index s sep of
        None \<Rightarrow> [s]
      | Some i \<Rightarrow> [take i s, drop (i + length sep) s])"

lemma split_n2_char:
  "c \<notin> set a \<Longrightarrow> split_n2 (a @ c # b) [c] = [a, b]"
  by (simp add: split_n2_def str_index_single_append)

text \<open>\<open>strings.Split(s, c)\<close> for a one-byte separator.\<close>

fun split_char :: "bytes \<Rightarrow> char \<Rightarrow> bytes list" where
  "split_char [] c = [[]]"
| "split_char (x # s) c =
     (if x = c then [] # split_char s c
      else (case split_char s c of [] \<Rightarrow> [[x]] | w # ws \<Rightarrow> (x # w) # ws))"

section \<open>White space\<close>

text \<open>The UTF-8 encodings of the code points of \<open>unicode.IsSpace\<close>.\<close>

definition space_encodings :: "bytes list" where
  "space_encodings =
     [[CHR 0x09], [CHR 0x0A], [CHR 0x0B], [CHR 0x0C], [CHR 0x0D], [CHR 0x20],
      [CHR 0xC2, CHR 0x85], [CHR 0xC2, CHR 0xA0], [CHR 0xE1, CHR 0x9A, CHR 0x80]] @
     map (\<lambda>n. [CHR 0xE2, CHR 0x80, char_of n]) [0x80..<0x8B] @
     [[CHR 0xE2, CHR 0x80, CHR 0xA8], [CHR 0xE2, CHR 0x80, CHR 0xA9],
      [CHR 0xE2, CHR 0x80, CHR 0xAF], [CHR 0xE2, CHR 0x81, CHR 0x9F],
      [CHR 0xE3, CHR 0x80, CHR 0x80]]"

fun strip_one :: "bytes list \<Rightarrow> bytes \<Rightarrow> bytes option" where
  "strip_one [] s = None"
| "strip_one (w # ws) s =
     (if w \<noteq> [] \<and> has_prefix s w then Some (drop (length w) s) else strip_one ws s)"

lemma strip_one_shorter: "strip_one ws s = Some t \<Longrightarrow> length t < length s"
proof (induction ws s rule: strip_one.induct)
  case (2 w ws s)
  show ?case
  proof (cases "w \<noteq> [] \<and> has_prefix s w")
    case True
    then obtain u where "s = w @ u" by (auto simp: has_prefix_iff)
    with 2 True show ?thesis by auto
  next
    case False
    with 2 have "strip_one ws s = Some t" by (simp split: if_splits)
    with False 2 show ?thesis by blast
  qed
qed simp

function trim_left_with :: "bytes list \<Rightarrow> bytes \<Rightarrow> bytes" where
  "trim_left_with ws s =
     (case strip_one ws s of None \<Rightarrow> s | Some t \<Rightarrow> trim_left_with ws t)"
  by pat_completeness auto
termination
  by (relation "measure (\<lambda>(ws, s). length s)") (auto dest: strip_one_shorter)

declare trim_left_with.simps [simp del]

definition trim_space :: "bytes \<Rightarrow> bytes" where
  "trim_space s =
     (let t = trim_left_with space_encodings s
      in rev (trim_left_with (map rev space_encodings) (rev t)))"

lemma trim_left_with_stops: "strip_one ws (trim_left_with ws s) = None"
proof (induction ws s rule: trim_left_with.induct)
  case (1 ws s)
  then show ?case
    by (subst trim_left_with.simps) (auto split: option.splits)
qed

lemma trim_left_with_fix: "strip_one ws s = None \<Longrightarrow> trim_left_with ws s = s"
  by (simp add: trim_left_with.simps)

lemma trim_left_with_idem [simp]:
  "trim_left_with ws (trim_left_with ws s) = trim_left_with ws s"
  by (rule trim_left_with_fix) (rule trim_left_with_stops)

lemma trim_left_with_suffix: "\<exists>p. s = p @ trim_left_with ws s"
proof (induction ws s rule: trim_left_with.induct)
  case (1 ws s)
  have *: "strip_one ws s = Some t \<Longrightarrow> \<exists>p. s = p @ t" for t
    by (induction ws s rule: strip_one.induct) (auto simp: has_prefix_iff split: if_splits)
  show ?case
  proof (cases "strip_one ws s")
    case None
    then show ?thesis by (simp add: trim_left_with_fix)
  next
    case (Some t)
    with "1" obtain p where "t = p @ trim_left_with ws t" by blast
    moreover from * [OF Some] obtain q where "s = q @ t" by blast
    moreover have "trim_left_with ws s = trim_left_with ws t"
      using Some by (simp add: trim_left_with.simps [of ws s])
    ultimately show ?thesis by (metis append.assoc)
  qed
qed

lemma trim_left_with_length: "length (trim_left_with ws s) \<le> length s"
  using trim_left_with_suffix [of s ws] by (metis le_add2 length_append)

lemma trim_space_length: "length (trim_space s) \<le> length s"
  unfolding trim_space_def Let_def
  by (metis length_rev order_trans trim_left_with_length)

lemma trim_space_Nil [simp]: "trim_space [] = []"
  using trim_space_length [of "[]"] by simp

section \<open>Letter case\<close>

definition lower_char :: "char \<Rightarrow> char" where
  "lower_char c = (if 65 \<le> byte c \<and> byte c \<le> 90 then char_of (byte c + 32) else c)"

text \<open>
  \<open>U+212A\<close> (KELVIN SIGN, bytes E2 84 AA) lowers to \<open>k\<close> and \<open>U+0130\<close> (bytes C4 B0) to
  \<open>i\<close>; no other code point outside ASCII lowers into ASCII.
\<close>

fun to_lower :: "bytes \<Rightarrow> bytes" where
  "to_lower [] = []"
| "to_lower (a # s) =
     (case s of
        b # c # t \<Rightarrow>
          (if a = CHR 0xE2 \<and> b = CHR 0x84 \<and> c = CHR 0xAA then CHR ''k'' # to_lower t
           else if a = CHR 0xC4 \<and> b = CHR 0xB0 then CHR ''i'' # to_lower (c # t)
           else lower_char a # to_lower s)
      | [b] \<Rightarrow>
          (if a = CHR 0xC4 \<and> b = CHR 0xB0 then ''i'' else lower_char a # to_lower s)
      | [] \<Rightarrow> [lower_char a])"

text \<open>
  Simple folding: \<open>U+212A\<close> folds with \<open>k\<close> and \<open>U+017F\<close> (bytes C5 BF) with \<open>s\<close>.
\<close>

fun fold_case :: "bytes \<Rightarrow> bytes" where
  "fold_case [] = []"
| "fold_case (a # s) =
     (case s of
        b # c # t \<Rightarrow>
          (if a = CHR 0xE2 \<and> b = CHR 0x84 \<and> c = CHR 0xAA then CHR ''k'' # fold_case t
           else if a = CHR 0xC5 \<and> b = CHR 0xBF then CHR ''s'' # fold_case (c # t)
           else lower_char a # fold_case s)
      | [b] \<Rightarrow>
          (if a = CHR 0xC5 \<and> b = CHR 0xBF then ''s'' else lower_char a # fold_case s)
      | [] \<Rightarrow> [lower_char a])"

definition equal_fold :: "bytes \<Rightarrow> bytes \<Rightarrow> bool" where
  "equal_fold s t \<longleftrightarrow> fold_case s = fold_case t"

lemma equal_fold_refl [simp]: "equal_fold s s"
  by (simp add: equal_fold_def)

lemma equal_fold_sym: "equal_fold s t \<Longrightarrow> equal_fold t s"
  by (simp add: equal_fold_def)

section \<open>Decimal numerals\<close>

text \<open>\<open>strconv.AppendInt(dst, n, 10)\<close> for the digits of a non-negative number.\<close>

definition digit_char :: "nat \<Rightarrow> char" where
  "digit_char d = char_of (48 + d)"

fun nat_decimal :: "nat \<Rightarrow> bytes" where
  "nat_decimal n =
     (if n < 10 then [digit_char n] else nat_decimal (n div 10) @ [digit_char (n mod 10)])"

declare nat_decimal.simps [simp del]

definition int_decimal :: "int \<Rightarrow> bytes" where
  "int_decimal n = (if n < 0 then CHR ''-'' # nat_decimal (nat (- n)) else nat_decimal (nat n))"

lemma nat_decimal_nonempty [simp]: "nat_decimal n \<noteq> []"
  by (subst nat_decimal.simps) simp

lemma byte_digit_char: "d < 10 \<Longrightarrow> byte (digit_char d) = 48 + d"
  by (simp add: digit_char_def)

lemma set_nat_decimal: "c \<in> set (nat_decimal n) \<Longrightarrow> 48 \<le> byte c \<and> byte c \<le> 57"
proof (induction n rule: nat_decimal.induct)
  case (1 n)
  show ?case
  proof (cases "n < 10")
    case True
    with "1.prems" have "c = digit_char n" by (simp add: nat_decimal.simps [of n])
    with True show ?thesis by (simp add: byte_digit_char)
  next
    case False
    with "1.prems" have "c \<in> set (nat_decimal (n div 10)) \<or> c = digit_char (n mod 10)"
      by (auto simp: nat_decimal.simps [of n])
    with False "1.IH" show ?thesis by (auto simp: byte_digit_char)
  qed
qed

end
