(* ===== verification/Utf8.thy ===== *)
theory Utf8
  imports Go_Strings
begin

text \<open>
  Go's \<open>unicode/utf8\<close> on byte strings: \<open>DecodeRune\<close>, \<open>EncodeRune\<close> and \<open>Valid\<close>. An
  ill-formed byte decodes to \<open>RuneError\<close> (U+FFFD) with width 1. The lemmas relate the
  two directions: encoding a valid rune and decoding it again gives the rune, and a
  well-formed decoded prefix is the encoding of its rune.
\<close>

abbreviation rune_error :: nat where
  "rune_error \<equiv> 65533"

definition in_range :: "nat \<Rightarrow> nat \<Rightarrow> char \<Rightarrow> bool" where
  "in_range lo hi c \<longleftrightarrow> lo \<le> byte c \<and> byte c \<le> hi"

definition low6 :: "char \<Rightarrow> nat" where
  "low6 c = byte c mod 64"

text \<open>The two-, three- and four-byte forms, given the value \<open>p\<close> of the lead byte.\<close>

fun decode2 :: "nat \<Rightarrow> bytes \<Rightarrow> (nat \<times> nat) option" where
  "decode2 p (b # _) =
     (if in_range 0x80 0xBF b then Some ((p mod 32) * 64 + low6 b, 2) else None)"
| "decode2 p _ = None"

fun decode3 :: "nat \<Rightarrow> bytes \<Rightarrow> (nat \<times> nat) option" where
  "decode3 p (b # c # _) =
     (if in_range (if p = 0xE0 then 0xA0 else 0x80) (if p = 0xED then 0x9F else 0xBF) b
         \<and> in_range 0x80 0xBF c
      then Some ((p mod 16) * 4096 + low6 b * 64 + low6 c, 3) else None)"
| "decode3 p _ = None"

fun decode4 :: "nat \<Rightarrow> bytes \<Rightarrow> (nat \<times> nat) option" where
  "decode4 p (b # c # d # _) =
     (if in_range (if p = 0xF0 then 0x90 else 0x80) (if p = 0xF4 then 0x8F else 0xBF) b
         \<and> in_range 0x80 0xBF c \<and> in_range 0x80 0xBF d
      then Some ((p mod 8) * 262144 + low6 b * 4096 + low6 c * 64 + low6 d, 4) else None)"
| "decode4 p _ = None"

definition decode_multi :: "nat \<Rightarrow> bytes \<Rightarrow> (nat \<times> nat) option" where
  "decode_multi p s =
     (if p < 0xC2 then None
      else if p < 0xE0 then decode2 p s
      else if p < 0xF0 then decode3 p s
      else if p < 0xF5 then decode4 p s
      else None)"

fun decode_rune :: "bytes \<Rightarrow> nat \<times> nat" where
  "decode_rune [] = (rune_error, 0)"
| "decode_rune (a # s) =
     (if byte a < 0x80 then (byte a, 1)
      else case decode_multi (byte a) s of None \<Rightarrow> (rune_error, 1) | Some d \<Rightarrow> d)"

definition valid_rune :: "nat \<Rightarrow> bool" where
  "valid_rune r \<longleftrightarrow> r < 0xD800 \<or> (0xE000 \<le> r \<and> r < 0x110000)"

definition encode_valid :: "nat \<Rightarrow> bytes" where
  "encode_valid r =
     (if r < 0x80 then [char_of r]
      else if r < 0x800 then [char_of (0xC0 + r div 64), char_of (0x80 + r mod 64)]
      else if r < 0x10000 then
        [char_of (0xE0 + r div 4096), char_of (0x80 + r div 64 mod 64), char_of (0x80 + r mod 64)]
      else
        [char_of (0xF0 + r div 262144), char_of (0x80 + r div 4096 mod 64),
         char_of (0x80 + r div 64 mod 64), char_of (0x80 + r mod 64)])"

text \<open>\<open>utf8.AppendRune\<close> writes U+FFFD for a value that is no rune.\<close>

definition encode_rune :: "nat \<Rightarrow> bytes" where
  "encode_rune r = (if valid_rune r then encode_valid r else encode_valid rune_error)"

definition bad_rune :: "nat \<times> nat \<Rightarrow> bool" where
  "bad_rune d \<longleftrightarrow> fst d = rune_error \<and> snd d \<le> 1"

lemma decode2_Some:
  "decode2 p s = Some d \<Longrightarrow> snd d = 2 \<and> 2 \<le> Suc (length s)
     \<and> decode2 p (take 1 s @ t) = Some d"
  by (cases "(p, s)" rule: decode2.cases) (auto split: if_splits)

lemma decode3_Some:
  "decode3 p s = Some d \<Longrightarrow> snd d = 3 \<and> 3 \<le> Suc (length s)
     \<and> decode3 p (take 2 s @ t) = Some d"
  by (cases "(p, s)" rule: decode3.cases) (auto simp: numeral_2_eq_2 split: if_split_asm)

lemma decode4_Some:
  "decode4 p s = Some d \<Longrightarrow> snd d = 4 \<and> 4 \<le> Suc (length s)
     \<and> decode4 p (take 3 s @ t) = Some d"
  by (cases "(p, s)" rule: decode4.cases) (auto simp: numeral_3_eq_3 split: if_split_asm)

lemma decode_multi_Some:
  assumes "decode_multi p s = Some d"
  shows "2 \<le> snd d" and "snd d \<le> Suc (length s)"
    and "decode_multi p (take (snd d - 1) s @ t) = Some d"
  using assms decode2_Some [of p s d t] decode3_Some [of p s d t] decode4_Some [of p s d t]
  by (auto simp: decode_multi_def split: if_split_asm)

lemma decode_rune_width_pos: "s \<noteq> [] \<Longrightarrow> 0 < snd (decode_rune s)"
  by (cases s) (auto dest: decode_multi_Some(1) split: option.split)

lemma decode_rune_width_le: "snd (decode_rune s) \<le> length s"
  by (cases s) (auto dest: decode_multi_Some(2) split: option.split)

function utf8_valid :: "bytes \<Rightarrow> bool" where
  "utf8_valid s =
     (if s = [] then True
      else if bad_rune (decode_rune s) then False
      else utf8_valid (drop (snd (decode_rune s)) s))"
  by pat_completeness auto
termination
proof (relation "measure length", goal_cases)
  case (2 s)
  then show ?case using decode_rune_width_pos [of s] by (cases s) auto
qed simp

declare utf8_valid.simps [simp del]

lemma utf8_valid_Nil [simp]: "utf8_valid []"
  by (subst utf8_valid.simps) simp

lemma decode_rune_ascii: "byte c < 128 \<Longrightarrow> decode_rune (c # s) = (byte c, 1)"
  by simp

lemma utf8_valid_ascii_Cons [simp]: "byte c < 128 \<Longrightarrow> utf8_valid (c # s) \<longleftrightarrow> utf8_valid s"
  by (subst utf8_valid.simps) (simp add: bad_rune_def)

lemma utf8_valid_ascii: "(\<And>c. c \<in> set s \<Longrightarrow> byte c < 128) \<Longrightarrow> utf8_valid s"
  by (induction s) simp_all

text \<open>A well-formed prefix decodes the same way whatever follows it.\<close>

lemma decode_rune_take:
  assumes "s \<noteq> []" "\<not> bad_rune (decode_rune s)"
  shows "decode_rune (take (snd (decode_rune s)) s @ t) = decode_rune s"
proof (cases s)
  case (Cons a u)
  show ?thesis
  proof (cases "byte a < 128")
    case False
    with assms Cons obtain d where d: "decode_multi (byte a) u = Some d"
      by (auto simp: bad_rune_def split: option.splits)
    have "2 \<le> snd d" by (rule decode_multi_Some(1) [OF d])
    moreover note decode_multi_Some(3) [OF d, of t]
    ultimately show ?thesis
      using False Cons d by (cases "snd d") auto
  qed (simp add: Cons)
qed (use assms in simp)

lemma decode_rune_append:
  assumes "s \<noteq> []" "\<not> bad_rune (decode_rune s)"
  shows "decode_rune (s @ t) = decode_rune s"
  using decode_rune_take [OF assms, of "drop (snd (decode_rune s)) s @ t"]
  by (metis append.assoc append_take_drop_id)

lemma utf8_valid_append:
  "utf8_valid s \<Longrightarrow> utf8_valid (s @ t) \<longleftrightarrow> utf8_valid t"
proof (induction s rule: utf8_valid.induct)
  case (1 s)
  show ?case
  proof (cases "s = []")
    case False
    with "1.prems" have good: "\<not> bad_rune (decode_rune s)"
      and rest: "utf8_valid (drop (snd (decode_rune s)) s)"
      by (simp_all add: utf8_valid.simps [of s] split: if_splits)
    have "utf8_valid (s @ t) \<longleftrightarrow> utf8_valid (drop (snd (decode_rune s)) s @ t)"
      using good False decode_rune_width_le [of s]
      by (simp add: decode_rune_append utf8_valid.simps [of "s @ t"])
    with "1.IH" [OF False good rest] show ?thesis by simp
  qed simp
qed

lemma utf8_valid_appendI: "utf8_valid s \<Longrightarrow> utf8_valid t \<Longrightarrow> utf8_valid (s @ t)"
  by (simp add: utf8_valid_append)

section \<open>Encoding and decoding\<close>

lemma byte_char_of: "n < 256 \<Longrightarrow> byte (char_of (n::nat)) = n"
  by simp

lemma mod_digit: "n < m \<Longrightarrow> (k * m + n) mod m = (n::nat)"
  by simp

lemma low6_cont: "n < 64 \<Longrightarrow> low6 (char_of (128 + n)) = n"
  using mod_digit [of n 64 2] unfolding low6_def by (subst byte_char_of) simp_all

lemma in_range_char_of:
  "n < 256 \<Longrightarrow> in_range lo hi (char_of n) \<longleftrightarrow> lo \<le> n \<and> n \<le> hi"
  by (simp add: in_range_def)

lemma decode2_digits:
  assumes "2 \<le> q" "q < 32" "q0 < 64"
  shows "decode_rune (char_of (192 + q) # char_of (128 + q0) # t) = (q * 64 + q0, 2)"
proof -
  have b: "byte (char_of (192 + q)) = 192 + q"
    using assms by (intro byte_char_of) simp
  have m: "(192 + q) mod 32 = q" using assms mod_digit [of q 32 6] by simp
  show ?thesis
    using assms by (simp del: of_char_of add: b m decode_multi_def in_range_char_of low6_cont)
qed

lemma decode3_digits:
  assumes "q < 16" "q1 < 64" "q0 < 64" "q = 0 \<Longrightarrow> 32 \<le> q1" "q = 13 \<Longrightarrow> q1 < 32"
  shows "decode_rune (char_of (224 + q) # char_of (128 + q1) # char_of (128 + q0) # t)
         = (q * 4096 + q1 * 64 + q0, 3)"
proof -
  have b: "byte (char_of (224 + q)) = 224 + q"
    using assms by (intro byte_char_of) simp
  have m: "(224 + q) mod 16 = q" using assms mod_digit [of q 16 14] by simp
  show ?thesis
    using assms by (auto simp del: of_char_of simp: b m decode_multi_def in_range_char_of low6_cont)
qed

lemma decode4_digits:
  assumes "q < 5" "q2 < 64" "q1 < 64" "q0 < 64" "q = 0 \<Longrightarrow> 16 \<le> q2" "q = 4 \<Longrightarrow> q2 < 16"
  shows "decode_rune (char_of (240 + q) # char_of (128 + q2) # char_of (128 + q1)
            # char_of (128 + q0) # t)
         = (q * 262144 + q2 * 4096 + q1 * 64 + q0, 4)"
proof -
  have b: "byte (char_of (240 + q)) = 240 + q"
    using assms by (intro byte_char_of) simp
  have m: "(240 + q) mod 8 = q" using assms mod_digit [of q 8 30] by simp
  show ?thesis
    using assms by (auto simp del: of_char_of simp: b m decode_multi_def in_range_char_of low6_cont)
qed

lemma split64: "(r::nat) = r div 64 * 64 + r mod 64"
  by simp

lemma split4096: "(r::nat) = r div 4096 * 4096 + r div 64 mod 64 * 64 + r mod 64"
proof -
  have "r div 64 = r div 4096 * 64 + r div 64 mod 64"
    using split64 [of "r div 64"] by (simp add: div_mult2_eq [symmetric])
  then show ?thesis using split64 [of r] by linarith
qed

lemma split262144:
  "(r::nat) = r div 262144 * 262144 + r div 4096 mod 64 * 4096 + r div 64 mod 64 * 64 + r mod 64"
proof -
  have "r div 4096 = r div 262144 * 64 + r div 4096 mod 64"
    using split64 [of "r div 4096"] by (simp add: div_mult2_eq [symmetric])
  then show ?thesis using split4096 [of r] by linarith
qed

lemma decode_encode_2:
  assumes "0x80 \<le> r" "r < 0x800"
  shows "decode_rune (encode_valid r @ t) = (r, 2)"
  using assms decode2_digits [of "r div 64" "r mod 64" t] split64 [of r]
  by (simp add: encode_valid_def)

lemma decode_encode_3:
  assumes "0x800 \<le> r" "r < 0x10000" "valid_rune r"
  shows "decode_rune (encode_valid r @ t) = (r, 3)"
proof -
  note s = split4096 [of r]
  have b: "r div 64 mod 64 < 64" "r mod 64 < 64" by simp_all
  have q: "r div 4096 < 16" using assms by simp
  have lo: "r div 4096 = 0 \<Longrightarrow> 32 \<le> r div 64 mod 64" using assms s b by linarith
  have hi: "r div 4096 = 13 \<Longrightarrow> r div 64 mod 64 < 32"
    using assms s b unfolding valid_rune_def by linarith
  show ?thesis
    using decode3_digits [OF q b lo hi, of t] s assms by (simp add: encode_valid_def)
qed

lemma decode_encode_4:
  assumes "0x10000 \<le> r" "r < 0x110000"
  shows "decode_rune (encode_valid r @ t) = (r, 4)"
proof -
  note s = split262144 [of r]
  have b: "r div 4096 mod 64 < 64" "r div 64 mod 64 < 64" "r mod 64 < 64" by simp_all
  have q: "r div 262144 < 5" using assms by simp
  have lo: "r div 262144 = 0 \<Longrightarrow> 16 \<le> r div 4096 mod 64" using assms s b by linarith
  have hi: "r div 262144 = 4 \<Longrightarrow> r div 4096 mod 64 < 16" using assms s b by linarith
  show ?thesis
    using decode4_digits [OF q b lo hi, of t] s assms by (simp add: encode_valid_def)
qed

lemma decode_encode_valid:
  assumes "valid_rune r"
  shows "decode_rune (encode_valid r @ t) = (r, length (encode_valid r))"
proof -
  consider "r < 0x80" | "0x80 \<le> r" "r < 0x800" | "0x800 \<le> r" "r < 0x10000"
    | "0x10000 \<le> r" "r < 0x110000"
    using assms unfolding valid_rune_def by linarith
  then show ?thesis
  proof cases
    case 1
    then show ?thesis by (simp add: encode_valid_def)
  next
    case 2
    then show ?thesis by (simp add: decode_encode_2) (simp add: encode_valid_def)
  next
    case 3
    then show ?thesis using assms by (simp add: decode_encode_3) (simp add: encode_valid_def)
  next
    case 4
    then show ?thesis by (simp add: decode_encode_4) (simp add: encode_valid_def)
  qed
qed

lemma encode_valid_not_Nil [simp]: "encode_valid r \<noteq> []"
  by (simp add: encode_valid_def)

lemma utf8_valid_encode [simp]: "utf8_valid (encode_rune r)"
proof -
  have *: "utf8_valid (encode_valid r)" if "valid_rune r" for r
    using decode_encode_valid [OF that, of "[]"]
    by (subst utf8_valid.simps) (auto simp: bad_rune_def encode_valid_def split: if_splits)
  show ?thesis
    using * [of r] * [of rune_error] by (simp add: encode_rune_def valid_rune_def)
qed

text \<open>A well-formed decoded prefix is the encoding of its rune, which is a valid rune.\<close>

lemma cont_digits:
  assumes "in_range lo hi c" "128 \<le> lo" "hi \<le> 191"
  shows "byte c = 128 + low6 c" and "low6 c < 64"
proof -
  obtain n where n: "byte c = 128 + n" "n < 64"
    using assms unfolding in_range_def by (intro that [of "byte c - 128"]) linarith+
  show "byte c = 128 + low6 c" "low6 c < 64"
    using n mod_digit [of n 64 2] by (simp_all add: low6_def)
qed


lemma char_of_byteI: "byte c = n \<Longrightarrow> char_of n = c"
  by (metis char_of_char)

lemma div_digit: "n < m \<Longrightarrow> (k * m + n) div m = (k::nat)"
  by simp

lemma encode2_digits:
  assumes "2 \<le> q" "q < 32" "q0 < 64"
  shows "encode_valid (q * 64 + q0) = [char_of (192 + q), char_of (128 + q0)]"
  using assms by (simp add: encode_valid_def)

lemma encode3_digits:
  assumes "q < 16" "q1 < 64" "q0 < 64" "q = 0 \<Longrightarrow> 32 \<le> q1"
  shows "encode_valid (q * 4096 + q1 * 64 + q0)
         = [char_of (224 + q), char_of (128 + q1), char_of (128 + q0)]"
proof -
  define r where "r = q * 4096 + q1 * 64 + q0"
  have r64: "r div 64 = q * 64 + q1"
    using div_digit [of q0 64 "q * 64 + q1"] assms by (simp add: r_def algebra_simps)
  have r4096: "r div 4096 = q"
    using div_digit [of "q1 * 64 + q0" 4096 q] assms by (simp add: r_def algebra_simps)
  have r0: "r mod 64 = q0"
    using mod_digit [of q0 64 "q * 64 + q1"] assms by (simp add: r_def algebra_simps)
  have "\<not> r < 2048" using assms unfolding r_def by (cases "q = 0") auto
  moreover have "r < 65536" using assms unfolding r_def by linarith
  moreover have "r div 64 mod 64 = q1" using r64 assms by simp
  ultimately show ?thesis
    unfolding r_def [symmetric] encode_valid_def by (simp add: r4096 r0)
qed

lemma encode4_digits:
  assumes "q < 5" "q2 < 64" "q1 < 64" "q0 < 64" "q = 0 \<Longrightarrow> 16 \<le> q2"
  shows "encode_valid (q * 262144 + q2 * 4096 + q1 * 64 + q0)
         = [char_of (240 + q), char_of (128 + q2), char_of (128 + q1), char_of (128 + q0)]"
proof -
  define r where "r = q * 262144 + q2 * 4096 + q1 * 64 + q0"
  have r64: "r div 64 = q * 4096 + q2 * 64 + q1"
    using div_digit [of q0 64 "q * 4096 + q2 * 64 + q1"] assms by (simp add: r_def algebra_simps)
  have r4096: "r div 4096 = q * 64 + q2"
    using div_digit [of "q1 * 64 + q0" 4096 "q * 64 + q2"] assms
    by (simp add: r_def algebra_simps)
  have rq: "r div 262144 = q"
    using div_digit [of "q2 * 4096 + q1 * 64 + q0" 262144 q] assms
    by (simp add: r_def algebra_simps)
  have r0: "r mod 64 = q0"
    using mod_digit [of q0 64 "q * 4096 + q2 * 64 + q1"] assms
    by (simp add: r_def algebra_simps)
  have "\<not> r < 65536" using assms unfolding r_def by (cases "q = 0") auto
  moreover have "r div 64 mod 64 = q1"
    using mod_digit [of q1 64 "q * 64 + q2"] assms by (simp add: r64 algebra_simps)
  moreover have "r div 4096 mod 64 = q2" using r4096 assms by simp
  ultimately show ?thesis
    unfolding r_def [symmetric] encode_valid_def by (simp add: rq r0)
qed

lemma decode2_encode:
  assumes "decode2 p s = Some d" "0xC2 \<le> p" "p < 0xE0" "byte a = p"
  shows "valid_rune (fst d) \<and> encode_valid (fst d) = take (snd d) (a # s)"
proof -
  obtain b u where s: "s = b # u" using assms(1) by (cases "(p, s)" rule: decode2.cases) auto
  define q where "q = p mod 32"
  from assms obtain k where k: "p = 192 + k" "2 \<le> k" "k < 32"
    by (intro that [of "p - 192"]) linarith+
  then have q: "q = k" using mod_digit [of k 32 6] by (simp add: q_def)
  have "in_range 0x80 0xBF b" using assms(1) s by (simp split: if_splits)
  note b = cont_digits [OF this]
  have "d = (q * 64 + low6 b, 2)" using assms(1) s by (simp add: q_def split: if_splits)
  then show ?thesis
    using b k q s assms char_of_byteI [of a "192 + q"] char_of_byteI [of b "128 + low6 b"]
    by (simp add: encode2_digits valid_rune_def)
qed


lemma decode3_encode:
  assumes "decode3 p s = Some d" "0xE0 \<le> p" "p < 0xF0" "byte a = p"
  shows "valid_rune (fst d) \<and> encode_valid (fst d) = take (snd d) (a # s)"
proof -
  obtain b c u where s: "s = b # c # u"
    using assms(1) by (cases "(p, s)" rule: decode3.cases) auto
  define q where "q = p mod 16"
  from assms obtain k where k: "p = 224 + k" "k < 16"
    by (intro that [of "p - 224"]) linarith+
  then have q: "q = k" using mod_digit [of k 16 14] by (simp add: q_def)
  have r: "in_range (if p = 0xE0 then 0xA0 else 0x80) (if p = 0xED then 0x9F else 0xBF) b"
      "in_range 0x80 0xBF c"
    using assms(1) s by (simp_all split: if_split_asm)
  note b = cont_digits [OF r(1)] and c = cont_digits [OF r(2)]
  have lo: "q = 0 \<Longrightarrow> 32 \<le> low6 b" and hi: "q = 13 \<Longrightarrow> low6 b < 32"
    using r(1) b k q by (auto simp: in_range_def split: if_split_asm)
  have d: "d = (q * 4096 + low6 b * 64 + low6 c, 3)"
    using assms(1) s r by (simp add: q_def)
  have len: "low6 b < 64" "low6 c < 64" using b c by (auto split: if_split_asm)
  have v: "valid_rune (q * 4096 + low6 b * 64 + low6 c)"
  proof -
    consider "q < 13" | "q = 13" | "14 \<le> q" by linarith
    then show ?thesis
      using hi len q k unfolding valid_rune_def by cases linarith+
  qed
  show ?thesis
    using b c k q s d v len lo assms char_of_byteI [of a "224 + q"]
      char_of_byteI [of b "128 + low6 b"] char_of_byteI [of c "128 + low6 c"]
    by (simp add: encode3_digits numeral_3_eq_3 split: if_split_asm)
qed

lemma decode4_encode:
  assumes "decode4 p s = Some d" "0xF0 \<le> p" "p < 0xF5" "byte a = p"
  shows "valid_rune (fst d) \<and> encode_valid (fst d) = take (snd d) (a # s)"
proof -
  obtain b c e u where s: "s = b # c # e # u"
    using assms(1) by (cases "(p, s)" rule: decode4.cases) auto
  define q where "q = p mod 8"
  from assms obtain k where k: "p = 240 + k" "k < 5"
    by (intro that [of "p - 240"]) linarith+
  then have q: "q = k" using mod_digit [of k 8 30] by (simp add: q_def)
  have r: "in_range (if p = 0xF0 then 0x90 else 0x80) (if p = 0xF4 then 0x8F else 0xBF) b"
      "in_range 0x80 0xBF c" "in_range 0x80 0xBF e"
    using assms(1) s by (simp_all split: if_split_asm)
  note b = cont_digits [OF r(1)] and c = cont_digits [OF r(2)] and e = cont_digits [OF r(3)]
  have lo: "q = 0 \<Longrightarrow> 16 \<le> low6 b" and hi: "q = 4 \<Longrightarrow> low6 b < 16"
    using r(1) b k q by (auto simp: in_range_def split: if_split_asm)
  have d: "d = (q * 262144 + low6 b * 4096 + low6 c * 64 + low6 e, 4)"
    using assms(1) s r by (simp add: q_def)
  have len: "low6 b < 64" "low6 c < 64" "low6 e < 64" using b c e by (auto split: if_split_asm)
  have v: "valid_rune (q * 262144 + low6 b * 4096 + low6 c * 64 + low6 e)"
  proof -
    consider "q = 0" | "0 < q" "q < 4" | "q = 4" using q k by linarith
    then show ?thesis
      using hi lo len unfolding valid_rune_def by cases linarith+
  qed
  show ?thesis
    using b c e k q s d v len lo assms char_of_byteI [of a "240 + q"]
      char_of_byteI [of b "128 + low6 b"] char_of_byteI [of c "128 + low6 c"]
      char_of_byteI [of e "128 + low6 e"]
    by (simp add: encode4_digits split: if_split_asm)
qed

lemma decode_rune_encode:
  assumes "s \<noteq> []" "\<not> bad_rune (decode_rune s)"
  shows "valid_rune (fst (decode_rune s))"
    and "encode_valid (fst (decode_rune s)) = take (snd (decode_rune s)) s"
proof -
  obtain a u where s: "s = a # u" using assms(1) by (cases s) auto
  have "valid_rune (fst (decode_rune s)) \<and>
    encode_valid (fst (decode_rune s)) = take (snd (decode_rune s)) s"
  proof (cases "byte a < 128")
    case True
    then show ?thesis by (simp add: s valid_rune_def encode_valid_def)
  next
    case False
    with assms s obtain d where d: "decode_multi (byte a) u = Some d"
      by (auto simp: bad_rune_def split: option.splits)
    then have "valid_rune (fst d) \<and> encode_valid (fst d) = take (snd d) (a # u)"
      using decode2_encode [of "byte a" u d a] decode3_encode [of "byte a" u d a]
        decode4_encode [of "byte a" u d a]
      by (simp add: decode_multi_def split: if_split_asm)
    with False d s show ?thesis by simp
  qed
  then show "valid_rune (fst (decode_rune s))"
    "encode_valid (fst (decode_rune s)) = take (snd (decode_rune s)) s" by blast+
qed

end
