(* ===== verification/Json_Scan.thy ===== *)
theory Json_Scan
  imports Utf8
begin

text \<open>
  The hand-written JSON scanner of \<open>rpc.go\<close> (lines 936 to 1217). Positions are indices
  into one buffer, as in the code; a scan that fails is \<open>None\<close> (the code returns an index
  with \<open>ok == false\<close>, and no caller reads that index).

  The lemmas show that a successful scan makes progress and stays inside the buffer, which
  gives the termination of the mutually recursive scanner, and that the scanner accepts
  exactly the grammar of RFC 8259 restricted to valid UTF-8 strings and to 128 levels of
  nesting.
\<close>

section \<open>White space\<close>

definition is_json_ws :: "char \<Rightarrow> bool" where
  "is_json_ws c \<longleftrightarrow> c = CHR '' '' \<or> c = CHR 0x0A \<or> c = CHR 0x0D \<or> c = CHR 0x09"

function skipJSONSpace :: "bytes \<Rightarrow> nat \<Rightarrow> nat" where
  "skipJSONSpace b i =
     (if i < length b \<and> is_json_ws (b ! i) then skipJSONSpace b (Suc i) else i)"
  by pat_completeness auto
termination by (relation "measure (\<lambda>(b, i). length b - i)") auto

declare skipJSONSpace.simps [simp del]

lemma skip_ge: "i \<le> skipJSONSpace b i"
  by (induction b i rule: skipJSONSpace.induct)
    (subst skipJSONSpace.simps, auto simp: Suc_le_eq)

lemma skip_le: "i \<le> length b \<Longrightarrow> skipJSONSpace b i \<le> length b"
  by (induction b i rule: skipJSONSpace.induct) (subst skipJSONSpace.simps, auto)

lemma skip_beyond: "length b \<le> i \<Longrightarrow> skipJSONSpace b i = i"
  by (subst skipJSONSpace.simps) simp

lemma skip_stop: "skipJSONSpace b i < length b \<Longrightarrow> \<not> is_json_ws (b ! skipJSONSpace b i)"
proof (induction b i rule: skipJSONSpace.induct)
  case (1 b i)
  then show ?case
    by (cases "i < length b \<and> is_json_ws (b ! i)") (simp_all add: skipJSONSpace.simps [of b i])
qed

text \<open>Skipping in a buffer that is split at the position: the white space of the rest.\<close>

lemma skip_append:
  "skipJSONSpace (p @ s) (length p)
   = length p + length (takeWhile is_json_ws s)"
proof (induction s arbitrary: p)
  case Nil
  then show ?case by (simp add: skip_beyond)
next
  case (Cons c s)
  show ?case
  proof (cases "is_json_ws c")
    case True
    then have "skipJSONSpace (p @ c # s) (length p) = skipJSONSpace ((p @ [c]) @ s) (length (p @ [c]))"
      by (subst skipJSONSpace.simps) simp
    with Cons.IH [of "p @ [c]"] True show ?thesis by simp
  qed (subst skipJSONSpace.simps, simp)
qed

function trim_end :: "bytes \<Rightarrow> nat \<Rightarrow> nat \<Rightarrow> nat" where
  "trim_end b start e =
     (if start < e \<and> is_json_ws (b ! (e - 1)) then trim_end b start (e - 1) else e)"
  by pat_completeness auto
termination by (relation "measure (\<lambda>(b, start, e). e)") auto

declare trim_end.simps [simp del]

definition trimJSONSpace :: "bytes \<Rightarrow> bytes" where
  "trimJSONSpace b =
     (let start = skipJSONSpace b 0 in slice b start (trim_end b start (length b)))"

lemma trim_end_le: "trim_end b st e \<le> e"
  by (induction b st e rule: trim_end.induct) (subst trim_end.simps, auto)

lemma trim_end_append:
  "trim_end (p @ s) (length p) (length p + length s)
   = length p + length (rev (dropWhile is_json_ws (rev s)))"
proof (induction s rule: rev_induct)
  case Nil
  then show ?case by (subst trim_end.simps) simp
next
  case (snoc c s)
  have ext: "trim_end (p @ s @ [c]) (length p) e = trim_end (p @ s) (length p) e"
    if "e \<le> length p + length s" for e
    using that
  proof (induction e)
    case (Suc e)
    then have "length p \<le> e \<Longrightarrow> e - length p < length s" by linarith
    with Suc show ?case
      by (subst (1 2) trim_end.simps) (auto simp: nth_append)
  qed (simp add: trim_end.simps)
  show ?case
    using snoc ext [of "length p + length s"]
    by (subst trim_end.simps) (simp add: nth_append)
qed

lemma trimJSONSpace_eq:
  "trimJSONSpace b = rev (dropWhile is_json_ws (rev (dropWhile is_json_ws b)))"
proof -
  obtain w s where w: "takeWhile is_json_ws b = w" and s: "dropWhile is_json_ws b = s"
    by blast
  have b: "b = w @ s" using takeWhile_dropWhile_id [of is_json_ws b] unfolding w s by simp
  have "skipJSONSpace b 0 = length w" using skip_append [of "[]" b] by (simp add: w)
  moreover have "trim_end b (length w) (length b)
      = length w + length (rev (dropWhile is_json_ws (rev s)))"
    using trim_end_append [of w s] by (simp add: b)
  moreover have "take (length (dropWhile is_json_ws (rev s))) s
      = rev (dropWhile is_json_ws (rev s))"
  proof -
    have "s = rev (dropWhile is_json_ws (rev s)) @ rev (takeWhile is_json_ws (rev s))"
      by (metis rev_append rev_rev_ident takeWhile_dropWhile_id)
    then show ?thesis by (metis append_eq_conv_conj length_rev)
  qed
  ultimately have "trimJSONSpace b = rev (dropWhile is_json_ws (rev s))"
    unfolding trimJSONSpace_def Let_def slice_def by (simp add: b)
  then show ?thesis by (simp only: s)
qed


lemma dropWhile_hd: "b \<noteq> [] \<Longrightarrow> \<not> P (hd b) \<Longrightarrow> dropWhile P b = b"
  by (cases b) simp_all

lemma trimJSONSpace_id:
  "b \<noteq> [] \<Longrightarrow> \<not> is_json_ws (hd b) \<Longrightarrow> \<not> is_json_ws (last b) \<Longrightarrow> trimJSONSpace b = b"
  by (simp add: trimJSONSpace_eq dropWhile_hd hd_rev)

section \<open>Strings\<close>

definition is_simple_escape :: "char \<Rightarrow> bool" where
  "is_simple_escape c \<longleftrightarrow>
     c = CHR 0x22 \<or> c = CHR 0x5C \<or> c = CHR ''/'' \<or> c = CHR ''b'' \<or> c = CHR ''f''
     \<or> c = CHR ''n'' \<or> c = CHR ''r'' \<or> c = CHR ''t''"

definition isJSONHex :: "char \<Rightarrow> bool" where
  "isJSONHex c \<longleftrightarrow>
     (48 \<le> byte c \<and> byte c \<le> 57) \<or> (97 \<le> byte c \<and> byte c \<le> 102)
     \<or> (65 \<le> byte c \<and> byte c \<le> 70)"

text \<open>The loop of \<open>scanJSONString\<close>; \<open>start\<close> is the index after the opening quote.\<close>

function scan_string_loop ::
  "bytes \<Rightarrow> nat \<Rightarrow> bool \<Rightarrow> nat \<Rightarrow> (bytes \<times> bool \<times> nat) option" where
  "scan_string_loop b start escaped i =
     (if length b \<le> i then None
      else if b ! i = CHR 0x5C then
        (if length b \<le> i + 1 then None
         else if is_simple_escape (b ! (i + 1)) then scan_string_loop b start True (i + 2)
         else if b ! (i + 1) = CHR ''u'' then
           (if length b \<le> i + 5 then None
            else if isJSONHex (b ! (i + 2)) \<and> isJSONHex (b ! (i + 3))
                 \<and> isJSONHex (b ! (i + 4)) \<and> isJSONHex (b ! (i + 5))
            then scan_string_loop b start True (i + 6)
            else None)
         else None)
      else if b ! i = CHR 0x22 then
        (if utf8_valid (slice b start i) then Some (slice b start i, escaped, i + 1) else None)
      else if byte (b ! i) < 32 then None
      else scan_string_loop b start escaped (i + 1))"
  by pat_completeness auto
termination by (relation "measure (\<lambda>(b, start, escaped, i). length b - i)") auto

declare scan_string_loop.simps [simp del]

definition scanJSONString :: "bytes \<Rightarrow> nat \<Rightarrow> (bytes \<times> bool \<times> nat) option" where
  "scanJSONString b i =
     (if length b \<le> i \<or> b ! i \<noteq> CHR 0x22 then None
      else scan_string_loop b (i + 1) False (i + 1))"

text \<open>The text between the quotes, by the grammar.\<close>

inductive string_body :: "bytes \<Rightarrow> bool" where
  body_nil: "string_body []"
| body_char: "\<lbrakk>32 \<le> byte c; c \<noteq> CHR 0x22; c \<noteq> CHR 0x5C; string_body s\<rbrakk> \<Longrightarrow> string_body (c # s)"
| body_escape: "\<lbrakk>is_simple_escape e; string_body s\<rbrakk> \<Longrightarrow> string_body (CHR 0x5C # e # s)"
| body_unicode: "\<lbrakk>isJSONHex h1; isJSONHex h2; isJSONHex h3; isJSONHex h4; string_body s\<rbrakk>
    \<Longrightarrow> string_body (CHR 0x5C # CHR ''u'' # h1 # h2 # h3 # h4 # s)"

lemma not_simple_u [simp]: "\<not> is_simple_escape CHR ''u''"
  by (simp add: is_simple_escape_def)

lemma scan_string_loop_complete:
  assumes "string_body s" "utf8_valid (drop st p @ s)" "st \<le> length p"
  shows "scan_string_loop (p @ s @ CHR 0x22 # t) st e (length p)
    = Some (drop st p @ s, e \<or> CHR 0x5C \<in> set s, length p + length s + 1)"
  using assms
proof (induction s arbitrary: p e rule: string_body.induct)
  case body_nil
  then show ?case by (subst scan_string_loop.simps) (simp add: slice_def)
next
  case (body_char c s)
  have "scan_string_loop (p @ (c # s) @ CHR 0x22 # t) st e (length p)
      = scan_string_loop ((p @ [c]) @ s @ CHR 0x22 # t) st e (length (p @ [c]))"
    using body_char.hyps by (subst scan_string_loop.simps) simp
  with body_char.IH [of "p @ [c]" e] body_char.prems body_char.hyps show ?case by auto
next
  case (body_escape x s)
  have "scan_string_loop (p @ (CHR 0x5C # x # s) @ CHR 0x22 # t) st e (length p)
      = scan_string_loop ((p @ [CHR 0x5C, x]) @ s @ CHR 0x22 # t) st True (length (p @ [CHR 0x5C, x]))"
    using body_escape.hyps by (subst scan_string_loop.simps) (simp add: nth_append)
  with body_escape.IH [of "p @ [CHR 0x5C, x]" True] body_escape.prems show ?case by simp
next
  case (body_unicode h1 h2 h3 h4 s)
  let ?q = "p @ [CHR 0x5C, CHR ''u'', h1, h2, h3, h4]"
  have "scan_string_loop (p @ (CHR 0x5C # CHR ''u'' # h1 # h2 # h3 # h4 # s) @ CHR 0x22 # t) st e
        (length p)
      = scan_string_loop (?q @ s @ CHR 0x22 # t) st True (length ?q)"
    using body_unicode.hyps
    by (subst scan_string_loop.simps) (simp add: nth_append eval_nat_numeral)
  with body_unicode.IH [of ?q True] body_unicode.prems show ?case by simp
qed

lemma scanJSONString_complete:
  assumes "string_body s" "utf8_valid s"
  shows "scanJSONString (p @ CHR 0x22 # s @ CHR 0x22 # t) (length p)
    = Some (s, CHR 0x5C \<in> set s, length p + length s + 2)"
  using scan_string_loop_complete [OF assms(1), of "length p + 1" "p @ [CHR 0x22]" t False] assms
  by (simp add: scanJSONString_def)


lemma slice_Cons2:
  "i + 1 < j \<Longrightarrow> j \<le> length b \<Longrightarrow> slice b i j = b ! i # b ! (i + 1) # slice b (i + 2) j"
  by (simp add: slice_Cons)

lemma slice_Cons6:
  "i + 5 < j \<Longrightarrow> j \<le> length b \<Longrightarrow>
   slice b i j = b ! i # b ! (i + 1) # b ! (i + 2) # b ! (i + 3) # b ! (i + 4) # b ! (i + 5)
     # slice b (i + 6) j"
  by (simp add: slice_Cons eval_nat_numeral)

lemma scan_string_loop_sound:
  assumes "scan_string_loop b st e i = Some (raw, esc, n)"
  shows "\<exists>j. n = j + 1 \<and> i \<le> j \<and> j < length b \<and> b ! j = CHR 0x22 \<and> raw = slice b st j
    \<and> utf8_valid raw \<and> string_body (slice b i j)
    \<and> esc = (e \<or> CHR 0x5C \<in> set (slice b i j))"
  using assms
proof (induction b st e i rule: scan_string_loop.induct)
  case (1 b st e i)
  have lt: "i < length b"
    using 1(4) by (subst (asm) scan_string_loop.simps) (simp split: if_splits)
  consider (esc) "b ! i = CHR 0x5C" | (quote) "b ! i = CHR 0x22"
    | (chr) "b ! i \<noteq> CHR 0x5C" "b ! i \<noteq> CHR 0x22" by blast
  then show ?case
  proof cases
    case quote
    then show ?thesis
      using 1(4) lt by (subst (asm) scan_string_loop.simps) (auto split: if_splits intro: body_nil)
  next
    case chr
    then have *: "\<not> byte (b ! i) < 32" "scan_string_loop b st e (i + 1) = Some (raw, esc, n)"
      using 1(4) lt by (subst (asm) scan_string_loop.simps, simp split: if_splits)+
    from 1(3) [OF _ chr *] lt obtain j where j: "n = j + 1" "i + 1 \<le> j" "j < length b"
      "b ! j = CHR 0x22" "raw = slice b st j" "utf8_valid raw" "string_body (slice b (i + 1) j)"
      "esc = (e \<or> CHR 0x5C \<in> set (slice b (i + 1) j))" by auto
    moreover have "slice b i j = b ! i # slice b (i + 1) j"
      using j by (simp add: slice_Cons)
    ultimately show ?thesis
      using * chr by (auto intro!: exI [of _ j] body_char)
  next
    case esc
    show ?thesis
    proof (cases "is_simple_escape (b ! (i + 1))")
      case True
      then have *: "\<not> length b \<le> i + 1" "scan_string_loop b st True (i + 2) = Some (raw, esc, n)"
        using 1(4) esc lt by (subst (asm) scan_string_loop.simps, simp split: if_splits)+
      from 1(1) [OF _ esc *(1) True *(2)] lt obtain j where j: "n = j + 1" "i + 2 \<le> j"
        "j < length b" "b ! j = CHR 0x22" "raw = slice b st j" "utf8_valid raw"
        "string_body (slice b (i + 2) j)" "esc = (True \<or> CHR 0x5C \<in> set (slice b (i + 2) j))"
        by auto
      moreover have "slice b i j = b ! i # b ! (i + 1) # slice b (i + 2) j"
        using j by (intro slice_Cons2) simp_all
      ultimately show ?thesis
        using True esc by (auto intro!: exI [of _ j] body_escape)
    next
      case False
      then have *: "\<not> length b \<le> i + 1" "b ! (i + 1) = CHR ''u''" "\<not> length b \<le> i + 5"
        "isJSONHex (b ! (i + 2)) \<and> isJSONHex (b ! (i + 3))
          \<and> isJSONHex (b ! (i + 4)) \<and> isJSONHex (b ! (i + 5))"
        "scan_string_loop b st True (i + 6) = Some (raw, esc, n)"
        using 1(4) esc lt by (subst (asm) scan_string_loop.simps, simp split: if_splits)+
      from 1(2) [OF _ esc *(1) False *(2-5)] lt obtain j where j: "n = j + 1" "i + 6 \<le> j"
        "j < length b" "b ! j = CHR 0x22" "raw = slice b st j" "utf8_valid raw"
        "string_body (slice b (i + 6) j)" "esc = (True \<or> CHR 0x5C \<in> set (slice b (i + 6) j))"
        by auto
      moreover have "slice b i j = b ! i # b ! (i + 1) # b ! (i + 2) # b ! (i + 3) # b ! (i + 4)
          # b ! (i + 5) # slice b (i + 6) j"
        using j by (intro slice_Cons6) simp_all
      ultimately show ?thesis
        using * esc by (auto intro!: exI [of _ j] body_unicode)
    qed
  qed
qed

lemma scanJSONString_sound:
  assumes "scanJSONString b i = Some (raw, esc, n)"
  shows "n = i + length raw + 2" "n \<le> length b"
    "slice b i n = CHR 0x22 # raw @ [CHR 0x22]"
    "string_body raw" "utf8_valid raw" "esc \<longleftrightarrow> CHR 0x5C \<in> set raw"
proof -
  have i: "i < length b" "b ! i = CHR 0x22"
    and l: "scan_string_loop b (i + 1) False (i + 1) = Some (raw, esc, n)"
    using assms by (simp_all add: scanJSONString_def split: if_splits)
  from scan_string_loop_sound [OF l] obtain j where j: "n = j + 1" "i + 1 \<le> j" "j < length b"
    "b ! j = CHR 0x22" "raw = slice b (i + 1) j" "utf8_valid raw" "string_body raw"
    "esc \<longleftrightarrow> CHR 0x5C \<in> set raw" by auto
  show "n = i + length raw + 2" "n \<le> length b" "string_body raw" "utf8_valid raw"
    "esc \<longleftrightarrow> CHR 0x5C \<in> set raw" using j by simp_all
  show "slice b i n = CHR 0x22 # raw @ [CHR 0x22]"
    using i j slice_Cons [of i n b] slice_snoc [of "i + 1" j b] by simp
qed


section \<open>Literals and numbers\<close>

definition is_digit :: "char \<Rightarrow> bool" where
  "is_digit c \<longleftrightarrow> 48 \<le> byte c \<and> byte c \<le> 57"

function scan_digits :: "bytes \<Rightarrow> nat \<Rightarrow> nat" where
  "scan_digits v i = (if i < length v \<and> is_digit (v ! i) then scan_digits v (Suc i) else i)"
  by pat_completeness auto
termination by (relation "measure (\<lambda>(v, i). length v - i)") auto

declare scan_digits.simps [simp del]

text \<open>The three steps of \<open>isValidJSONNumber\<close>: integer part, fraction, exponent.\<close>

definition number_int :: "bytes \<Rightarrow> nat \<Rightarrow> nat option" where
  "number_int v i =
     (if v ! i = CHR ''0'' then Some (i + 1)
      else if 49 \<le> byte (v ! i) \<and> byte (v ! i) \<le> 57 then Some (scan_digits v i)
      else None)"

definition number_frac :: "bytes \<Rightarrow> nat \<Rightarrow> nat option" where
  "number_frac v i =
     (if i < length v \<and> v ! i = CHR ''.'' then
        (let j = scan_digits v (i + 1) in if j = i + 1 then None else Some j)
      else Some i)"

definition number_exp :: "bytes \<Rightarrow> nat \<Rightarrow> nat option" where
  "number_exp v i =
     (if i < length v \<and> (v ! i = CHR ''e'' \<or> v ! i = CHR ''E'') then
        (let k = (if i + 1 < length v \<and> (v ! (i + 1) = CHR ''+'' \<or> v ! (i + 1) = CHR ''-'')
                  then i + 2 else i + 1);
             j = scan_digits v k
         in if j = k then None else Some j)
      else Some i)"

text \<open>The callers never pass an empty value, on which the code would index out of range.\<close>

definition isValidJSONNumber :: "bytes \<Rightarrow> bool" where
  "isValidJSONNumber v =
     (if v = [] then False
      else
       (let i = (if v ! 0 = CHR ''-'' then 1 else 0) in
        if i = length v then False
        else case number_int v i of
               None \<Rightarrow> False
             | Some j \<Rightarrow>
                (case number_frac v j of
                   None \<Rightarrow> False
                 | Some k \<Rightarrow>
                    (case number_exp v k of None \<Rightarrow> False | Some l \<Rightarrow> l = length v))))"

definition isValidJSONLiteral :: "bytes \<Rightarrow> bool" where
  "isValidJSONLiteral v \<longleftrightarrow>
     v \<noteq> [] \<and> (v = ''true'' \<or> v = ''false'' \<or> v = ''null'' \<or> isValidJSONNumber v)"

definition is_delim :: "char \<Rightarrow> bool" where
  "is_delim c \<longleftrightarrow> c = CHR '','' \<or> c = CHR ''}'' \<or> c = CHR '']'' \<or> is_json_ws c"

function literal_end :: "bytes \<Rightarrow> nat \<Rightarrow> nat" where
  "literal_end b i = (if i < length b \<and> \<not> is_delim (b ! i) then literal_end b (Suc i) else i)"
  by pat_completeness auto
termination by (relation "measure (\<lambda>(b, i). length b - i)") auto

declare literal_end.simps [simp del]

definition scanJSONLiteral :: "bytes \<Rightarrow> nat \<Rightarrow> nat option" where
  "scanJSONLiteral b i =
     (let j = literal_end b i in if isValidJSONLiteral (slice b i j) then Some j else None)"

lemma literal_end_append:
  "literal_end (p @ s) (length p) = length p + length (takeWhile (\<lambda>c. \<not> is_delim c) s)"
proof (induction s arbitrary: p)
  case Nil
  then show ?case by (subst literal_end.simps) simp
next
  case (Cons c s)
  show ?case
  proof (cases "is_delim c")
    case False
    then have "literal_end (p @ c # s) (length p) = literal_end ((p @ [c]) @ s) (length (p @ [c]))"
      by (subst literal_end.simps) simp
    with Cons.IH [of "p @ [c]"] False show ?thesis by simp
  qed (subst literal_end.simps, simp)
qed

lemma literal_end_le: "i \<le> length b \<Longrightarrow> literal_end b i \<le> length b"
  by (induction b i rule: literal_end.induct) (subst literal_end.simps, auto)

lemma scanJSONLiteral_sound:
  assumes "scanJSONLiteral b i = Some n" "i \<le> length b"
  shows "i < n" "n \<le> length b" "isValidJSONLiteral (slice b i n)"
proof -
  have n: "n = literal_end b i" and v: "isValidJSONLiteral (slice b i n)"
    using assms by (auto simp: scanJSONLiteral_def Let_def split: if_splits)
  then show "isValidJSONLiteral (slice b i n)" "n \<le> length b"
    using literal_end_le assms by auto
  have "slice b i n \<noteq> []" using v by (auto simp: isValidJSONLiteral_def)
  then show "i < n" by (cases "i < n") (simp_all add: slice_def)
qed

lemma scan_digits_append:
  "scan_digits (p @ s) (length p) = length p + length (takeWhile is_digit s)"
proof (induction s arbitrary: p)
  case Nil
  then show ?case by (subst scan_digits.simps) simp
next
  case (Cons c s)
  show ?case
  proof (cases "is_digit c")
    case True
    then have "scan_digits (p @ c # s) (length p) = scan_digits ((p @ [c]) @ s) (length (p @ [c]))"
      by (subst scan_digits.simps) simp
    with Cons.IH [of "p @ [c]"] True show ?thesis by simp
  qed (subst scan_digits.simps, simp)
qed


text \<open>The number grammar of RFC 8259, section 6.\<close>

definition digits :: "bytes \<Rightarrow> bool" where
  "digits ds \<longleftrightarrow> ds \<noteq> [] \<and> (\<forall>c \<in> set ds. is_digit c)"

definition json_int :: "bytes \<Rightarrow> bool" where
  "json_int s \<longleftrightarrow> s = ''0'' \<or> (digits s \<and> hd s \<noteq> CHR ''0'')"

definition json_frac :: "bytes \<Rightarrow> bool" where
  "json_frac s \<longleftrightarrow> s = [] \<or> (\<exists>ds. s = CHR ''.'' # ds \<and> digits ds)"

definition json_exp :: "bytes \<Rightarrow> bool" where
  "json_exp s \<longleftrightarrow> s = [] \<or>
     (\<exists>x sg ds. s = x # sg @ ds \<and> x \<in> {CHR ''e'', CHR ''E''} \<and> sg \<in> {[], ''+'', ''-''} \<and> digits ds)"

definition json_number :: "bytes \<Rightarrow> bool" where
  "json_number v \<longleftrightarrow>
     (\<exists>sg i f e. v = sg @ i @ f @ e \<and> sg \<in> {[], ''-''} \<and> json_int i \<and> json_frac f \<and> json_exp e)"

definition starts_digit :: "bytes \<Rightarrow> bool" where
  "starts_digit s \<longleftrightarrow> s \<noteq> [] \<and> is_digit (hd s)"

lemma takeWhile_digits:
  "digits ds \<Longrightarrow> \<not> starts_digit r \<Longrightarrow> takeWhile is_digit (ds @ r) = ds"
  by (cases r) (auto simp: digits_def starts_digit_def takeWhile_append)

lemma digits_takeWhile: "takeWhile is_digit s \<noteq> [] \<Longrightarrow> digits (takeWhile is_digit s)"
  by (auto simp: digits_def dest: set_takeWhileD)

lemma scan_digits_some:
  "digits ds \<Longrightarrow> \<not> starts_digit r \<Longrightarrow>
   scan_digits (p @ ds @ r) (length p) = length p + length ds"
  by (simp add: scan_digits_append takeWhile_digits)

lemma scan_digits_split:
  obtains ds r where "s = ds @ r" "\<not> starts_digit r" "ds = [] \<or> digits ds"
    "scan_digits (p @ s) (length p) = length p + length ds"
proof
  show "s = takeWhile is_digit s @ dropWhile is_digit s" by simp
  show "\<not> starts_digit (dropWhile is_digit s)"
    by (metis hd_dropWhile starts_digit_def)
  show "takeWhile is_digit s = [] \<or> digits (takeWhile is_digit s)"
    using digits_takeWhile by blast
qed (rule scan_digits_append)

lemma digit_nonzero_iff: "49 \<le> byte c \<and> byte c \<le> 57 \<longleftrightarrow> is_digit c \<and> c \<noteq> CHR ''0''"
proof -
  have "byte c = 48 \<longleftrightarrow> c = CHR ''0''"
    using of_char_eq_iff [of c "CHR ''0''", where 'a = nat] by simp
  then show ?thesis by (auto simp: is_digit_def)
qed


lemma number_int_complete:
  assumes "json_int d" "\<not> starts_digit r"
  shows "number_int (p @ d @ r) (length p) = Some (length p + length d)"
proof (cases "d = ''0''")
  case True
  then show ?thesis by (simp add: number_int_def nth_append)
next
  case False
  with assms have d: "digits d" "hd d \<noteq> CHR ''0''" by (auto simp: json_int_def)
  then obtain c u where c: "d = c # u" "is_digit c" "c \<noteq> CHR ''0''"
    by (cases d) (auto simp: digits_def)
  then show ?thesis
    using scan_digits_some [OF d(1) assms(2), of p] digit_nonzero_iff [of c]
    by (simp add: number_int_def)
qed

lemma number_int_sound:
  assumes "number_int (p @ s) (length p) = Some j" "s \<noteq> []"
  obtains d r where "s = d @ r" "json_int d" "j = length (p @ d)"
proof -
  obtain c u where s: "s = c # u" using assms(2) by (cases s) auto
  show thesis
  proof (cases "c = CHR ''0''")
    case True
    then show thesis using assms s that [of "''0''" u]
      by (simp add: number_int_def json_int_def)
  next
    case False
    then have c: "is_digit c" "j = scan_digits (p @ s) (length p)"
      using assms s digit_nonzero_iff [of c] by (auto simp: number_int_def split: if_splits)
    have "takeWhile is_digit s \<noteq> []" using c s by simp
    then have "digits (takeWhile is_digit s)" by (rule digits_takeWhile)
    then show thesis
      using that [of "takeWhile is_digit s" "dropWhile is_digit s"] c s False
      by (simp add: scan_digits_append json_int_def)
  qed
qed

lemma number_frac_complete:
  assumes "json_frac d" "\<not> starts_digit r" "d = [] \<Longrightarrow> r = [] \<or> hd r \<noteq> CHR ''.''"
  shows "number_frac (p @ d @ r) (length p) = Some (length p + length d)"
proof (cases "d = []")
  case True
  then show ?thesis using assms by (cases r) (auto simp: number_frac_def)
next
  case False
  with assms obtain ds where d: "d = CHR ''.'' # ds" "digits ds" by (auto simp: json_frac_def)
  then have "ds \<noteq> []" by (simp add: digits_def)
  then show ?thesis
    using scan_digits_some [OF d(2) assms(2), of "p @ ''.''"] d
    by (simp add: number_frac_def Let_def)
qed

lemma number_frac_sound:
  assumes "number_frac (p @ s) (length p) = Some j"
  obtains d r where "s = d @ r" "json_frac d" "j = length (p @ d)"
proof (cases "s \<noteq> [] \<and> hd s = CHR ''.''")
  case True
  then obtain u where s: "s = CHR ''.'' # u" by (cases s) auto
  obtain ds r where u: "u = ds @ r" "ds = [] \<or> digits ds"
    "scan_digits ((p @ ''.'') @ u) (length (p @ ''.'')) = length (p @ ''.'') + length ds"
    by (rule scan_digits_split)
  then have "digits ds" "j = length p + 1 + length ds"
    using assms s by (auto simp: number_frac_def Let_def split: if_splits)
  with u s show thesis
    by (intro that [of "CHR ''.'' # ds" r]) (simp_all add: json_frac_def)
next
  case False
  then have "j = length p"
    using assms by (cases s) (simp_all add: number_frac_def)
  then show thesis by (intro that [of "[]" s]) (simp_all add: json_frac_def)
qed

lemma number_exp_complete:
  assumes "json_exp d"
  shows "number_exp (p @ d) (length p) = Some (length p + length d)"
proof (cases "d = []")
  case True
  then show ?thesis by (simp add: number_exp_def)
next
  case False
  with assms obtain x sg ds where d: "d = x # sg @ ds" "x \<in> {CHR ''e'', CHR ''E''}"
    "sg \<in> {[], ''+'', ''-''}" "digits ds" by (auto simp: json_exp_def)
  obtain c u where c: "ds = c # u" "is_digit c" using d(4) by (cases ds) (auto simp: digits_def)
  then have "c \<noteq> CHR ''+''" "c \<noteq> CHR ''-''" by (auto simp: is_digit_def)
  moreover have "scan_digits ((p @ x # sg) @ ds @ []) (length (p @ x # sg))
      = length (p @ x # sg) + length ds"
    by (rule scan_digits_some [OF d(4)]) (simp add: starts_digit_def)
  ultimately show ?thesis
    using d c by (auto simp: number_exp_def Let_def nth_append)
qed


lemma number_exp_sound:
  assumes "number_exp (p @ s) (length p) = Some (length p + length s)"
  shows "json_exp s"
proof (cases "s \<noteq> [] \<and> hd s \<in> {CHR ''e'', CHR ''E''}")
  case False
  then show ?thesis
    using assms by (cases s) (auto simp: number_exp_def json_exp_def split: if_splits)
next
  case True
  then obtain x u where s: "s = x # u" "x \<in> {CHR ''e'', CHR ''E''}" by (cases s) auto
  define sg where "sg = (if u \<noteq> [] \<and> hd u \<in> {CHR ''+'', CHR ''-''} then [hd u] else [])"
  have u: "u = sg @ drop (length sg) u" by (cases u) (auto simp: sg_def)
  then obtain w where u: "u = sg @ w" by blast
  let ?q = "p @ x # sg"
  have k: "(if length p + 1 < length (p @ s) \<and> ((p @ s) ! (length p + 1) = CHR ''+''
      \<or> (p @ s) ! (length p + 1) = CHR ''-'') then length p + 2 else length p + 1) = length ?q"
    using s by (cases u) (auto simp: sg_def nth_append)
  have q: "p @ s = ?q @ w" using s u by simp
  obtain ds r where w: "w = ds @ r" "ds = [] \<or> digits ds"
    "scan_digits (?q @ w) (length ?q) = length ?q + length ds"
    by (rule scan_digits_split)
  have "number_exp (p @ s) (length p)
      = (if scan_digits (p @ s) (length ?q) = length ?q then None
         else Some (scan_digits (p @ s) (length ?q)))"
    using s(2) unfolding number_exp_def k Let_def by (simp add: s(1))
  then have "ds \<noteq> []" "length ?q + length ds = length p + length s"
    using assms w(3) unfolding q [symmetric] by (auto split: if_splits)
  then have "r = []" "digits ds" using w(1,2) s u by auto
  then have "s = x # sg @ ds" using s u w by simp
  moreover have "sg \<in> {[], ''+'', ''-''}" by (auto simp: sg_def)
  ultimately show ?thesis using s(2) \<open>digits ds\<close> unfolding json_exp_def by blast
qed

lemma json_int_Cons: "json_int i \<Longrightarrow> i \<noteq> [] \<and> hd i \<noteq> CHR ''-''"
  by (cases i) (auto simp: json_int_def digits_def is_digit_def)

lemma json_frac_starts: "json_frac f \<Longrightarrow> json_exp e \<Longrightarrow> \<not> starts_digit (f @ e)"
  by (auto simp: json_frac_def json_exp_def starts_digit_def is_digit_def)

lemma json_exp_starts: "json_exp e \<Longrightarrow> \<not> starts_digit e \<and> (e = [] \<or> hd e \<noteq> CHR ''.'')"
  by (auto simp: json_exp_def starts_digit_def is_digit_def)

lemma number_sign:
  assumes "v \<noteq> []"
  shows "\<exists>sg w. v = sg @ w \<and> sg \<in> {[], ''-''}
    \<and> (if v ! 0 = CHR ''-'' then 1 else 0) = length sg"
proof -
  obtain c u where v: "v = c # u" using assms by (cases v) auto
  show ?thesis
  proof (cases "c = CHR ''-''")
    case True
    then show ?thesis by (intro exI [of _ "''-''"] exI [of _ u]) (simp add: v)
  next
    case False
    then show ?thesis by (intro exI [of _ "[]"] exI [of _ v]) (simp add: v)
  qed
qed

text \<open>The index arithmetic of the code accepts the grammar's numbers and nothing else.\<close>

lemma isValidJSONNumber_iff: "isValidJSONNumber v \<longleftrightarrow> json_number v"
proof
  assume v: "isValidJSONNumber v"
  then have ne: "v \<noteq> []" by (auto simp: isValidJSONNumber_def)
  obtain sg w where sg: "v = sg @ w" "sg \<in> {[], ''-''}"
    "(if v ! 0 = CHR ''-'' then 1 else 0) = length sg"
    using number_sign [OF ne] by blast
  from v ne obtain j k where j: "number_int v (length sg) = Some j" "length sg \<noteq> length v"
    and k: "number_frac v j = Some k" and l: "number_exp v k = Some (length v)"
    unfolding isValidJSONNumber_def Let_def sg(3) by (auto split: if_splits option.splits)
  have "w \<noteq> []" using j(2) sg(1) by auto
  with j(1) obtain d r where d: "w = d @ r" "json_int d" "j = length (sg @ d)"
    unfolding sg(1) by (rule number_int_sound)
  have "v = (sg @ d) @ r" using sg d by simp
  with k d(3) obtain f e where f: "r = f @ e" "json_frac f" "k = length ((sg @ d) @ f)"
    by (metis number_frac_sound)
  have "v = (sg @ d @ f) @ e" using sg d f by simp
  with l f(3) have "json_exp e" by (metis append.assoc length_append number_exp_sound)
  with sg d f show "json_number v" unfolding json_number_def by blast
next
  assume "json_number v"
  then obtain sg i f e where v: "v = sg @ i @ f @ e" "sg \<in> {[], ''-''}" "json_int i"
    "json_frac f" "json_exp e" unfolding json_number_def by blast
  have ne: "v \<noteq> []" "length sg \<noteq> length v" using json_int_Cons [OF v(3)] v(1) by auto
  have sg: "(if v ! 0 = CHR ''-'' then 1 else 0) = length sg"
    using v json_int_Cons [OF v(3)] by (cases i) auto
  have 1: "number_int v (length sg) = Some (length (sg @ i))"
    using number_int_complete [OF v(3) json_frac_starts [OF v(4,5)], of sg] v(1) by simp
  have 2: "number_frac v (length (sg @ i)) = Some (length (sg @ i @ f))"
    using number_frac_complete [OF v(4), of e "sg @ i"] json_exp_starts [OF v(5)] v(1) by simp
  have 3: "number_exp v (length (sg @ i @ f)) = Some (length v)"
    using number_exp_complete [OF v(5), of "sg @ i @ f"] v(1) by simp
  show "isValidJSONNumber v"
    unfolding isValidJSONNumber_def Let_def sg using ne 1 2 3 by simp
qed


section \<open>Values\<close>

definition maxRPCScanDepth :: nat where
  "maxRPCScanDepth = 128"

text \<open>
  \<open>scanJSONValueDepth\<close>, \<open>scanJSONObject\<close> and \<open>scanJSONArray\<close>; the \<open>for\<close> loops of the
  last two are \<open>scan_members\<close> and \<open>scan_elements\<close>.
\<close>

function (sequential) scan_value :: "bytes \<Rightarrow> nat \<Rightarrow> nat \<Rightarrow> nat option"
  and scan_object :: "bytes \<Rightarrow> nat \<Rightarrow> nat \<Rightarrow> nat option"
  and scan_members :: "bytes \<Rightarrow> nat \<Rightarrow> nat \<Rightarrow> nat option"
  and scan_array :: "bytes \<Rightarrow> nat \<Rightarrow> nat \<Rightarrow> nat option"
  and scan_elements :: "bytes \<Rightarrow> nat \<Rightarrow> nat \<Rightarrow> nat option" where
  "scan_value b i depth =
     (let i = skipJSONSpace b i in
      if length b \<le> i then None
      else if b ! i = CHR 0x22 then map_option (\<lambda>(raw, escaped, n). n) (scanJSONString b i)
      else if b ! i = CHR ''{'' then scan_object b i (depth + 1)
      else if b ! i = CHR ''['' then scan_array b i (depth + 1)
      else scanJSONLiteral b i)"
| "scan_object b i depth =
     (if maxRPCScanDepth < depth then None
      else let i = skipJSONSpace b (i + 1) in
        if i < length b \<and> b ! i = CHR ''}'' then Some (i + 1) else scan_members b i depth)"
| "scan_members b i depth =
     (case scanJSONString b i of
        None \<Rightarrow> None
      | Some (raw, escaped, n) \<Rightarrow>
         (let j = skipJSONSpace b n in
          if length b \<le> j then None
          else if b ! j \<noteq> CHR '':'' then None
          else case scan_value b (j + 1) depth of
                 None \<Rightarrow> None
               | Some n \<Rightarrow>
                  (let k = skipJSONSpace b n in
                   if length b \<le> k then None
                   else if b ! k = CHR '','' then scan_members b (skipJSONSpace b (k + 1)) depth
                   else if b ! k = CHR ''}'' then Some (k + 1)
                   else None)))"
| "scan_array b i depth =
     (if maxRPCScanDepth < depth then None
      else let i = skipJSONSpace b (i + 1) in
        if i < length b \<and> b ! i = CHR '']'' then Some (i + 1) else scan_elements b i depth)"
| "scan_elements b i depth =
     (case scan_value b i depth of
        None \<Rightarrow> None
      | Some n \<Rightarrow>
         (let k = skipJSONSpace b n in
          if length b \<le> k then None
          else if b ! k = CHR '','' then scan_elements b (skipJSONSpace b (k + 1)) depth
          else if b ! k = CHR '']'' then Some (k + 1)
          else None))"
  by pat_completeness auto


lemma scanJSONString_progress: "scanJSONString b i = Some (raw, e, n) \<Longrightarrow> i < n \<and> n \<le> length b"
  using scanJSONString_sound(1,2) [of b i raw e n] by simp

text \<open>
  Progress on the domain of the recursion: what a scanner returns is past where it started
  and inside the buffer. Termination needs it, because the loops recurse on the index that
  the nested call returned.
\<close>

lemma scan_progress_dom:
  "scan_value_scan_object_scan_members_scan_array_scan_elements_dom (Inl (Inl (b, i, d)))
     \<Longrightarrow> scan_value b i d = Some n \<Longrightarrow> i < n \<and> n \<le> length b"
  "scan_value_scan_object_scan_members_scan_array_scan_elements_dom (Inl (Inr (b, i, d)))
     \<Longrightarrow> scan_object b i d = Some n \<Longrightarrow> i < n \<and> n \<le> length b"
  "scan_value_scan_object_scan_members_scan_array_scan_elements_dom (Inr (Inl (b, i, d)))
     \<Longrightarrow> scan_members b i d = Some n \<Longrightarrow> i < n \<and> n \<le> length b"
  "scan_value_scan_object_scan_members_scan_array_scan_elements_dom (Inr (Inr (Inl (b, i, d))))
     \<Longrightarrow> scan_array b i d = Some n \<Longrightarrow> i < n \<and> n \<le> length b"
  "scan_value_scan_object_scan_members_scan_array_scan_elements_dom (Inr (Inr (Inr (b, i, d))))
     \<Longrightarrow> scan_elements b i d = Some n \<Longrightarrow> i < n \<and> n \<le> length b"
proof (induction b i d and b i d and b i d and b i d and b i d arbitrary: n and n and n and n and n
    rule: scan_value_scan_object_scan_members_scan_array_scan_elements.pinduct)
  case (1 b i d)
  then show ?case
    using skip_ge [of i b] scanJSONLiteral_sound(1,2) [of b "skipJSONSpace b i" n]
    by (auto simp: scan_value.psimps Let_def split: if_split_asm
        dest!: scanJSONString_progress intro: le_less_trans)
next
  case (2 b i d)
  then show ?case
    using skip_ge [of "i + 1" b]
    by (auto simp: scan_object.psimps Let_def split: if_split_asm)
      (meson le_less_trans Suc_le_lessD less_trans)+
next
  case (3 b i d)
  from 3(4) obtain raw e m where s: "scanJSONString b i = Some (raw, e, m)"
    by (auto simp: scan_members.psimps [OF 3(1)] split: option.splits)
  let ?j = "skipJSONSpace b m"
  from 3(4) s obtain v where j: "\<not> length b \<le> ?j" "\<not> b ! ?j \<noteq> CHR '':''"
    and v: "scan_value b (?j + 1) d = Some v"
    by (auto simp: scan_members.psimps [OF 3(1)] Let_def split: option.splits if_split_asm)
  let ?k = "skipJSONSpace b v"
  have v': "?j + 1 < v" "v \<le> length b" using 3(2) [OF s _ _ refl j v] by auto
  have m: "i < m" "m \<le> ?j" "v \<le> ?k" using scanJSONString_progress [OF s] skip_ge by auto
  from 3(4) s j v have k: "\<not> length b \<le> ?k"
    by (auto simp: scan_members.psimps [OF 3(1)] Let_def split: if_split_asm)
  show ?case
  proof (cases "b ! ?k = CHR '',''")
    case True
    then have "scan_members b (skipJSONSpace b (?k + 1)) d = Some n"
      using 3(4) s j v k by (simp add: scan_members.psimps [OF 3(1)] Let_def)
    from 3(3) [OF s _ _ refl j v refl k True this] have
      "skipJSONSpace b (?k + 1) < n" "n \<le> length b" by auto
    with m v' skip_ge [of "?k + 1" b] show ?thesis by linarith
  next
    case False
    then have "n = ?k + 1"
      using 3(4) s j v k by (simp add: scan_members.psimps [OF 3(1)] Let_def split: if_splits)
    with k m v' show ?thesis by linarith
  qed
next
  case (4 b i d)
  then show ?case
    using skip_ge [of "i + 1" b]
    by (auto simp: scan_array.psimps Let_def split: if_split_asm)
      (meson le_less_trans Suc_le_lessD less_trans)+
next
  case (5 b i d)
  from 5(4) obtain v where v: "scan_value b i d = Some v"
    by (auto simp: scan_elements.psimps [OF 5(1)] split: option.splits)
  let ?k = "skipJSONSpace b v"
  have v': "i < v" "v \<le> length b" "v \<le> ?k" using 5(2) [OF v] skip_ge by auto
  from 5(4) v have k: "\<not> length b \<le> ?k"
    by (auto simp: scan_elements.psimps [OF 5(1)] Let_def split: if_split_asm)
  show ?case
  proof (cases "b ! ?k = CHR '',''")
    case True
    then have "scan_elements b (skipJSONSpace b (?k + 1)) d = Some n"
      using 5(4) v k by (simp add: scan_elements.psimps [OF 5(1)] Let_def)
    from 5(3) [OF v refl k True this] have
      "skipJSONSpace b (?k + 1) < n" "n \<le> length b" by auto
    with v' skip_ge [of "?k + 1" b] show ?thesis by linarith
  next
    case False
    then have "n = ?k + 1"
      using 5(4) v k by (simp add: scan_elements.psimps [OF 5(1)] Let_def split: if_splits)
    with k v' show ?thesis by linarith
  qed
qed


text \<open>
  The measure: how much of the buffer is left, then which scanner runs. An array scanner
  entered at the end of the buffer still calls its loop once.
\<close>

definition scan_left :: "bytes \<times> nat \<times> nat \<Rightarrow> nat" where
  "scan_left a = (case a of (b, i, depth) \<Rightarrow> length b - i)"

fun scan_measure ::
  "((bytes \<times> nat \<times> nat) + (bytes \<times> nat \<times> nat)) +
   ((bytes \<times> nat \<times> nat) + (bytes \<times> nat \<times> nat) + (bytes \<times> nat \<times> nat)) \<Rightarrow> nat" where
  "scan_measure (Inl (Inl a)) = 3 * scan_left a + 2"
| "scan_measure (Inl (Inr a)) = 3 * scan_left a + 1"
| "scan_measure (Inr (Inl a)) = 3 * scan_left a"
| "scan_measure (Inr (Inr (Inl a))) = (if scan_left a = 0 then 4 else 3 * scan_left a + 1)"
| "scan_measure (Inr (Inr (Inr a))) = 3 * scan_left a + 3"

lemma skip_left: "scan_left (b, skipJSONSpace b i, d) \<le> length b - i"
  using skip_ge [of i b] by (simp add: scan_left_def)

lemma scan_total:
  "All scan_value_scan_object_scan_members_scan_array_scan_elements_dom"
proof (relation "measure scan_measure", goal_cases)
  case (2 b i d x)
  then show ?case using skip_left [of b i d] by (simp add: scan_left_def)
next
  case (3 b i d x)
  then show ?case using skip_left [of b i d] by (simp add: scan_left_def)
next
  case (4 b i d x)
  then show ?case using skip_left [of b "i + 1" d] by (simp add: scan_left_def)
next
  case (5 b i d r raw y e n j)
  then have "i < n" "n \<le> j" using scanJSONString_progress skip_ge by auto
  with 5 show ?case by (simp add: scan_left_def)
next
  case (6 b i d r raw y e n j v k)
  then have "i < n" "n \<le> j" using scanJSONString_progress skip_ge by auto
  moreover have "j + 1 < v" using scan_progress_dom(1) [OF 6(11) 6(7)] by simp
  moreover have "v \<le> k" "k + 1 \<le> skipJSONSpace b (k + 1)" using 6(8) skip_ge by auto
  ultimately show ?case using 6(9) by (simp add: scan_left_def)
next
  case (7 b i d x)
  then show ?case using skip_left [of b "i + 1" d] by (simp add: scan_left_def) arith
next
  case (8 b i d)
  then show ?case by (simp add: scan_left_def)
next
  case (9 b i d v k)
  have "i < v" using scan_progress_dom(1) [OF 9(5) 9(1)] by simp
  moreover have "v \<le> k" "k + 1 \<le> skipJSONSpace b (k + 1)" using 9(2) skip_ge by auto
  ultimately show ?case using 9(3) by (simp add: scan_left_def)
qed simp

termination scan_value
  by (rule scan_total)

declare scan_value.simps [simp del] scan_object.simps [simp del] scan_members.simps [simp del]
  scan_array.simps [simp del] scan_elements.simps [simp del]

definition scanJSONValue :: "bytes \<Rightarrow> nat \<Rightarrow> nat option" where
  "scanJSONValue b i = scan_value b i 0"

lemma scan_value_progress [scan_progress]:
  "scan_value b i d = Some n \<Longrightarrow> i < n \<and> n \<le> length b"
  by (rule scan_progress_dom(1) [OF spec [OF scan_total]])


section \<open>The grammar\<close>

definition all_ws :: "bytes \<Rightarrow> bool" where
  "all_ws w \<longleftrightarrow> (\<forall>c \<in> set w. is_json_ws c)"

lemma all_ws_simps [simp]:
  "all_ws []" "all_ws (c # w) \<longleftrightarrow> is_json_ws c \<and> all_ws w"
  "all_ws (u @ w) \<longleftrightarrow> all_ws u \<and> all_ws w"
  by (auto simp: all_ws_def)

text \<open>
  RFC 8259 values, members and elements at nesting depth \<open>d\<close>: a container at depth \<open>d\<close>
  holds values at depth \<open>d + 1\<close>, which is at most the scanner's limit. Members and elements
  are the text between the brackets, from the first token on.
\<close>

inductive json_value :: "nat \<Rightarrow> bytes \<Rightarrow> bool"
  and json_members :: "nat \<Rightarrow> bytes \<Rightarrow> bool"
  and json_elements :: "nat \<Rightarrow> bytes \<Rightarrow> bool" where
  val_string: "\<lbrakk>string_body s; utf8_valid s\<rbrakk> \<Longrightarrow> json_value d (CHR 0x22 # s @ [CHR 0x22])"
| val_literal: "v \<in> {''true'', ''false'', ''null''} \<or> json_number v \<Longrightarrow> json_value d v"
| val_object_empty: "\<lbrakk>d < maxRPCScanDepth; all_ws w\<rbrakk> \<Longrightarrow> json_value d (CHR ''{'' # w @ ''}'')"
| val_object: "\<lbrakk>d < maxRPCScanDepth; all_ws w; json_members (d + 1) m\<rbrakk>
    \<Longrightarrow> json_value d (CHR ''{'' # w @ m @ ''}'')"
| val_array_empty: "\<lbrakk>d < maxRPCScanDepth; all_ws w\<rbrakk> \<Longrightarrow> json_value d (CHR ''['' # w @ '']'')"
| val_array: "\<lbrakk>d < maxRPCScanDepth; all_ws w; json_elements (d + 1) m\<rbrakk>
    \<Longrightarrow> json_value d (CHR ''['' # w @ m @ '']'')"
| members_one: "\<lbrakk>string_body k; utf8_valid k; all_ws w1; all_ws w2; json_value d v; all_ws w3\<rbrakk>
    \<Longrightarrow> json_members d ((CHR 0x22 # k @ [CHR 0x22]) @ w1 @ '':'' @ w2 @ v @ w3)"
| members_more: "\<lbrakk>string_body k; utf8_valid k; all_ws w1; all_ws w2; json_value d v; all_ws w3;
      all_ws w4; json_members d m\<rbrakk>
    \<Longrightarrow> json_members d ((CHR 0x22 # k @ [CHR 0x22]) @ w1 @ '':'' @ w2 @ v @ w3 @ '','' @ w4 @ m)"
| elements_one: "\<lbrakk>json_value d v; all_ws w3\<rbrakk> \<Longrightarrow> json_elements d (v @ w3)"
| elements_more: "\<lbrakk>json_value d v; all_ws w3; all_ws w4; json_elements d m\<rbrakk>
    \<Longrightarrow> json_elements d (v @ w3 @ '','' @ w4 @ m)"

lemma isValidJSONLiteral_iff:
  "isValidJSONLiteral v \<longleftrightarrow> v \<in> {''true'', ''false'', ''null''} \<or> json_number v"
proof -
  have "json_number v \<Longrightarrow> v \<noteq> []"
    using isValidJSONNumber_iff [of v] by (auto simp: isValidJSONNumber_def)
  then show ?thesis by (auto simp: isValidJSONLiteral_def isValidJSONNumber_iff)
qed

lemma skip_slice:
  assumes "i \<le> length b"
  shows "all_ws (slice b i (skipJSONSpace b i))"
proof -
  have "skipJSONSpace (take i b @ drop i b) (length (take i b))
      = length (take i b) + length (takeWhile is_json_ws (drop i b))"
    by (rule skip_append)
  with assms have "slice b i (skipJSONSpace b i) = takeWhile is_json_ws (drop i b)"
    by (simp add: slice_def takeWhile_eq_take [symmetric])
  then show ?thesis by (auto simp: all_ws_def dest: set_takeWhileD)
qed

text \<open>Cutting a slice where a scanner skipped white space or stopped at one character.\<close>

lemma slice_skip:
  assumes "i \<le> length b" "skipJSONSpace b i \<le> n"
  obtains w where "all_ws w" "slice b i n = w @ slice b (skipJSONSpace b i) n"
  using slice_append [OF skip_ge assms(2)] skip_slice [OF assms(1)] by metis

lemma slice_one: "k < length b \<Longrightarrow> slice b k (k + 1) = [b ! k]"
  by (simp add: slice_Cons)

lemma slice_cut: "k < n \<Longrightarrow> n \<le> length b \<Longrightarrow> slice b k n = [b ! k] @ slice b (k + 1) n"
  by (simp add: slice_Cons)


lemmas scanner_progress =
  scan_progress_dom [OF spec [OF scan_total]]

lemma members_step:
  assumes s: "scanJSONString b i = Some (raw, e, m)"
    and j: "j = skipJSONSpace b m" "j < length b" "b ! j = CHR '':''"
    and v: "scan_value b (j + 1) d = Some v"
    and IH: "\<exists>w x. slice b (j + 1) v = w @ x \<and> all_ws w \<and> json_value d x"
    and k: "k = skipJSONSpace b v" "k < length b"
  obtains w1 w2 x w3 where "slice b i k = (CHR 0x22 # raw @ [CHR 0x22]) @ w1 @ '':'' @ w2 @ x @ w3"
    "string_body raw" "utf8_valid raw" "all_ws w1" "all_ws w2" "json_value d x" "all_ws w3"
    "i < k"
proof -
  note str = scanJSONString_sound [OF s]
  obtain w2 x where x: "slice b (j + 1) v = w2 @ x" "all_ws w2" "json_value d x" using IH by blast
  have le: "i < m" "m \<le> j" "j + 1 < v" "v \<le> length b" "v \<le> k"
    using str(1) skip_ge scanner_progress(1) [OF v] j(1) k(1) by auto
  have "slice b i k = slice b i m @ slice b m j @ slice b j (j + 1) @ slice b (j + 1) v @ slice b v k"
    using le by (simp add: slice_append)
  also have "\<dots> = (CHR 0x22 # raw @ [CHR 0x22]) @ slice b m j @ '':'' @ w2 @ x @ slice b v k"
    using str(3) x(1) slice_one [OF j(2)] j(3) by simp
  finally have eq: "slice b i k
    = (CHR 0x22 # raw @ [CHR 0x22]) @ slice b m j @ '':'' @ w2 @ x @ slice b v k" .
  have "m \<le> length b" "i < k" using le j(2) by linarith+
  moreover have "all_ws (slice b m j)" "all_ws (slice b v k)"
    using skip_slice [of m b] skip_slice [of v b] le(4) \<open>m \<le> length b\<close> j(1) k(1) by simp_all
  ultimately show thesis using that [OF eq str(4,5) _ x(2,3)] by blast
qed

lemma scan_sound:
  "scan_value b i d = Some n \<Longrightarrow> \<exists>w v. slice b i n = w @ v \<and> all_ws w \<and> json_value d v"
  "scan_object b i (Suc d) = Some n \<Longrightarrow> i < length b \<Longrightarrow> b ! i = CHR ''{'' \<Longrightarrow> json_value d (slice b i n)"
  "scan_members b i d = Some n \<Longrightarrow> \<exists>m. slice b i n = m @ ''}'' \<and> json_members d m"
  "scan_array b i (Suc d) = Some n \<Longrightarrow> i < length b \<Longrightarrow> b ! i = CHR ''['' \<Longrightarrow> json_value d (slice b i n)"
  "scan_elements b i d = Some n \<Longrightarrow>
     \<exists>w m. slice b i n = w @ m @ '']'' \<and> all_ws w \<and> json_elements d m"
proof (induction b i d and b i "Suc d" and b i d and b i "Suc d" and b i d
    arbitrary: n and n d and n and n d and n
    rule: scan_value_scan_object_scan_members_scan_array_scan_elements.induct)
  case (1 b i d)
  let ?j = "skipJSONSpace b i"
  have j: "?j < length b" using 1(3) by (auto simp: scan_value.simps [of b i] Let_def split: if_splits)
  have le: "i \<le> ?j" "i \<le> length b" using j skip_ge [of i b] by linarith+
  have "?j < n \<and> json_value d (slice b ?j n)"
  proof -
    consider "b ! ?j = CHR 0x22" | "b ! ?j = CHR ''{''" | "b ! ?j = CHR ''[''"
      | "b ! ?j \<noteq> CHR 0x22" "b ! ?j \<noteq> CHR ''{''" "b ! ?j \<noteq> CHR ''[''" by blast
    then show ?thesis
    proof cases
      case 1
      with \<open>scan_value b i d = Some n\<close> j obtain raw e where "scanJSONString b ?j = Some (raw, e, n)"
        by (auto simp: scan_value.simps [of b i] Let_def)
      from scanJSONString_sound [OF this] show ?thesis by (simp add: val_string)
    next
      case 2
      with \<open>scan_value b i d = Some n\<close> j have "scan_object b ?j (d + 1) = Some n"
        by (auto simp: scan_value.simps [of b i] Let_def)
      with 1 2 j scanner_progress(2) show ?thesis by simp
    next
      case 3
      with \<open>scan_value b i d = Some n\<close> j have "scan_array b ?j (d + 1) = Some n"
        by (auto simp: scan_value.simps [of b i] Let_def)
      with 1 3 j scanner_progress(4) show ?thesis by simp
    next
      case 4
      with \<open>scan_value b i d = Some n\<close> j have "scanJSONLiteral b ?j = Some n"
        by (auto simp: scan_value.simps [of b i] Let_def)
      with scanJSONLiteral_sound [of b ?j n] j show ?thesis
        by (simp add: isValidJSONLiteral_iff val_literal)
    qed
  qed
  then show ?case
    using slice_append [OF le(1), of n b] skip_slice [OF le(2)] by (metis less_imp_le)
next
  case (2 b i d)
  let ?j = "skipJSONSpace b (i + 1)"
  have d: "d < maxRPCScanDepth" using 2(2) by (auto simp: scan_object.simps [of b i] split: if_splits)
  have cut: "slice b i k = CHR ''{'' # slice b (i + 1) ?j @ slice b ?j k" if "?j \<le> k" "k \<le> length b" for k
    using that slice_cut [of i k b] slice_append [OF skip_ge that(1), of b] skip_ge [of "i + 1" b] 2(4) by simp
  have w: "all_ws (slice b (i + 1) ?j)" using 2(3) by (simp add: skip_slice)
  show ?case
  proof (cases "?j < length b \<and> b ! ?j = CHR ''}''")
    case True
    then have "n = ?j + 1" using 2(2) d by (simp add: scan_object.simps [of b i] Let_def)
    with True cut [of n] slice_one [of ?j b] w show ?thesis
      using val_object_empty [OF d w] by simp
  next
    case False
    then have m: "scan_members b ?j (Suc d) = Some n"
      using 2(2) d False by (auto simp: scan_object.simps [of b i] Let_def split: if_split_asm)
    from 2(1) [OF _ refl False m] d obtain x where "slice b ?j n = x @ ''}''" "json_members (Suc d) x" by auto
    with cut [of n] scanner_progress(3) [OF m] val_object [OF d w, of x] show ?thesis by simp
  qed
next
  case (3 b i d)
  from 3(3) obtain raw e m where s: "scanJSONString b i = Some (raw, e, m)"
    by (auto simp: scan_members.simps [of b i] split: option.splits)
  let ?j = "skipJSONSpace b m"
  from 3(3) s obtain v where j: "\<not> length b \<le> ?j" "\<not> b ! ?j \<noteq> CHR '':''"
    and v: "scan_value b (?j + 1) d = Some v"
    by (auto simp: scan_members.simps [of b i] Let_def split: option.splits if_split_asm)
  let ?k = "skipJSONSpace b v"
  from 3(3) s j v have k: "\<not> length b \<le> ?k"
    by (auto simp: scan_members.simps [of b i] Let_def split: if_split_asm)
  note IH = 3(1) [OF s refl refl refl j v]
  obtain w1 w2 x w3 where ik: "slice b i ?k = (CHR 0x22 # raw @ [CHR 0x22]) @ w1 @ '':'' @ w2 @ x @ w3"
    and parts: "string_body raw" "utf8_valid raw" "all_ws w1" "all_ws w2" "json_value d x" "all_ws w3"
    and lt: "i < ?k"
    using members_step [OF s refl _ _ v IH refl] j k by (metis not_le)
  show ?case
  proof (cases "b ! ?k = CHR '',''")
    case True
    let ?l = "skipJSONSpace b (?k + 1)"
    from True have m: "scan_members b ?l d = Some n"
      using 3(3) s j v k by (simp add: scan_members.simps [of b i] Let_def)
    from 3(2) [OF s refl refl refl j v refl k True m] obtain y where
      y: "slice b ?l n = y @ ''}''" "json_members d y" by auto
    have le: "?k + 1 \<le> ?l" "?l \<le> n" using scanner_progress(3) [OF m] skip_ge by auto
    have "slice b i n = slice b i ?k @ slice b ?k (?k + 1) @ slice b (?k + 1) ?l @ slice b ?l n"
      using le lt by (simp add: slice_append)
    moreover have "all_ws (slice b (?k + 1) ?l)" using k by (simp add: skip_slice)
    ultimately show ?thesis
      using members_more [OF parts _ y(2), of "slice b (?k + 1) ?l"] ik y(1) slice_one [of ?k b] True k
      by simp
  next
    case False
    then have n: "n = ?k + 1" "b ! ?k = CHR ''}''"
      using 3(3) s j v k by (simp_all add: scan_members.simps [of b i] Let_def split: if_splits)
    have "slice b i n = slice b i ?k @ ''}''"
      using slice_append [of i ?k n b] lt n slice_one [of ?k b] k by simp
    with members_one [OF parts] ik show ?thesis by simp
  qed
next
  case (4 b i d)
  let ?j = "skipJSONSpace b (i + 1)"
  have d: "d < maxRPCScanDepth" using 4(2) by (auto simp: scan_array.simps [of b i] split: if_splits)
  have cut: "slice b i k = CHR ''['' # slice b (i + 1) ?j @ slice b ?j k" if "?j \<le> k" "k \<le> length b" for k
    using that slice_cut [of i k b] slice_append [OF skip_ge that(1), of b] skip_ge [of "i + 1" b] 4(4) by simp
  have w: "all_ws (slice b (i + 1) ?j)" using 4(3) by (simp add: skip_slice)
  show ?case
  proof (cases "?j < length b \<and> b ! ?j = CHR '']''")
    case True
    then have "n = ?j + 1" using 4(2) d by (simp add: scan_array.simps [of b i] Let_def)
    with True cut [of n] slice_one [of ?j b] w show ?thesis
      using val_array_empty [OF d w] by simp
  next
    case False
    then have m: "scan_elements b ?j (Suc d) = Some n"
      using 4(2) d False by (auto simp: scan_array.simps [of b i] Let_def split: if_split_asm)
    from 4(1) [OF _ refl False m] d obtain u x where
      "slice b ?j n = u @ x @ '']''" "all_ws u" "json_elements (Suc d) x" by auto
    with cut [of n] scanner_progress(5) [OF m] val_array [OF d, of "slice b (i + 1) ?j @ u" x] w
    show ?thesis by simp
  qed
next
  case (5 b i d)
  from 5(3) obtain v where v: "scan_value b i d = Some v"
    by (auto simp: scan_elements.simps [of b i] split: option.splits)
  let ?k = "skipJSONSpace b v"
  from 5(3) v have k: "\<not> length b \<le> ?k"
    by (auto simp: scan_elements.simps [of b i] Let_def split: if_split_asm)
  from 5(1) [OF v] obtain w x where x: "slice b i v = w @ x" "all_ws w" "json_value d x" by blast
  have lt: "i < v" "v \<le> length b" "v \<le> ?k" using scanner_progress(1) [OF v] skip_ge by auto
  have ik: "slice b i ?k = w @ x @ slice b v ?k" using slice_append [of i v ?k b] lt x by simp
  have w3: "all_ws (slice b v ?k)" using lt by (simp add: skip_slice)
  show ?case
  proof (cases "b ! ?k = CHR '',''")
    case True
    let ?l = "skipJSONSpace b (?k + 1)"
    from True have m: "scan_elements b ?l d = Some n"
      using 5(3) v k by (simp add: scan_elements.simps [of b i] Let_def)
    from 5(2) [OF v refl k True m] obtain u y where
      y: "slice b ?l n = u @ y @ '']''" "all_ws u" "json_elements d y" by auto
    have le: "?k + 1 \<le> ?l" "?l \<le> n" using scanner_progress(5) [OF m] skip_ge by auto
    have "slice b i n = slice b i ?k @ slice b ?k (?k + 1) @ slice b (?k + 1) ?l @ slice b ?l n"
      using le lt by (simp add: slice_append)
    moreover have "all_ws (slice b (?k + 1) ?l @ u)" using k y(2) by (simp add: skip_slice)
    ultimately show ?thesis
      using elements_more [OF x(3) w3 _ y(3), of "slice b (?k + 1) ?l @ u"] ik y(1) x(2)
        slice_one [of ?k b] True k
      by - (rule exI [of _ w], auto)
  next
    case False
    then have n: "n = ?k + 1" "b ! ?k = CHR '']''"
      using 5(3) v k by (simp_all add: scan_elements.simps [of b i] Let_def split: if_splits)
    have "slice b i n = slice b i ?k @ '']''"
      using slice_append [of i ?k n b] lt n slice_one [of ?k b] k by simp
    with elements_one [OF x(3) w3] ik x(2) show ?thesis by - (rule exI [of _ w], auto)
  qed
qed


text \<open>Completeness: a value of the grammar followed by a delimiter is scanned to its end.\<close>

definition delimited :: "bytes \<Rightarrow> bool" where
  "delimited t \<longleftrightarrow> t = [] \<or> is_delim (hd t)"

lemma ws_delim: "is_json_ws c \<Longrightarrow> is_delim c"
  by (simp add: is_delim_def)

lemma delimited_simps [simp]:
  "delimited []" "delimited (c # t) \<longleftrightarrow> is_delim c"
  by (simp_all add: delimited_def)

lemma delimited_ws: "all_ws w \<Longrightarrow> delimited t \<Longrightarrow> delimited (w @ t)"
  by (cases w) (simp_all add: ws_delim)

lemma punct_simps [simp]:
  "is_delim CHR '',''" "is_delim CHR ''}''" "is_delim CHR '']''"
  "\<not> is_json_ws CHR '',''" "\<not> is_json_ws CHR ''}''" "\<not> is_json_ws CHR '']''"
  "\<not> is_json_ws CHR '':''" "\<not> is_json_ws CHR 0x22" "\<not> is_json_ws CHR ''{''" "\<not> is_json_ws CHR ''[''"
  by (simp_all add: is_delim_def is_json_ws_def)

lemma digit_not_delim: "is_digit c \<Longrightarrow> \<not> is_delim c"
  by (auto simp: is_digit_def is_delim_def is_json_ws_def)

lemma json_number_no_delim:
  assumes "json_number v" "c \<in> set v"
  shows "\<not> is_delim c"
proof -
  from assms(1) obtain sg i f e where v: "v = sg @ i @ f @ e" "sg \<in> {[], ''-''}" "json_int i"
    "json_frac f" "json_exp e" unfolding json_number_def by blast
  have "c \<in> set i \<Longrightarrow> is_digit c"
    using v(3) by (auto simp: json_int_def digits_def is_digit_def)
  moreover have "c \<in> set f \<Longrightarrow> is_digit c \<or> c = CHR ''.''"
    using v(4) by (auto simp: json_frac_def digits_def)
  moreover have "c \<in> set e \<Longrightarrow> is_digit c \<or> c \<in> {CHR ''e'', CHR ''E'', CHR ''+'', CHR ''-''}"
    using v(5) by (auto simp: json_exp_def digits_def)
  moreover have "c \<in> set sg \<Longrightarrow> c = CHR ''-''" using v(2) by auto
  ultimately have "is_digit c \<or> c \<in> {CHR ''.'', CHR ''e'', CHR ''E'', CHR ''+'', CHR ''-''}"
    using assms(2) v(1) by auto
  then show ?thesis using digit_not_delim [of c] by (auto simp: is_delim_def is_json_ws_def)
qed

lemma literal_no_delim:
  assumes "isValidJSONLiteral v" "c \<in> set v"
  shows "\<not> is_delim c"
  using assms json_number_no_delim [of v c]
  by (auto simp: isValidJSONLiteral_iff) (auto simp: is_delim_def is_json_ws_def)

lemma scanJSONLiteral_complete:
  assumes "isValidJSONLiteral v" "delimited t"
  shows "scanJSONLiteral (p @ v @ t) (length p) = Some (length p + length v)"
proof -
  have "takeWhile (\<lambda>c. \<not> is_delim c) (v @ t) = v"
    using literal_no_delim [OF assms(1)] assms(2)
    by (cases t) (simp_all add: takeWhile_append)
  then show ?thesis
    using assms(1) literal_end_append [of p "v @ t"] by (simp add: scanJSONLiteral_def)
qed

lemma json_number_hd: "json_number (c # u) \<Longrightarrow> is_digit c \<or> c = CHR ''-''"
proof -
  have "json_int i \<Longrightarrow> \<exists>x y. i = x # y \<and> is_digit x" for i
    by (cases i) (auto simp: json_int_def digits_def is_digit_def)
  then show "json_number (c # u) \<Longrightarrow> is_digit c \<or> c = CHR ''-''"
    unfolding json_number_def by fastforce
qed

lemma literal_hd:
  assumes "isValidJSONLiteral v"
  obtains c u where "v = c # u" "\<not> is_json_ws c" "c \<noteq> CHR 0x22" "c \<noteq> CHR ''{''" "c \<noteq> CHR ''[''"
proof -
  obtain c u where v: "v = c # u" using assms by (cases v) (auto simp: isValidJSONLiteral_def)
  have "\<not> is_json_ws c" using literal_no_delim [OF assms, of c] v ws_delim [of c] by auto
  moreover have "c \<notin> {CHR 0x22, CHR ''{'', CHR ''[''}"
  proof
    assume c: "c \<in> {CHR 0x22, CHR ''{'', CHR ''[''}"
    then have "\<not> is_digit c" "c \<noteq> CHR ''-''" by (auto simp: is_digit_def)
    with c assms v json_number_hd [of c u] show False
      by (auto simp: isValidJSONLiteral_iff)
  qed
  ultimately show thesis using that v by auto
qed

lemma skip_ws_append:
  assumes "all_ws w" "s = [] \<or> \<not> is_json_ws (hd s)"
  shows "skipJSONSpace (p @ w @ s) (length p) = length p + length w"
proof -
  have "takeWhile is_json_ws (w @ s) = w"
    using assms by (cases s) (auto simp: all_ws_def takeWhile_append)
  then show ?thesis using skip_append [of p "w @ s"] by simp
qed


lemma json_value_hd:
  assumes "json_value d v"
  shows "v \<noteq> [] \<and> \<not> is_delim (hd v)"
  using assms
proof (cases rule: json_value.cases)
  case val_literal
  then have v: "isValidJSONLiteral v" by (simp add: isValidJSONLiteral_iff)
  then have "v \<noteq> []" by (auto simp: isValidJSONLiteral_def)
  with literal_no_delim [OF v, of "hd v"] show ?thesis by simp
qed (simp_all add: is_delim_def is_json_ws_def)

lemma json_value_Cons:
  assumes "json_value d v"
  obtains c u where "v = c # u" "\<not> is_json_ws c" "\<not> is_delim c"
  using json_value_hd [OF assms] ws_delim by (cases v) auto

lemma json_members_Cons: "json_members d m \<Longrightarrow> \<exists>u. m = CHR 0x22 # u"
  by (cases rule: json_members.cases) auto

lemma json_elements_Cons:
  assumes "json_elements d m"
  obtains c u where "m = c # u" "\<not> is_json_ws c" "\<not> is_delim c"
  using assms by (cases rule: json_elements.cases) (auto elim!: json_value_Cons)

lemma scan_members_at:
  assumes b: "b = p @ CHR 0x22 # k @ CHR 0x22 # w1 @ CHR '':'' # s" "string_body k" "utf8_valid k" "all_ws w1"
    and v: "scan_value b (length p + length k + length w1 + 3) d = Some (length r)"
    and r: "b = r @ w3 @ c # t" "all_ws w3" "\<not> is_json_ws c"
  shows "scan_members b (length p) d
    = (if c = CHR '','' then scan_members b (skipJSONSpace b (length r + length w3 + 1)) d
       else if c = CHR ''}'' then Some (length r + length w3 + 1) else None)"
proof -
  have 1: "scanJSONString b (length p) = Some (k, CHR 0x5C \<in> set k, length p + length k + 2)"
    using scanJSONString_complete [OF b(2,3)] b(1) by simp
  define j where "j = length p + length k + 2 + length w1"
  have 2: "skipJSONSpace b (length p + length k + 2) = j"
    unfolding j_def using skip_ws_append [of w1 "CHR '':'' # s" "p @ CHR 0x22 # k @ [CHR 0x22]"] b(1,4) by simp
  have "length (p @ CHR 0x22 # k @ CHR 0x22 # w1) = j" by (simp add: j_def)
  moreover have "b = (p @ CHR 0x22 # k @ CHR 0x22 # w1) @ CHR '':'' # s" using b(1) by simp
  ultimately have 3: "b ! j = CHR '':''" "j < length b"
    by (metis nth_append_length, simp add: j_def)
  have 4: "skipJSONSpace b (length r) = length r + length w3"
    using skip_ws_append [of w3 "c # t" r] r by simp
  have 5: "b ! (length r + length w3) = c" "length r + length w3 < length b"
    by (simp_all add: r(1) nth_append)
  have v': "scan_value b (j + 1) d = Some (length r)"
    using v by (simp add: j_def eval_nat_numeral)
  show ?thesis
    by (subst scan_members.simps) (use 1 2 3 4 5 v' in \<open>simp add: Let_def\<close>)
qed

lemma scan_elements_at:
  assumes v: "scan_value b i d = Some (length r)"
    and r: "b = r @ w3 @ c # t" "all_ws w3" "\<not> is_json_ws c"
  shows "scan_elements b i d
    = (if c = CHR '','' then scan_elements b (skipJSONSpace b (length r + length w3 + 1)) d
       else if c = CHR '']'' then Some (length r + length w3 + 1) else None)"
proof -
  have 4: "skipJSONSpace b (length r) = length r + length w3"
    using skip_ws_append [of w3 "c # t" r] r by simp
  have 5: "b ! (length r + length w3) = c" "length r + length w3 < length b"
    by (simp_all add: r(1) nth_append)
  show ?thesis
    using v 4 5 by (simp add: scan_elements.simps [of b] Let_def)
qed

lemma scan_value_at:
  assumes "all_ws w" "\<not> is_json_ws c" "q = length p + length w"
  shows "scan_value (p @ w @ c # s) (length p) d
    = (if c = CHR 0x22 then map_option (\<lambda>(raw, escaped, n). n) (scanJSONString (p @ w @ c # s) q)
       else if c = CHR ''{'' then scan_object (p @ w @ c # s) q (d + 1)
       else if c = CHR ''['' then scan_array (p @ w @ c # s) q (d + 1)
       else scanJSONLiteral (p @ w @ c # s) q)"
proof -
  have "skipJSONSpace (p @ w @ c # s) (length p) = q"
    using skip_ws_append [of w "c # s" p] assms by simp
  moreover have "(p @ w @ c # s) ! q = c" using assms(3) by (simp add: nth_append)
  ultimately show ?thesis
    using assms(3) by (simp add: scan_value.simps [of _ "length p"] Let_def)
qed

lemma scan_complete:
  "json_value d v \<Longrightarrow> delimited t \<Longrightarrow> all_ws w \<Longrightarrow>
     scan_value (p @ w @ v @ t) (length p) d = Some (length (p @ w @ v))"
  "json_members d m \<Longrightarrow>
     scan_members (p @ m @ CHR ''}'' # t) (length p) d = Some (length (p @ m) + 1)"
  "json_elements d m \<Longrightarrow> all_ws w \<Longrightarrow>
     scan_elements (p @ w @ m @ CHR '']'' # t) (length p) d = Some (length (p @ w @ m) + 1)"
proof (induction d v and d m and d m arbitrary: p w t and p t and p w t
    rule: json_value_json_members_json_elements.inducts)
  case (val_string s d)
  then show ?case
    using scan_value_at [of w "CHR 0x22" _ p "s @ CHR 0x22 # t" d]
      scanJSONString_complete [of s "p @ w" t] by simp
next
  case (val_literal v d)
  then have v: "isValidJSONLiteral v" by (simp add: isValidJSONLiteral_iff)
  obtain c u where c: "v = c # u" "\<not> is_json_ws c" "c \<noteq> CHR 0x22" "c \<noteq> CHR ''{''" "c \<noteq> CHR ''[''"
    using literal_hd [OF v] .
  then show ?case
    using scan_value_at [of w c _ p "u @ t" d] scanJSONLiteral_complete [OF v val_literal(2), of "p @ w"]
      val_literal(3) by simp
next
  case (val_object_empty d w')
  let ?b = "p @ w @ CHR ''{'' # w' @ CHR ''}'' # t"
  have "skipJSONSpace ?b (length p + length w + 1) = length p + length w + 1 + length w'"
    using skip_ws_append [of w' "CHR ''}'' # t" "p @ w @ ''{''"] val_object_empty by simp
  moreover have "?b ! (length p + length w + 1 + length w') = CHR ''}''"
    by (simp add: nth_append)
  ultimately have "scan_object ?b (length p + length w) (d + 1) = Some (length p + length w + length w' + 2)"
    using val_object_empty by (simp add: scan_object.simps [of ?b] Let_def)
  then show ?case
    using scan_value_at [of w "CHR ''{''" _ p "w' @ CHR ''}'' # t" d] val_object_empty by simp
next
  case (val_object d w' m)
  obtain c u where m: "m = c # u" "\<not> is_json_ws c" "c \<noteq> CHR ''}''"
  proof -
    from json_members_Cons [OF val_object.hyps(3)] obtain u where "m = CHR 0x22 # u" ..
    then show thesis by (rule that) simp_all
  qed
  let ?b = "p @ w @ CHR ''{'' # w' @ m @ CHR ''}'' # t"
  let ?j = "length p + length w + 1 + length w'"
  have "skipJSONSpace ?b (length p + length w + 1) = ?j"
    using skip_ws_append [of w' "m @ CHR ''}'' # t" "p @ w @ ''{''"] val_object.hyps m by simp
  moreover have "?b ! ?j = c"
    using nth_append_length [of "p @ w @ CHR ''{'' # w'" c "u @ CHR ''}'' # t"] by (simp add: m(1) add.assoc)
  moreover have "scan_members ?b ?j (d + 1) = Some (length p + length w + length w' + length m + 2)"
    using val_object.IH [of "p @ w @ ''{'' @ w'" t] by (simp add: add.assoc)
  ultimately have "scan_object ?b (length p + length w) (d + 1)
      = Some (length p + length w + length w' + length m + 2)"
    using val_object.hyps m by (subst scan_object.simps) (simp add: Let_def)
  then show ?case
    using scan_value_at [of w "CHR ''{''" _ p "w' @ m @ CHR ''}'' # t" d] val_object.prems by simp
next
  case (val_array_empty d w')
  let ?b = "p @ w @ CHR ''['' # w' @ CHR '']'' # t"
  have "skipJSONSpace ?b (length p + length w + 1) = length p + length w + 1 + length w'"
    using skip_ws_append [of w' "CHR '']'' # t" "p @ w @ ''[''"] val_array_empty by simp
  moreover have "?b ! (length p + length w + 1 + length w') = CHR '']''"
    by (simp add: nth_append)
  ultimately have "scan_array ?b (length p + length w) (d + 1) = Some (length p + length w + length w' + 2)"
    using val_array_empty by (simp add: scan_array.simps [of ?b] Let_def)
  then show ?case
    using scan_value_at [of w "CHR ''[''" _ p "w' @ CHR '']'' # t" d] val_array_empty by simp
next
  case (val_array d w' m)
  obtain c u where m: "m = c # u" "\<not> is_json_ws c" "c \<noteq> CHR '']''"
  proof -
    obtain c u where "m = c # u" "\<not> is_json_ws c" "\<not> is_delim c"
      by (rule json_elements_Cons [OF val_array.hyps(3)])
    then show thesis using that [of c u] punct_simps(3) by metis
  qed
  let ?b = "p @ w @ CHR ''['' # w' @ m @ CHR '']'' # t"
  let ?j = "length p + length w + 1 + length w'"
  have "skipJSONSpace ?b (length p + length w + 1) = ?j"
    using skip_ws_append [of w' "m @ CHR '']'' # t" "p @ w @ ''[''"] val_array.hyps m by simp
  moreover have "?b ! ?j = c"
    using nth_append_length [of "p @ w @ CHR ''['' # w'" c "u @ CHR '']'' # t"] by (simp add: m(1) add.assoc)
  moreover have "scan_elements ?b ?j (d + 1) = Some (length p + length w + length w' + length m + 2)"
    using val_array.IH [of "[]" "p @ w @ ''['' @ w'" t] by (simp add: add.assoc)
  ultimately have "scan_array ?b (length p + length w) (d + 1)
      = Some (length p + length w + length w' + length m + 2)"
    using val_array.hyps m by (subst scan_array.simps) (simp add: Let_def)
  then show ?case
    using scan_value_at [of w "CHR ''[''" _ p "w' @ m @ CHR '']'' # t" d] val_array.prems by simp
next
  case (members_one k w1 w2 d v w3)
  let ?q = "p @ CHR 0x22 # k @ CHR 0x22 # w1 @ '':''"
  let ?s = "w2 @ v @ w3 @ CHR ''}'' # t"
  have v: "scan_value (?q @ ?s) (length ?q) d = Some (length (?q @ w2 @ v))"
    using members_one.hyps by (intro members_one.IH) (simp_all add: delimited_ws)
  show ?case
    using scan_members_at [of "?q @ ?s" p k w1 ?s d "?q @ w2 @ v" w3 "CHR ''}''" t] v
      members_one.hyps by (simp add: add.assoc eval_nat_numeral)
next
  case (members_more k w1 w2 d v w3 w4 m)
  obtain u where m: "m = CHR 0x22 # u" using json_members_Cons [OF members_more.hyps(8)] by auto
  define q where "q = p @ CHR 0x22 # k @ CHR 0x22 # w1 @ '':''"
  define r where "r = q @ w2 @ v"
  define r' where "r' = r @ w3 @ '',''"
  define t' where "t' = w4 @ m @ CHR ''}'' # t"
  define b where "b = q @ w2 @ v @ w3 @ CHR '','' # t'"
  note defs = b_def r'_def r_def q_def
  have b1: "b = p @ CHR 0x22 # k @ CHR 0x22 # w1 @ CHR '':'' # (w2 @ v @ w3 @ CHR '','' # t')"
    and b2: "b = r @ w3 @ CHR '','' # t'" and b3: "b = r' @ t'" by (simp_all add: defs)
  have "scan_value b (length q) d = Some (length r)"
    unfolding b_def r_def using members_more.hyps
    by (intro members_more.IH(1)) (simp_all add: delimited_ws)
  then have v: "scan_value b (length p + length k + length w1 + 3) d = Some (length r)"
    by (simp add: q_def add.assoc eval_nat_numeral)
  have "scan_members b (length p) d = scan_members b (skipJSONSpace b (length r + length w3 + 1)) d"
    using scan_members_at [OF b1 members_more.hyps(1-3) v b2 members_more.hyps(6)] by simp
  also have "skipJSONSpace b (length r + length w3 + 1) = length (r' @ w4)"
    using skip_ws_append [of w4 "m @ CHR ''}'' # t" r'] members_more.hyps m
    by (simp add: b3 t'_def r'_def)
  also have "scan_members b (length (r' @ w4)) d = Some (length ((r' @ w4) @ m) + 1)"
    using members_more.IH(2) [of "r' @ w4" t] by (simp add: b3 t'_def)
  finally show ?case by (simp add: defs t'_def add.assoc)
next
  case (elements_one d v w3)
  let ?b = "p @ w @ v @ w3 @ CHR '']'' # t"
  have v: "scan_value ?b (length p) d = Some (length (p @ w @ v))"
    using elements_one by (intro elements_one.IH) (simp_all add: delimited_ws)
  have b: "?b = (p @ w @ v) @ w3 @ CHR '']'' # t" by simp
  have "scan_elements ?b (length p) d = Some (length (p @ w @ v) + length w3 + 1)"
    using scan_elements_at [OF v b elements_one.hyps(2)] by simp
  then show ?case by (simp add: add.assoc)
next
  case (elements_more d v w3 w4 m)
  obtain c u where m: "m = c # u" "\<not> is_json_ws c" by (rule json_elements_Cons [OF elements_more.hyps(4)])
  define r' where "r' = p @ w @ v @ w3 @ '',''"
  define t' where "t' = w4 @ m @ CHR '']'' # t"
  define b where "b = p @ w @ v @ w3 @ CHR '','' # t'"
  have b2: "b = (p @ w @ v) @ w3 @ CHR '','' # t'" and b3: "b = r' @ t'"
    by (simp_all add: b_def r'_def)
  have v: "scan_value b (length p) d = Some (length (p @ w @ v))"
    unfolding b_def using elements_more.hyps elements_more.prems
    by (intro elements_more.IH(1)) (simp_all add: delimited_ws)
  have "scan_elements b (length p) d
      = scan_elements b (skipJSONSpace b (length (p @ w @ v) + length w3 + 1)) d"
    using scan_elements_at [OF v b2 elements_more.hyps(2)] by simp
  also have "skipJSONSpace b (length (p @ w @ v) + length w3 + 1) = length (r' @ w4)"
    using skip_ws_append [of w4 "m @ CHR '']'' # t" r'] elements_more.hyps m
    by (simp add: b3 t'_def r'_def add.assoc)
  also have "scan_elements b (length (r' @ w4)) d = Some (length ((r' @ w4) @ m) + 1)"
    using elements_more.IH(2) [of "[]" "r' @ w4" t] by (simp add: b3 t'_def)
  finally show ?case by (simp add: b_def r'_def t'_def add.assoc)
qed


text \<open>C9. The scanner decides the grammar: a whole buffer is scanned to its end exactly when
  it is white space followed by one JSON value of at most 128 nesting levels.\<close>

theorem scanner_decides_json:
  "scanJSONValue b 0 = Some (length b) \<longleftrightarrow> (\<exists>w v. b = w @ v \<and> all_ws w \<and> json_value 0 v)"
proof
  assume "scanJSONValue b 0 = Some (length b)"
  from scan_sound(1) [OF this [unfolded scanJSONValue_def]]
  show "\<exists>w v. b = w @ v \<and> all_ws w \<and> json_value 0 v" by (simp add: slice_def)
next
  assume "\<exists>w v. b = w @ v \<and> all_ws w \<and> json_value 0 v"
  then show "scanJSONValue b 0 = Some (length b)"
    using scan_complete(1) [of 0 _ "[]" _ "[]"] by (auto simp: scanJSONValue_def)
qed

text \<open>Embedded use, as in a message: from any position, the scanner returns the end of the
  value there, which is where the text continues with a delimiter.\<close>

theorem scanner_finds_end:
  assumes "json_value 0 v" "all_ws w" "delimited t"
  shows "scanJSONValue (p @ w @ v @ t) (length p) = Some (length (p @ w @ v))"
  using scan_complete(1) [OF assms(1,3,2), of p] by (simp add: scanJSONValue_def)

theorem scanner_finds_end_witness:
  "scanJSONValue (''{'' @ '' '' @ ''null'' @ '',x'') (length ''{'') = Some (length (''{'' @ '' '' @ ''null''))"
  by (rule scanner_finds_end)
    (simp_all add: val_literal all_ws_def is_json_ws_def)

section \<open>Identifiers and null\<close>

text \<open>\<open>parsePositiveInt64Bytes\<close>: the overflow test precedes the 64-bit multiplication.\<close>

fun parse_digits :: "bytes \<Rightarrow> int \<Rightarrow> int option" where
  "parse_digits [] v = Some v"
| "parse_digits (c # s) v =
     (if byte c < 48 \<or> 57 < byte c then None
      else let digit = int (byte c) - 48 in
        if v > (max_int64 - digit) div 10 then None
        else parse_digits s (wrap64 (wrap64 (v * 10) + digit)))"

definition parsePositiveInt64Bytes :: "bytes \<Rightarrow> int option" where
  "parsePositiveInt64Bytes b = (if b = [] then None else parse_digits b 0)"

definition parseRPCID :: "bytes \<Rightarrow> int option" where
  "parseRPCID raw =
     (let id = trimJSONSpace raw in
      if id = [] then None
      else if id ! 0 = CHR 0x22 then
        (if length id < 2 \<or> id ! (length id - 1) \<noteq> CHR 0x22 then None
         else parsePositiveInt64Bytes (slice id 1 (length id - 1)))
      else parsePositiveInt64Bytes id)"

definition isRawNull :: "bytes \<Rightarrow> bool" where
  "isRawNull raw =
     (let r = trimJSONSpace raw in
      length r = 4 \<and> r ! 0 = CHR ''n'' \<and> r ! 1 = CHR ''u'' \<and> r ! 2 = CHR ''l'' \<and> r ! 3 = CHR ''l'')"

lemma isRawNull_iff: "isRawNull raw \<longleftrightarrow> trimJSONSpace raw = ''null''"
proof -
  have "length r = 4 \<and> r ! 0 = CHR ''n'' \<and> r ! 1 = CHR ''u'' \<and> r ! 2 = CHR ''l'' \<and> r ! 3 = CHR ''l''
      \<longleftrightarrow> r = ''null''" for r :: bytes
    by (auto simp: list_eq_iff_nth_eq less_Suc_eq numeral_eq_Suc)
  then show ?thesis unfolding isRawNull_def Let_def by blast
qed

text \<open>The value of a digit string, without a bound.\<close>

definition dec_value :: "int \<Rightarrow> bytes \<Rightarrow> int" where
  "dec_value v ds = foldl (\<lambda>a c. a * 10 + (int (byte c) - 48)) v ds"

lemma dec_value_simps [simp]:
  "dec_value v [] = v" "dec_value v (c # s) = dec_value (v * 10 + (int (byte c) - 48)) s"
  "dec_value v (s @ t) = dec_value (dec_value v s) t"
  by (simp_all add: dec_value_def)

lemma dec_value_ge:
  "(\<forall>c\<in>set ds. is_digit c) \<Longrightarrow> 0 \<le> v \<Longrightarrow> v \<le> dec_value v ds"
proof (induction ds arbitrary: v)
  case (Cons c s)
  then have "48 \<le> byte c" by (simp add: is_digit_def)
  then have v: "v \<le> v * 10 + (int (byte c) - 48)" using Cons.prems(2) by simp
  then have "v * 10 + (int (byte c) - 48) \<le> dec_value (v * 10 + (int (byte c) - 48)) s"
    using Cons.prems by (intro Cons.IH) simp_all
  with v show ?case by simp
qed simp

lemma overflow_guard:
  "0 \<le> digit \<Longrightarrow> \<not> v > (max_int64 - digit) div 10 \<longleftrightarrow> v * 10 + digit \<le> max_int64" for v digit :: int
  by linarith

lemma parse_digits_iff:
  "0 \<le> v \<Longrightarrow> v \<le> max_int64 \<Longrightarrow> parse_digits ds v = Some n \<longleftrightarrow>
     (\<forall>c\<in>set ds. is_digit c) \<and> n = dec_value v ds \<and> n \<le> max_int64"
proof (induction ds arbitrary: v)
  case (Cons c s)
  show ?case
  proof (cases "is_digit c")
    case True
    define d where "d = int (byte c) - 48"
    have d: "0 \<le> d" using True by (simp add: d_def is_digit_def)
    have c: "\<not> (byte c < 48 \<or> 57 < byte c)" using True by (auto simp: is_digit_def)
    show ?thesis
    proof (cases "v * 10 + d \<le> max_int64")
      case le: True
      have w: "wrap64 (wrap64 (v * 10) + d) = v * 10 + d"
        using le d Cons.prems by (simp add: wrap64_id)
      have g: "\<not> v > (max_int64 - d) div 10" using overflow_guard [OF d] le by blast
      have "parse_digits (c # s) v = parse_digits s (v * 10 + d)"
        unfolding parse_digits.simps Let_def d_def [symmetric] using c g w by simp
      moreover have "0 \<le> v * 10 + d" using d Cons.prems by simp
      ultimately show ?thesis
        using Cons.IH [of "v * 10 + d"] le True by (simp add: d_def)
    next
      case False
      have g: "v > (max_int64 - d) div 10" using overflow_guard [OF d] False by blast
      have "parse_digits (c # s) v = None"
        unfolding parse_digits.simps Let_def d_def [symmetric] using c g by simp
      moreover have "\<not> ((\<forall>c\<in>set s. is_digit c) \<and> dec_value (v * 10 + d) s \<le> max_int64)"
        using False dec_value_ge [of s "v * 10 + d"] d Cons.prems by linarith
      ultimately show ?thesis by (auto simp: d_def)
    qed
  qed (auto simp: is_digit_def)
qed auto

lemma parsePositive_iff:
  "parsePositiveInt64Bytes b = Some n \<longleftrightarrow>
     digits b \<and> n = dec_value 0 b \<and> dec_value 0 b \<le> max_int64"
  by (auto simp: parsePositiveInt64Bytes_def digits_def parse_digits_iff)

lemma dec_value_nat_decimal: "dec_value 0 (nat_decimal n) = int n"
proof (induction n rule: nat_decimal.induct)
  case (1 n)
  show ?case
  proof (cases "n < 10")
    case True
    then show ?thesis by (simp add: nat_decimal.simps [of n] byte_digit_char)
  next
    case False
    have "int (n div 10) * 10 + int (n mod 10) = int n"
      by (metis div_mult_mod_eq of_nat_add of_nat_mult of_nat_numeral)
    with 1 False show ?thesis
      by (simp add: nat_decimal.simps [of n] byte_digit_char)
  qed
qed

lemma digits_nat_decimal [simp]: "digits (nat_decimal n)"
  by (auto simp: digits_def is_digit_def dest: set_nat_decimal)

lemma digits_no_ws: "digits b \<Longrightarrow> trimJSONSpace b = b"
proof -
  assume b: "digits b"
  then have "hd b \<in> set b" "last b \<in> set b" "b \<noteq> []" by (auto simp: digits_def)
  with b show ?thesis
    using digit_not_delim ws_delim by (metis digits_def trimJSONSpace_id)
qed

lemma parseRPCID_int_decimal:
  assumes "0 \<le> n" "n \<le> max_int64"
  shows "parseRPCID (int_decimal n) = Some n"
proof -
  have d: "int_decimal n = nat_decimal (nat n)" using assms by (simp add: int_decimal_def)
  have "nat_decimal (nat n) ! 0 \<in> set (nat_decimal (nat n))" by simp
  then have "48 \<le> byte (nat_decimal (nat n) ! 0)" using set_nat_decimal by blast
  then have "nat_decimal (nat n) ! 0 \<noteq> CHR 0x22" by auto
  then show ?thesis
    using assms by (simp add: parseRPCID_def d digits_no_ws parsePositive_iff
        dec_value_nat_decimal Let_def)
qed


text \<open>Parsing an identifier is exact: apart from white space around it and one pair of
  quotes, it is a non-empty digit string whose value fits \<open>int64\<close>; that value is returned,
  every other text is rejected, and no step wraps.\<close>

theorem parseRPCID_exact:
  "parseRPCID raw = Some n \<longleftrightarrow>
     (\<exists>ds. trimJSONSpace raw \<in> {ds, CHR 0x22 # ds @ [CHR 0x22]}
        \<and> digits ds \<and> n = dec_value 0 ds \<and> dec_value 0 ds \<le> max_int64)"
proof -
  define t where "t = trimJSONSpace raw"
  have q: "digits (CHR 0x22 # u) = False" for u by (simp add: digits_def is_digit_def)
  have "parseRPCID raw = Some n \<longleftrightarrow> (\<exists>ds. t \<in> {ds, CHR 0x22 # ds @ [CHR 0x22]}
        \<and> digits ds \<and> n = dec_value 0 ds \<and> dec_value 0 ds \<le> max_int64)"
  proof (cases "t \<noteq> [] \<and> hd t = CHR 0x22")
    case True
    then obtain u where t: "t = CHR 0x22 # u" by (cases t) auto
    show ?thesis
    proof (cases "u \<noteq> [] \<and> last u = CHR 0x22")
      case True
      then have "u = butlast u @ [CHR 0x22]" by (metis append_butlast_last_id)
      then obtain ds where u: "u = ds @ [CHR 0x22]" by blast
      have "slice t 1 (length t - 1) = ds" by (simp add: t u slice_def)
      moreover have "t ! (length t - 1) = CHR 0x22" by (simp add: t u nth_append)
      ultimately have "parseRPCID raw = parsePositiveInt64Bytes ds"
        unfolding parseRPCID_def t_def [symmetric] Let_def by (simp add: t u)
      then show ?thesis using q by (auto simp: parsePositive_iff t u)
    next
      case False
      then have "length t < 2 \<or> t ! (length t - 1) \<noteq> CHR 0x22"
        by (cases "u = []") (auto simp: t last_conv_nth nth_Cons')
      then have "parseRPCID raw = None"
        unfolding parseRPCID_def t_def [symmetric] Let_def by (auto simp: t)
      moreover have "u \<noteq> ds @ [CHR 0x22]" for ds using False by auto
      ultimately show ?thesis using q by (auto simp: t)
    qed
  next
    case False
    then have "parseRPCID raw = (if t = [] then None else parsePositiveInt64Bytes t)"
      unfolding parseRPCID_def t_def [symmetric] Let_def by (auto simp: hd_conv_nth)
    moreover have "t \<noteq> CHR 0x22 # ds @ [CHR 0x22]" for ds using False by auto
    ultimately show ?thesis by (auto simp: parsePositive_iff digits_def)
  qed
  then show ?thesis by (simp add: t_def)
qed

end
