(* ===== verification/Go_Strconv.thy ===== *)
theory Go_Strconv
  imports Json_Scan
begin

text \<open>
  Go's \<open>strconv.AppendQuote\<close> and \<open>strconv.Unquote\<close> (double-quoted form), which \<open>rpc.go\<close>
  uses to write and read JSON strings. Go's syntax and JSON's are not the same: the lemmas
  say for which strings the two agree. \<open>strconv.IsPrint\<close> is a table of Unicode beyond
  ASCII; there it is the parameter \<open>pr\<close>.
\<close>

definition is_print :: "(nat \<Rightarrow> bool) \<Rightarrow> nat \<Rightarrow> bool" where
  "is_print pr r = (if r < 128 then 32 \<le> r \<and> r < 127 else pr r)"

definition hex_digit :: "nat \<Rightarrow> char" where
  "hex_digit n = (if n < 10 then char_of (48 + n) else char_of (87 + n))"

fun hex_digits :: "nat \<Rightarrow> nat \<Rightarrow> bytes" where
  "hex_digits 0 n = []"
| "hex_digits (Suc k) n = hex_digits k (n div 16) @ [hex_digit (n mod 16)]"

definition escape_rune :: "(nat \<Rightarrow> bool) \<Rightarrow> nat \<Rightarrow> bytes" where
  "escape_rune pr r =
     (if r = 34 \<or> r = 92 then [CHR 0x5C, char_of r]
      else if is_print pr r then encode_rune r
      else if r = 7 then [CHR 0x5C, CHR ''a'']
      else if r = 8 then [CHR 0x5C, CHR ''b'']
      else if r = 12 then [CHR 0x5C, CHR ''f'']
      else if r = 10 then [CHR 0x5C, CHR ''n'']
      else if r = 13 then [CHR 0x5C, CHR ''r'']
      else if r = 9 then [CHR 0x5C, CHR ''t'']
      else if r = 11 then [CHR 0x5C, CHR ''v'']
      else if r < 32 \<or> r = 127 then [CHR 0x5C, CHR ''x''] @ hex_digits 2 r
      else if \<not> valid_rune r then [CHR 0x5C, CHR ''u''] @ hex_digits 4 rune_error
      else if r < 0x10000 then [CHR 0x5C, CHR ''u''] @ hex_digits 4 r
      else [CHR 0x5C, CHR ''U''] @ hex_digits 8 r)"

text \<open>What \<open>AppendQuote\<close> writes between the quotes.\<close>

function quote_body :: "(nat \<Rightarrow> bool) \<Rightarrow> bytes \<Rightarrow> bytes" where
  "quote_body pr s =
     (if s = [] then []
      else
       (if bad_rune (decode_rune s) then [CHR 0x5C, CHR ''x''] @ hex_digits 2 (byte (hd s))
        else escape_rune pr (fst (decode_rune s)))
       @ quote_body pr (drop (snd (decode_rune s)) s))"
  by pat_completeness auto
termination
proof (relation "measure (\<lambda>(pr, s). length s)", goal_cases)
  case (2 pr s)
  then show ?case using decode_rune_width_pos [of s] by (cases s) auto
qed simp

declare quote_body.simps [simp del]

definition AppendQuote :: "(nat \<Rightarrow> bool) \<Rightarrow> bytes \<Rightarrow> bytes" where
  "AppendQuote pr s = CHR 0x22 # quote_body pr s @ [CHR 0x22]"

lemma quote_body_Nil [simp]: "quote_body pr [] = []"
  by (subst quote_body.simps) simp

section \<open>Reading\<close>

definition unhex :: "char \<Rightarrow> nat option" where
  "unhex c =
     (if 48 \<le> byte c \<and> byte c \<le> 57 then Some (byte c - 48)
      else if 97 \<le> byte c \<and> byte c \<le> 102 then Some (byte c - 87)
      else if 65 \<le> byte c \<and> byte c \<le> 70 then Some (byte c - 55)
      else None)"

fun unhex_n :: "nat \<Rightarrow> nat \<Rightarrow> bytes \<Rightarrow> (nat \<times> bytes) option" where
  "unhex_n 0 v s = Some (v, s)"
| "unhex_n (Suc n) v [] = None"
| "unhex_n (Suc n) v (c # s) =
     (case unhex c of None \<Rightarrow> None | Some x \<Rightarrow> unhex_n n (v * 16 + x) s)"

definition is_octal :: "char \<Rightarrow> bool" where
  "is_octal c \<longleftrightarrow> 48 \<le> byte c \<and> byte c \<le> 55"

text \<open>After a backslash: the character \<open>c\<close> and the text \<open>s\<close> that follows it. The result is
  the value, whether it is a code point to be encoded, and the rest.\<close>

definition unquote_escape :: "char \<Rightarrow> bytes \<Rightarrow> (nat \<times> bool \<times> bytes) option" where
  "unquote_escape c s =
     (if c = CHR ''a'' then Some (7, False, s)
      else if c = CHR ''b'' then Some (8, False, s)
      else if c = CHR ''f'' then Some (12, False, s)
      else if c = CHR ''n'' then Some (10, False, s)
      else if c = CHR ''r'' then Some (13, False, s)
      else if c = CHR ''t'' then Some (9, False, s)
      else if c = CHR ''v'' then Some (11, False, s)
      else if c = CHR ''x'' then map_option (\<lambda>(v, t). (v, False, t)) (unhex_n 2 0 s)
      else if c = CHR ''u'' \<or> c = CHR ''U'' then
        (case unhex_n (if c = CHR ''u'' then 4 else 8) 0 s of
           None \<Rightarrow> None
         | Some (v, t) \<Rightarrow> if valid_rune v then Some (v, True, t) else None)
      else if is_octal c then
        (case s of
           x # y # t \<Rightarrow>
             (let v = ((byte c - 48) * 8 + (byte x - 48)) * 8 + (byte y - 48) in
              if is_octal x \<and> is_octal y \<and> v \<le> 255 then Some (v, False, t) else None)
         | _ \<Rightarrow> None)
      else if c = CHR 0x5C then Some (92, False, s)
      else if c = CHR 0x22 then Some (34, False, s)
      else None)"

fun UnquoteChar :: "bytes \<Rightarrow> (nat \<times> bool \<times> bytes) option" where
  "UnquoteChar [] = None"
| "UnquoteChar (c # s) =
     (if c = CHR 0x22 then None
      else if 128 \<le> byte c then
        Some (fst (decode_rune (c # s)), True, drop (snd (decode_rune (c # s))) (c # s))
      else if c \<noteq> CHR 0x5C then Some (byte c, False, s)
      else case s of [] \<Rightarrow> None | e # t \<Rightarrow> unquote_escape e t)"

definition emit_rune :: "nat \<Rightarrow> bool \<Rightarrow> bytes" where
  "emit_rune r multibyte = (if r < 128 \<or> \<not> multibyte then [char_of r] else encode_rune r)"

lemma unhex_n_shorter: "unhex_n n v s = Some (w, t) \<Longrightarrow> length t \<le> length s"
  by (induction n v s rule: unhex_n.induct) (auto split: option.splits)

lemma unquote_escape_shorter:
  "unquote_escape c s = Some (r, m, t) \<Longrightarrow> length t \<le> length s"
  by (auto simp: unquote_escape_def Let_def dest: unhex_n_shorter
      split: if_split_asm option.splits list.splits)

lemma UnquoteChar_shorter: "UnquoteChar s = Some (r, m, t) \<Longrightarrow> length t < length s"
  using decode_rune_width_pos [of s]
  by (cases s) (auto split: if_split_asm list.splits dest!: unquote_escape_shorter)

function unquote_loop :: "bytes \<Rightarrow> (bytes \<times> bytes) option" where
  "unquote_loop s =
     (if s = [] then None
      else if hd s = CHR 0x22 then Some ([], tl s)
      else if hd s = CHR 0x0A then None
      else case UnquoteChar s of
             None \<Rightarrow> None
           | Some (r, multibyte, t) \<Rightarrow>
              (case unquote_loop t of
                 None \<Rightarrow> None
               | Some (out, rem) \<Rightarrow> Some (emit_rune r multibyte @ out, rem)))"
  by pat_completeness auto
termination by (relation "measure length") (auto dest: UnquoteChar_shorter)

declare unquote_loop.simps [simp del]

text \<open>
  \<open>Unquote\<close> of a text that starts with a double quote. (Go returns text without escapes
  directly when it is valid UTF-8, which is what the loop computes for it.)
\<close>

definition Unquote :: "bytes \<Rightarrow> bytes option" where
  "Unquote s =
     (if length s < 2 \<or> hd s \<noteq> CHR 0x22 then None
      else case unquote_loop (tl s) of
             None \<Rightarrow> None
           | Some (out, rem) \<Rightarrow> if rem = [] then Some out else None)"


section \<open>Reading back what was written\<close>

lemma unhex_hex_digit [simp]: "n < 16 \<Longrightarrow> unhex (hex_digit n) = Some n"
  by (simp add: hex_digit_def unhex_def)

lemma unhex_n_snoc:
  "unhex_n k v s = Some (w, c # t) \<Longrightarrow> unhex c = Some x \<Longrightarrow> unhex_n (Suc k) v s = Some (w * 16 + x, t)"
proof (induction k v s rule: unhex_n.induct)
  case (3 n v d s)
  then show ?case by (cases "unhex d") simp_all
qed simp_all

lemma unhex_hex_digits:
  "n < 16 ^ k \<Longrightarrow> unhex_n k 0 (hex_digits k n @ t) = Some (n, t)"
proof (induction k arbitrary: n t)
  case (Suc k)
  have "n div 16 < 16 ^ k" using Suc.prems by (simp add: less_mult_imp_div_less)
  from Suc.IH [OF this, of "hex_digit (n mod 16) # t"]
  have "unhex_n (Suc k) 0 (hex_digits k (n div 16) @ hex_digit (n mod 16) # t)
      = Some (n div 16 * 16 + n mod 16, t)"
    by (rule unhex_n_snoc) simp
  then show ?case by (simp del: unhex_n.simps)
qed simp

lemma valid_rune_lt: "valid_rune r \<Longrightarrow> r < 16 ^ 8"
  by (auto simp: valid_rune_def)

lemma UnquoteChar_backslash:
  "UnquoteChar (CHR 0x5C # e # t) = unquote_escape e t"
  by simp

lemma encode_valid_head:
  assumes "valid_rune r" "128 \<le> r"
  obtains c u where "encode_valid r = c # u" "128 \<le> byte c"
proof -
  have "\<exists>c u. encode_valid r = c # u \<and> 128 \<le> byte c"
  proof -
    consider "r < 0x800" | "0x800 \<le> r" "r < 0x10000" | "0x10000 \<le> r" "r < 0x110000"
      using assms(1) unfolding valid_rune_def by linarith
    then show ?thesis
    proof cases
      case 1
      then have "r div 64 < 32" by simp
      then have "byte (char_of (192 + r div 64)) = 192 + r div 64" by (intro byte_char_of) linarith
      with 1 assms(2) show ?thesis by (simp add: encode_valid_def)
    next
      case 2
      then have "r div 4096 < 16" by simp
      then have "byte (char_of (224 + r div 4096)) = 224 + r div 4096" by (intro byte_char_of) linarith
      with 2 show ?thesis by (simp add: encode_valid_def)
    next
      case 3
      then have "r div 262144 < 5" by simp
      then have "byte (char_of (240 + r div 262144)) = 240 + r div 262144" by (intro byte_char_of) linarith
      with 3 show ?thesis by (simp add: encode_valid_def)
    qed
  qed
  then show thesis using that by blast
qed

lemma char_of_eqD: "char_of n = c \<Longrightarrow> n < 256 \<Longrightarrow> n = byte c"
  by auto

lemma named_escape:
  assumes "r \<in> {7, 8, 12, 10, 13, 9, 11}"
  shows "\<exists>e. escape_rune pr r = [CHR 0x5C, e] \<and> unquote_escape e t = Some (r, False, t)"
  using assms
  by (elim insertE emptyE; simp add: escape_rune_def is_print_def unquote_escape_def)

lemma quote_chars: "char_of (34::nat) = CHR 0x22" "char_of (92::nat) = CHR 0x5C"
  by (rule char_of_byteI, simp)+

text \<open>One written rune is read as one character, which is emitted as the rune.\<close>

lemma UnquoteChar_escape_rune:
  assumes "valid_rune r"
  obtains m where "UnquoteChar (escape_rune pr r @ t) = Some (r, m, t)"
    "emit_rune r m = encode_valid r"
    "hd (escape_rune pr r @ t) \<noteq> CHR 0x22" "hd (escape_rune pr r @ t) \<noteq> CHR 0x0A"
    "escape_rune pr r \<noteq> []"
proof -
  have emit: "emit_rune r True = encode_valid r" "r < 128 \<Longrightarrow> emit_rune r m = encode_valid r" for m
    using assms by (simp_all add: emit_rune_def encode_rune_def encode_valid_def)
  consider (quote) "r = 34 \<or> r = 92"
    | (printable) "r \<noteq> 34" "r \<noteq> 92" "is_print pr r"
    | (named) "\<not> is_print pr r" "r \<in> {7, 8, 12, 10, 13, 9, 11}"
    | (ctrl) "\<not> is_print pr r" "r \<notin> {7, 8, 12, 10, 13, 9, 11}" "r < 32 \<or> r = 127"
    | (u4) "r \<noteq> 34" "r \<noteq> 92" "\<not> is_print pr r" "32 \<le> r" "r \<noteq> 127" "r < 0x10000"
    | (u8) "\<not> is_print pr r" "0x10000 \<le> r" by linarith
  then show thesis
  proof cases
    case quote
    then show thesis
      by (intro that [of False]) (auto simp: escape_rune_def unquote_escape_def emit_rune_def
          encode_valid_def is_octal_def quote_chars)
  next
    case printable
    then have e: "escape_rune pr r = encode_valid r" using assms by (simp add: escape_rune_def encode_rune_def)
    show thesis
    proof (cases "r < 128")
      case True
      then have "byte (char_of r) = r" "32 \<le> r" using printable(3) by (simp_all add: is_print_def)
      moreover have "char_of r \<noteq> CHR 0x22" "char_of r \<noteq> CHR 0x5C" "char_of r \<noteq> CHR 0x0A"
        using printable True \<open>32 \<le> r\<close> by (auto dest!: char_of_eqD)
      ultimately show thesis
        using True by (intro that [of False]) (simp_all add: e emit encode_valid_def)
    next
      case False
      then obtain c u where c: "encode_valid r = c # u" "128 \<le> byte c"
        using encode_valid_head [OF assms] by auto
      then have "c \<noteq> CHR 0x22" "c \<noteq> CHR 0x0A" by auto
      then show thesis
        using decode_encode_valid [OF assms, of t] c
        by (intro that [of True]) (simp_all add: e emit)
    qed
  next
    case named
    obtain e where e: "escape_rune pr r = [CHR 0x5C, e]" "unquote_escape e t = Some (r, False, t)"
      using named_escape [OF named(2)] by blast
    moreover have "r < 128" using named(2) by auto
    ultimately show thesis by (intro that [of False]) (simp_all add: emit)
  next
    case ctrl
    then have e: "escape_rune pr r = [CHR 0x5C, CHR ''x''] @ hex_digits 2 r"
      by (auto simp: escape_rune_def simp del: hex_digits.simps)
    moreover have "unhex_n 2 0 (hex_digits 2 r @ t) = Some (r, t)"
      using ctrl(3) by (intro unhex_hex_digits) auto
    moreover have "r < 128" using ctrl(3) by auto
    ultimately show thesis
      by (intro that [of False]) (simp_all add: unquote_escape_def emit)
  next
    case u4
    then have e: "escape_rune pr r = [CHR 0x5C, CHR ''u''] @ hex_digits 4 r"
      using assms by (simp add: escape_rune_def)
    moreover have "unhex_n 4 0 (hex_digits 4 r @ t) = Some (r, t)"
      using u4 by (intro unhex_hex_digits) simp
    ultimately show thesis
      using assms by (intro that [of True]) (simp_all add: unquote_escape_def emit)
  next
    case u8
    then have "escape_rune pr r = [CHR 0x5C, CHR ''U''] @ hex_digits 8 r"
      using assms by (simp add: escape_rune_def)
    moreover have "unhex_n 8 0 (hex_digits 8 r @ t) = Some (r, t)"
      using valid_rune_lt [OF assms] by (rule unhex_hex_digits)
    ultimately show thesis
      using assms by (intro that [of True]) (simp_all add: unquote_escape_def emit)
  qed
qed


lemma unquote_loop_step:
  assumes "UnquoteChar u = Some (r, m, t)" "u \<noteq> []" "hd u \<noteq> CHR 0x22" "hd u \<noteq> CHR 0x0A"
  shows "unquote_loop u = map_option (\<lambda>(out, rem). (emit_rune r m @ out, rem)) (unquote_loop t)"
  using assms by (subst unquote_loop.simps) (auto split: option.split)

lemma bad_rune_width: "s \<noteq> [] \<Longrightarrow> bad_rune (decode_rune s) \<Longrightarrow> snd (decode_rune s) = 1"
  using decode_rune_width_pos [of s] by (simp add: bad_rune_def)

lemma unquote_loop_quote_body:
  "unquote_loop (quote_body pr s @ CHR 0x22 # t) = Some (s, t)"
proof (induction pr s rule: quote_body.induct)
  case (1 pr s)
  show ?case
  proof (cases "s = []")
    case True
    then show ?thesis by (simp add: unquote_loop.simps [of "CHR 0x22 # t"])
  next
    case False
    let ?w = "snd (decode_rune s)" and ?r = "fst (decode_rune s)"
    let ?rest = "quote_body pr (drop ?w s) @ CHR 0x22 # t"
    note IH = 1 [OF False]
    show ?thesis
    proof (cases "bad_rune (decode_rune s)")
      case True
      obtain c u where s: "s = c # u" using False by (cases s) auto
      have q: "quote_body pr s = [CHR 0x5C, CHR ''x''] @ hex_digits 2 (byte c) @ quote_body pr (drop ?w s)"
        using True False by (subst quote_body.simps) (simp add: s)
      have w: "drop ?w s = u" using bad_rune_width [OF False True] s by simp
      have "unhex_n 2 0 (hex_digits 2 (byte c) @ ?rest) = Some (byte c, ?rest)"
        by (rule unhex_hex_digits) simp
      then have "UnquoteChar ([CHR 0x5C, CHR ''x''] @ hex_digits 2 (byte c) @ ?rest)
          = Some (byte c, False, ?rest)"
        by (simp add: unquote_escape_def)
      from unquote_loop_step [OF this] IH q w show ?thesis
        by (simp add: emit_rune_def s del: decode_rune.simps hex_digits.simps)
    next
      case good: False
      obtain m where m: "UnquoteChar (escape_rune pr ?r @ ?rest) = Some (?r, m, ?rest)"
        "emit_rune ?r m = encode_valid ?r"
        "hd (escape_rune pr ?r @ ?rest) \<noteq> CHR 0x22" "hd (escape_rune pr ?r @ ?rest) \<noteq> CHR 0x0A"
        "escape_rune pr ?r \<noteq> []"
        by (rule UnquoteChar_escape_rune [OF decode_rune_encode(1) [OF False good]])
      then show ?thesis
        using unquote_loop_step [OF m(1) _ m(3,4)] IH good False decode_rune_encode(2) [OF False good]
        by (simp add: quote_body.simps [of pr s])
    qed
  qed
qed

text \<open>\<open>Unquote\<close> inverts \<open>AppendQuote\<close> on every byte string, valid UTF-8 or not.\<close>

lemma Unquote_AppendQuote: "Unquote (CHR 0x22 # quote_body pr s @ [CHR 0x22]) = Some s"
  using unquote_loop_quote_body [of pr s "[]"] by (simp add: Unquote_def)

section \<open>Go quoting against JSON\<close>

text \<open>
  The strings whose Go quoting is a JSON string: valid UTF-8, without the characters for
  which Go writes \<open>\a\<close>, \<open>\v\<close>, \<open>\xNN\<close> or \<open>\UNNNNNNNN\<close>.
\<close>

definition json_quotable_rune :: "(nat \<Rightarrow> bool) \<Rightarrow> nat \<Rightarrow> bool" where
  "json_quotable_rune pr r \<longleftrightarrow>
     r \<in> {8, 9, 10, 12, 13} \<or> is_print pr r \<or> (128 \<le> r \<and> r < 0x10000)"

function json_quotable :: "(nat \<Rightarrow> bool) \<Rightarrow> bytes \<Rightarrow> bool" where
  "json_quotable pr s =
     (if s = [] then True
      else if bad_rune (decode_rune s) then False
      else if \<not> json_quotable_rune pr (fst (decode_rune s)) then False
      else json_quotable pr (drop (snd (decode_rune s)) s))"
  by pat_completeness auto
termination
proof (relation "measure (\<lambda>(pr, s). length s)", goal_cases)
  case (2 pr s)
  then show ?case using decode_rune_width_pos [of s] by (cases s) auto
qed simp

declare json_quotable.simps [simp del]

inductive_simps string_body_simps [simp]: "string_body []" "string_body (c # s)"

lemma string_body_plain:
  "(\<forall>c\<in>set u. 32 \<le> byte c \<and> c \<noteq> CHR 0x22 \<and> c \<noteq> CHR 0x5C) \<Longrightarrow> string_body (u @ t) \<longleftrightarrow> string_body t"
  by (induction u) auto

lemma encode_valid_high:
  assumes "valid_rune r" "128 \<le> r" "c \<in> set (encode_valid r)"
  shows "128 \<le> byte c"
proof -
  obtain d u where d: "encode_valid r = d # u" "128 \<le> byte d"
    by (rule encode_valid_head [OF assms(1,2)])
  have "c \<in> set u \<Longrightarrow> 128 \<le> byte c"
  proof -
    assume c: "c \<in> set u"
    have *: "128 \<le> byte (char_of (128 + n mod 64))" for n :: nat
    proof -
      have "n mod 64 < 64" by simp
      then have "byte (char_of (128 + n mod 64)) = 128 + n mod 64" by (intro byte_char_of) linarith
      then show ?thesis by simp
    qed
    show ?thesis
      using c d(1) assms(2) * by (auto simp: encode_valid_def simp del: of_char_of split: if_split_asm)
  qed
  with assms(3) d show ?thesis by auto
qed

lemma hex_digit_hex [simp]: "n < 16 \<Longrightarrow> isJSONHex (hex_digit n)"
  by (auto simp: hex_digit_def isJSONHex_def)


lemma length_hex_digits: "length (hex_digits k n) = k"
  by (induction k arbitrary: n) simp_all

lemma hex_digits_4:
  obtains h1 h2 h3 h4 where "hex_digits 4 n = [h1, h2, h3, h4]"
    "isJSONHex h1" "isJSONHex h2" "isJSONHex h3" "isJSONHex h4"
proof -
  have 4: "4 = Suc (Suc (Suc (Suc 0)))" by simp
  show thesis by (rule that) (unfold 4 hex_digits.simps append_Nil append_Cons, rule refl, simp_all)
qed

lemma not_simple_escapes [simp]:
  "\<not> is_simple_escape CHR ''a''" "\<not> is_simple_escape CHR ''v''" "\<not> is_simple_escape CHR ''x''"
  "\<not> is_simple_escape CHR ''U''"
  by (simp_all add: is_simple_escape_def)

lemma simple_escapes [simp]:
  "is_simple_escape CHR ''b''" "is_simple_escape CHR ''f''" "is_simple_escape CHR ''n''"
  "is_simple_escape CHR ''r''" "is_simple_escape CHR ''t''" "is_simple_escape CHR 0x22"
  "is_simple_escape CHR 0x5C"
  by (simp_all add: is_simple_escape_def)

lemma encode_plain:
  assumes "valid_rune r" "is_print pr r" "r \<noteq> 34" "r \<noteq> 92" "c \<in> set (encode_valid r)"
  shows "32 \<le> byte c \<and> c \<noteq> CHR 0x22 \<and> c \<noteq> CHR 0x5C"
proof (cases "r < 128")
  case True
  then have "c = char_of r" "32 \<le> r" using assms by (simp_all add: encode_valid_def is_print_def)
  moreover from this True have "byte c = r" by simp
  ultimately have "byte c \<noteq> 34" "byte c \<noteq> 92" "32 \<le> byte c" using assms(3,4) by auto
  then show ?thesis by auto
next
  case False
  then have "128 \<le> byte c" using encode_valid_high [OF assms(1) _ assms(5)] by simp
  then show ?thesis by auto
qed

lemma string_body_escape_rune:
  assumes "valid_rune r"
  shows "string_body (escape_rune pr r @ t) \<longleftrightarrow> json_quotable_rune pr r \<and> string_body t"
proof -
  consider (quote) "r = 34 \<or> r = 92"
    | (printable) "r \<noteq> 34" "r \<noteq> 92" "is_print pr r"
    | (named) "\<not> is_print pr r" "r \<in> {7, 8, 12, 10, 13, 9, 11}"
    | (ctrl) "\<not> is_print pr r" "r \<notin> {7, 8, 12, 10, 13, 9, 11}" "r < 32 \<or> r = 127"
    | (u4) "r \<noteq> 34" "r \<noteq> 92" "\<not> is_print pr r" "32 \<le> r" "r \<noteq> 127" "r < 0x10000"
    | (u8) "\<not> is_print pr r" "0x10000 \<le> r" by linarith
  then show ?thesis
  proof cases
    case quote
    then show ?thesis
      by (auto simp: escape_rune_def quote_chars json_quotable_rune_def is_print_def)
  next
    case printable
    then have e: "escape_rune pr r = encode_valid r" using assms by (simp add: escape_rune_def encode_rune_def)
    then show ?thesis
      using string_body_plain [of "encode_valid r" t] encode_plain [OF assms printable(3,1,2)] printable(3)
      by (simp add: json_quotable_rune_def)
  next
    case named
    then show ?thesis
      by (elim insertE emptyE; simp add: escape_rune_def json_quotable_rune_def is_print_def)
  next
    case ctrl
    then have "escape_rune pr r = [CHR 0x5C, CHR ''x''] @ hex_digits 2 r"
      by (auto simp: escape_rune_def simp del: hex_digits.simps)
    moreover have "\<not> json_quotable_rune pr r" using ctrl by (auto simp: json_quotable_rune_def)
    ultimately show ?thesis by simp
  next
    case u4
    then have "escape_rune pr r = [CHR 0x5C, CHR ''u''] @ hex_digits 4 r"
      using assms by (simp add: escape_rune_def)
    moreover have "json_quotable_rune pr r" using u4
      by (auto simp: json_quotable_rune_def is_print_def split: if_split_asm)
    moreover obtain h1 h2 h3 h4 where "hex_digits 4 r = [h1, h2, h3, h4]"
      "isJSONHex h1" "isJSONHex h2" "isJSONHex h3" "isJSONHex h4" by (rule hex_digits_4)
    ultimately show ?thesis by simp
  next
    case u8
    then have "escape_rune pr r = [CHR 0x5C, CHR ''U''] @ hex_digits 8 r"
      using assms by (simp add: escape_rune_def)
    moreover have "\<not> json_quotable_rune pr r" using u8 by (simp add: json_quotable_rune_def)
    ultimately show ?thesis by simp
  qed
qed

lemma string_body_quote_body: "string_body (quote_body pr s) \<longleftrightarrow> json_quotable pr s"
proof (induction pr s rule: quote_body.induct)
  case (1 pr s)
  show ?case
  proof (cases "s = [] \<or> bad_rune (decode_rune s)")
    case True
    then show ?thesis
      by (auto simp: quote_body.simps [of pr s] json_quotable.simps [of pr s])
  next
    case False
    with 1 decode_rune_encode(1) [of s] show ?thesis
      by (simp add: quote_body.simps [of pr s] json_quotable.simps [of pr s] string_body_escape_rune)
  qed
qed

lemma hex_digits_ascii: "c \<in> set (hex_digits k n) \<Longrightarrow> byte c < 128"
proof (induction k arbitrary: n)
  case (Suc k)
  have "n mod 16 < 16" by simp
  then have "byte (hex_digit (n mod 16)) < 128" by (auto simp: hex_digit_def)
  with Suc show ?case by auto
qed simp

lemma utf8_valid_hex [simp]: "utf8_valid (hex_digits k n)"
  by (rule utf8_valid_ascii) (rule hex_digits_ascii)

lemma utf8_valid_escape_rune: "utf8_valid (escape_rune pr r)"
  unfolding escape_rune_def
  by (auto simp: quote_chars utf8_valid_appendI simp del: hex_digits.simps)

lemma utf8_valid_quote_body: "utf8_valid (quote_body pr s)"
proof (induction pr s rule: quote_body.induct)
  case (1 pr s)
  then show ?case
    by (subst quote_body.simps)
      (simp add: utf8_valid_append utf8_valid_escape_rune del: hex_digits.simps)
qed

lemma plain_prefix:
  assumes "\<forall>c\<in>set u. 32 \<le> byte c \<and> c \<noteq> CHR 0x22 \<and> c \<noteq> CHR 0x5C" "string_body raw"
    "u @ q = raw @ CHR 0x22 # rest"
  shows "\<exists>raw'. raw = u @ raw' \<and> string_body raw'"
  using assms
proof (induction u arbitrary: raw)
  case (Cons c u)
  then obtain raw1 where raw: "raw = c # raw1" by (cases raw) auto
  with Cons.prems have "string_body raw1" by auto
  with Cons raw show ?case by auto
qed simp

lemma escape_rune_prefix:
  assumes "valid_rune r" "string_body raw" "escape_rune pr r @ q = raw @ CHR 0x22 # rest"
  shows "\<exists>raw'. raw = escape_rune pr r @ raw' \<and> string_body raw'"
proof (cases "r \<noteq> 34 \<and> r \<noteq> 92 \<and> is_print pr r")
  case True
  then have "escape_rune pr r = encode_valid r"
    using assms(1) by (simp add: escape_rune_def encode_rune_def)
  then show ?thesis
    using plain_prefix [of "encode_valid r" raw q rest] encode_plain [OF assms(1), of pr] True assms
    by auto
next
  case False
  have "\<exists>e u. escape_rune pr r = CHR 0x5C # e # u
      \<and> (is_simple_escape e \<and> u = [] \<or> e = CHR ''u'' \<and> length u = 4
         \<or> \<not> is_simple_escape e \<and> e \<noteq> CHR ''u'')"
  proof (cases "r = 34 \<or> r = 92")
    case True
    then show ?thesis by (elim disjE) (simp_all add: escape_rune_def quote_chars)
  next
    case not_quote: False
    with False have "\<not> is_print pr r" by blast
    with not_quote show ?thesis by (simp add: escape_rune_def length_hex_digits del: hex_digits.simps)
  qed
  then obtain e u where eu: "escape_rune pr r = CHR 0x5C # e # u"
    "is_simple_escape e \<and> u = [] \<or> e = CHR ''u'' \<and> length u = 4
       \<or> \<not> is_simple_escape e \<and> e \<noteq> CHR ''u''" by blast
  with assms(3) obtain raw1 where raw: "raw = CHR 0x5C # raw1"
    "e # u @ q = raw1 @ CHR 0x22 # rest" by (cases raw) auto
  have raw1: "(\<exists>s. raw1 = e # s \<and> is_simple_escape e \<and> string_body s)
      \<or> (\<exists>h1 h2 h3 h4 s. raw1 = CHR ''u'' # h1 # h2 # h3 # h4 # s \<and> string_body s)"
    using assms(2) raw by (cases raw1) auto
  show ?thesis
  proof (cases "is_simple_escape e")
    case True
    with eu(2) have "u = []" by auto
    with raw raw1 True eu(1) show ?thesis by auto
  next
    case nosimple: False
    with raw1 obtain h1 h2 h3 h4 s where h: "raw1 = CHR ''u'' # h1 # h2 # h3 # h4 # s" "string_body s"
      by blast
    with raw(2) eu(2) nosimple have "length u = 4" "u @ q = [h1, h2, h3, h4] @ s @ CHR 0x22 # rest"
      by auto
    then have "length u = length [h1, h2, h3, h4]" by simp
    with \<open>u @ q = _\<close> have "u = [h1, h2, h3, h4]" by (metis append_eq_append_conv)
    with h raw(1) raw(2) eu(1) show ?thesis by auto
  qed
qed

lemma quote_body_no_inner_quote:
  "string_body raw \<Longrightarrow> quote_body pr s @ CHR 0x22 # t = raw @ CHR 0x22 # rest
    \<Longrightarrow> raw = quote_body pr s"
proof (induction pr s arbitrary: raw rule: quote_body.induct)
  case (1 pr s)
  show ?case
  proof (cases "s = []")
    case True
    with "1.prems" show ?thesis by (cases raw) auto
  next
    case False
    let ?q = "quote_body pr (drop (snd (decode_rune s)) s)"
    show ?thesis
    proof (cases "bad_rune (decode_rune s)")
      case True
      with "1.prems" False have "CHR 0x5C # CHR ''x'' # hex_digits 2 (byte (hd s)) @ ?q @ CHR 0x22 # t
          = raw @ CHR 0x22 # rest"
        by (simp add: quote_body.simps [of pr s] del: hex_digits.simps)
      then obtain raw1 where "raw = CHR 0x5C # raw1" "CHR ''x'' # hex_digits 2 (byte (hd s)) @ ?q @ CHR 0x22 # t
          = raw1 @ CHR 0x22 # rest" by (cases raw) auto
      with "1.prems"(1) show ?thesis by (cases raw1) auto
    next
      case good: False
      let ?e = "escape_rune pr (fst (decode_rune s))"
      have q: "quote_body pr s = ?e @ ?q"
        using good False by (subst quote_body.simps) simp
      have e: "?e @ ?q @ CHR 0x22 # t = raw @ CHR 0x22 # rest"
        using "1.prems"(2) q by simp
      from escape_rune_prefix [OF decode_rune_encode(1) [OF False good] "1.prems"(1) e]
      obtain raw' where "raw = ?e @ raw'" "string_body raw'" by blast
      with e q show ?thesis using "1.IH" [OF False, of raw'] by simp
    qed
  qed
qed

lemma scan_AppendQuote_at:
  "scanJSONString (p @ AppendQuote pr s @ t) (length p) =
     (if json_quotable pr s
      then Some (quote_body pr s, CHR 0x5C \<in> set (quote_body pr s), length (p @ AppendQuote pr s))
      else None)"
proof (cases "json_quotable pr s")
  case True
  then show ?thesis
    using scanJSONString_complete [of "quote_body pr s" p t]
    by (simp add: AppendQuote_def utf8_valid_quote_body string_body_quote_body)
next
  case False
  let ?b = "p @ AppendQuote pr s @ t"
  have "scanJSONString ?b (length p) \<noteq> Some (raw, e, n)" for raw e n
  proof
    assume a: "scanJSONString ?b (length p) = Some (raw, e, n)"
    note snd = scanJSONString_sound [OF a]
    have "slice ?b (length p) n @ drop n ?b = AppendQuote pr s @ t"
      using snd(1) append_take_drop_id [of "n - length p" "AppendQuote pr s @ t"]
      by (simp add: slice_def)
    then have "quote_body pr s @ CHR 0x22 # t = raw @ CHR 0x22 # drop n ?b"
      using snd(3) by (simp add: AppendQuote_def)
    from quote_body_no_inner_quote [OF snd(4) this] have "raw = quote_body pr s" .
    with snd(4) False show False using string_body_quote_body [of pr s] by metis
  qed
  with False show ?thesis by (cases "scanJSONString ?b (length p)") auto
qed

end
