(* ===== verification/Rpc_Codec.thy ===== *)
theory Rpc_Codec
  imports Go_Strconv
begin

text \<open>
  The JSON-RPC codec of \<open>rpc.go\<close>: the message record, \<open>appendRPCMessage\<close> with its fast
  paths, \<open>parseRPCMessage\<close>, the raw-message helpers and the line framing. Decoding the
  \<open>error\<close> member is \<open>json.Unmarshal\<close> into \<open>RPCError\<close>: the parameter \<open>dec\<close>.
\<close>

record rpc_error =
  re_code :: int
  re_message :: bytes
  re_data :: bytes

record rpc_message =
  rm_jsonrpc :: bytes
  rm_id :: bytes
  rm_method :: bytes
  rm_params :: bytes
  rm_result :: bytes
  rm_error :: "rpc_error option"

definition empty_message :: rpc_message where
  "empty_message = \<lparr>rm_jsonrpc = [], rm_id = [], rm_method = [], rm_params = [],
     rm_result = [], rm_error = None\<rparr>"

section \<open>Writing\<close>

text \<open>The state of the field writers: the buffer and the flag \<open>first\<close>.\<close>

definition appendFieldPrefix :: "bytes \<times> bool \<Rightarrow> bytes \<Rightarrow> bytes \<times> bool" where
  "appendFieldPrefix st name =
     ((if snd st then fst st else fst st @ '','') @ CHR 0x22 # name @ [CHR 0x22, CHR '':''], False)"

definition appendRawField :: "bytes \<times> bool \<Rightarrow> bytes \<Rightarrow> bytes \<Rightarrow> bytes \<times> bool" where
  "appendRawField st name v =
     (let st = appendFieldPrefix st name in (fst st @ v, snd st))"

definition appendStringField ::
  "(nat \<Rightarrow> bool) \<Rightarrow> bytes \<times> bool \<Rightarrow> bytes \<Rightarrow> bytes \<Rightarrow> bytes \<times> bool" where
  "appendStringField pr st name v =
     (let st = appendFieldPrefix st name in (fst st @ AppendQuote pr v, snd st))"

definition known_methods :: "bytes list" where
  "known_methods =
     [''authenticate'', ''fs/read_text_file'', ''fs/write_text_file'', ''initialize'', ''logout'',
      ''session/cancel'', ''session/close'', ''session/delete'', ''session/fork'', ''session/list'',
      ''session/load'', ''session/new'', ''session/prompt'', ''session/request_permission'',
      ''session/resume'', ''session/set_config_option'', ''session/set_mode'', ''session/update'',
      ''terminal/create'', ''terminal/kill'', ''terminal/output'', ''terminal/release'',
      ''terminal/wait_for_exit'']"

text \<open>The table of \<open>appendMethodValue\<close> writes the listed methods without escaping.\<close>

definition appendMethodValue :: "(nat \<Rightarrow> bool) \<Rightarrow> bytes \<Rightarrow> bytes \<Rightarrow> bytes" where
  "appendMethodValue pr dst m =
     (if m \<in> set known_methods then dst @ CHR 0x22 # m @ [CHR 0x22] else dst @ AppendQuote pr m)"

definition appendMethodField :: "(nat \<Rightarrow> bool) \<Rightarrow> bytes \<times> bool \<Rightarrow> bytes \<Rightarrow> bytes \<times> bool" where
  "appendMethodField pr st m =
     (let st = appendFieldPrefix st ''method'' in (appendMethodValue pr (fst st) m, snd st))"

definition appendRPCError :: "(nat \<Rightarrow> bool) \<Rightarrow> bytes \<Rightarrow> rpc_error \<Rightarrow> bytes" where
  "appendRPCError pr dst e =
     (let st = appendFieldPrefix (dst @ ''{'', True) ''code'';
          st = (fst st @ int_decimal (re_code e), snd st);
          st = appendStringField pr st ''message'' (re_message e);
          st = (if re_data e \<noteq> [] then appendRawField st ''data'' (re_data e) else st)
      in fst st @ ''}'')"

text \<open>The general path of \<open>appendRPCMessage\<close>, after the fast paths.\<close>

definition append_fields :: "(nat \<Rightarrow> bool) \<Rightarrow> bytes \<Rightarrow> rpc_message \<Rightarrow> bytes" where
  "append_fields pr dst msg =
     (let st = (dst @ ''{'', True);
          st = (if rm_jsonrpc msg \<noteq> [] then appendStringField pr st ''jsonrpc'' (rm_jsonrpc msg) else st);
          st = (if rm_id msg \<noteq> [] then appendRawField st ''id'' (rm_id msg) else st);
          st = (if rm_method msg \<noteq> [] then appendMethodField pr st (rm_method msg) else st);
          st = (if rm_params msg \<noteq> [] then appendRawField st ''params'' (rm_params msg) else st);
          st = (if rm_result msg \<noteq> [] then appendRawField st ''result'' (rm_result msg) else st);
          st = (case rm_error msg of
                  None \<Rightarrow> st
                | Some e \<Rightarrow>
                   (let st = appendFieldPrefix st ''error'' in (appendRPCError pr (fst st) e, snd st)))
      in fst st @ ''}'')"

abbreviation qstr :: "bytes \<Rightarrow> bytes" where
  "qstr s \<equiv> CHR 0x22 # s @ [CHR 0x22]"

definition appendRPCMessage :: "(nat \<Rightarrow> bool) \<Rightarrow> bytes \<Rightarrow> rpc_message \<Rightarrow> bytes" where
  "appendRPCMessage pr dst msg =
     (if rm_jsonrpc msg = ''2.0'' \<and> rm_error msg = None
         \<and> rm_id msg = [] \<and> rm_method msg \<noteq> [] \<and> rm_params msg \<noteq> [] \<and> rm_result msg = [] then
        appendMethodValue pr
          (dst @ ''{'' @ qstr ''jsonrpc'' @ '':'' @ qstr ''2.0'' @ '','' @ qstr ''method'' @ '':'')
          (rm_method msg)
        @ '','' @ qstr ''params'' @ '':'' @ rm_params msg @ ''}''
      else if rm_jsonrpc msg = ''2.0'' \<and> rm_error msg = None
         \<and> rm_id msg \<noteq> [] \<and> rm_method msg \<noteq> [] \<and> rm_params msg \<noteq> [] \<and> rm_result msg = [] then
        appendMethodValue pr
          (dst @ ''{'' @ qstr ''jsonrpc'' @ '':'' @ qstr ''2.0'' @ '','' @ qstr ''id'' @ '':'' @ rm_id msg
           @ '','' @ qstr ''method'' @ '':'')
          (rm_method msg)
        @ '','' @ qstr ''params'' @ '':'' @ rm_params msg @ ''}''
      else if rm_jsonrpc msg = ''2.0'' \<and> rm_error msg = None
         \<and> rm_id msg \<noteq> [] \<and> rm_method msg = [] \<and> rm_result msg \<noteq> [] then
        dst @ ''{'' @ qstr ''jsonrpc'' @ '':'' @ qstr ''2.0'' @ '','' @ qstr ''id'' @ '':'' @ rm_id msg
        @ '','' @ qstr ''result'' @ '':'' @ rm_result msg @ ''}''
      else append_fields pr dst msg)"

section \<open>Reading\<close>

datatype rpcField = FieldUnknown | FieldID | FieldMethod | FieldParams | FieldResult | FieldError

text \<open>\<open>matchRPCField\<close> and \<open>matchRPCFieldString\<close> decide by equality with the same names.\<close>

definition matchRPCField :: "bytes \<Rightarrow> rpcField" where
  "matchRPCField key =
     (if length key = 2 then (if key = ''id'' then FieldID else FieldUnknown)
      else if length key = 5 then (if key = ''error'' then FieldError else FieldUnknown)
      else if length key = 6 then
        (if key = ''method'' then FieldMethod
         else if key = ''params'' then FieldParams
         else if key = ''result'' then FieldResult
         else FieldUnknown)
      else FieldUnknown)"

definition matchRPCFieldString :: "bytes \<Rightarrow> rpcField" where
  "matchRPCFieldString key =
     (if key = ''id'' then FieldID
      else if key = ''method'' then FieldMethod
      else if key = ''params'' then FieldParams
      else if key = ''result'' then FieldResult
      else if key = ''error'' then FieldError
      else FieldUnknown)"

definition unquoteJSONString :: "bytes \<Rightarrow> bool \<Rightarrow> bytes option" where
  "unquoteJSONString raw escaped =
     (if \<not> escaped then Some raw else Unquote (CHR 0x22 # raw @ [CHR 0x22]))"

definition canonicalRPCMethod :: "bytes \<Rightarrow> bytes" where
  "canonicalRPCMethod raw =
     (case find (\<lambda>m. m = raw)
        [''session/update'', ''session/prompt'', ''session/cancel'', ''initialize'', ''authenticate'',
         ''logout'', ''session/new'', ''session/load'', ''session/resume'', ''session/fork'',
         ''session/list'', ''session/set_mode'', ''session/set_config_option'', ''session/close'',
         ''session/delete'', ''session/request_permission'', ''fs/read_text_file'',
         ''fs/write_text_file'', ''terminal/create'', ''terminal/output'', ''terminal/wait_for_exit'',
         ''terminal/kill'', ''terminal/release'']
      of Some m \<Rightarrow> m | None \<Rightarrow> raw)"

definition parseRPCMethodValue :: "bytes \<Rightarrow> bytes option" where
  "parseRPCMethodValue v =
     (case scanJSONString v 0 of
        None \<Rightarrow> None
      | Some (raw, escaped, n) \<Rightarrow>
         (if skipJSONSpace v n \<noteq> length v then None
          else if \<not> escaped then Some (canonicalRPCMethod raw)
          else unquoteJSONString raw True))"

text \<open>The field of a member name, and the effect of a member on the message.\<close>

definition field_of_key :: "bytes \<Rightarrow> bool \<Rightarrow> rpcField option" where
  "field_of_key key escaped =
     (if \<not> escaped then Some (matchRPCField key)
      else map_option matchRPCFieldString (unquoteJSONString key True))"

fun set_field ::
  "(bytes \<Rightarrow> rpc_error option) \<Rightarrow> rpcField \<Rightarrow> bytes \<Rightarrow> rpc_message \<Rightarrow> rpc_message option" where
  "set_field dec FieldID v msg = Some (msg\<lparr>rm_id := v\<rparr>)"
| "set_field dec FieldMethod v msg = map_option (\<lambda>m. msg\<lparr>rm_method := m\<rparr>) (parseRPCMethodValue v)"
| "set_field dec FieldParams v msg = Some (msg\<lparr>rm_params := v\<rparr>)"
| "set_field dec FieldResult v msg = Some (msg\<lparr>rm_result := v\<rparr>)"
| "set_field dec FieldError v msg = map_option (\<lambda>e. msg\<lparr>rm_error := Some e\<rparr>) (dec v)"
| "set_field dec FieldUnknown v msg = Some msg"

function parse_fields ::
  "(bytes \<Rightarrow> rpc_error option) \<Rightarrow> bytes \<Rightarrow> nat \<Rightarrow> rpc_message \<Rightarrow> rpc_message option" where
  "parse_fields dec b i msg =
     (let i = skipJSONSpace b i in
      if length b \<le> i then None
      else if b ! i = CHR ''}'' then
        (if skipJSONSpace b (i + 1) = length b then Some msg else None)
      else case scanJSONString b i of
             None \<Rightarrow> None
           | Some (key, escaped, n) \<Rightarrow>
              (let j = skipJSONSpace b n in
               if length b \<le> j then None
               else if b ! j \<noteq> CHR '':'' then None
               else
                let vs = skipJSONSpace b (j + 1) in
                case scanJSONValue b vs of
                  None \<Rightarrow> None
                | Some ve \<Rightarrow>
                   (case Option.bind (field_of_key key escaped)
                           (\<lambda>f. set_field dec f (trimJSONSpace (slice b vs ve)) msg) of
                      None \<Rightarrow> None
                    | Some msg' \<Rightarrow>
                       (let k = skipJSONSpace b ve in
                        if length b \<le> k then None
                        else if b ! k = CHR '','' then
                          (let nx = skipJSONSpace b (k + 1) in
                           if (if nx < length b then b ! nx = CHR ''}'' else False) then None
                           else parse_fields dec b (k + 1) msg')
                        else if b ! k = CHR ''}'' then
                          (if skipJSONSpace b (k + 1) = length b then Some msg' else None)
                        else None))))"
  by pat_completeness auto


termination
proof (relation "measure (\<lambda>(dec, b, i, msg). length b - i)", goal_cases)
  case (2 dec b i msg i' x2 key y esc n j vs ve msg' k nx)
  then have "i \<le> i'" "i' < n" "n \<le> j" "j + 1 \<le> vs" "vs < ve" "ve \<le> k" "k < length b"
    using skip_ge scanJSONString_progress scan_value_progress
    by (auto simp: scanJSONValue_def)
  then show ?case by simp
qed simp

declare parse_fields.simps [simp del]

definition parseRPCMessage :: "(bytes \<Rightarrow> rpc_error option) \<Rightarrow> bytes \<Rightarrow> rpc_message option" where
  "parseRPCMessage dec line =
     (let line = trimJSONSpace line in
      if length line < 2 \<or> line ! 0 \<noteq> CHR ''{'' then None
      else parse_fields dec line 1 empty_message)"

section \<open>Raw messages\<close>

definition normalizeRaw :: "bytes \<Rightarrow> bytes" where
  "normalizeRaw raw = (if raw = [] then ''null'' else raw)"

text \<open>A \<open>nil\<close> slice and an empty one are both \<open>[]\<close>: the code only asks for the length.\<close>

definition copyRawMessage :: "bytes \<Rightarrow> bytes" where
  "copyRawMessage raw = (if raw = [] then [] else [] @ raw)"

text \<open>A value of type \<open>any\<close>: \<open>nil\<close>, a raw message, or a value that \<open>json.Marshal\<close> encodes
  or refuses.\<close>

datatype go_any = AnyNil | AnyRaw bytes | AnyValue "bytes + bytes"

fun marshalRaw :: "go_any \<Rightarrow> bytes + bytes" where
  "marshalRaw AnyNil = Inr (normalizeRaw [])"
| "marshalRaw (AnyRaw raw) = Inr (normalizeRaw raw)"
| "marshalRaw (AnyValue m) = (case m of Inl err \<Rightarrow> Inl err | Inr b \<Rightarrow> Inr b)"

section \<open>Lines\<close>

definition defaultRPCReadBufferSize :: nat where
  "defaultRPCReadBufferSize = 64 * 1024"

definition maxRPCMessageSize :: nat where
  "maxRPCMessageSize = 16 * 1024 * 1024"

definition trimLineEnding :: "bytes \<Rightarrow> bytes" where
  "trimLineEnding line =
     (let line = (if line \<noteq> [] \<and> last line = CHR 0x0A then butlast line else line)
      in if line \<noteq> [] \<and> last line = CHR 0x0D then butlast line else line)"

datatype read_status = ReadOk | BufferFull | ReadEOF

text \<open>
  \<open>bufio.Reader.ReadSlice\<close> for newline, on the bytes the stream still holds before it ends:
  up to the newline when the buffer can hold it, a full buffer otherwise, or what is left
  with \<open>io.EOF\<close>. The rest of the stream is returned with it.
\<close>

definition ReadSlice :: "nat \<Rightarrow> bytes \<Rightarrow> bytes \<times> read_status \<times> bytes" where
  "ReadSlice n s =
     (let l = takeWhile (\<lambda>c. c \<noteq> CHR 0x0A) (take n s) in
      if length l < length (take n s) then (l @ [CHR 0x0A], ReadOk, drop (length l + 1) s)
      else if n \<le> length s then (take n s, BufferFull, drop n s)
      else (s, ReadEOF, []))"

datatype read_error = ErrTooLarge | ErrEOF

text \<open>\<open>line\<close> holds the chunks read so far; it is \<open>nil\<close> exactly while it is empty.\<close>

function readMessageLine :: "bytes \<Rightarrow> bytes \<Rightarrow> bytes \<times> read_error option \<times> bytes" where
  "readMessageLine line s =
     (case ReadSlice defaultRPCReadBufferSize s of (chunk, status, rest) \<Rightarrow>
       (if chunk \<noteq> [] \<and> line = [] \<and> status = ReadOk then (trimLineEnding chunk, None, rest)
        else if chunk \<noteq> [] \<and> maxRPCMessageSize < length (line @ chunk) then ([], Some ErrTooLarge, rest)
        else if status = ReadOk then (trimLineEnding (line @ chunk), None, rest)
        else if status = BufferFull then readMessageLine (line @ chunk) rest
        else if line @ chunk \<noteq> [] then (trimLineEnding (line @ chunk), Some ErrEOF, rest)
        else ([], Some ErrEOF, rest)))"
  by pat_completeness auto
termination
  by (relation "measure (\<lambda>(line, s). length s)")
    (auto simp: ReadSlice_def Let_def defaultRPCReadBufferSize_def split: if_splits)

declare readMessageLine.simps [simp del]


section \<open>What is written\<close>

lemma quote_body_plain:
  "(\<forall>c\<in>set s. 32 \<le> byte c \<and> byte c < 127 \<and> byte c \<noteq> 34 \<and> byte c \<noteq> 92) \<Longrightarrow> quote_body pr s = s"
proof (induction s)
  case (Cons c s)
  then have c: "32 \<le> byte c" "byte c < 127" "byte c \<noteq> 34" "byte c \<noteq> 92" by auto
  then have "decode_rune (c # s) = (byte c, 1)" by simp
  moreover have "escape_rune pr (byte c) = [c]"
    using c by (simp add: escape_rune_def is_print_def encode_rune_def valid_rune_def encode_valid_def)
  moreover have "\<not> bad_rune (byte c, 1)" using c by (simp add: bad_rune_def)
  ultimately have "quote_body pr (c # s) = [c] @ quote_body pr s"
    by (subst quote_body.simps) (simp del: decode_rune.simps)
  with Cons show ?case by simp
qed simp

lemma AppendQuote_plain:
  "(\<forall>c\<in>set s. 32 \<le> byte c \<and> byte c < 127 \<and> byte c \<noteq> 34 \<and> byte c \<noteq> 92) \<Longrightarrow> AppendQuote pr s = qstr s"
  by (simp add: AppendQuote_def quote_body_plain)

definition ascii_plain :: "bytes \<Rightarrow> bool" where
  "ascii_plain s = list_all (\<lambda>c. 32 \<le> byte c \<and> byte c < 127 \<and> byte c \<noteq> 34 \<and> byte c \<noteq> 92) s"

lemma AppendQuote_ascii_plain: "ascii_plain s \<Longrightarrow> AppendQuote pr s = qstr s"
  by (rule AppendQuote_plain) (auto simp: ascii_plain_def list_all_iff)

lemma known_methods_plain: "m \<in> set known_methods \<Longrightarrow> ascii_plain m"
proof -
  have "list_all ascii_plain known_methods" by code_simp
  then show "m \<in> set known_methods \<Longrightarrow> ascii_plain m" by (simp add: list_all_iff)
qed

text \<open>The method table changes nothing: it writes what quoting the method writes.\<close>

lemma appendMethodValue_eq: "appendMethodValue pr dst m = dst @ AppendQuote pr m"
  by (simp add: appendMethodValue_def AppendQuote_ascii_plain known_methods_plain)

text \<open>An object as the list of its members.\<close>

definition member_text :: "bytes \<times> bytes \<Rightarrow> bytes" where
  "member_text f = qstr (fst f) @ '':'' @ snd f"

definition members_text :: "(bytes \<times> bytes) list \<Rightarrow> bytes" where
  "members_text fs = str_join (map member_text fs) '',''"

definition object_text :: "(bytes \<times> bytes) list \<Rightarrow> bytes" where
  "object_text fs = ''{'' @ members_text fs @ ''}''"

definition fields_state :: "bytes \<Rightarrow> (bytes \<times> bytes) list \<Rightarrow> bytes \<times> bool" where
  "fields_state dst fs = (dst @ ''{'' @ members_text fs, fs = [])"

lemma str_join_snoc: "str_join (xs @ [x]) sep = (if xs = [] then x else str_join xs sep @ sep @ x)"
  by (induction xs sep rule: str_join.induct) auto

lemma members_text_snoc:
  "members_text (fs @ [f]) = (if fs = [] then member_text f else members_text fs @ '','' @ member_text f)"
  by (simp add: members_text_def str_join_snoc)

lemma members_text_Cons:
  "members_text (f # fs) = member_text f @ (if fs = [] then [] else '','' @ members_text fs)"
  by (cases fs) (simp_all add: members_text_def)

lemma members_text_Nil [simp]: "members_text [] = []"
  by (simp add: members_text_def)

lemma fields_state_Nil: "fields_state dst [] = (dst @ ''{'', True)"
  by (simp add: fields_state_def members_text_def)

lemma appendRawField_state:
  "appendRawField (fields_state dst fs) n v = fields_state dst (fs @ [(n, v)])"
  by (simp add: appendRawField_def appendFieldPrefix_def fields_state_def members_text_snoc
      member_text_def Let_def)

lemma appendStringField_eq: "appendStringField pr st n v = appendRawField st n (AppendQuote pr v)"
  by (simp add: appendStringField_def appendRawField_def)

lemma appendMethodField_eq: "appendMethodField pr st m = appendRawField st ''method'' (AppendQuote pr m)"
  by (simp add: appendMethodField_def appendRawField_def appendMethodValue_eq)

definition error_fields :: "(nat \<Rightarrow> bool) \<Rightarrow> rpc_error \<Rightarrow> (bytes \<times> bytes) list" where
  "error_fields pr e =
     [(''code'', int_decimal (re_code e)), (''message'', AppendQuote pr (re_message e))]
     @ (if re_data e = [] then [] else [(''data'', re_data e)])"

lemma appendRPCError_eq: "appendRPCError pr dst e = dst @ object_text (error_fields pr e)"
proof -
  have 1: "(fst (appendFieldPrefix st n) @ v, snd (appendFieldPrefix st n)) = appendRawField st n v" for st n v
    by (simp add: appendRawField_def Let_def)
  show ?thesis
    unfolding appendRPCError_def Let_def fields_state_Nil [symmetric] 1 appendStringField_eq
      appendRawField_state
    by (simp add: fields_state_def object_text_def error_fields_def)
qed

definition message_fields :: "(nat \<Rightarrow> bool) \<Rightarrow> rpc_message \<Rightarrow> (bytes \<times> bytes) list" where
  "message_fields pr msg =
     (if rm_jsonrpc msg = [] then [] else [(''jsonrpc'', AppendQuote pr (rm_jsonrpc msg))])
     @ (if rm_id msg = [] then [] else [(''id'', rm_id msg)])
     @ (if rm_method msg = [] then [] else [(''method'', AppendQuote pr (rm_method msg))])
     @ (if rm_params msg = [] then [] else [(''params'', rm_params msg)])
     @ (if rm_result msg = [] then [] else [(''result'', rm_result msg)])
     @ (case rm_error msg of None \<Rightarrow> []
        | Some e \<Rightarrow> [(''error'', object_text (error_fields pr e))])"

lemma opt_field:
  "(if P then appendRawField (fields_state dst fs) n v else fields_state dst fs)
   = fields_state dst (fs @ (if P then [(n, v)] else []))"
  by (simp add: appendRawField_state)

lemma opt_error:
  "(case er of None \<Rightarrow> fields_state dst fs
    | Some e \<Rightarrow> (let st = appendFieldPrefix (fields_state dst fs) ''error''
        in (appendRPCError pr (fst st) e, snd st)))
   = fields_state dst (fs @ (case er of None \<Rightarrow> []
        | Some e \<Rightarrow> [(''error'', object_text (error_fields pr e))]))"
proof (cases er)
  case (Some e)
  then show ?thesis
    using appendRawField_state [of dst fs "''error''" "object_text (error_fields pr e)"]
    by (simp add: appendRPCError_eq appendRawField_def Let_def)
qed simp

lemma append_fields_eq: "append_fields pr dst msg = dst @ object_text (message_fields pr msg)"
proof -
  have "append_fields pr dst msg = fst (fields_state dst (message_fields pr msg)) @ ''}''"
    unfolding append_fields_def appendStringField_eq appendMethodField_eq
    apply (simp only: Let_def [where s = "(dst @ ''{'', True)"] fields_state_Nil [symmetric])
    apply (subst Let_def, subst opt_field)+
    apply (subst (1) Let_def, subst opt_error)
    apply (simp add: message_fields_def)
    done
  then show ?thesis by (simp add: fields_state_def object_text_def)
qed


lemma appendRPCMessage_object:
  assumes "rm_method msg = [] \<Longrightarrow> rm_params msg = []"
  shows "appendRPCMessage pr dst msg = dst @ object_text (message_fields pr msg)"
proof -
  have v: "AppendQuote pr ''2.0'' = qstr ''2.0''"
    by (rule AppendQuote_ascii_plain) (simp add: ascii_plain_def)
  show ?thesis
    using assms
    by (auto simp: appendRPCMessage_def appendMethodValue_eq message_fields_def object_text_def
        members_text_Cons member_text_def v append_fields_eq)
qed




section \<open>What is read\<close>

lemma json_value_last:
  assumes "json_value d v"
  shows "\<not> is_json_ws (last v)"
  using assms
proof (cases rule: json_value.cases)
  case val_literal
  then have v: "isValidJSONLiteral v" by (simp add: isValidJSONLiteral_iff)
  then have "v \<noteq> []" by (auto simp: isValidJSONLiteral_def)
  with literal_no_delim [OF v, of "last v"] ws_delim show ?thesis by auto
qed simp_all

lemma json_value_trim: "json_value d v \<Longrightarrow> trimJSONSpace v = v"
  using json_value_hd [of d v] json_value_last [of d v] ws_delim [of "hd v"]
  by (intro trimJSONSpace_id) auto

lemma parse_fields_member:
  assumes n: "ascii_plain n" and v: "json_value 0 v" and c: "c = CHR '','' \<or> c = CHR ''}''"
    and set: "set_field dec (matchRPCField n) v msg = msg'"
    and b: "b = p @ member_text (n, v) @ c # t" and i: "i = length p"
  shows "parse_fields dec b i msg
    = (case msg' of None \<Rightarrow> None
       | Some m \<Rightarrow>
          (if c = CHR '','' then
            (let nx = skipJSONSpace b (i + length (member_text (n, v)) + 1) in
             if (if nx < length b then b ! nx = CHR ''}'' else False) then None
             else parse_fields dec b (i + length (member_text (n, v)) + 1) m)
           else if skipJSONSpace b (i + length (member_text (n, v)) + 1) = length b then Some m else None))"
proof -
  have nplain: "\<forall>x\<in>set n. 32 \<le> byte x \<and> x \<noteq> CHR 0x22 \<and> x \<noteq> CHR 0x5C"
    using n by (auto simp: ascii_plain_def list_all_iff)
  have body: "string_body n" using string_body_plain [OF nplain, of "[]"] by simp
  have u8: "utf8_valid n" using n by (intro utf8_valid_ascii) (auto simp: ascii_plain_def list_all_iff)
  have "CHR 0x5C \<notin> set n" using nplain by auto
  then have 1: "scanJSONString b i = Some (n, False, i + length n + 2)"
    using scanJSONString_complete [OF body u8, of p "CHR '':'' # v @ c # t"]
    by (simp add: b i member_text_def)
  obtain x u where xu: "v = x # u" "\<not> is_json_ws x" by (rule json_value_Cons [OF v])
  let ?q = "p @ qstr n"
  have b1: "b = ?q @ CHR '':'' # v @ c # t" and b2: "b = (?q @ '':'') @ v @ c # t"
    and b3: "b = (?q @ '':'' @ v) @ c # t" by (simp_all add: b member_text_def)
  have lq: "length ?q = i + length n + 2" by (simp add: i)
  have 2: "skipJSONSpace b (i + length n + 2) = i + length n + 2"
    using skip_ws_append [of "[]" "CHR '':'' # v @ c # t" ?q] b1 lq by simp
  have 3: "b ! (i + length n + 2) = CHR '':''" "i + length n + 2 < length b"
    using nth_append_length [of ?q "CHR '':''" "v @ c # t"] b1 lq by simp_all
  have 4: "skipJSONSpace b (i + length n + 2 + 1) = i + length n + 3"
    using skip_ws_append [of "[]" "v @ c # t" "?q @ '':''"] b2 lq xu by simp
  have 5: "scanJSONValue b (i + length n + 3) = Some (i + length n + 3 + length v)"
    using scan_complete(1) [OF v, of "c # t" "[]" "?q @ '':''"] b2 lq c
    by (auto simp: scanJSONValue_def add_ac eval_nat_numeral)
  have 6: "trimJSONSpace (slice b (i + length n + 3) (i + length n + 3 + length v)) = v"
    using slice_append_exact [of "?q @ '':''" v "c # t"] b2 lq json_value_trim [OF v]
    by (simp add: add_ac eval_nat_numeral)
  have len: "length (member_text (n, v)) = length n + 3 + length v" by (simp add: member_text_def)
  have cws: "\<not> is_json_ws c" using c by auto
  have 7: "skipJSONSpace b (i + length n + 3 + length v) = i + length n + 3 + length v"
    using skip_ws_append [of "[]" "c # t" "?q @ '':'' @ v"] b3 lq cws by (simp add: add_ac eval_nat_numeral)
  have 8: "b ! (i + length n + 3 + length v) = c" "i + length n + 3 + length v < length b"
    using nth_append_length [of "?q @ '':'' @ v" c t] b3 lq by (simp_all add: add_ac eval_nat_numeral)
  have 0: "skipJSONSpace b i = i" "b ! i = CHR 0x22" "i < length b"
    using skip_ws_append [of "[]" "qstr n @ CHR '':'' # v @ c # t" p] by (simp_all add: b i member_text_def)
  define j where "j = i + length n + 2"
  define vs where "vs = j + 1"
  define k where "k = vs + length v"
  have eqs: "i + length n + 2 = j" "i + length n + 3 = vs" "vs + length v = k"
    "i + length (member_text (n, v)) = k"
    by (simp_all add: j_def vs_def k_def len)
  note f = 1 [unfolded eqs] 2 [unfolded eqs] 3 [unfolded eqs] 4 [unfolded eqs] 5 [unfolded eqs]
    6 [unfolded eqs] 7 [unfolded eqs] 8 [unfolded eqs]
  have "parse_fields dec b i msg
    = (case Option.bind (field_of_key n False) (\<lambda>f. set_field dec f v msg) of
         None \<Rightarrow> None
       | Some m \<Rightarrow>
          (if c = CHR '','' then
            (let nx = skipJSONSpace b (k + 1) in
             if (if nx < length b then b ! nx = CHR ''}'' else False) then None
             else parse_fields dec b (k + 1) m)
           else if c = CHR ''}'' then (if skipJSONSpace b (k + 1) = length b then Some m else None)
           else None))"
    using 0 f by (subst parse_fields.simps) (simp add: Let_def not_le split: option.split)
  with c set show ?thesis
    unfolding eqs by (auto simp: field_of_key_def split: option.split)
qed

lemma member_text_hd: "member_text f = CHR 0x22 # tl (member_text f)"
  by (simp add: member_text_def)





section \<open>The written members are JSON\<close>


lemma json_value_AppendQuote: "json_quotable pr s \<Longrightarrow> json_value d (AppendQuote pr s)"
  using val_string [of "quote_body pr s" d]
  by (simp add: AppendQuote_def string_body_quote_body utf8_valid_quote_body)

lemma hd_nat_decimal: "0 < n \<Longrightarrow> hd (nat_decimal n) \<noteq> CHR ''0''"
proof (induction n rule: nat_decimal.induct)
  case (1 n)
  show ?case
  proof (cases "n < 10")
    case True
    then have "byte (digit_char n) = 48 + n" by (rule byte_digit_char)
    with 1 have "digit_char n \<noteq> CHR ''0''" by auto
    with True show ?thesis by (subst nat_decimal.simps) simp
  next
    case False
    with 1 show ?thesis by (subst nat_decimal.simps) simp
  qed
qed

lemma json_int_nat_decimal: "json_int (nat_decimal n)"
proof (cases "n = 0")
  case True
  have "nat_decimal 0 = ''0''"
    by (subst nat_decimal.simps) (simp add: digit_char_def, rule char_of_byteI, simp)
  with True show ?thesis by (simp add: json_int_def)
qed (simp add: json_int_def hd_nat_decimal)

lemma json_value_int_decimal: "json_value d (int_decimal n)"
proof -
  have "json_number (int_decimal n)"
    unfolding json_number_def
  proof (cases "n < 0")
    case True
    then show "\<exists>sg i f e. int_decimal n = sg @ i @ f @ e \<and> sg \<in> {[], ''-''} \<and> json_int i \<and> json_frac f \<and> json_exp e"
      using json_int_nat_decimal [of "nat (- n)"]
      by (intro exI [of _ "''-''"] exI [of _ "nat_decimal (nat (- n))"] exI [of _ "[]"])
        (simp add: int_decimal_def json_frac_def json_exp_def)
  next
    case False
    then show "\<exists>sg i f e. int_decimal n = sg @ i @ f @ e \<and> sg \<in> {[], ''-''} \<and> json_int i \<and> json_frac f \<and> json_exp e"
      using json_int_nat_decimal [of "nat n"]
      by - (rule exI [of _ "[]"], rule exI [of _ "nat_decimal (nat n)"], rule exI [of _ "[]"],
          rule exI [of _ "[]"], simp add: int_decimal_def json_frac_def json_exp_def)
  qed
  then show ?thesis by (simp add: val_literal)
qed

lemma escape_rune_no_backslash:
  "CHR 0x5C \<notin> set (escape_rune pr r) \<Longrightarrow> escape_rune pr r = encode_rune r"
  by (auto simp: escape_rune_def simp del: hex_digits.simps split: if_split_asm)

lemma quote_body_no_backslash: "CHR 0x5C \<notin> set (quote_body pr s) \<Longrightarrow> quote_body pr s = s"
proof (induction pr s rule: quote_body.induct)
  case (1 pr s)
  show ?case
  proof (cases "s = []")
    case False
    let ?w = "snd (decode_rune s)" and ?r = "fst (decode_rune s)"
    have good: "\<not> bad_rune (decode_rune s)"
      using "1.prems" False by (subst (asm) quote_body.simps) (auto split: if_splits)
    then have q: "quote_body pr s = escape_rune pr ?r @ quote_body pr (drop ?w s)"
      using False by (subst quote_body.simps) simp
    have "escape_rune pr ?r = encode_valid ?r"
      using escape_rune_no_backslash [of pr ?r] q "1.prems" decode_rune_encode(1) [OF False good]
      by (simp add: encode_rune_def)
    moreover have "quote_body pr (drop ?w s) = drop ?w s"
      using 1 False q by auto
    ultimately show ?thesis
      using q decode_rune_encode(2) [OF False good] by simp
  qed simp
qed

lemma canonicalRPCMethod_id [simp]: "canonicalRPCMethod raw = raw"
  unfolding canonicalRPCMethod_def by (auto split: option.split simp: find_Some_iff simp del: find.simps)


text \<open>A string member is read back exactly when it is quotable: the scanner then stops
  after it and unquoting gives the string; otherwise Go's escapes are not JSON and the
  scanner fails, whatever surrounds the member.\<close>

theorem string_field_read_back:
  "case scanJSONString (fst (appendStringField pr st name s) @ t)
          (length (fst (appendFieldPrefix st name))) of
     None \<Rightarrow> \<not> json_quotable pr s
   | Some (raw, escaped, n) \<Rightarrow>
       json_quotable pr s \<and> n = length (fst (appendStringField pr st name s))
       \<and> unquoteJSONString raw escaped = Some s"
proof -
  define p where "p = fst (appendFieldPrefix st name)"
  have a: "fst (appendStringField pr st name s) = p @ AppendQuote pr s"
    by (simp add: appendStringField_def Let_def p_def)
  have "unquoteJSONString (quote_body pr s) (CHR 0x5C \<in> set (quote_body pr s)) = Some s"
    using quote_body_no_backslash [of pr s] Unquote_AppendQuote [of pr s]
    by (simp add: unquoteJSONString_def)
  then show ?thesis
    using scan_AppendQuote_at [of p pr s t] unfolding a p_def [symmetric] by auto
qed


section \<open>Round trip\<close>






lemma match_simps [simp]:
  "matchRPCField ''jsonrpc'' = FieldUnknown" "matchRPCField ''id'' = FieldID"
  "matchRPCField ''method'' = FieldMethod" "matchRPCField ''params'' = FieldParams"
  "matchRPCField ''result'' = FieldResult" "matchRPCField ''error'' = FieldError"
  by (simp_all add: matchRPCField_def)





lemma json_quotable_plain: "ascii_plain s \<Longrightarrow> json_quotable pr s"
proof -
  assume s: "ascii_plain s"
  then have "quote_body pr s = s" by (intro quote_body_plain) (auto simp: ascii_plain_def list_all_iff)
  moreover have "\<forall>c\<in>set s. 32 \<le> byte c \<and> c \<noteq> CHR 0x22 \<and> c \<noteq> CHR 0x5C"
    using s by (auto simp: ascii_plain_def list_all_iff)
  then have "string_body s" using string_body_plain [of s "[]"] by simp
  ultimately show ?thesis by (metis string_body_quote_body)
qed




text \<open>An error object whose message is not quotable is not a JSON value.\<close>

lemma scan_value_unquotable:
  assumes "\<not> json_quotable pr s"
  shows "scan_value (p @ AppendQuote pr s @ t) (length p) d = None"
  using scan_value_at [of "[]" "CHR 0x22" "length p" p "quote_body pr s @ CHR 0x22 # t" d]
    scan_AppendQuote_at [of p pr s t] assms
  by (simp add: AppendQuote_def)

lemma scan_members_fail:
  assumes b: "b = p @ member_text (n, v) @ t" "ascii_plain n" "i = length p"
    and v: "scan_value b (i + length n + 3) d = None"
  shows "scan_members b i d = None"
proof -
  have nplain: "\<forall>x\<in>set n. 32 \<le> byte x \<and> x \<noteq> CHR 0x22 \<and> x \<noteq> CHR 0x5C"
    using b(2) by (auto simp: ascii_plain_def list_all_iff)
  have n: "string_body n" "utf8_valid n"
    using b(2) string_body_plain [OF nplain, of "[]"]
    by (auto simp: ascii_plain_def list_all_iff intro!: utf8_valid_ascii)
  have 1: "scanJSONString b i = Some (n, CHR 0x5C \<in> set n, i + length n + 2)"
    using scanJSONString_complete [OF n, of p "CHR '':'' # v @ t"] by (simp add: b member_text_def)
  define j where "j = i + length n + 2"
  have b1: "b = (p @ qstr n) @ CHR '':'' # v @ t" "length (p @ qstr n) = j"
    by (simp_all add: b member_text_def j_def)
  have 2: "skipJSONSpace b j = j"
    using skip_ws_append [of "[]" "CHR '':'' # v @ t" "p @ qstr n"] b1 by simp
  have 3: "b ! j = CHR '':''" using nth_append_length [of "p @ qstr n" "CHR '':''" "v @ t"] b1 by simp
  have "scan_value b (j + 1) d = None" using v by (simp add: j_def eval_nat_numeral)
  with 1 2 3 show ?thesis
    unfolding j_def [symmetric] by (subst scan_members.simps) (simp add: Let_def)
qed

lemma scan_members_next:
  assumes "ascii_plain n" "json_value d v" "b = p @ member_text (n, v) @ CHR '','' # CHR 0x22 # t"
    "i = length p"
  shows "scan_members b i d = scan_members b (i + length (member_text (n, v)) + 1) d"
proof -
  have nplain: "\<forall>x\<in>set n. 32 \<le> byte x \<and> x \<noteq> CHR 0x22 \<and> x \<noteq> CHR 0x5C"
    using assms(1) by (auto simp: ascii_plain_def list_all_iff)
  have n: "string_body n" "utf8_valid n"
    using assms(1) string_body_plain [OF nplain, of "[]"]
    by (auto simp: ascii_plain_def list_all_iff intro!: utf8_valid_ascii)
  let ?q = "p @ qstr n @ '':''" and ?t = "CHR '','' # CHR 0x22 # t"
  have v: "scan_value b (length p + length n + length [] + 3) d = Some (length (?q @ v))"
    using scan_complete(1) [OF assms(2), of ?t "[]" ?q] assms(3)
    by (simp add: member_text_def eval_nat_numeral)
  have b: "b = p @ CHR 0x22 # n @ CHR 0x22 # [] @ CHR '':'' # v @ ?t" "b = (?q @ v) @ [] @ ?t"
    using assms(3) by (simp_all add: member_text_def)
  have "skipJSONSpace b (length (?q @ v @ '','')) = length (?q @ v @ '','')"
    using skip_ws_append [of "[]" "CHR 0x22 # t" "?q @ v @ '',''"] b(2) by simp
  then show ?thesis
    using scan_members_at [OF b(1) n _ v b(2)] assms(4) by (simp add: member_text_def add_ac)
qed

lemma scan_error_unquotable:
  assumes "\<not> json_quotable pr (re_message e)"
  shows "scan_value (p @ object_text (error_fields pr e) @ t) (length p) d = None"
proof (cases "d < maxRPCScanDepth")
  case d: True
  let ?c = "(''code'', int_decimal (re_code e))"
  let ?m = "(''message'', AppendQuote pr (re_message e))"
  let ?rest = "if re_data e = [] then ''}'' @ t else '','' @ member_text (''data'', re_data e) @ ''}'' @ t"
  define b where "b = p @ object_text (error_fields pr e) @ t"
  have b1: "b = (p @ ''{'') @ member_text ?c @ CHR '','' # member_text ?m @ ?rest"
    by (simp add: b_def object_text_def error_fields_def members_text_Cons)
  then have b1': "b = (p @ ''{'') @ member_text ?c @ CHR '','' # CHR 0x22 #
      (''message'' @ [CHR 0x22, CHR '':''] @ AppendQuote pr (re_message e) @ ?rest)"
    by (simp add: member_text_def)
  let ?q = "p @ ''{'' @ member_text ?c @ '',''"
  have b2: "b = ?q @ member_text ?m @ ?rest" using b1 by simp
  have b3: "b = (?q @ qstr ''message'' @ '':'') @ AppendQuote pr (re_message e) @ ?rest"
    using b2 by (simp add: member_text_def)
  have fail: "scan_members b (length ?q) (d + 1) = None"
    using scan_value_unquotable [OF assms, of "?q @ qstr ''message'' @ '':''" ?rest "d + 1"] b3
    by (intro scan_members_fail [OF b2 _ refl]) (simp_all add: ascii_plain_def eval_nat_numeral)
  have "scan_members b (length (p @ ''{'')) (d + 1) = scan_members b (length ?q) (d + 1)"
    using scan_members_next [OF _ json_value_int_decimal b1' refl, of "d + 1"]
    by (simp add: ascii_plain_def)
  with fail have m: "scan_members b (length p + 1) (d + 1) = None" by simp
  have "skipJSONSpace b (length p + 1) = length p + 1" "b ! (length p + 1) = CHR 0x22"
    using skip_ws_append [of "[]" "drop (length p + 1) b" "p @ ''{''"] b1
    by (simp_all add: member_text_def nth_append)
  with m d have "scan_object b (length p) (d + 1) = None"
    by (subst scan_object.simps) (simp add: Let_def)
  then show ?thesis
    using scan_value_at [of "[]" "CHR ''{''" "length p" p "members_text (error_fields pr e) @ ''}'' @ t" d]
    by (simp add: b_def object_text_def)
next
  case False
  then show ?thesis
    using scan_value_at [of "[]" "CHR ''{''" "length p" p "members_text (error_fields pr e) @ ''}'' @ t" d]
    by (simp add: object_text_def scan_object.simps)
qed


lemma parse_fields_more:
  assumes "ascii_plain n" "json_value 0 v" "b = p @ member_text (n, v) @ '','' @ CHR 0x22 # t" "i = length p"
  shows "parse_fields dec b i msg = Option.bind (set_field dec (matchRPCField n) v msg)
    (parse_fields dec b (i + length (member_text (n, v)) + 1))"
proof -
  let ?q = "p @ member_text (n, v) @ '',''"
  have b: "b = p @ member_text (n, v) @ CHR '','' # CHR 0x22 # t" "b = ?q @ CHR 0x22 # t"
    using assms(3) by simp_all
  have i: "i + length (member_text (n, v)) + 1 = length ?q" using assms(4) by simp
  have "skipJSONSpace b (length ?q) = length ?q"
    using skip_ws_append [of "[]" "CHR 0x22 # t" ?q] b(2) by simp
  moreover have "b ! length ?q = CHR 0x22"
    using nth_append_length [of ?q "CHR 0x22" t] b(2) by simp
  ultimately show ?thesis
    using parse_fields_member [OF assms(1,2) _ refl b(1) assms(4), of dec msg]
    unfolding i by (simp add: Let_def split: option.split)
qed

lemma parse_fields_fail:
  assumes b: "b = p @ member_text (n, v) @ t" "ascii_plain n" "i = length p"
    and v: "v \<noteq> []" "\<not> is_json_ws (hd v)" "scan_value b (i + length n + 3) 0 = None"
  shows "parse_fields dec b i msg = None"
proof -
  have nplain: "\<forall>x\<in>set n. 32 \<le> byte x \<and> x \<noteq> CHR 0x22 \<and> x \<noteq> CHR 0x5C"
    using b(2) by (auto simp: ascii_plain_def list_all_iff)
  have n: "string_body n" "utf8_valid n"
    using b(2) string_body_plain [OF nplain, of "[]"]
    by (auto simp: ascii_plain_def list_all_iff intro!: utf8_valid_ascii)
  have 1: "scanJSONString b i = Some (n, CHR 0x5C \<in> set n, i + length n + 2)"
    using scanJSONString_complete [OF n, of p "CHR '':'' # v @ t"] by (simp add: b member_text_def)
  have 0: "skipJSONSpace b i = i" "b ! i = CHR 0x22" "i < length b"
    using skip_ws_append [of "[]" "qstr n @ CHR '':'' # v @ t" p] by (simp_all add: b member_text_def)
  define j where "j = i + length n + 2"
  have b1: "b = (p @ qstr n) @ CHR '':'' # v @ t" "b = (p @ qstr n @ '':'') @ v @ t"
    "length (p @ qstr n) = j" by (simp_all add: b member_text_def j_def)
  have 2: "skipJSONSpace b j = j"
    using skip_ws_append [of "[]" "CHR '':'' # v @ t" "p @ qstr n"] b1 by simp
  have 3: "b ! j = CHR '':''" using nth_append_length [of "p @ qstr n" "CHR '':''" "v @ t"] b1 by simp
  have 4: "skipJSONSpace b (j + 1) = j + 1"
    using skip_ws_append [of "[]" "v @ t" "p @ qstr n @ '':''"] b1(2,3) v(1,2) by simp
  have "scanJSONValue b (j + 1) = None"
    using v(3) by (simp add: scanJSONValue_def j_def eval_nat_numeral)
  with 0 1 2 3 4 show ?thesis
    unfolding j_def [symmetric] by (subst parse_fields.simps) (simp add: Let_def)
qed

text \<open>An error response whose message is not quotable (a control character Go writes as
  \<open>\x1b\<close>, say) is lost: the reader rejects the whole line, so its \<open>id\<close> is never resolved.\<close>

theorem unquotable_error_response_lost:
  assumes "json_value 0 rid" "\<not> json_quotable pr (re_message e)"
  shows "parseRPCMessage dec (appendRPCMessage pr []
      \<lparr>rm_jsonrpc = ''2.0'', rm_id = rid, rm_method = [], rm_params = [], rm_result = [],
       rm_error = Some e\<rparr>) = None"
proof -
  let ?msg = "\<lparr>rm_jsonrpc = ''2.0'', rm_id = rid, rm_method = [], rm_params = [], rm_result = [],
       rm_error = Some e\<rparr>"
  let ?f1 = "(''jsonrpc'', qstr ''2.0'')" and ?f2 = "(''id'', rid)"
  let ?f3 = "(''error'', object_text (error_fields pr e))"
  define b where "b = appendRPCMessage pr [] ?msg"
  have v: "AppendQuote pr ''2.0'' = qstr ''2.0''"
    by (rule AppendQuote_ascii_plain) (simp add: ascii_plain_def)
  have "rid \<noteq> []" using json_value_hd [OF assms(1)] by simp
  then have b: "b = object_text [?f1, ?f2, ?f3]"
    by (simp add: b_def appendRPCMessage_object message_fields_def v)
  let ?q1 = "''{''" let ?q2 = "?q1 @ member_text ?f1 @ '',''"
  let ?q3 = "?q2 @ member_text ?f2 @ '',''"
  have b1: "b = ?q1 @ member_text ?f1 @ '','' @ CHR 0x22 # tl (member_text ?f2) @ '','' @ member_text ?f3 @ ''}''"
    and b2: "b = ?q2 @ member_text ?f2 @ '','' @ CHR 0x22 # tl (member_text ?f3) @ ''}''"
    and b3: "b = ?q3 @ member_text ?f3 @ ''}''"
    by (simp_all add: b object_text_def members_text_Cons member_text_def)
  have j1: "json_value 0 (qstr ''2.0'')"
    using json_value_AppendQuote [OF json_quotable_plain, of "''2.0''" 0 pr] v
    by (simp add: ascii_plain_def)
  have "scan_value b (length ?q3 + length ''error'' + 3) 0 = None"
    using scan_error_unquotable [OF assms(2), of "?q3 @ qstr ''error'' @ '':''" "''}''" 0] b3
    by (simp add: member_text_def eval_nat_numeral)
  then have "parse_fields dec b (length ?q3) m = None" for m
    by (intro parse_fields_fail [OF b3 _ refl]) (simp_all add: ascii_plain_def object_text_def)
  then have "parse_fields dec b (length ?q2) m = None" for m
    using parse_fields_more [OF _ assms(1) b2 refl, of dec m] by (simp add: ascii_plain_def)
  then have "parse_fields dec b (length ?q1) m = None" for m
    using parse_fields_more [OF _ j1 b1 refl, of dec m] by (simp add: ascii_plain_def)
  moreover have "trimJSONSpace b = b"
    unfolding b by (intro trimJSONSpace_id) (simp_all add: object_text_def)
  ultimately have "parseRPCMessage dec b = None"
    using b1 by (simp add: parseRPCMessage_def)
  then show ?thesis by (simp add: b_def)
qed

definition escape_error :: rpc_error where
  "escape_error = \<lparr>re_code = - 32000, re_message = [CHR 0x1B, CHR ''x''], re_data = []\<rparr>"

theorem unquotable_error_response_lost_witness:
  "parseRPCMessage (\<lambda>v. None) (appendRPCMessage (\<lambda>r. True) []
      \<lparr>rm_jsonrpc = ''2.0'', rm_id = ''null'', rm_method = [], rm_params = [], rm_result = [],
       rm_error = Some escape_error\<rparr>) = None"
proof (rule unquotable_error_response_lost)
  show "\<not> json_quotable (\<lambda>r. True) (re_message escape_error)"
    by (subst json_quotable.simps)
      (simp add: escape_error_def json_quotable_rune_def is_print_def)
qed (simp add: val_literal)


section \<open>Line framing\<close>

lemma ReadSlice_line:
  assumes "CHR 0x0A \<notin> set l" "length l < n"
  shows "ReadSlice n (l @ CHR 0x0A # t) = (l @ [CHR 0x0A], ReadOk, t)"
proof -
  have "take n (l @ CHR 0x0A # t) = l @ CHR 0x0A # take (n - length l - 1) t"
    using assms(2) by (cases "n - length l") simp_all
  moreover have "takeWhile (\<lambda>c. c \<noteq> CHR 0x0A) (l @ CHR 0x0A # u) = l" for u
    using assms(1) by (induction l) auto
  ultimately show ?thesis by (simp add: ReadSlice_def Let_def)
qed

lemma ReadSlice_full:
  assumes "CHR 0x0A \<notin> set l" "n \<le> length l"
  shows "ReadSlice n (l @ t) = (take n l, BufferFull, drop n l @ t)"
proof -
  have "takeWhile (\<lambda>c. c \<noteq> CHR 0x0A) (take n l) = take n l"
    using assms(1) by (intro takeWhile_eq_all_conv [THEN iffD2]) (auto dest: in_set_takeD)
  then show ?thesis using assms(2) by (simp add: ReadSlice_def Let_def del: takeWhile_eq_all_conv)
qed

lemma buffer_fits: "0 < defaultRPCReadBufferSize" "defaultRPCReadBufferSize \<le> maxRPCMessageSize"
  by (simp_all add: defaultRPCReadBufferSize_def maxRPCMessageSize_def)

lemma readMessageLine_line:
  assumes "CHR 0x0A \<notin> set l" "length line \<le> maxRPCMessageSize"
  shows "if length line + length l < maxRPCMessageSize
    then readMessageLine line (l @ CHR 0x0A # t) = (trimLineEnding (line @ l @ [CHR 0x0A]), None, t)
    else \<exists>rest. readMessageLine line (l @ CHR 0x0A # t) = ([], Some ErrTooLarge, rest)"
  using assms
proof (induction "length l" arbitrary: l line rule: less_induct)
  case less
  show ?case
  proof (cases "length l < defaultRPCReadBufferSize")
    case True
    have r: "ReadSlice defaultRPCReadBufferSize (l @ CHR 0x0A # t) = (l @ [CHR 0x0A], ReadOk, t)"
      by (rule ReadSlice_line [OF less.prems(1) True])
    show ?thesis
    proof (cases "length line + length l < maxRPCMessageSize")
      case True
      then show ?thesis by (subst (1) readMessageLine.simps) (simp add: r)
    next
      case False
      then have "line \<noteq> []" using True buffer_fits(2) by auto
      with False show ?thesis by (subst readMessageLine.simps) (simp add: r)
    qed
  next
    case False
    let ?n = defaultRPCReadBufferSize
    have r: "ReadSlice ?n (l @ CHR 0x0A # t) = (take ?n l, BufferFull, drop ?n l @ CHR 0x0A # t)"
      using False by (intro ReadSlice_full [OF less.prems(1)]) simp
    have ne: "take ?n l \<noteq> []" using False buffer_fits(1) by auto
    have len: "length (take ?n l) = ?n" using False by simp
    show ?thesis
    proof (cases "maxRPCMessageSize < length (line @ take ?n l)")
      case True
      then have "\<exists>rest. readMessageLine line (l @ CHR 0x0A # t) = ([], Some ErrTooLarge, rest)"
        by (subst readMessageLine.simps) (use ne in \<open>simp add: r\<close>)
      moreover have "\<not> length line + length l < maxRPCMessageSize" using True False len by simp
      ultimately show ?thesis by simp
    next
      case ok: False
      have step: "readMessageLine line (l @ CHR 0x0A # t)
          = readMessageLine (line @ take ?n l) (drop ?n l @ CHR 0x0A # t)"
        using ok by (subst readMessageLine.simps) (use ne in \<open>simp add: r\<close>)
      have "CHR 0x0A \<notin> set (drop ?n l)" using less.prems(1) by (auto dest: in_set_dropD)
      moreover have "length (drop ?n l) < length l" using False buffer_fits(1) by simp
      ultimately have "if length (line @ take ?n l) + length (drop ?n l) < maxRPCMessageSize
        then readMessageLine (line @ take ?n l) (drop ?n l @ CHR 0x0A # t)
          = (trimLineEnding ((line @ take ?n l) @ drop ?n l @ [CHR 0x0A]), None, t)
        else \<exists>rest. readMessageLine (line @ take ?n l) (drop ?n l @ CHR 0x0A # t)
          = ([], Some ErrTooLarge, rest)"
        using ok by (intro less.hyps) simp_all
      moreover have "length (line @ take ?n l) + length (drop ?n l) = length line + length l"
        using False by simp
      moreover have "(line @ take ?n l) @ drop ?n l @ [CHR 0x0A] = line @ l @ [CHR 0x0A]"
        by (metis append.assoc append_take_drop_id)
      ultimately show ?thesis unfolding step by metis
    qed
  qed
qed

text \<open>The reader delivers every line of at most 16 MiB with its newline, whole and without
  the line ending, and leaves the stream after it; a longer line ends the connection with the
  size error. The 64 KiB buffer is not visible.\<close>

theorem readMessageLine_exact:
  assumes "CHR 0x0A \<notin> set l"
  shows "if length l + 1 \<le> maxRPCMessageSize
    then readMessageLine [] (l @ CHR 0x0A # t) = (trimLineEnding (l @ [CHR 0x0A]), None, t)
    else \<exists>rest. readMessageLine [] (l @ CHR 0x0A # t) = ([], Some ErrTooLarge, rest)"
  using readMessageLine_line [OF assms, of "[]" t] by (simp add: Suc_le_eq)

theorem readMessageLine_exact_witness:
  "readMessageLine [] (''ab'' @ CHR 0x0A # ''cd'') = (trimLineEnding (''ab'' @ [CHR 0x0A]), None, ''cd'')
   \<and> (\<exists>rest. readMessageLine [] (replicate maxRPCMessageSize CHR ''x'' @ CHR 0x0A # ''cd'')
        = ([], Some ErrTooLarge, rest))"
  using readMessageLine_exact [of "''ab''" "''cd''"]
    readMessageLine_exact [of "replicate maxRPCMessageSize CHR ''x''" "''cd''"]
  by (simp add: maxRPCMessageSize_def)

text \<open>What is written is one line: an appended message read back from the stream is itself.\<close>

lemma trimLineEnding_line: "l = [] \<or> last l \<noteq> CHR 0x0D \<Longrightarrow> trimLineEnding (l @ [CHR 0x0A]) = l"
  by (auto simp: trimLineEnding_def)

end
