(* ===== verification/Peer.thy ===== *)
theory Peer
  imports Rpc_Codec
begin

text \<open>
  The JSON-RPC peer of \<open>rpc.go\<close> (lines 73 to 495) as a state machine. Go's goroutines
  interleave between the critical sections of the peer's mutexes and channel operations, so
  one step is one critical section or one channel operation: a caller registers, writes and
  waits in separate steps, the read loop takes a pending entry, sends and closes the channel
  in separate steps, and \<open>Close\<close> is its three parts. A send on a closed channel and a
  second close are Go panics: the flag \<open>p_panic\<close>.

  Calls, and the channel each one makes, are numbered in the order of \<open>nextID.Add\<close>;
  inbound requests are numbered by the goroutine that handles them.
\<close>

section \<open>State\<close>

record rpc_chan =
  ch_buf :: "rpc_message option"
  ch_closed :: bool

datatype call_result =
  GotMessage rpc_message
| CallClosed
| CallCtx
| CallWriteFailed

datatype call_phase =
  CAllocated          \<comment> \<open>the id is taken, the channel made\<close>
| CRegistered         \<comment> \<open>in \<open>pending\<close>, the request not written\<close>
| CUnwritten          \<comment> \<open>the write failed, the entry not yet removed\<close>
| CWaiting            \<comment> \<open>in the \<open>select\<close>\<close>
| CCancelled bool     \<comment> \<open>\<open>ctx.Done\<close> chosen; was the entry still pending\<close>
| CReturned call_result

record call_state =
  ca_id :: int
  ca_method :: bytes
  ca_params :: bytes
  ca_phase :: call_phase

datatype reader_phase =
  ReaderIdle
| ReaderHolds nat rpc_message   \<comment> \<open>took this channel out of \<open>pending\<close>\<close>
| ReaderSent nat                \<comment> \<open>sent, not yet closed\<close>

datatype close_phase = NotClosed | ClosedFlag | Drained | CloseDone

datatype request_phase = RqSpawned | RqHandling | RqWritten | RqFinished

record request_state =
  rq_id :: bytes
  rq_phase :: request_phase

record peer =
  p_next :: int
  p_calls :: "call_state list"
  p_chans :: "rpc_chan list"
  p_pending :: "int \<rightharpoonup> nat"
  p_reader :: reader_phase
  p_close :: close_phase
  p_reason :: "bytes option"
  p_requests :: "request_state list"
  p_inbound :: "bytes \<rightharpoonup> nat"
  p_cancelled :: "nat set"
  p_written :: "rpc_message list"
  p_panic :: bool

definition NewPeer :: peer where
  "NewPeer = \<lparr>p_next = 0, p_calls = [], p_chans = [], p_pending = Map.empty,
     p_reader = ReaderIdle, p_close = NotClosed, p_reason = None, p_requests = [],
     p_inbound = Map.empty, p_cancelled = {}, p_written = [], p_panic = False\<rparr>"

abbreviation p_closed :: "peer \<Rightarrow> bool" where
  "p_closed s \<equiv> p_close s \<noteq> NotClosed"

definition set_phase :: "nat \<Rightarrow> call_phase \<Rightarrow> peer \<Rightarrow> peer" where
  "set_phase c ph s = s\<lparr>p_calls := (p_calls s)[c := (p_calls s ! c)\<lparr>ca_phase := ph\<rparr>]\<rparr>"

definition phase_is :: "peer \<Rightarrow> nat \<Rightarrow> call_phase \<Rightarrow> bool" where
  "phase_is s c ph \<longleftrightarrow> c < length (p_calls s) \<and> ca_phase (p_calls s ! c) = ph"

section \<open>Calls\<close>

text \<open>\<open>nextID.Add(1)\<close> and \<open>make(chan rpcMessage, 1)\<close>.\<close>

definition call_alloc :: "bytes \<Rightarrow> bytes \<Rightarrow> peer \<Rightarrow> peer" where
  "call_alloc m params s =
     (let i = wrap64 (p_next s + 1) in
      s\<lparr>p_next := i,
        p_calls := p_calls s @ [\<lparr>ca_id = i, ca_method = m, ca_params = params, ca_phase = CAllocated\<rparr>],
        p_chans := p_chans s @ [\<lparr>ch_buf = None, ch_closed = False\<rparr>]\<rparr>)"

definition call_register :: "nat \<Rightarrow> peer \<Rightarrow> peer option" where
  "call_register c s =
     (if phase_is s c CAllocated
      then Some (set_phase c CRegistered (s\<lparr>p_pending := (p_pending s)(ca_id (p_calls s ! c) \<mapsto> c)\<rparr>))
      else None)"

definition request_message :: "call_state \<Rightarrow> rpc_message" where
  "request_message ca = \<lparr>rm_jsonrpc = ''2.0'', rm_id = int_decimal (ca_id ca), rm_method = ca_method ca,
     rm_params = ca_params ca, rm_result = [], rm_error = None\<rparr>"

text \<open>\<open>writeMessage\<close>: the writer accepts the line or fails.\<close>

definition call_write :: "nat \<Rightarrow> bool \<Rightarrow> peer \<Rightarrow> peer option" where
  "call_write c ok s =
     (if phase_is s c CRegistered
      then Some (if ok
        then set_phase c CWaiting (s\<lparr>p_written := p_written s @ [request_message (p_calls s ! c)]\<rparr>)
        else set_phase c CUnwritten s)
      else None)"

definition call_write_cleanup :: "nat \<Rightarrow> peer \<Rightarrow> peer option" where
  "call_write_cleanup c s =
     (if phase_is s c CUnwritten
      then Some (set_phase c (CReturned CallWriteFailed)
             (s\<lparr>p_pending := (p_pending s)(ca_id (p_calls s ! c) := None)\<rparr>))
      else None)"

text \<open>The three branches of the \<open>select\<close>.\<close>

definition call_ctx_done :: "nat \<Rightarrow> peer \<Rightarrow> peer option" where
  "call_ctx_done c s =
     (if phase_is s c CWaiting
      then let i = ca_id (p_calls s ! c) in
           Some (set_phase c (CCancelled (p_pending s i \<noteq> None)) (s\<lparr>p_pending := (p_pending s)(i := None)\<rparr>))
      else None)"

definition cancel_message :: "int \<Rightarrow> rpc_message" where
  "cancel_message i = \<lparr>rm_jsonrpc = ''2.0'', rm_id = [], rm_method = ''$/cancel_request'',
     rm_params = ''{'' @ qstr ''requestId'' @ '':'' @ int_decimal i @ ''}'', rm_result = [], rm_error = None\<rparr>"

definition call_cancel_notify :: "nat \<Rightarrow> bool \<Rightarrow> peer \<Rightarrow> peer option" where
  "call_cancel_notify c ok s =
     (if phase_is s c (CCancelled True)
      then Some (set_phase c (CReturned CallCtx)
             (if ok then s\<lparr>p_written := p_written s @ [cancel_message (ca_id (p_calls s ! c))]\<rparr> else s))
      else if phase_is s c (CCancelled False) then Some (set_phase c (CReturned CallCtx) s)
      else None)"

definition call_closed :: "nat \<Rightarrow> peer \<Rightarrow> peer option" where
  "call_closed c s =
     (if phase_is s c CWaiting \<and> p_closed s then Some (set_phase c (CReturned CallClosed) s) else None)"

definition call_receive :: "nat \<Rightarrow> peer \<Rightarrow> peer option" where
  "call_receive c s =
     (if phase_is s c CWaiting
      then (case ch_buf (p_chans s ! c) of
              Some m \<Rightarrow> Some (set_phase c (CReturned (GotMessage m))
                          (s\<lparr>p_chans := (p_chans s)[c := (p_chans s ! c)\<lparr>ch_buf := None\<rparr>]\<rparr>))
            | None \<Rightarrow> if ch_closed (p_chans s ! c) then Some (set_phase c (CReturned CallClosed) s) else None)
      else None)"

section \<open>Channel operations\<close>

definition chan_close :: "nat \<Rightarrow> peer \<Rightarrow> peer" where
  "chan_close c s =
     (if ch_closed (p_chans s ! c) then s\<lparr>p_panic := True\<rparr>
      else s\<lparr>p_chans := (p_chans s)[c := (p_chans s ! c)\<lparr>ch_closed := True\<rparr>]\<rparr>)"

text \<open>A send on a full channel waits: the step is not enabled.\<close>

definition chan_send :: "nat \<Rightarrow> rpc_message \<Rightarrow> peer \<Rightarrow> peer option" where
  "chan_send c m s =
     (if ch_closed (p_chans s ! c) then Some (s\<lparr>p_panic := True\<rparr>)
      else if ch_buf (p_chans s ! c) = None
      then Some (s\<lparr>p_chans := (p_chans s)[c := (p_chans s ! c)\<lparr>ch_buf := Some m\<rparr>]\<rparr>)
      else None)"

section \<open>The read loop\<close>

datatype inbound_kind = Response | Request | Notification | Ignored

text \<open>The dispatch of \<open>Start\<close>.\<close>

definition classify :: "rpc_message \<Rightarrow> inbound_kind" where
  "classify msg =
     (if rm_id msg \<noteq> [] \<and> rm_method msg = [] then Response
      else if rm_method msg \<noteq> [] then (if rm_id msg \<noteq> [] then Request else Notification)
      else Ignored)"

definition resolve_take :: "rpc_message \<Rightarrow> peer \<Rightarrow> peer option" where
  "resolve_take msg s =
     (if p_reader s = ReaderIdle \<and> classify msg = Response
      then (case parseRPCID (rm_id msg) of
              None \<Rightarrow> Some s
            | Some i \<Rightarrow>
                (let s' = s\<lparr>p_pending := (p_pending s)(i := None)\<rparr> in
                 case p_pending s i of
                   None \<Rightarrow> Some s'
                 | Some c \<Rightarrow> Some (s'\<lparr>p_reader := ReaderHolds c (msg\<lparr>rm_result := copyRawMessage (rm_result msg)\<rparr>)\<rparr>)))
      else None)"

definition resolve_send :: "peer \<Rightarrow> peer option" where
  "resolve_send s =
     (case p_reader s of
        ReaderHolds c m \<Rightarrow> map_option (\<lambda>s'. s'\<lparr>p_reader := ReaderSent c\<rparr>) (chan_send c m s)
      | _ \<Rightarrow> None)"

definition resolve_close :: "peer \<Rightarrow> peer option" where
  "resolve_close s =
     (case p_reader s of
        ReaderSent c \<Rightarrow> Some ((chan_close c s)\<lparr>p_reader := ReaderIdle\<rparr>)
      | _ \<Rightarrow> None)"

section \<open>Close\<close>

text \<open>\<open>closeWithReason\<close> keeps the first reason. \<open>closeOnce\<close> lets one caller through.\<close>

definition close_reason_set :: "bytes \<Rightarrow> peer \<Rightarrow> peer" where
  "close_reason_set err s = (if p_reason s = None then s\<lparr>p_reason := Some err\<rparr> else s)"

definition close_begin :: "peer \<Rightarrow> peer option" where
  "close_begin s = (if p_close s = NotClosed then Some (s\<lparr>p_close := ClosedFlag\<rparr>) else None)"

text \<open>The drain loop runs under \<open>pendingMu\<close>; the order of the map does not matter, because
  every channel is closed once.\<close>

definition close_drain :: "peer \<Rightarrow> peer option" where
  "close_drain s =
     (if p_close s = ClosedFlag
      then Some (s\<lparr>p_close := Drained, p_pending := Map.empty,
             p_panic := (p_panic s \<or> (\<exists>c\<in>ran (p_pending s). ch_closed (p_chans s ! c))),
             p_chans := map (\<lambda>c. if c \<in> ran (p_pending s) then (p_chans s ! c)\<lparr>ch_closed := True\<rparr> else p_chans s ! c)
                          [0..<length (p_chans s)]\<rparr>)
      else None)"

definition close_cancel :: "peer \<Rightarrow> peer option" where
  "close_cancel s =
     (if p_close s = Drained
      then Some (s\<lparr>p_close := CloseDone, p_cancelled := p_cancelled s \<union> ran (p_inbound s),
             p_inbound := Map.empty\<rparr>)
      else None)"

definition closeReason :: "peer \<Rightarrow> bytes" where
  "closeReason s =
     (case p_reason s of
        None \<Rightarrow> ''io: read/write on closed pipe''
      | Some r \<Rightarrow> ''io: read/write on closed pipe'' @ '': '' @ r)"


section \<open>Inbound requests\<close>

text \<open>What a handler returns, as \<open>handleRequest\<close> tells the cases apart: a value, an error that
  unwraps to \<open>*RPCError\<close>, a cancelled context, or any other error with its text.\<close>

datatype handler_outcome =
  HandlerResult go_any
| HandlerRPCError rpc_error
| HandlerCanceled
| HandlerError bytes

definition error_message :: "bytes \<Rightarrow> int \<Rightarrow> bytes \<Rightarrow> rpc_message" where
  "error_message rid code text = \<lparr>rm_jsonrpc = ''2.0'', rm_id = rid, rm_method = [], rm_params = [],
     rm_result = [], rm_error = Some \<lparr>re_code = code, re_message = text, re_data = []\<rparr>\<rparr>"

fun handler_response :: "bytes \<Rightarrow> handler_outcome \<Rightarrow> rpc_message" where
  "handler_response rid (HandlerRPCError e) = \<lparr>rm_jsonrpc = ''2.0'', rm_id = rid, rm_method = [],
     rm_params = [], rm_result = [], rm_error = Some e\<rparr>"
| "handler_response rid HandlerCanceled = error_message rid (- 32800) ''Request cancelled''"
| "handler_response rid (HandlerError text) = error_message rid (- 32000) text"
| "handler_response rid (HandlerResult v) =
     (case marshalRaw v of
        Inl text \<Rightarrow> error_message rid (- 32603) text
      | Inr b \<Rightarrow> \<lparr>rm_jsonrpc = ''2.0'', rm_id = rid, rm_method = [], rm_params = [],
                   rm_result = b, rm_error = None\<rparr>)"

definition request_phase_is :: "peer \<Rightarrow> nat \<Rightarrow> request_phase \<Rightarrow> bool" where
  "request_phase_is s r ph \<longleftrightarrow> r < length (p_requests s) \<and> rq_phase (p_requests s ! r) = ph"

definition set_request_phase :: "nat \<Rightarrow> request_phase \<Rightarrow> peer \<Rightarrow> peer" where
  "set_request_phase r ph s =
     s\<lparr>p_requests := (p_requests s)[r := (p_requests s ! r)\<lparr>rq_phase := ph\<rparr>]\<rparr>"

definition write_ok :: "bool \<Rightarrow> rpc_message \<Rightarrow> peer \<Rightarrow> peer" where
  "write_ok ok m s = (if ok then s\<lparr>p_written := p_written s @ [m]\<rparr> else s)"

text \<open>The read loop starts a goroutine for a request.\<close>

definition request_spawn :: "rpc_message \<Rightarrow> peer \<Rightarrow> peer option" where
  "request_spawn msg s =
     (if p_reader s = ReaderIdle \<and> classify msg = Request
      then Some (s\<lparr>p_requests := p_requests s @ [\<lparr>rq_id = copyRawMessage (rm_id msg), rq_phase = RqSpawned\<rparr>]\<rparr>)
      else None)"

text \<open>Handler lookup: without a handler the error is written and the goroutine ends; with one
  its cancel function is registered under the raw id.\<close>

definition request_start :: "nat \<Rightarrow> bool \<Rightarrow> bool \<Rightarrow> peer \<Rightarrow> peer option" where
  "request_start r has_handler ok s =
     (if request_phase_is s r RqSpawned
      then Some (if has_handler
        then set_request_phase r RqHandling
               (s\<lparr>p_inbound := (p_inbound s)(rq_id (p_requests s ! r) \<mapsto> r)\<rparr>)
        else set_request_phase r RqFinished
               (write_ok ok (error_message (rq_id (p_requests s ! r)) (- 32601) ''method not found'') s))
      else None)"

definition request_respond :: "nat \<Rightarrow> handler_outcome \<Rightarrow> bool \<Rightarrow> peer \<Rightarrow> peer option" where
  "request_respond r out ok s =
     (if request_phase_is s r RqHandling
      then Some (set_request_phase r RqWritten
             (write_ok ok (handler_response (rq_id (p_requests s ! r)) out) s))
      else None)"

text \<open>The deferred function: cancel the context, delete the entry of the id.\<close>

definition request_cleanup :: "nat \<Rightarrow> peer \<Rightarrow> peer option" where
  "request_cleanup r s =
     (if request_phase_is s r RqWritten
      then Some (set_request_phase r RqFinished
             (s\<lparr>p_cancelled := insert r (p_cancelled s),
                p_inbound := (p_inbound s)(rq_id (p_requests s ! r) := None)\<rparr>))
      else None)"

text \<open>The \<open>$/cancel_request\<close> handler \<open>NewPeer\<close> registers; \<open>requestId\<close> is the decoded raw
  field, empty when absent or when the parameters do not decode.\<close>

definition cancel_request :: "bytes \<Rightarrow> peer \<Rightarrow> peer" where
  "cancel_request requestId s =
     (if requestId = [] then s
      else case p_inbound s (trimJSONSpace requestId) of
             None \<Rightarrow> s
           | Some r \<Rightarrow> s\<lparr>p_cancelled := insert r (p_cancelled s)\<rparr>)"

section \<open>The step relation\<close>

datatype peer_action =
  ACallAlloc bytes bytes
| ACallRegister nat
| ACallWrite nat bool
| ACallWriteCleanup nat
| ACallCtxDone nat
| ACallCancelNotify nat bool
| ACallClosed nat
| ACallReceive nat
| AResolveTake rpc_message
| AResolveSend
| AResolveClose
| AReason bytes
| ACloseBegin
| ACloseDrain
| ACloseCancel
| ARequestSpawn rpc_message
| ARequestStart nat bool bool
| ARequestRespond nat handler_outcome bool
| ARequestCleanup nat
| ACancelRequest bytes

fun peer_exec :: "peer_action \<Rightarrow> peer \<Rightarrow> peer option" where
  "peer_exec (ACallAlloc m params) s = Some (call_alloc m params s)"
| "peer_exec (ACallRegister c) s = call_register c s"
| "peer_exec (ACallWrite c ok) s = call_write c ok s"
| "peer_exec (ACallWriteCleanup c) s = call_write_cleanup c s"
| "peer_exec (ACallCtxDone c) s = call_ctx_done c s"
| "peer_exec (ACallCancelNotify c ok) s = call_cancel_notify c ok s"
| "peer_exec (ACallClosed c) s = call_closed c s"
| "peer_exec (ACallReceive c) s = call_receive c s"
| "peer_exec (AResolveTake msg) s = resolve_take msg s"
| "peer_exec AResolveSend s = resolve_send s"
| "peer_exec AResolveClose s = resolve_close s"
| "peer_exec (AReason err) s = Some (close_reason_set err s)"
| "peer_exec ACloseBegin s = close_begin s"
| "peer_exec ACloseDrain s = close_drain s"
| "peer_exec ACloseCancel s = close_cancel s"
| "peer_exec (ARequestSpawn msg) s = request_spawn msg s"
| "peer_exec (ARequestStart r h ok) s = request_start r h ok s"
| "peer_exec (ARequestRespond r out ok) s = request_respond r out ok s"
| "peer_exec (ARequestCleanup r) s = request_cleanup r s"
| "peer_exec (ACancelRequest i) s = Some (cancel_request i s)"

abbreviation peer_reachable :: "peer \<Rightarrow> bool" where
  "peer_reachable \<equiv> reach peer_exec NewPeer"

section \<open>The invariant\<close>

text \<open>
  A channel has at most one owner. While its call sits in \<open>pending\<close> the channel is fresh;
  once an entry is taken out, only the read loop that took it may send on the channel and
  close it; \<open>Close\<close> takes whatever is left. The identifier of a call is its number plus
  one, so an entry of \<open>pending\<close> is always under the identifier of its call.
\<close>

definition chan_fresh :: "peer \<Rightarrow> nat \<Rightarrow> bool" where
  "chan_fresh s c \<longleftrightarrow> ch_buf (p_chans s ! c) = None \<and> \<not> ch_closed (p_chans s ! c)"

definition started :: "peer \<Rightarrow> nat \<Rightarrow> bool" where
  "started s c \<longleftrightarrow> c < length (p_calls s) \<and> ca_phase (p_calls s ! c) \<noteq> CAllocated"

definition answers :: "rpc_message \<Rightarrow> nat \<Rightarrow> bool" where
  "answers m c \<longleftrightarrow> parseRPCID (rm_id m) = Some (int c + 1)"

definition inv_ids :: "peer \<Rightarrow> bool" where
  "inv_ids s \<longleftrightarrow>
     length (p_chans s) = length (p_calls s) \<and> p_next s = int (length (p_calls s))
     \<and> (\<forall>c < length (p_calls s). ca_id (p_calls s ! c) = int c + 1)"

definition inv_pending :: "peer \<Rightarrow> bool" where
  "inv_pending s \<longleftrightarrow>
     (\<forall>i c. p_pending s i = Some c \<longrightarrow> i = int c + 1 \<and> started s c \<and> chan_fresh s c)"

definition inv_alloc :: "peer \<Rightarrow> bool" where
  "inv_alloc s \<longleftrightarrow> (\<forall>c < length (p_calls s). ca_phase (p_calls s ! c) = CAllocated \<longrightarrow> chan_fresh s c)"

definition inv_reader :: "peer \<Rightarrow> bool" where
  "inv_reader s \<longleftrightarrow>
     (case p_reader s of
        ReaderIdle \<Rightarrow> True
      | ReaderHolds c m \<Rightarrow> started s c \<and> p_pending s (int c + 1) = None \<and> chan_fresh s c \<and> answers m c
      | ReaderSent c \<Rightarrow> started s c \<and> p_pending s (int c + 1) = None \<and> \<not> ch_closed (p_chans s ! c))"

definition inv_messages :: "peer \<Rightarrow> bool" where
  "inv_messages s \<longleftrightarrow>
     (\<forall>c < length (p_calls s). \<forall>m. ch_buf (p_chans s ! c) = Some m \<longrightarrow> answers m c)
     \<and> (\<forall>c < length (p_calls s). \<forall>m. ca_phase (p_calls s ! c) = CReturned (GotMessage m) \<longrightarrow> answers m c)"

definition peer_inv :: "peer \<Rightarrow> bool" where
  "peer_inv s \<longleftrightarrow> inv_ids s \<and> inv_pending s \<and> inv_alloc s \<and> inv_reader s \<and> inv_messages s \<and> \<not> p_panic s"

lemmas inv_defs = peer_inv_def inv_ids_def inv_pending_def inv_alloc_def inv_reader_def
  inv_messages_def started_def chan_fresh_def

lemma inv_new: "peer_inv NewPeer"
  by (simp add: inv_defs NewPeer_def)

text \<open>Fields the invariant does not read.\<close>

lemma inv_frame [simp]:
  "peer_inv (s\<lparr>p_written := w\<rparr>) = peer_inv s"
  "peer_inv (s\<lparr>p_reason := x\<rparr>) = peer_inv s"
  "peer_inv (s\<lparr>p_close := k\<rparr>) = peer_inv s"
  "peer_inv (s\<lparr>p_requests := rs\<rparr>) = peer_inv s"
  "peer_inv (s\<lparr>p_inbound := ib\<rparr>) = peer_inv s"
  "peer_inv (s\<lparr>p_cancelled := cs\<rparr>) = peer_inv s"
  by (simp_all add: inv_defs cong: reader_phase.case_cong)

lemma inv_del_pending: "peer_inv s \<Longrightarrow> peer_inv (s\<lparr>p_pending := (p_pending s)(i := None)\<rparr>)"
  by (cases "p_reader s") (simp_all add: inv_defs)

text \<open>A call's step to another phase keeps the invariant; a returned message must answer it.\<close>

lemma inv_set_phase:
  assumes inv: "peer_inv s" and c: "c < length (p_calls s)" and ph: "ph \<noteq> CAllocated"
    and m: "\<And>m. ph = CReturned (GotMessage m) \<Longrightarrow> answers m c"
  shows "peer_inv (set_phase c ph s)"
proof -
  let ?s = "set_phase c ph s"
  have len: "length (p_calls ?s) = length (p_calls s)" by (simp add: set_phase_def)
  have ids: "ca_id (p_calls ?s ! d) = ca_id (p_calls s ! d)" for d
    using c by (simp add: set_phase_def nth_list_update)
  have phase: "ca_phase (p_calls ?s ! d) = (if d = c then ph else ca_phase (p_calls s ! d))" for d
    using c by (simp add: set_phase_def nth_list_update)
  have st: "started s d \<Longrightarrow> started ?s d" for d using ph by (simp add: started_def len phase)
  have same: "p_pending ?s = p_pending s" "p_reader ?s = p_reader s" "p_chans ?s = p_chans s"
    "p_next ?s = p_next s" "p_panic ?s = p_panic s" "chan_fresh ?s d = chan_fresh s d" for d
    by (simp_all add: set_phase_def chan_fresh_def)
  have "inv_ids ?s" using inv by (simp add: peer_inv_def inv_ids_def same len ids)
  moreover have "inv_pending ?s" using inv st by (simp add: peer_inv_def inv_pending_def same)
  moreover have "inv_alloc ?s" using inv ph by (simp add: peer_inv_def inv_alloc_def same len phase)
  moreover have "inv_reader ?s"
    using inv st by (simp add: peer_inv_def inv_reader_def same split: reader_phase.splits)
  moreover have "inv_messages ?s" using inv m by (simp add: peer_inv_def inv_messages_def same len phase)
  ultimately show ?thesis using inv by (simp add: peer_inv_def same)
qed

lemma inv_call_alloc [inv_intros]:
  assumes inv: "peer_inv s" and b: "int (length (p_calls s)) + 1 \<le> max_int64"
  shows "peer_inv (call_alloc m params s)"
proof -
  let ?s = "call_alloc m params s"
  have i: "wrap64 (p_next s + 1) = int (length (p_calls s)) + 1"
    using inv b by (simp add: peer_inv_def inv_ids_def wrap64_id)
  have len: "length (p_chans s) = length (p_calls s)" using inv by (simp add: peer_inv_def inv_ids_def)
  have old: "c < length (p_calls s) \<Longrightarrow> p_calls ?s ! c = p_calls s ! c \<and> p_chans ?s ! c = p_chans s ! c" for c
    by (simp add: call_alloc_def Let_def nth_append len)
  have new: "p_calls ?s ! length (p_calls s) = \<lparr>ca_id = int (length (p_calls s)) + 1, ca_method = m,
      ca_params = params, ca_phase = CAllocated\<rparr>"
    "p_chans ?s ! length (p_calls s) = \<lparr>ch_buf = None, ch_closed = False\<rparr>"
    by (simp_all add: call_alloc_def Let_def i len nth_append)
  have l: "length (p_calls ?s) = Suc (length (p_calls s))" "length (p_chans ?s) = Suc (length (p_calls s))"
    "p_next ?s = int (length (p_calls s)) + 1" "p_pending ?s = p_pending s" "p_reader ?s = p_reader s"
    "p_panic ?s = p_panic s"
    by (simp_all add: call_alloc_def Let_def len i)
  have st: "started s c \<Longrightarrow> started ?s c \<and> chan_fresh ?s c = chan_fresh s c
      \<and> ch_closed (p_chans ?s ! c) = ch_closed (p_chans s ! c)" for c
    using old [of c] by (simp add: started_def chan_fresh_def l)
  have "inv_ids ?s" using inv old new by (simp add: peer_inv_def inv_ids_def l less_Suc_eq)
  moreover have "inv_pending ?s" using inv st by (simp add: peer_inv_def inv_pending_def l)
  moreover have "inv_alloc ?s"
    using inv old new by (auto simp: peer_inv_def inv_alloc_def l less_Suc_eq chan_fresh_def)
  moreover have "inv_reader ?s"
    using inv st by (simp add: peer_inv_def inv_reader_def l split: reader_phase.splits)
  moreover have "inv_messages ?s"
    using inv old new by (auto simp: peer_inv_def inv_messages_def l less_Suc_eq)
  ultimately show ?thesis using inv by (simp add: peer_inv_def l)
qed

lemma inv_call_register [inv_intros]:
  assumes inv: "peer_inv s" and r: "call_register c s = Some s'"
  shows "peer_inv s'"
proof -
  let ?t = "set_phase c CRegistered s"
  have c: "c < length (p_calls s)" "ca_phase (p_calls s ! c) = CAllocated"
    using r by (simp_all add: call_register_def phase_is_def split: if_splits)
  then have id: "ca_id (p_calls s ! c) = int c + 1" and fresh: "chan_fresh s c"
    using inv by (simp_all add: peer_inv_def inv_ids_def inv_alloc_def)
  have t: "peer_inv ?t" using c by (intro inv_set_phase [OF inv]) simp_all
  have same: "p_pending ?t = p_pending s" "p_reader ?t = p_reader s" "chan_fresh ?t c"
    "started ?t c"
    using fresh c by (simp_all add: set_phase_def chan_fresh_def started_def)
  have notc: "p_reader s \<noteq> ReaderHolds c m" "p_reader s \<noteq> ReaderSent c" for m
    using inv c by (auto simp: peer_inv_def inv_reader_def started_def)
  have s': "s' = ?t\<lparr>p_pending := (p_pending s)(int c + 1 \<mapsto> c)\<rparr>"
    using r c by (auto simp: call_register_def phase_is_def set_phase_def id)
  have "inv_pending s'" "inv_reader s'"
    using t same notc
    by (auto simp: s' peer_inv_def inv_pending_def inv_reader_def started_def chan_fresh_def
        split: reader_phase.splits)
  moreover have "inv_ids s'" "inv_alloc s'" "inv_messages s'" "\<not> p_panic s'"
    using t by (simp_all add: s' peer_inv_def inv_ids_def inv_alloc_def inv_messages_def chan_fresh_def)
  ultimately show ?thesis by (simp add: peer_inv_def)
qed

lemma inv_call_steps [inv_intros]:
  assumes "peer_inv s"
  shows "call_write c ok s = Some s' \<Longrightarrow> peer_inv s'"
    "call_write_cleanup c s = Some s' \<Longrightarrow> peer_inv s'"
    "call_ctx_done c s = Some s' \<Longrightarrow> peer_inv s'"
    "call_cancel_notify c ok s = Some s' \<Longrightarrow> peer_inv s'"
    "call_closed c s = Some s' \<Longrightarrow> peer_inv s'"
  using assms
  by (auto simp: call_write_def call_write_cleanup_def call_ctx_done_def call_cancel_notify_def
      call_closed_def phase_is_def Let_def inv_del_pending
      intro!: inv_set_phase split: if_split_asm)


text \<open>Emptying the buffer of one's own channel.\<close>

lemma inv_take_buf:
  assumes inv: "peer_inv s" and c: "c < length (p_calls s)"
  shows "peer_inv (s\<lparr>p_chans := (p_chans s)[c := (p_chans s ! c)\<lparr>ch_buf := None\<rparr>]\<rparr>)"
proof -
  let ?s = "s\<lparr>p_chans := (p_chans s)[c := (p_chans s ! c)\<lparr>ch_buf := None\<rparr>]\<rparr>"
  have len: "c < length (p_chans s)" using inv c by (simp add: peer_inv_def inv_ids_def)
  have "chan_fresh s d \<Longrightarrow> chan_fresh ?s d" "ch_closed (p_chans ?s ! d) = ch_closed (p_chans s ! d)"
    "ch_buf (p_chans ?s ! d) = Some m \<Longrightarrow> ch_buf (p_chans s ! d) = Some m" for d m
    using len by (simp_all add: chan_fresh_def nth_list_update split: if_splits)
  with inv show ?thesis
    by (auto simp: peer_inv_def inv_ids_def inv_pending_def inv_alloc_def inv_messages_def
        inv_reader_def started_def split: reader_phase.splits)
qed

lemma inv_call_receive [inv_intros]:
  assumes inv: "peer_inv s" and r: "call_receive c s = Some s'"
  shows "peer_inv s'"
proof -
  have c: "c < length (p_calls s)" using r by (simp add: call_receive_def phase_is_def split: if_splits)
  show ?thesis
  proof (cases "ch_buf (p_chans s ! c)")
    case None
    with r have "s' = set_phase c (CReturned CallClosed) s"
      by (simp add: call_receive_def split: if_splits)
    moreover have "peer_inv (set_phase c (CReturned CallClosed) s)"
      by (rule inv_set_phase [OF inv c]) simp_all
    ultimately show ?thesis by simp
  next
    case (Some m)
    then have "answers m c" using inv c by (simp add: peer_inv_def inv_messages_def)
    moreover have "s' = set_phase c (CReturned (GotMessage m))
        (s\<lparr>p_chans := (p_chans s)[c := (p_chans s ! c)\<lparr>ch_buf := None\<rparr>]\<rparr>)"
      using r Some by (simp add: call_receive_def split: if_splits)
    ultimately show ?thesis
      using inv_take_buf [OF inv c] c by (auto intro!: inv_set_phase)
  qed
qed

lemma inv_resolve_take [inv_intros]:
  assumes inv: "peer_inv s" and r: "resolve_take msg s = Some s'"
  shows "peer_inv s'"
proof -
  have idle: "p_reader s = ReaderIdle" using r by (simp add: resolve_take_def split: if_splits)
  show ?thesis
  proof (cases "parseRPCID (rm_id msg)")
    case None
    with r inv show ?thesis by (simp add: resolve_take_def split: if_splits)
  next
    case (Some i)
    let ?t = "s\<lparr>p_pending := (p_pending s)(i := None)\<rparr>"
    have t: "peer_inv ?t" by (rule inv_del_pending [OF inv])
    show ?thesis
    proof (cases "p_pending s i")
      case None
      with r Some t show ?thesis by (simp add: resolve_take_def Let_def split: if_splits)
    next
      case (Some c)
      then have c: "i = int c + 1" "started s c" "chan_fresh s c"
        using inv by (auto simp: peer_inv_def inv_pending_def)
      let ?m = "msg\<lparr>rm_result := copyRawMessage (rm_result msg)\<rparr>"
      have s': "s' = ?t\<lparr>p_reader := ReaderHolds c ?m\<rparr>"
        using r Some \<open>parseRPCID (rm_id msg) = Some i\<close>
        by (simp add: resolve_take_def Let_def split: if_splits)
      have "answers ?m c" using \<open>parseRPCID (rm_id msg) = Some i\<close> c(1) by (simp add: answers_def)
      then have "inv_reader s'"
        using c by (simp add: s' inv_reader_def started_def chan_fresh_def)
      with t show ?thesis
        by (simp add: s' peer_inv_def inv_ids_def inv_pending_def inv_alloc_def inv_messages_def
            started_def chan_fresh_def)
    qed
  qed
qed

lemma inv_resolve_send [inv_intros]:
  assumes inv: "peer_inv s" and r: "resolve_send s = Some s'"
  shows "peer_inv s'"
proof -
  obtain c m where rd: "p_reader s = ReaderHolds c m"
    using r by (auto simp: resolve_send_def split: reader_phase.splits)
  then have c: "started s c" "p_pending s (int c + 1) = None" "chan_fresh s c" "answers m c"
    using inv by (simp_all add: peer_inv_def inv_reader_def)
  let ?s = "s\<lparr>p_chans := (p_chans s)[c := (p_chans s ! c)\<lparr>ch_buf := Some m\<rparr>], p_reader := ReaderSent c\<rparr>"
  have s': "s' = ?s"
    using r rd c(3) by (simp add: resolve_send_def chan_send_def chan_fresh_def)
  have len: "c < length (p_chans s)" using inv c(1) by (simp add: peer_inv_def inv_ids_def started_def)
  have other: "d \<noteq> c \<Longrightarrow> p_chans ?s ! d = p_chans s ! d" for d by simp
  have me: "p_chans ?s ! c = (p_chans s ! c)\<lparr>ch_buf := Some m\<rparr>" using len by simp
  have pc: "p_pending s i = Some d \<Longrightarrow> d \<noteq> c" for i d
    using inv c(2) by (auto simp: peer_inv_def inv_pending_def)
  have "p_pending s i = Some d \<Longrightarrow> i = int d + 1 \<and> started ?s d \<and> chan_fresh ?s d" for i d
    using inv other [OF pc] by (simp add: peer_inv_def inv_pending_def started_def chan_fresh_def)
  then have "inv_pending ?s" by (simp add: inv_pending_def)
  moreover have "inv_ids ?s" using inv by (simp add: peer_inv_def inv_ids_def)
  moreover have "d < length (p_calls s) \<Longrightarrow> ca_phase (p_calls s ! d) = CAllocated \<Longrightarrow> chan_fresh ?s d" for d
    using inv c(1) other [of d] by (cases "d = c") (simp_all add: peer_inv_def inv_alloc_def started_def chan_fresh_def)
  then have "inv_alloc ?s" by (simp add: inv_alloc_def)
  moreover have "inv_reader ?s" using c len by (simp add: inv_reader_def started_def chan_fresh_def)
  moreover have "inv_messages ?s"
    using inv c(4) len by (auto simp: peer_inv_def inv_messages_def nth_list_update split: if_splits)
  ultimately show ?thesis using inv by (simp add: s' peer_inv_def)
qed


lemma inv_resolve_close [inv_intros]:
  assumes inv: "peer_inv s" and r: "resolve_close s = Some s'"
  shows "peer_inv s'"
proof -
  obtain c where rd: "p_reader s = ReaderSent c"
    using r by (auto simp: resolve_close_def split: reader_phase.splits)
  then have c: "started s c" "p_pending s (int c + 1) = None" "\<not> ch_closed (p_chans s ! c)"
    using inv by (simp_all add: peer_inv_def inv_reader_def)
  let ?s = "s\<lparr>p_chans := (p_chans s)[c := (p_chans s ! c)\<lparr>ch_closed := True\<rparr>], p_reader := ReaderIdle\<rparr>"
  have s': "s' = ?s" using r rd c(3) by (simp add: resolve_close_def chan_close_def)
  have len: "c < length (p_chans s)" using inv c(1) by (simp add: peer_inv_def inv_ids_def started_def)
  have other: "d \<noteq> c \<Longrightarrow> p_chans ?s ! d = p_chans s ! d" for d by simp
  have buf: "ch_buf (p_chans ?s ! d) = ch_buf (p_chans s ! d)" for d
    using len by (simp add: nth_list_update)
  have pc: "p_pending s i = Some d \<Longrightarrow> d \<noteq> c" for i d
    using inv c(2) by (auto simp: peer_inv_def inv_pending_def)
  have "p_pending s i = Some d \<Longrightarrow> i = int d + 1 \<and> started ?s d \<and> chan_fresh ?s d" for i d
    using inv other [OF pc] by (simp add: peer_inv_def inv_pending_def started_def chan_fresh_def)
  then have "inv_pending ?s" by (simp add: inv_pending_def)
  moreover have "inv_ids ?s" using inv by (simp add: peer_inv_def inv_ids_def)
  moreover have "d < length (p_calls s) \<Longrightarrow> ca_phase (p_calls s ! d) = CAllocated \<Longrightarrow> chan_fresh ?s d" for d
    using inv c(1) other [of d] by (cases "d = c") (simp_all add: peer_inv_def inv_alloc_def started_def chan_fresh_def)
  then have "inv_alloc ?s" by (simp add: inv_alloc_def)
  moreover have "inv_messages ?s" using inv buf by (simp add: peer_inv_def inv_messages_def)
  ultimately show ?thesis using inv by (simp add: s' peer_inv_def inv_reader_def)
qed

lemma inv_close_drain [inv_intros]:
  assumes inv: "peer_inv s" and r: "close_drain s = Some s'"
  shows "peer_inv s'"
proof -
  let ?ch = "map (\<lambda>c. if c \<in> ran (p_pending s) then (p_chans s ! c)\<lparr>ch_closed := True\<rparr> else p_chans s ! c)
                [0..<length (p_chans s)]"
  have ran: "c \<in> ran (p_pending s) \<Longrightarrow> p_pending s (int c + 1) = Some c \<and> started s c \<and> chan_fresh s c" for c
    using inv by (auto simp: peer_inv_def inv_pending_def ran_def)
  then have np: "\<not> (\<exists>c\<in>ran (p_pending s). ch_closed (p_chans s ! c))" by (auto simp: chan_fresh_def)
  have s': "s' = s\<lparr>p_close := Drained, p_pending := Map.empty, p_panic := False, p_chans := ?ch\<rparr>"
    using r np inv by (simp add: close_drain_def peer_inv_def split: if_splits)
  have len: "length (p_chans s) = length (p_calls s)" using inv by (simp add: peer_inv_def inv_ids_def)
  have other: "c < length (p_calls s) \<Longrightarrow> c \<notin> ran (p_pending s) \<Longrightarrow> p_chans s' ! c = p_chans s ! c" for c
    by (simp add: s' len)
  have buf: "c < length (p_calls s) \<Longrightarrow> ch_buf (p_chans s' ! c) = ch_buf (p_chans s ! c)" for c
    by (simp add: s' len)
  have calls: "p_calls s' = p_calls s" "p_reader s' = p_reader s" "p_pending s' = Map.empty"
    by (simp_all add: s')
  have "inv_ids s'" using inv by (simp add: peer_inv_def inv_ids_def s')
  moreover have "inv_pending s'" by (simp add: inv_pending_def s')
  moreover have "inv_alloc s'"
    unfolding inv_alloc_def calls
  proof (intro allI impI)
    fix c assume c: "c < length (p_calls s)" "ca_phase (p_calls s ! c) = CAllocated"
    then have "c \<notin> ran (p_pending s)" using ran [of c] by (auto simp: started_def)
    with other [OF c(1)] inv c show "chan_fresh s' c"
      by (simp add: peer_inv_def inv_alloc_def chan_fresh_def)
  qed
  moreover have "inv_reader s'"
  proof (cases "p_reader s")
    case (ReaderHolds c m)
    then have c: "started s c" "p_pending s (int c + 1) = None" "chan_fresh s c" "answers m c"
      using inv by (simp_all add: peer_inv_def inv_reader_def)
    then have "p_chans s' ! c = p_chans s ! c"
      using ran [of c] by (intro other) (auto simp: started_def)
    with c ReaderHolds show ?thesis by (simp add: inv_reader_def calls started_def chan_fresh_def)
  next
    case (ReaderSent c)
    then have c: "started s c" "p_pending s (int c + 1) = None" "\<not> ch_closed (p_chans s ! c)"
      using inv by (simp_all add: peer_inv_def inv_reader_def)
    then have "p_chans s' ! c = p_chans s ! c"
      using ran [of c] by (intro other) (auto simp: started_def)
    with c ReaderSent show ?thesis by (simp add: inv_reader_def calls started_def)
  qed (simp add: inv_reader_def calls)
  moreover have "inv_messages s'" using inv buf by (simp add: peer_inv_def inv_messages_def calls)
  ultimately show ?thesis by (simp add: peer_inv_def) (simp add: s')
qed

lemma inv_other_steps [inv_intros]:
  assumes "peer_inv s"
  shows "peer_inv (close_reason_set err s)"
    "close_begin s = Some s' \<Longrightarrow> peer_inv s'"
    "close_cancel s = Some s' \<Longrightarrow> peer_inv s'"
    "request_spawn msg s = Some s' \<Longrightarrow> peer_inv s'"
    "request_start r h ok s = Some s' \<Longrightarrow> peer_inv s'"
    "request_respond r out ok s = Some s' \<Longrightarrow> peer_inv s'"
    "request_cleanup r s = Some s' \<Longrightarrow> peer_inv s'"
    "peer_inv (cancel_request i s)"
  using assms
  by (auto simp: close_reason_set_def close_begin_def close_cancel_def request_spawn_def
      request_start_def request_respond_def request_cleanup_def cancel_request_def
      set_request_phase_def write_ok_def split: if_split_asm option.splits)

text \<open>No step removes a call.\<close>

lemma calls_grow: "peer_exec a s = Some s' \<Longrightarrow> length (p_calls s) \<le> length (p_calls s')"
  by (cases a) (auto simp: call_alloc_def call_register_def call_write_def call_write_cleanup_def
      call_ctx_done_def call_cancel_notify_def call_closed_def call_receive_def resolve_take_def
      resolve_send_def chan_send_def resolve_close_def chan_close_def close_reason_set_def
      close_begin_def close_drain_def close_cancel_def request_spawn_def request_start_def
      request_respond_def request_cleanup_def cancel_request_def set_phase_def
      set_request_phase_def write_ok_def Let_def
      split: if_split_asm option.splits reader_phase.splits)

lemma inv_exec:
  assumes "peer_inv s" "peer_exec a s = Some s'" "int (length (p_calls s')) \<le> max_int64"
  shows "peer_inv s'"
proof (cases a)
  case (ACallAlloc m params)
  with assms show ?thesis
    by (auto simp: call_alloc_def Let_def intro: inv_call_alloc [unfolded call_alloc_def Let_def])
next
  case (ACallRegister c)
  then show ?thesis using assms(2) by (auto intro: inv_call_register [OF assms(1)])
next
  case (ACallWrite c ok)
  then show ?thesis using assms(2) by (auto intro: inv_call_steps(1) [OF assms(1)])
next
  case (ACallWriteCleanup c)
  then show ?thesis using assms(2) by (auto intro: inv_call_steps(2) [OF assms(1)])
next
  case (ACallCtxDone c)
  then show ?thesis using assms(2) by (auto intro: inv_call_steps(3) [OF assms(1)])
next
  case (ACallCancelNotify c ok)
  then show ?thesis using assms(2) by (auto intro: inv_call_steps(4) [OF assms(1)])
next
  case (ACallClosed c)
  then show ?thesis using assms(2) by (auto intro: inv_call_steps(5) [OF assms(1)])
next
  case (ACallReceive c)
  then show ?thesis using assms(2) by (auto intro: inv_call_receive [OF assms(1)])
next
  case (AResolveTake m)
  then show ?thesis using assms(2) by (auto intro: inv_resolve_take [OF assms(1)])
next
  case AResolveSend
  then show ?thesis using assms(2) by (auto intro: inv_resolve_send [OF assms(1)])
next
  case AResolveClose
  then show ?thesis using assms(2) by (auto intro: inv_resolve_close [OF assms(1)])
next
  case (AReason e)
  then show ?thesis using assms(2) by (auto intro: inv_other_steps(1) [OF assms(1)])
next
  case ACloseBegin
  then show ?thesis using assms(2) by (auto intro: inv_other_steps(2) [OF assms(1)])
next
  case ACloseDrain
  then show ?thesis using assms(2) by (auto intro: inv_close_drain [OF assms(1)])
next
  case ACloseCancel
  then show ?thesis using assms(2) by (auto intro: inv_other_steps(3) [OF assms(1)])
next
  case (ARequestSpawn m)
  then show ?thesis using assms(2) by (auto intro: inv_other_steps(4) [OF assms(1)])
next
  case (ARequestStart r h ok)
  then show ?thesis using assms(2) by (auto intro: inv_other_steps(5) [OF assms(1)])
next
  case (ARequestRespond r out ok)
  then show ?thesis using assms(2) by (auto intro: inv_other_steps(6) [OF assms(1)])
next
  case (ARequestCleanup r)
  then show ?thesis using assms(2) by (auto intro: inv_other_steps(7) [OF assms(1)])
next
  case (ACancelRequest i)
  then show ?thesis using assms(2) by (auto intro: inv_other_steps(8) [OF assms(1)])
qed

text \<open>Identifiers wrap after \<open>2\<^sup>6\<^sup>3 - 1\<close> calls: the invariant holds up to there.\<close>

interpretation peer: step_invariant peer_exec "\<lambda>s. int (length (p_calls s)) \<le> max_int64 \<longrightarrow> peer_inv s"
  by unfold_locales (use calls_grow inv_exec in \<open>fastforce intro: order_trans\<close>)

lemma reachable_inv:
  "peer_reachable s \<Longrightarrow> int (length (p_calls s)) \<le> max_int64 \<Longrightarrow> peer_inv s"
  using peer.reachable [of NewPeer s] inv_new by simp

section \<open>Safety\<close>

definition demo_method :: bytes where
  "demo_method = ''session/prompt''"

definition demo_reply :: rpc_message where
  "demo_reply = \<lparr>rm_jsonrpc = [], rm_id = ''1'', rm_method = [], rm_params = [],
     rm_result = ''null'', rm_error = None\<rparr>"

text \<open>One call answered and taken, then \<open>Close\<close>.\<close>

definition demo_run :: "peer_action list" where
  "demo_run = [ACallAlloc demo_method ''null'', ACallRegister 0, ACallWrite 0 True,
     AResolveTake demo_reply, AResolveSend, ACallReceive 0, ACloseBegin, AResolveClose,
     ACloseDrain, ACloseCancel]"

definition demo_final :: peer where
  "demo_final = the (run peer_exec demo_run NewPeer)"

lemma parse_one: "parseRPCID ''1'' = Some 1"
proof -
  have t: "trimJSONSpace ''1'' = ''1''"
    by (rule digits_no_ws) (simp add: digits_def is_digit_def)
  show ?thesis by (simp add: parseRPCID_def t parsePositiveInt64Bytes_def wrap64_def)
qed

lemmas peer_op_defs = call_alloc_def call_register_def call_write_def call_write_cleanup_def
  call_ctx_done_def call_cancel_notify_def call_closed_def call_receive_def resolve_take_def
  resolve_send_def chan_send_def resolve_close_def chan_close_def close_reason_set_def
  close_begin_def close_drain_def close_cancel_def request_spawn_def request_start_def
  request_respond_def request_cleanup_def cancel_request_def set_phase_def phase_is_def
  set_request_phase_def request_phase_is_def write_ok_def classify_def NewPeer_def

lemma demo_final_run: "run peer_exec demo_run NewPeer = Some demo_final"
  and demo_final_calls: "p_calls demo_final =
    [\<lparr>ca_id = 1, ca_method = demo_method, ca_params = ''null'',
      ca_phase = CReturned (GotMessage demo_reply)\<rparr>]"
  by (simp_all add: demo_final_def demo_run_def peer_op_defs demo_reply_def parse_one Let_def
      wrap64_def copyRawMessage_def)

lemma demo_final_rest: "p_pending demo_final = Map.empty" "p_reader demo_final = ReaderIdle"
  by (simp_all add: demo_final_def demo_run_def peer_op_defs demo_reply_def parse_one Let_def
      wrap64_def copyRawMessage_def)

lemma demo_reachable: "peer_reachable demo_final"
  by (rule reach_run [OF demo_final_run])

text \<open>C4. No interleaving of callers, read loop and \<open>Close\<close> sends on a closed channel or
  closes a channel twice, as long as fewer than \<open>2\<^sup>6\<^sup>3\<close> calls were made.\<close>

theorem peer_never_panics:
  assumes "peer_reachable s" "int (length (p_calls s)) \<le> max_int64"
  shows "\<not> p_panic s"
  using reachable_inv [OF assms] by (simp add: peer_inv_def)

theorem peer_never_panics_witness: "\<not> p_panic demo_final"
  by (rule peer_never_panics [OF demo_reachable]) (simp add: demo_final_calls)

text \<open>C29. Responses are not mixed up: the message a call returns carries the identifier of the
  request that call wrote.\<close>

theorem call_returns_its_response:
  assumes "peer_reachable s" "int (length (p_calls s)) \<le> max_int64"
    and "c < length (p_calls s)" "ca_phase (p_calls s ! c) = CReturned (GotMessage m)"
  shows "parseRPCID (rm_id m) = parseRPCID (rm_id (request_message (p_calls s ! c)))
    \<and> parseRPCID (rm_id m) \<noteq> None"
proof -
  have inv: "peer_inv s" using assms(1,2) by (rule reachable_inv)
  then have "parseRPCID (rm_id m) = Some (int c + 1)" and id: "ca_id (p_calls s ! c) = int c + 1"
    using assms(3,4) by (simp_all add: peer_inv_def inv_messages_def answers_def inv_ids_def)
  moreover have "parseRPCID (int_decimal (int c + 1)) = Some (int c + 1)"
    using assms(2,3) by (intro parseRPCID_int_decimal) simp_all
  ultimately show ?thesis by (simp add: request_message_def)
qed

theorem call_returns_its_response_witness:
  "parseRPCID (rm_id demo_reply) = parseRPCID (rm_id (request_message (p_calls demo_final ! 0)))"
  using call_returns_its_response [OF demo_reachable, of 0 demo_reply]
  by (simp add: demo_final_calls)

section \<open>Late and repeated responses\<close>

lemma gone_stays_gone:
  assumes inv: "peer_inv s" and e: "peer_exec a s = Some s'" and b: "int (length (p_calls s')) \<le> max_int64"
    and st: "started s c" and gone: "p_pending s (int c + 1) = None"
  shows "started s' c \<and> p_pending s' (int c + 1) = None"
proof -
  have id: "d < length (p_calls s) \<Longrightarrow> ca_id (p_calls s ! d) = int d + 1" for d
    using inv by (simp add: peer_inv_def inv_ids_def)
  show ?thesis
  proof (cases a)
    case (ACallRegister d)
    then have d: "d < length (p_calls s)" "ca_phase (p_calls s ! d) = CAllocated"
      and s': "s' = set_phase d CRegistered (s\<lparr>p_pending := (p_pending s)(ca_id (p_calls s ! d) \<mapsto> d)\<rparr>)"
      using e by (simp_all add: call_register_def phase_is_def split: if_splits)
    then have "d \<noteq> c" using st by (auto simp: started_def)
    with d st gone show ?thesis by (simp add: s' id set_phase_def started_def)
  next
    case (ACallAlloc m params)
    then show ?thesis using e st gone by (auto simp: call_alloc_def Let_def started_def nth_append)
  qed (use e st gone in \<open>auto simp: peer_op_defs started_def Let_def nth_list_update
      split: if_split_asm option.splits reader_phase.splits\<close>)
qed

definition gone :: "nat \<Rightarrow> peer \<Rightarrow> bool" where
  "gone c s \<longleftrightarrow> (int (length (p_calls s)) \<le> max_int64 \<longrightarrow>
     peer_inv s \<and> started s c \<and> p_pending s (int c + 1) = None)"

interpretation grow: step_invariant peer_exec "\<lambda>s. n \<le> length (p_calls s)" for n
  by unfold_locales (auto dest: calls_grow)

interpretation gone_for_good: step_invariant peer_exec "gone c" for c
proof
  fix s a t assume g: "gone c s" and e: "peer_exec a s = Some t"
  from e have l: "length (p_calls s) \<le> length (p_calls t)" by (rule calls_grow)
  show "gone c t"
    unfolding gone_def
  proof
    assume b: "int (length (p_calls t)) \<le> max_int64"
    with g l have "peer_inv s" "started s c" "p_pending s (int c + 1) = None" by (auto simp: gone_def)
    with inv_exec [OF _ e b] gone_stays_gone [OF _ e b]
    show "peer_inv t \<and> started t c \<and> p_pending t (int c + 1) = None" by blast
  qed
qed

text \<open>Once a call's entry has left \<open>pending\<close> (answered, cancelled, failed or drained),
  every later message with its identifier is dropped without any effect, for ever.\<close>

theorem late_response_dropped:
  assumes "peer_reachable s" "reach peer_exec s t" "int (length (p_calls t)) \<le> max_int64"
    and "c < length (p_calls s)" "ca_phase (p_calls s ! c) \<noteq> CAllocated"
    and "p_pending s (ca_id (p_calls s ! c)) = None"
    and "parseRPCID (rm_id msg) = Some (ca_id (p_calls s ! c))" "resolve_take msg t = Some t'"
  shows "t' = t"
proof -
  have "int (length (p_calls s)) \<le> max_int64" using grow.reachable [OF assms(2)] assms(3) by fastforce
  then have inv: "peer_inv s" by (rule reachable_inv [OF assms(1)])
  then have "ca_id (p_calls s ! c) = int c + 1"
    using assms(4) by (simp add: peer_inv_def inv_ids_def)
  moreover from this have "p_pending t (int c + 1) = None"
    using gone_for_good.reachable [OF assms(2), of c] inv assms(3-6) by (simp add: gone_def started_def)
  ultimately show ?thesis
    using assms(7,8) by (auto simp: resolve_take_def Let_def fun_upd_idem split: if_splits)
qed

theorem late_response_dropped_witness:
  "the (resolve_take demo_reply demo_final) = demo_final"
proof (rule late_response_dropped [OF demo_reachable reach_refl])
  show "parseRPCID (rm_id demo_reply) = Some (ca_id (p_calls demo_final ! 0))"
    by (simp add: demo_reply_def parse_one demo_final_calls)
  show "resolve_take demo_reply demo_final = Some (the (resolve_take demo_reply demo_final))"
    by (simp add: demo_final_rest resolve_take_def classify_def demo_reply_def parse_one Let_def)
qed (simp_all add: demo_final_calls demo_final_rest)

section \<open>Progress and leaks\<close>

definition returned :: "peer \<Rightarrow> nat \<Rightarrow> bool" where
  "returned s c \<longleftrightarrow> c < length (p_calls s) \<and> (\<exists>r. ca_phase (p_calls s ! c) = CReturned r)"






text \<open>But a call can leave its entry behind: a call that registers after \<open>Close\<close> drained the
  map returns through the closed branch, which does not delete, and nothing deletes later.\<close>

theorem closed_call_leaks_entry:
  "\<exists>s. peer_reachable s \<and> p_close s = CloseDone \<and> p_reader s = ReaderIdle
     \<and> length (p_calls s) = 1 \<and> returned s 0 \<and> p_pending s \<noteq> Map.empty"
proof -
  let ?as = "[ACallAlloc demo_method ''null'', ACloseBegin, ACloseDrain, ACloseCancel, ACallRegister 0,
    ACallWrite 0 True, ACallClosed 0]"
  obtain s where s: "run peer_exec ?as NewPeer = Some s"
    by (simp add: peer_op_defs Let_def wrap64_def)
  moreover from s have "p_close s = CloseDone \<and> p_reader s = ReaderIdle
     \<and> length (p_calls s) = 1 \<and> returned s 0 \<and> p_pending s 1 \<noteq> None"
    by (auto simp: peer_op_defs Let_def wrap64_def returned_def)
  ultimately show ?thesis
    using reach_run [OF s] by (intro exI [of _ s]) auto
qed


section \<open>Inbound requests\<close>



text \<open>While a handler runs under an identifier no other request has used, its cancel function
  is the one registered under it, until \<open>Close\<close> cancels everything.\<close>

definition unique_request :: "peer \<Rightarrow> nat \<Rightarrow> bool" where
  "unique_request s r \<longleftrightarrow> r < length (p_requests s)
     \<and> (\<forall>q < length (p_requests s). rq_id (p_requests s ! q) = rq_id (p_requests s ! r) \<longrightarrow> q = r)"

definition inv_inbound :: "peer \<Rightarrow> bool" where
  "inv_inbound s \<longleftrightarrow> (\<forall>r. unique_request s r \<and> rq_phase (p_requests s ! r) \<in> {RqHandling, RqWritten}
     \<longrightarrow> p_inbound s (rq_id (p_requests s ! r)) = Some r \<or> p_close s = CloseDone)"

lemma inv_inbound_frame:
  assumes "p_requests s' = p_requests s" "p_inbound s' = p_inbound s" "p_close s = CloseDone \<Longrightarrow> p_close s' = CloseDone"
  shows "inv_inbound s \<Longrightarrow> inv_inbound s'"
  using assms by (auto simp: inv_inbound_def unique_request_def)

lemma inv_inbound_spawn:
  assumes inv: "inv_inbound s" and r: "request_spawn msg s = Some s'"
  shows "inv_inbound s'"
proof -
  define x where "x = \<lparr>rq_id = copyRawMessage (rm_id msg), rq_phase = RqSpawned\<rparr>"
  have s': "s' = s\<lparr>p_requests := p_requests s @ [x]\<rparr>"
    using r by (simp add: request_spawn_def x_def split: if_splits)
  have "p_inbound s (rq_id (p_requests s' ! q)) = Some q \<or> p_close s = CloseDone"
    if q: "unique_request s' q" "rq_phase (p_requests s' ! q) \<in> {RqHandling, RqWritten}" for q
  proof -
    have lt: "q < length (p_requests s)"
    proof (rule ccontr)
      assume "\<not> q < length (p_requests s)"
      then have "q = length (p_requests s)" using q(1) by (simp add: s' unique_request_def)
      with q(2) show False by (simp add: s' x_def)
    qed
    then have same: "p_requests s' ! q = p_requests s ! q" by (simp add: s' nth_append)
    have "unique_request s q"
      unfolding unique_request_def
    proof (intro conjI allI impI)
      fix p assume p: "p < length (p_requests s)" "rq_id (p_requests s ! p) = rq_id (p_requests s ! q)"
      then have "p < length (p_requests s')" "rq_id (p_requests s' ! p) = rq_id (p_requests s' ! q)"
        by (simp_all add: same) (simp_all add: s' nth_append)
      with q(1) show "p = q" by (simp add: unique_request_def)
    qed (rule lt)
    with inv q(2) same show ?thesis by (auto simp: inv_inbound_def)
  qed
  then show ?thesis by (simp add: inv_inbound_def s')
qed

lemma inv_inbound_step:
  assumes inv: "inv_inbound s" and r: "r < length (p_requests s)"
    and len: "length (p_requests s') = length (p_requests s)"
    and ids: "\<And>q. rq_id (p_requests s' ! q) = rq_id (p_requests s ! q)"
    and ph: "\<And>q. q \<noteq> r \<Longrightarrow> rq_phase (p_requests s' ! q) = rq_phase (p_requests s ! q)"
    and ib: "\<And>i. i \<noteq> rq_id (p_requests s ! r) \<Longrightarrow> p_inbound s' i = p_inbound s i"
    and cl: "p_close s' = p_close s"
    and me: "unique_request s r \<Longrightarrow> rq_phase (p_requests s' ! r) \<in> {RqHandling, RqWritten} \<Longrightarrow>
      p_inbound s' (rq_id (p_requests s ! r)) = Some r \<or> p_close s = CloseDone"
  shows "inv_inbound s'"
proof -
  have u: "unique_request s' q = unique_request s q" for q by (simp add: unique_request_def len ids)
  have "p_inbound s' (rq_id (p_requests s ! q)) = Some q \<or> p_close s = CloseDone"
    if q: "unique_request s q" "rq_phase (p_requests s' ! q) \<in> {RqHandling, RqWritten}" for q
  proof (cases "q = r")
    case False
    then have "rq_id (p_requests s ! q) \<noteq> rq_id (p_requests s ! r)"
      using q(1) r by (auto simp: unique_request_def)
    with ib inv q ph [OF False] show ?thesis by (auto simp: inv_inbound_def)
  qed (use q me in blast)
  then show ?thesis by (simp add: inv_inbound_def u ids cl)
qed

lemma inv_inbound_exec:
  assumes "inv_inbound s" "peer_exec a s = Some s'"
  shows "inv_inbound s'"
proof (cases a)
  case (ARequestSpawn m)
  with assms show ?thesis by (auto intro: inv_inbound_spawn)
next
  case (ARequestStart r h ok)
  then have "request_start r h ok s = Some s'" using assms(2) by simp
  then show ?thesis
    by (intro inv_inbound_step [OF assms(1), of r])
      (auto simp: request_start_def request_phase_is_def set_request_phase_def write_ok_def
        nth_list_update split: if_split_asm)
next
  case (ARequestRespond r out ok)
  then have e: "request_respond r out ok s = Some s'" using assms(2) by simp
  then have "rq_phase (p_requests s ! r) = RqHandling"
    by (simp add: request_respond_def request_phase_is_def split: if_splits)
  with e assms(1) show ?thesis
    by (intro inv_inbound_step [OF assms(1), of r])
      (auto simp: request_respond_def request_phase_is_def set_request_phase_def write_ok_def
        nth_list_update inv_inbound_def split: if_split_asm)
next
  case (ARequestCleanup r)
  then have "request_cleanup r s = Some s'" using assms(2) by simp
  then show ?thesis
    by (intro inv_inbound_step [OF assms(1), of r])
      (auto simp: request_cleanup_def request_phase_is_def set_request_phase_def
        nth_list_update split: if_split_asm)
next
  case ACloseCancel
  with assms show ?thesis by (auto simp: close_cancel_def inv_inbound_def split: if_split_asm)
qed (rule inv_inbound_frame [OF _ _ _ assms(1)];
     use assms(2) in \<open>auto simp: call_alloc_def call_register_def call_write_def call_write_cleanup_def
       call_ctx_done_def call_cancel_notify_def call_closed_def call_receive_def resolve_take_def
       resolve_send_def chan_send_def resolve_close_def chan_close_def close_reason_set_def
       close_begin_def close_drain_def cancel_request_def set_phase_def Let_def
       split: if_split_asm option.splits reader_phase.splits\<close>)+


interpretation inbound: step_invariant peer_exec inv_inbound
  by unfold_locales (rule inv_inbound_exec)

lemma reachable_inbound: "peer_reachable s \<Longrightarrow> inv_inbound s"
proof (erule inbound.reachable)
  show "inv_inbound NewPeer" by (simp add: inv_inbound_def unique_request_def NewPeer_def)
qed

text \<open>C31. A cancel notification reaches the running handler it names: if no other request used
  the identifier and the peer is not closed, the handler's context is cancelled.\<close>

theorem cancel_reaches_handler:
  assumes "peer_reachable s" "p_close s \<noteq> CloseDone"
    and "unique_request s r" "rq_phase (p_requests s ! r) = RqHandling"
    and "rq_id (p_requests s ! r) \<noteq> []"
    and "trimJSONSpace (rq_id (p_requests s ! r)) = rq_id (p_requests s ! r)"
  shows "r \<in> p_cancelled (cancel_request (rq_id (p_requests s ! r)) s)"
proof -
  have "p_inbound s (rq_id (p_requests s ! r)) = Some r"
    using reachable_inbound [OF assms(1)] assms(2-4) by (auto simp: inv_inbound_def)
  with assms(5,6) show ?thesis by (simp add: cancel_request_def)
qed

definition inbound_request :: rpc_message where
  "inbound_request = \<lparr>rm_jsonrpc = [], rm_id = ''7'', rm_method = demo_method, rm_params = ''null'',
     rm_result = [], rm_error = None\<rparr>"

definition demo_handling :: peer where
  "demo_handling = the (run peer_exec [ARequestSpawn inbound_request, ARequestStart 0 True True] NewPeer)"

lemma trim_seven: "trimJSONSpace ''7'' = ''7''"
  by (rule digits_no_ws) (simp add: digits_def is_digit_def)

theorem cancel_reaches_handler_witness: "0 \<in> p_cancelled (cancel_request ''7'' demo_handling)"
proof -
  have run: "run peer_exec [ARequestSpawn inbound_request, ARequestStart 0 True True] NewPeer = Some demo_handling"
    and s: "p_requests demo_handling = [\<lparr>rq_id = ''7'', rq_phase = RqHandling\<rparr>]"
      "p_close demo_handling = NotClosed"
    by (simp_all add: demo_handling_def peer_op_defs inbound_request_def demo_method_def copyRawMessage_def)
  have "peer_reachable demo_handling" by (rule reach_run [OF run])
  from cancel_reaches_handler [OF this, of 0] show ?thesis
    by (simp add: s unique_request_def trim_seven)
qed

text \<open>With a reused identifier the promise fails: when the first of two requests with one
  identifier finishes, its cleanup removes the entry of the second, which then runs on without
  a way to be cancelled (the code's comment says the entry will be added again; nothing does).\<close>

theorem reused_request_id_uncancellable:
  "\<exists>s. peer_reachable s \<and> length (p_requests s) = 2
     \<and> rq_id (p_requests s ! 1) = ''7'' \<and> rq_phase (p_requests s ! 1) = RqHandling
     \<and> 1 \<notin> p_cancelled (cancel_request ''7'' s)"
proof -
  let ?as = "[ARequestSpawn inbound_request, ARequestStart 0 True True, ARequestSpawn inbound_request,
    ARequestStart 1 True True, ARequestRespond 0 HandlerCanceled True, ARequestCleanup 0]"
  obtain s where s: "run peer_exec ?as NewPeer = Some s"
    by (simp add: peer_op_defs inbound_request_def demo_method_def)
  moreover from s have "length (p_requests s) = 2
     \<and> rq_id (p_requests s ! 1) = ''7'' \<and> rq_phase (p_requests s ! 1) = RqHandling
     \<and> 1 \<notin> p_cancelled (cancel_request ''7'' s)"
    by (auto simp: peer_op_defs inbound_request_def demo_method_def copyRawMessage_def trim_seven)
  ultimately show ?thesis
    using reach_run [OF s] by (intro exI [of _ s]) auto
qed

section \<open>Idle callbacks\<close>

text \<open>\<open>AfterIdle\<close>, \<open>markReadIdle\<close> and \<open>hasBufferedLine\<close>: callbacks wait until the read loop has
  no complete line buffered. Callbacks are numbers; \<open>id_ran\<close> records the order they ran in.\<close>

record idle_state =
  id_idle :: bool
  id_fns :: "nat list"
  id_ran :: "nat list"

definition AfterIdle :: "nat \<Rightarrow> idle_state \<Rightarrow> idle_state" where
  "AfterIdle f s =
     (if id_idle s then s\<lparr>id_ran := id_ran s @ [f]\<rparr> else s\<lparr>id_fns := id_fns s @ [f]\<rparr>)"

definition markReadIdle :: "bool \<Rightarrow> idle_state \<Rightarrow> idle_state" where
  "markReadIdle idle s =
     (let s = s\<lparr>id_idle := idle\<rparr> in
      if idle then s\<lparr>id_fns := [], id_ran := id_ran s @ id_fns s\<rparr> else s)"

definition hasBufferedLine :: "bytes \<Rightarrow> bool" where
  "hasBufferedLine buf \<longleftrightarrow> buf \<noteq> [] \<and> CHR 0x0A \<in> set buf"

text \<open>One turn of the read loop around \<open>readMessageLine\<close>.\<close>

definition read_turn :: "bytes \<Rightarrow> idle_state \<Rightarrow> idle_state" where
  "read_turn buf s =
     markReadIdle False (if hasBufferedLine buf then s else markReadIdle True s)"

datatype idle_op = SubmitIdle nat | ReadTurn bytes | MarkIdle bool

fun idle_exec :: "idle_op \<Rightarrow> idle_state \<Rightarrow> idle_state" where
  "idle_exec (SubmitIdle f) s = AfterIdle f s"
| "idle_exec (ReadTurn buf) s = read_turn buf s"
| "idle_exec (MarkIdle b) s = markReadIdle b s"

fun submitted :: "idle_op list \<Rightarrow> nat list" where
  "submitted [] = []"
| "submitted (SubmitIdle f # ops) = f # submitted ops"
| "submitted (_ # ops) = submitted ops"

definition idle_init :: idle_state where
  "idle_init = \<lparr>id_idle = False, id_fns = [], id_ran = []\<rparr>"

lemma idle_exec_inv:
  "id_idle s \<longrightarrow> id_fns s = [] \<Longrightarrow>
   (id_idle (fold idle_exec ops s) \<longrightarrow> id_fns (fold idle_exec ops s) = [])
   \<and> id_ran (fold idle_exec ops s) @ id_fns (fold idle_exec ops s) = id_ran s @ id_fns s @ submitted ops"
proof (induction ops arbitrary: s)
  case (Cons op ops)
  have "id_idle (idle_exec op s) \<longrightarrow> id_fns (idle_exec op s) = []"
    using Cons.prems by (cases op) (simp_all add: AfterIdle_def read_turn_def markReadIdle_def Let_def)
  from Cons.IH [OF this] Cons.prems show ?case
    by (cases op) (auto simp: AfterIdle_def read_turn_def markReadIdle_def Let_def)
qed simp

text \<open>Idle callbacks are neither lost, repeated nor reordered: at any point those that ran,
  followed by those still waiting, are those submitted; when the loop is idle none waits.\<close>

theorem idle_callbacks_once_in_order:
  "id_ran (fold idle_exec ops idle_init) @ id_fns (fold idle_exec ops idle_init) = submitted ops
   \<and> \<not> (id_idle (fold idle_exec ops idle_init) \<and> id_fns (fold idle_exec ops idle_init) \<noteq> [])"
  using idle_exec_inv [of idle_init ops] by (simp add: idle_init_def)

section \<open>Results and error texts\<close>

text \<open>\<open>Call\<close> after \<open>callRaw\<close> returned a raw result: what is decoded into the caller's value,
  if anything. \<open>Notify\<close> and \<open>CallRaw\<close> normalise their parameters.\<close>

definition call_decodes :: "bool \<Rightarrow> bytes \<Rightarrow> bytes option" where
  "call_decodes wants_result response =
     (if \<not> wants_result then None
      else if response = [] \<or> isRawNull response then None
      else Some response)"

definition notify_message :: "bytes \<Rightarrow> bytes \<Rightarrow> rpc_message" where
  "notify_message m params = \<lparr>rm_jsonrpc = ''2.0'', rm_id = [], rm_method = m,
     rm_params = normalizeRaw params, rm_result = [], rm_error = None\<rparr>"

text \<open>\<open>formatRPCErrorData\<close>; decoding JSON text and the string members of an object are
  \<open>json.Unmarshal\<close>: the parameters \<open>as_text\<close> and \<open>as_fields\<close>.\<close>

definition detail_keys :: "bytes list" where
  "detail_keys = [''message'', ''error'', ''detail'', ''reason'', ''stderr'', ''stdout'']"

definition formatRPCErrorData ::
  "(bytes \<Rightarrow> bytes option) \<Rightarrow> (bytes \<Rightarrow> (bytes \<Rightarrow> bytes option) option) \<Rightarrow> bytes \<Rightarrow> bytes" where
  "formatRPCErrorData as_text as_fields data =
     (if data = [] \<or> data = ''null'' then []
      else case as_text data of
             Some text \<Rightarrow> text
           | None \<Rightarrow>
              (case as_fields data of
                 None \<Rightarrow> data
               | Some fs \<Rightarrow>
                  (case filter (\<lambda>k. fs k \<noteq> None \<and> fs k \<noteq> Some []) detail_keys of
                     [] \<Rightarrow> data
                   | k # _ \<Rightarrow> the (fs k))))"

definition rpc_error_text ::
  "(bytes \<Rightarrow> bytes option) \<Rightarrow> (bytes \<Rightarrow> (bytes \<Rightarrow> bytes option) option) \<Rightarrow> rpc_error \<Rightarrow> bytes" where
  "rpc_error_text as_text as_fields e =
     (let detail = formatRPCErrorData as_text as_fields (re_data e) in
      if re_code e \<noteq> 0 then
        (if detail \<noteq> []
         then ''rpc error '' @ int_decimal (re_code e) @ '': '' @ re_message e @ '': '' @ detail
         else ''rpc error '' @ int_decimal (re_code e) @ '': '' @ re_message e)
      else if detail \<noteq> [] \<and> re_message e \<noteq> [] then re_message e @ '': '' @ detail
      else re_message e)"

end
