(* ===== verification/Go_Maps.thy ===== *)
theory Go_Maps
  imports Complex_Main Prelude
begin

text \<open>
  Go maps and dynamically typed values.

  A Go \<open>map[string]V\<close> is an association list whose keys are distinct: \<open>mget\<close> is \<open>v, ok := m[k]\<close>,
  \<open>mput\<close> is \<open>m[k] = v\<close>, \<open>mdel\<close> is \<open>delete(m, k)\<close>, and \<open>length\<close> is \<open>len(m)\<close>. Go does
  not specify the order in which \<open>range\<close> visits a map; where the code's result depends on it,
  the order is an argument of the model. The locale \<open>keyed_store\<close> states the laws the
  components use, and association lists provide them.
\<close>

type_synonym 'v gomap = "(string \<times> 'v) list"

abbreviation mget :: "'v gomap \<Rightarrow> string \<Rightarrow> 'v option" where
  "mget \<equiv> map_of"

primrec mput :: "string \<Rightarrow> 'v \<Rightarrow> 'v gomap \<Rightarrow> 'v gomap" where
  "mput k v [] = [(k, v)]"
| "mput k v (p # m) = (if fst p = k then (k, v) # m else p # mput k v m)"

definition mdel :: "string \<Rightarrow> 'v gomap \<Rightarrow> 'v gomap" where
  "mdel k m = filter (\<lambda>p. fst p \<noteq> k) m"

abbreviation mkeys :: "'v gomap \<Rightarrow> string set" where
  "mkeys m \<equiv> fst ` set m"

abbreviation mwf :: "'v gomap \<Rightarrow> bool" where
  "mwf m \<equiv> distinct (map fst m)"

text \<open>\<open>for k, v := range other { m[k] = v }\<close>.\<close>

primrec mput_all :: "'v gomap \<Rightarrow> 'v gomap \<Rightarrow> 'v gomap" where
  "mput_all [] m = m"
| "mput_all (p # ps) m = mput_all ps (mput (fst p) (snd p) m)"

section \<open>Laws\<close>

lemma mget_mput [simp]: "mget (mput k v m) j = (if j = k then Some v else mget m j)"
  by (induction m) auto

lemma mget_mdel [simp]: "mget (mdel k m) j = (if j = k then None else mget m j)"
  by (induction m) (auto simp: mdel_def)

lemma mkeys_mput [simp]: "mkeys (mput k v m) = insert k (mkeys m)"
  by (induction m) auto

lemma mkeys_mdel [simp]: "mkeys (mdel k m) = mkeys m - {k}"
  by (auto simp: mdel_def)

lemma mwf_mput [simp]: "mwf m \<Longrightarrow> mwf (mput k v m)"
proof (induction m)
  case (Cons p m)
  then show ?case
    using mkeys_mput [of k v m] by (auto simp: image_iff)
qed simp

lemma mwf_mdel [simp]: "mwf m \<Longrightarrow> mwf (mdel k m)"
  by (simp add: mdel_def distinct_map_filter)

lemma mget_eq_None: "mget m k = None \<longleftrightarrow> k \<notin> mkeys m"
  by (simp add: map_of_eq_None_iff)

lemma length_mput: "mwf m \<Longrightarrow> length (mput k v m) = (if k \<in> mkeys m then length m else Suc (length m))"
  by (induction m) (auto simp: image_iff)

lemma length_mdel: "mwf m \<Longrightarrow> length (mdel k m) = (if k \<in> mkeys m then length m - 1 else length m)"
proof (induction m)
  case (Cons p m)
  have pos: "k \<in> mkeys m \<Longrightarrow> 0 < length m" by (cases m) auto
  show ?case
  proof (cases "fst p = k")
    case True
    then have "k \<notin> mkeys m" using Cons.prems by simp
    then have "mdel k m = m" by (auto simp: mdel_def filter_id_conv)
    then show ?thesis using True by (simp add: mdel_def)
  next
    case False
    then have "mdel k (p # m) = p # mdel k m" by (simp add: mdel_def)
    then show ?thesis using Cons False pos by auto
  qed
qed (simp add: mdel_def)

lemma length_mdel_le: "length (mdel k m) \<le> length m"
  by (simp add: mdel_def)

lemma mwf_card: "mwf m \<Longrightarrow> card (mkeys m) = length m"
  using distinct_card [of "map fst m"] by simp

lemma mget_mput_all: "mwf ps \<Longrightarrow> mget (mput_all ps m) k = (case mget ps k of Some v \<Rightarrow> Some v | None \<Rightarrow> mget m k)"
  by (induction ps arbitrary: m) (auto split: option.splits simp: map_of_eq_None_iff image_iff)

lemma mwf_mput_all [simp]: "mwf m \<Longrightarrow> mwf (mput_all ps m)"
  by (induction ps arbitrary: m) auto

lemma mkeys_mput_all [simp]: "mkeys (mput_all ps m) = mkeys ps \<union> mkeys m"
proof (induction ps arbitrary: m)
  case (Cons p ps)
  have "mkeys (mput_all (p # ps) m) = mkeys ps \<union> mkeys (mput (fst p) (snd p) m)"
    using Cons by simp
  then show ?case using mkeys_mput [of "fst p" "snd p" m] by auto
qed simp

text \<open>Filtering by key keeps lookups of the kept keys.\<close>

lemma mget_filter_key:
  "mget (filter (\<lambda>p. P (fst p)) m) k = (if P k then mget m k else None)"
  by (induction m) auto

section \<open>The contract of a keyed store\<close>

locale keyed_store =
  fixes get :: "'m \<Rightarrow> 'k \<Rightarrow> 'v option"
    and put :: "'k \<Rightarrow> 'v \<Rightarrow> 'm \<Rightarrow> 'm"
    and del :: "'k \<Rightarrow> 'm \<Rightarrow> 'm"
    and keys :: "'m \<Rightarrow> 'k set"
    and inv :: "'m \<Rightarrow> bool"
  assumes get_put: "get (put k v m) j = (if j = k then Some v else get m j)"
    and get_del: "get (del k m) j = (if j = k then None else get m j)"
    and keys_put: "keys (put k v m) = insert k (keys m)"
    and keys_del: "keys (del k m) = keys m - {k}"
    and get_None: "get m k = None \<longleftrightarrow> k \<notin> keys m"
    and inv_put: "inv m \<Longrightarrow> inv (put k v m)"
    and inv_del: "inv m \<Longrightarrow> inv (del k m)"
    and finite_keys: "finite (keys m)"
begin

lemma get_put_same: "get (put k v m) k = Some v"
  by (simp add: get_put)

lemma get_put_other: "j \<noteq> k \<Longrightarrow> get (put k v m) j = get m j"
  by (simp add: get_put)

lemma get_SomeD: "get m k = Some v \<Longrightarrow> k \<in> keys m"
  using get_None [of m k] by force

lemma foldr_del_keys: "keys (foldr del ks m) = keys m - set ks"
  by (induction ks) (auto simp: keys_del)

lemma foldr_del_inv: "inv m \<Longrightarrow> inv (foldr del ks m)"
  by (induction ks) (auto intro: inv_del)

lemma foldr_del_get: "get (foldr del ks m) j = (if j \<in> set ks then None else get m j)"
  by (induction ks) (auto simp: get_del)

text \<open>A store only ever grows by one key per write.\<close>

lemma card_put: "card (keys (put k v m)) \<le> Suc (card (keys m))"
  by (simp add: keys_put card_insert_le_m1 finite_keys card_insert_if)

lemma card_del: "k \<in> keys m \<Longrightarrow> card (keys (del k m)) = card (keys m) - 1"
  by (simp add: keys_del)

end

interpretation gm: keyed_store map_of mput mdel mkeys mwf
  by unfold_locales (auto simp: map_of_eq_None_iff)

section \<open>Dynamically typed values\<close>

text \<open>
  Values of Go's type \<open>any\<close> as the program builds or decodes them. \<open>encoding/json\<close> decodes
  into nil, \<open>bool\<close>, \<open>float64\<close> (finite, so a rational number), \<open>string\<close>, \<open>[]any\<close> and
  \<open>map[string]any\<close>; the program also stores \<open>[]string\<close>, which is another dynamic type.
\<close>

datatype any =
    Nil_Value
  | Bool_Value bool
  | Float_Value rat
  | Str string
  | Strs "string list"
  | Seq "any list"
  | Obj "(string \<times> any) list"

type_synonym meta = "any gomap"

text \<open>The type assertions \<open>v.(string)\<close>, \<open>v.(bool)\<close>, \<open>v.(map[string]any)\<close>.\<close>

fun as_string :: "any \<Rightarrow> string option" where
  "as_string (Str s) = Some s"
| "as_string _ = None"

fun as_bool :: "any \<Rightarrow> bool option" where
  "as_bool (Bool_Value b) = Some b"
| "as_bool _ = None"

fun as_map :: "any \<Rightarrow> meta option" where
  "as_map (Obj m) = Some m"
| "as_map _ = None"

text \<open>\<open>m[k].(T)\<close> with the comma-ok form: a missing key yields nil, which has no type.\<close>

definition lookup_as :: "(any \<Rightarrow> 'a option) \<Rightarrow> meta \<Rightarrow> string \<Rightarrow> 'a option" where
  "lookup_as f m k = Option.bind (mget m k) f"

text \<open>
  \<open>reflect.DeepEqual\<close>: same dynamic type and deeply equal contents; maps are compared by
  key, whatever the order of the association lists.
\<close>

function deep_equal :: "any \<Rightarrow> any \<Rightarrow> bool" where
  "deep_equal (Obj m) v = (case v of
     Obj n \<Rightarrow> length m = length n \<and>
       (\<forall>p\<in>set m. case map_of n (fst p) of None \<Rightarrow> False | Some w \<Rightarrow> deep_equal (snd p) w)
   | _ \<Rightarrow> False)"
| "deep_equal (Seq xs) v = (case v of
     Seq ys \<Rightarrow> length xs = length ys \<and> (\<forall>p\<in>set (zip xs ys). deep_equal (fst p) (snd p))
   | _ \<Rightarrow> False)"
| "deep_equal Nil_Value v = (v = Nil_Value)"
| "deep_equal (Bool_Value b) v = (v = Bool_Value b)"
| "deep_equal (Float_Value r) v = (v = Float_Value r)"
| "deep_equal (Str s) v = (v = Str s)"
| "deep_equal (Strs s) v = (v = Strs s)"
  by pat_completeness auto

lemma size_zip_fst: "p \<in> set (zip xs ys) \<Longrightarrow> size (fst p) < Suc (size_list size xs)"
proof -
  assume "p \<in> set (zip xs ys)"
  then have "fst p \<in> set xs" by (metis set_zip_leftD prod.collapse)
  then show ?thesis by (metis less_Suc_eq_le size_list_estimation' order_refl)
qed

termination deep_equal
proof (relation "measure (\<lambda>p. size (fst p))", goal_cases)
  case 1 show ?case by simp
next
  case (2 m v n p w)
  then show ?case
    using size_list_estimation' [of p m "Suc (size (snd p))" "size_prod (\<lambda>x. 0) size"]
    by (cases p) (simp add: size_list_estimation less_Suc_eq_le)
next
  case (3 xs v ys p)
  then show ?case using size_zip_fst [of p xs ys] by simp
qed

end
