(* ===== verification/Types.thy ===== *)
theory Types
  imports Go_Maps Rpc_Codec
begin

text \<open>
  The data of \<open>types.go\<close> and \<open>errors.go\<close>: one record per struct, in the order of the source,
  with the Go field names behind a prefix.

  \<^item> A pointer, or a slice or map whose nil value the code tells apart from the empty one, is
    an \<open>option\<close>; a slice that is only ever ranged over or measured is a list.
  \<^item> \<open>json.RawMessage\<close> is its bytes; \<open>any\<close> is the datatype of Go_Maps.
  \<^item> Callbacks (authority handlers, hooks) are not data; the operations that call them take their
    results as arguments.
  \<^item> Times are numbers handed in by the caller of an operation (\<open>time.Now()\<close>).
\<close>

section \<open>Agents and MCP servers\<close>

record agent =
  ag_Type :: string
  ag_Command :: string
  ag_Args :: "string list option"
  ag_ExtraArgs :: "string list"
  ag_Env :: "string gomap option"

definition empty_agent :: agent where
  "empty_agent = \<lparr>ag_Type = [], ag_Command = [], ag_Args = None, ag_ExtraArgs = [], ag_Env = None\<rparr>"

definition ag_args :: "agent \<Rightarrow> string list" where
  "ag_args a = (case ag_Args a of None \<Rightarrow> [] | Some xs \<Rightarrow> xs)"

definition ag_env :: "agent \<Rightarrow> string gomap" where
  "ag_env a = (case ag_Env a of None \<Rightarrow> [] | Some m \<Rightarrow> m)"

record implementation =
  im_Name :: string
  im_Version :: string

record env_variable =
  ev_Name :: string
  ev_Value :: string

record http_header =
  hh_Name :: string
  hh_Value :: string

record mcp_server =
  ms_Name :: string
  ms_Type :: string
  ms_URL :: string
  ms_Headers :: "http_header list option"
  ms_Command :: string
  ms_Args :: "string list option"
  ms_CWD :: string
  ms_Env :: "env_variable list option"
  ms_Meta :: meta
  ms_Raw :: bytes
  ms_Extra :: "string gomap"

text \<open>The two wire structs of \<open>MCPServer.MarshalJSON\<close>.\<close>

record stdio_wire =
  sw_Name :: string
  sw_Command :: string
  sw_Args :: "string list"
  sw_CWD :: string
  sw_Env :: "env_variable list"
  sw_Meta :: meta

record http_wire =
  hw_Name :: string
  hw_Type :: string
  hw_URL :: string
  hw_Headers :: "http_header list"
  hw_Meta :: meta

datatype mcp_wire = Stdio_Wire stdio_wire | Http_Wire http_wire

definition isRemoteMCPServer :: "mcp_server \<Rightarrow> bool" where
  "isRemoteMCPServer s \<longleftrightarrow> ms_Type s = ''http'' \<or> ms_Type s = ''sse'' \<or> ms_URL s \<noteq> []"

definition or_empty :: "'a list option \<Rightarrow> 'a list" where
  "or_empty xs = (case xs of None \<Rightarrow> [] | Some ys \<Rightarrow> ys)"

lemma or_empty_simps [simp]: "or_empty None = []" "or_empty (Some xs) = xs"
  by (simp_all add: or_empty_def)

definition mcp_marshal :: "mcp_server \<Rightarrow> mcp_wire" where
  "mcp_marshal s =
     (if isRemoteMCPServer s
      then Http_Wire \<lparr>hw_Name = ms_Name s, hw_Type = ms_Type s, hw_URL = ms_URL s,
                      hw_Headers = or_empty (ms_Headers s), hw_Meta = ms_Meta s\<rparr>
      else Stdio_Wire \<lparr>sw_Name = ms_Name s, sw_Command = ms_Command s,
                       sw_Args = or_empty (ms_Args s), sw_CWD = ms_CWD s,
                       sw_Env = or_empty (ms_Env s), sw_Meta = ms_Meta s\<rparr>)"

text \<open>
  \<open>MCPServer.UnmarshalJSON\<close>: \<open>decoded\<close> is what \<open>json.Unmarshal\<close> makes of \<open>data\<close> (the plain
  struct, with the tags of \<open>MCPServer\<close>; Raw is not a wire field).
\<close>

definition mcp_unmarshal :: "'e + mcp_server \<Rightarrow> bytes \<Rightarrow> 'e + mcp_server" where
  "mcp_unmarshal decoded data = bind_result decoded (\<lambda>out.
     let s = (if data \<noteq> [] then out\<lparr>ms_Raw := data\<rparr> else out) in
     Inr (if isRemoteMCPServer s
          then s\<lparr>ms_Headers := Some (or_empty (ms_Headers s))\<rparr>
          else s\<lparr>ms_Args := Some (or_empty (ms_Args s)), ms_Env := Some (or_empty (ms_Env s))\<rparr>))"

section \<open>Capabilities and handshake\<close>

record filesystem_capabilities =
  fc_ReadTextFile :: bool
  fc_WriteTextFile :: bool

record client_capabilities =
  cc_Terminal :: bool
  cc_FS :: filesystem_capabilities
  cc_Meta :: "bytes gomap"

record prompt_capabilities =
  pc_Audio :: bool
  pc_Image :: bool
  pc_EmbeddedContext :: bool

record mcp_capabilities =
  mc_HTTP :: bool
  mc_SSE :: bool

record session_capabilities =
  sc_Close :: "meta option"
  sc_Fork :: "meta option"
  sc_List :: "meta option"
  sc_Resume :: "meta option"
  sc_AdditionalDirectories :: "meta option"

record agent_capabilities =
  ac_LoadSession :: bool
  ac_Auth :: meta
  ac_PromptCapabilities :: prompt_capabilities
  ac_MCPCapabilities :: mcp_capabilities
  ac_SessionCapabilities :: session_capabilities
  ac_Meta :: "bytes gomap"
  ac_Raw :: "bytes gomap"

record auth_env_var =
  av_Name :: string
  av_Description :: "string option"
  av_Required :: bool

record auth_method =
  am_Type :: string
  am_ID :: string
  am_Name :: string
  am_Description :: "string option"
  am_Link :: "string option"
  am_Vars :: "auth_env_var list"
  am_Args :: "string list"
  am_Env :: "string gomap"
  am_Meta :: meta

record initialize_request =
  iq_ProtocolVersion :: int
  iq_ClientInfo :: "implementation option"
  iq_ClientCapabilities :: client_capabilities
  iq_Meta :: meta

record initialize_response =
  ir_ProtocolVersion :: int
  ir_AgentInfo :: "implementation option"
  ir_AgentCapabilities :: agent_capabilities
  ir_AuthMethods :: "auth_method list"
  ir_Meta :: meta

section \<open>Session requests and responses\<close>

record new_session_request =
  nq_CWD :: string
  nq_MCPServers :: "mcp_server list"
  nq_AdditionalDirectories :: "string list"
  nq_Meta :: meta

text \<open>\<open>LoadSessionRequest\<close>, \<open>ResumeSessionRequest\<close> and \<open>ForkSessionRequest\<close> (no meta there).\<close>

record open_session_request = new_session_request +
  oq_SessionID :: string

record session_mode =
  sm_ID :: string
  sm_Name :: string
  sm_Description :: string
  sm_Meta :: meta

record session_mode_state =
  sms_CurrentModeID :: string
  sms_AvailableModes :: "session_mode list"
  sms_Meta :: meta

record model_info =
  mi_ID :: string
  mi_Name :: string
  mi_Description :: string

record session_model_state =
  sml_CurrentModelID :: string
  sml_AvailableModels :: "model_info list"

record session_config_choice =
  co_Value :: any
  co_Name :: string
  co_Description :: string

record session_config_group =
  sg_ID :: string
  sg_Name :: string
  sg_Options :: "session_config_choice list"

record session_config_option =
  so_Type :: string
  so_ID :: string
  so_Name :: string
  so_Description :: "string option"
  so_Category :: "string option"
  so_Value :: any
  so_Options :: "session_config_choice list"
  so_Groups :: "session_config_group list"
  so_Meta :: meta

record available_command =
  cmd_Name :: string
  cmd_Description :: string
  cmd_Input :: any

record new_session_response =
  nr_SessionID :: string
  nr_Modes :: "session_mode_state option"
  nr_Models :: "session_model_state option"
  nr_ConfigOptions :: "session_config_option list option"
  nr_AvailableCommands :: "available_command list"
  nr_Meta :: meta

record list_sessions_request =
  lq_CWD :: string
  lq_Cursor :: "string option"
  lq_AdditionalDirectories :: "string list"

record session_info =
  si_SessionID :: string
  si_CWD :: string
  si_Title :: "string option"
  si_UpdatedAt :: "string option"
  si_AdditionalDirectories :: "string list"

record list_sessions_response =
  lr_Sessions :: "session_info list"
  lr_NextCursor :: "string option"

record set_config_option_request =
  sr_SessionID :: string
  sr_OptionID :: string
  sr_Value :: any
  sr_Meta :: meta

record set_config_option_wire =
  scw_SessionID :: string
  scw_ConfigID :: string
  scw_OptionID :: string
  scw_Value :: any
  scw_Meta :: meta

text \<open>
  \<open>SetSessionConfigOptionRequest.UnmarshalJSON\<close>: the option id travels under \<open>configId\<close>, and
  older clients send \<open>optionId\<close>. \<open>decoded\<close> is \<open>json.Unmarshal\<close>'s result.
\<close>

definition set_config_option_unmarshal ::
  "'e + set_config_option_wire \<Rightarrow> 'e + set_config_option_request" where
  "set_config_option_unmarshal decoded = bind_result decoded (\<lambda>out.
     Inr \<lparr>sr_SessionID = scw_SessionID out,
          sr_OptionID = (if scw_ConfigID out = [] then scw_OptionID out else scw_ConfigID out),
          sr_Value = scw_Value out, sr_Meta = scw_Meta out\<rparr>)"

section \<open>Prompts and updates\<close>

record content_block =
  cb_Type :: string
  cb_Text :: string
  cb_MimeType :: string
  cb_Data :: string
  cb_URI :: string
  cb_Name :: string
  cb_Resource :: bytes
  cb_Annotations :: bytes
  cb_Meta :: meta

definition text_block :: "string \<Rightarrow> content_block" where
  "text_block t = \<lparr>cb_Type = ''text'', cb_Text = t, cb_MimeType = [], cb_Data = [], cb_URI = [],
     cb_Name = [], cb_Resource = [], cb_Annotations = [], cb_Meta = []\<rparr>"

text \<open>
  \<open>ContentBlocks.UnmarshalJSON\<close>: an array of blocks, else a single block. The two arguments are
  \<open>json.Unmarshal\<close>'s results at the two types; JSON null decodes to the nil slice.
\<close>

definition content_blocks_unmarshal ::
  "'e + content_block list option \<Rightarrow> 'e + content_block \<Rightarrow> 'e + content_block list option" where
  "content_blocks_unmarshal as_list as_single = (case as_list of
     Inr l \<Rightarrow> Inr l
   | Inl _ \<Rightarrow> bind_result as_single (\<lambda>b. Inr (Some [b])))"

record plan_entry =
  pe_Content :: string
  pe_Status :: string
  pe_Priority :: string

record tool_location =
  tl_Path :: string
  tl_Line :: "int option"
  tl_Column :: "int option"

record usage =
  us_TotalTokens :: nat
  us_InputTokens :: nat
  us_OutputTokens :: nat
  us_ThoughtTokens :: "nat option"
  us_CachedReadTokens :: "nat option"
  us_CachedWriteTokens :: "nat option"

text \<open>
  The embedded \<open>SessionInfoUpdate\<close> contributes \<open>UpdatedAt\<close>; its \<open>Title\<close> is shadowed by the
  outer field of the same name.
\<close>

record session_update =
  su_SessionUpdate :: string
  su_MessageID :: string
  su_Type :: string
  su_Text :: string
  su_ToolCallID :: string
  su_Title :: "string option"
  su_Kind :: "string option"
  su_Status :: "string option"
  su_Locations :: "tool_location list"
  su_Content :: "content_block list option"
  su_RawInput :: bytes
  su_RawOutput :: bytes
  su_Entries :: "plan_entry list"
  su_CurrentModeID :: string
  su_AvailableModes :: "session_mode list"
  su_ConfigOptions :: "session_config_option list"
  su_AvailableCommands :: "available_command list"
  su_UpdatedAt :: "string option"
  su_Usage :: "usage option"
  su_Meta :: meta

record session_notification =
  sn_SessionID :: string
  sn_Update :: session_update
  sn_UpdateID :: string
  sn_Terminal :: bool

definition empty_update :: session_update where
  "empty_update = \<lparr>su_SessionUpdate = [], su_MessageID = [], su_Type = [], su_Text = [],
     su_ToolCallID = [], su_Title = None, su_Kind = None, su_Status = None, su_Locations = [],
     su_Content = None, su_RawInput = [], su_RawOutput = [], su_Entries = [],
     su_CurrentModeID = [], su_AvailableModes = [], su_ConfigOptions = [], su_AvailableCommands = [],
     su_UpdatedAt = None, su_Usage = None, su_Meta = []\<rparr>"

section \<open>Authentication and authority\<close>

record runtime_auth_method =
  ra_Type :: string
  ra_ID :: string
  ra_Name :: string
  ra_Description :: string
  ra_Link :: string
  ra_Vars :: "auth_env_var list"
  ra_Args :: "string list"
  ra_Env :: "string gomap"
  ra_Meta :: meta

record permission_option =
  po_ID :: string
  po_Name :: string
  po_Kind :: string

record permission_request =
  pr_SessionID :: string
  pr_ToolCallID :: string
  pr_Title :: string
  pr_Kind :: string
  pr_Target :: string
  pr_Options :: "permission_option list"

record permission_decision =
  pd_Outcome :: string
  pd_OptionID :: string

record permission_snapshot =
  ps_ID :: string
  ps_Phase :: string
  ps_Operation :: string
  ps_Request :: permission_request

section \<open>Limits and configuration\<close>

definition DefaultMaxThreadEntries :: int where "DefaultMaxThreadEntries = 256"
definition DefaultMaxToolCallEntries :: int where "DefaultMaxToolCallEntries = 128"
definition DefaultMaxPermissionEntries :: int where "DefaultMaxPermissionEntries = 64"

record read_model_limits =
  lim_MaxThreadEntries :: int
  lim_MaxToolCallEntries :: int
  lim_MaxPermissionEntries :: int

record claude_code_options =
  cl_Tools :: "string list option"
  cl_DisallowedTools :: "string list"
  cl_AllowedTools :: "string list"
  cl_Settings :: "meta option"

record permission_config =
  pm_Allow :: "string list"
  pm_Deny :: "string list"
  pm_Ask :: "string list"

record agent_config =
  cf_Model :: string
  cf_Sandbox :: string
  cf_DisallowedTools :: "string list"
  cf_AllowedTools :: "string list"
  cf_Permissions :: permission_config
  cf_Extra :: meta

record codex_config =
  cx_Model :: string
  cx_SandboxMode :: string
  cx_ApprovalPolicy :: string
  cx_WritableRoots :: "string list"
  cx_NetworkAccess :: "bool option"
  cx_Extra :: meta

record opencode_config =
  oc_Model :: string
  oc_Provider :: string
  oc_Permission :: permission_config
  oc_Extra :: meta

record initial_config =
  ic_Mode :: any
  ic_Model :: any
  ic_Effort :: any
  ic_Raw :: meta

record initial_config_item =
  ii_Key :: string
  ii_ID :: string
  ii_Value :: any
  ii_Reason :: string

record start_session_options =
  st_Agent :: agent
  st_AgentID :: string
  st_CWD :: string
  st_MCPServers :: "mcp_server list option"
  st_AdditionalDirectories :: "string list"
  st_InitialConfig :: initial_config
  st_Queue :: string
  st_Meta :: meta
  st_AgentConfig :: "agent_config option"

record load_session_options = start_session_options +
  st_SessionID :: string

abbreviation SystemPromptMetaKey :: string where
  "SystemPromptMetaKey \<equiv> ''systemPrompt''"
abbreviation AppendSystemPromptMetaKey :: string where
  "AppendSystemPromptMetaKey \<equiv> ''appendSystemPrompt''"

datatype system_prompt_mode = Prompt_Replace | Prompt_Append

record system_prompt_projection =
  sp_Mode :: system_prompt_mode
  sp_Text :: string

section \<open>The read model\<close>

record runtime_capabilities =
  rc_CanLoadSession :: bool
  rc_CanListSessions :: bool
  rc_CanForkSession :: bool
  rc_CanResumeSession :: bool
  rc_CanCloseSession :: bool
  rc_PromptCapabilities :: prompt_capabilities

record runtime_diagnostics =
  dg_Warnings :: "string list"
  dg_Raw :: meta

record runtime_agent_mode =
  rm_ID :: string
  rm_Name :: string
  rm_Description :: string

record runtime_agent_model =
  rl_ID :: string
  rl_Name :: string
  rl_Description :: string

record runtime_config_option =
  ro_Type :: string
  ro_ID :: string
  ro_Name :: string
  ro_Description :: string
  ro_Category :: string
  ro_Value :: any
  ro_Options :: "session_config_choice list"

record runtime_metadata =
  md_SessionID :: string
  md_Title :: string
  md_UpdatedAt :: string
  md_AgentModes :: "runtime_agent_mode list"
  md_AgentModels :: "runtime_agent_model list"
  md_CurrentModeID :: string
  md_AgentConfigOptions :: "runtime_config_option list"
  md_AvailableCommands :: "available_command list"

record runtime_snapshot =
  sh_Version :: int
  sh_Agent :: agent
  sh_CWD :: string
  sh_MCPServers :: "mcp_server list"
  sh_SessionID :: string
  sh_CurrentModeID :: string
  sh_RawConfig :: meta

record session_reference =
  sf_ID :: string
  sf_AgentType :: string
  sf_CWD :: string
  sf_Title :: string
  sf_UpdatedAt :: string
  sf_Source :: string

record session_list =
  sl_Sessions :: "session_reference list"
  sl_NextCursor :: "string option"

record runtime_prompt_message =
  pg_Role :: string
  pg_Parts :: "content_block list"

record runtime_prompt =
  pt_Messages :: "runtime_prompt_message list"
  pt_Text :: string
  pt_Parts :: "content_block list"

record thread_entry =
  te_ID :: string
  te_Kind :: string
  te_Status :: string
  te_Text :: string
  te_CreatedAt :: int
  te_UpdatedAt :: int

record tool_call_snapshot =
  tc_ID :: string
  tc_Title :: string
  tc_Kind :: string
  tc_Status :: string
  tc_Target :: string
  tc_Content :: "content_block list option"
  tc_RawInput :: bytes
  tc_RawOutput :: bytes
  tc_UpdatedAt :: int

record operation_target =
  ot_Type :: string
  ot_Value :: string

record operation =
  op_ID :: string
  op_Kind :: string
  op_Phase :: string
  op_Title :: string
  op_Target :: operation_target
  op_UpdatedAt :: int

record turn_completion =
  tn_TurnID :: string
  tn_OutputText :: string
  tn_StopReason :: string
  tn_Usage :: "usage option"

definition empty_completion :: turn_completion where
  "empty_completion = \<lparr>tn_TurnID = [], tn_OutputText = [], tn_StopReason = [], tn_Usage = None\<rparr>"

text \<open>The zero values a Go map read yields for a missing key.\<close>

definition zero_tool_call :: tool_call_snapshot where
  "zero_tool_call = \<lparr>tc_ID = [], tc_Title = [], tc_Kind = [], tc_Status = [], tc_Target = [],
     tc_Content = None, tc_RawInput = [], tc_RawOutput = [], tc_UpdatedAt = 0\<rparr>"

definition zero_operation :: operation where
  "zero_operation = \<lparr>op_ID = [], op_Kind = [], op_Phase = [], op_Title = [],
     op_Target = \<lparr>ot_Type = [], ot_Value = []\<rparr>, op_UpdatedAt = 0\<rparr>"

section \<open>Errors\<close>

datatype error_kind =
    ErrorAuthentication | ErrorCreate | ErrorFork | ErrorInitialConfig | ErrorLoad | ErrorList
  | ErrorPermission | ErrorProcess | ErrorProtocol | ErrorResume | ErrorSessionClosed
  | ErrorSystemPrompt | ErrorTurnCancelled | ErrorTurnCoalesced | ErrorTurnTimeout
  | ErrorTurnWithdrawn

fun kind_text :: "error_kind \<Rightarrow> string" where
  "kind_text ErrorAuthentication = ''authentication''"
| "kind_text ErrorCreate = ''create''"
| "kind_text ErrorFork = ''fork''"
| "kind_text ErrorInitialConfig = ''initial_config''"
| "kind_text ErrorLoad = ''load''"
| "kind_text ErrorList = ''list''"
| "kind_text ErrorPermission = ''permission''"
| "kind_text ErrorProcess = ''process''"
| "kind_text ErrorProtocol = ''protocol''"
| "kind_text ErrorResume = ''resume''"
| "kind_text ErrorSessionClosed = ''session_closed''"
| "kind_text ErrorSystemPrompt = ''system_prompt''"
| "kind_text ErrorTurnCancelled = ''turn_cancelled''"
| "kind_text ErrorTurnCoalesced = ''turn_coalesced''"
| "kind_text ErrorTurnTimeout = ''turn_timeout''"
| "kind_text ErrorTurnWithdrawn = ''turn_withdrawn''"

datatype cleanup_status = CleanupUnset | CleanupNotAttempted | CleanupSucceeded | CleanupFailed

fun cleanup_text :: "cleanup_status \<Rightarrow> string" where
  "cleanup_text CleanupUnset = ''''"
| "cleanup_text CleanupNotAttempted = ''not_attempted''"
| "cleanup_text CleanupSucceeded = ''succeeded''"
| "cleanup_text CleanupFailed = ''failed''"

text \<open>
  The errors that flow through the runtime: its own \<open>RuntimeError\<close> (kind, operation, message,
  cause, session, cleanup status and cleanup error), the peer's \<open>RPCError\<close>, \<open>io.ErrClosedPipe\<close>,
  the result of \<open>errors.Join\<close>, a \<open>fmt.Errorf\<close> with a wrapped cause, and any other error,
  known only by its text.
\<close>

datatype go_error =
    Runtime_Error error_kind string string "go_error option" string cleanup_status "go_error option"
  | RPC_Error rpc_error
  | Closed_Pipe
  | Join_Error "go_error list"
  | Wrapped_Error string go_error
  | Other_Error string

section \<open>MCP servers on the wire\<close>

text \<open>
  What \<open>json.Unmarshal\<close> makes of a marshalled wire struct: the fields of the struct by name,
  everything else zero. The stdio form has no type and no URL, the HTTP form no command.
\<close>

definition decode_wire :: "mcp_wire \<Rightarrow> mcp_server" where
  "decode_wire w = (case w of
     Stdio_Wire x \<Rightarrow> \<lparr>ms_Name = sw_Name x, ms_Type = [], ms_URL = [], ms_Headers = None,
       ms_Command = sw_Command x, ms_Args = Some (sw_Args x), ms_CWD = sw_CWD x,
       ms_Env = Some (sw_Env x), ms_Meta = sw_Meta x, ms_Raw = [],
       ms_Extra = []\<rparr>
   | Http_Wire x \<Rightarrow> \<lparr>ms_Name = hw_Name x, ms_Type = hw_Type x, ms_URL = hw_URL x,
       ms_Headers = Some (hw_Headers x), ms_Command = [], ms_Args = None, ms_CWD = [],
       ms_Env = None, ms_Meta = hw_Meta x, ms_Raw = [], ms_Extra = []\<rparr>)"

text \<open>The fields that travel for a server of its kind, nil slices read as empty.\<close>

definition mcp_same :: "mcp_server \<Rightarrow> mcp_server \<Rightarrow> bool" where
  "mcp_same s t \<longleftrightarrow> isRemoteMCPServer t = isRemoteMCPServer s \<and> mcp_marshal t = mcp_marshal s
     \<and> (if isRemoteMCPServer s then ms_Headers t \<noteq> None else ms_Args t \<noteq> None \<and> ms_Env t \<noteq> None)"

text \<open>An MCP server survives the wire: decoding what \<open>MarshalJSON\<close> wrote gives a server of the
same transport that marshals to the same bytes, has no nil list where its transport needs one,
and remembers the bytes it was read from.\<close>

theorem mcp_server_roundtrip:
  "\<exists>t. mcp_unmarshal (Inr (decode_wire (mcp_marshal s))) (c # data) = Inr t
     \<and> mcp_same s t \<and> ms_Raw t = c # data"
proof (cases "isRemoteMCPServer s")
  case True
  then show ?thesis
    by (simp add: mcp_unmarshal_def mcp_marshal_def decode_wire_def mcp_same_def isRemoteMCPServer_def)
next
  case False
  then show ?thesis
    by (simp add: mcp_unmarshal_def mcp_marshal_def decode_wire_def mcp_same_def isRemoteMCPServer_def)
qed

end
