(* ===== verification/Errors.thy ===== *)
theory Errors
  imports Types Go_Strings
begin

text \<open>
  \<open>errors.go\<close> and the error predicates of \<open>session_service.go\<close>: the text of a runtime error,
  its unwrapping chain, \<open>wrapError\<close>, \<open>errors.Join\<close>, and the two tests by which older agents
  are tolerated. The text of a JSON-RPC error is an argument (\<open>rpc_text\<close>): it decodes the
  error's data with \<open>json.Unmarshal\<close>.
\<close>

section \<open>Text\<close>

definition decorate :: "string \<Rightarrow> cleanup_status \<Rightarrow> string \<Rightarrow> string" where
  "decorate sid cleanup base =
     (if sid \<noteq> [] \<or> cleanup \<noteq> CleanupUnset then
        (if sid \<noteq> [] \<and> cleanup \<noteq> CleanupUnset then
           base @ '' (session_id='' @ sid @ '' cleanup='' @ cleanup_text cleanup @ '')''
         else if sid \<noteq> [] then base @ '' (session_id='' @ sid @ '')''
         else base @ '' (cleanup='' @ cleanup_text cleanup @ '')'')
      else base)"

fun error_text :: "(rpc_error \<Rightarrow> string) \<Rightarrow> go_error \<Rightarrow> string" where
  "error_text rpc_text (Runtime_Error kind op msg cause sid cleanup cleanup_err) =
     (let cause_text = map_option (error_text rpc_text) cause;
          base = (if op \<noteq> [] \<and> msg \<noteq> [] \<and> cause \<noteq> None
                  then op @ '': '' @ msg @ '': '' @ the cause_text
                  else if op \<noteq> [] \<and> msg \<noteq> [] then op @ '': '' @ msg
                  else if msg \<noteq> [] then msg
                  else if cause \<noteq> None then the cause_text
                  else kind_text kind);
          base = decorate sid cleanup base
      in case map_option (error_text rpc_text) cleanup_err of
           None \<Rightarrow> base
         | Some t \<Rightarrow> base @ '' (cleanup_error='' @ t @ '')'')"
| "error_text rpc_text (RPC_Error e) = rpc_text e"
| "error_text rpc_text Closed_Pipe = ''io: read/write on closed pipe''"
| "error_text rpc_text (Join_Error es) = str_join (map (error_text rpc_text) es) [CHR 0x0A]"
| "error_text rpc_text (Wrapped_Error t _) = t"
| "error_text rpc_text (Other_Error t) = t"

section \<open>The chain\<close>

text \<open>
  \<open>errors.As\<close> and \<open>errors.Is\<close> walk the tree of \<open>Unwrap\<close> results depth first. The cleanup error
  of a \<open>RuntimeError\<close> is not part of it.
\<close>

fun error_tree :: "go_error \<Rightarrow> go_error list" where
  "error_tree (Runtime_Error k op m cause sid c ce) =
     Runtime_Error k op m cause sid c ce #
     (case map_option error_tree cause of None \<Rightarrow> [] | Some es \<Rightarrow> es)"
| "error_tree (Join_Error es) = Join_Error es # concat (map error_tree es)"
| "error_tree (Wrapped_Error t e) = Wrapped_Error t e # error_tree e"
| "error_tree e = [e]"

text \<open>\<open>errors.Is(err, io.ErrClosedPipe)\<close>, \<open>errors.As(err, **RPCError)\<close>, \<open>errors.As(err, **RuntimeError)\<close>.\<close>

definition is_closed_pipe :: "go_error \<Rightarrow> bool" where
  "is_closed_pipe e \<longleftrightarrow> Closed_Pipe \<in> set (error_tree e)"

fun rpc_of :: "go_error \<Rightarrow> rpc_error option" where
  "rpc_of (RPC_Error e) = Some e"
| "rpc_of _ = None"

fun runtime_kind_of :: "go_error \<Rightarrow> error_kind option" where
  "runtime_kind_of (Runtime_Error k _ _ _ _ _ _) = Some k"
| "runtime_kind_of _ = None"

fun first_some :: "('a \<Rightarrow> 'b option) \<Rightarrow> 'a list \<Rightarrow> 'b option" where
  "first_some f [] = None"
| "first_some f (x # xs) = (case f x of Some y \<Rightarrow> Some y | None \<Rightarrow> first_some f xs)"

definition as_rpc :: "go_error \<Rightarrow> rpc_error option" where
  "as_rpc e = first_some rpc_of (error_tree e)"

definition as_runtime :: "go_error \<Rightarrow> error_kind option" where
  "as_runtime e = first_some runtime_kind_of (error_tree e)"

section \<open>Construction\<close>

definition runtime_error :: "error_kind \<Rightarrow> string \<Rightarrow> string \<Rightarrow> go_error" where
  "runtime_error k op msg = Runtime_Error k op msg None [] CleanupUnset None"

fun is_runtime_error :: "go_error \<Rightarrow> bool" where
  "is_runtime_error (Runtime_Error _ _ _ _ _ _ _) = True"
| "is_runtime_error _ = False"

definition wrapError :: "error_kind \<Rightarrow> string \<Rightarrow> string \<Rightarrow> go_error option \<Rightarrow> go_error" where
  "wrapError k op msg err = (case err of
     None \<Rightarrow> Runtime_Error k op msg None [] CleanupUnset None
   | Some e \<Rightarrow> if is_runtime_error e then e
              else Runtime_Error k op msg (Some e) [] CleanupUnset None)"

definition errors_join :: "go_error option list \<Rightarrow> go_error option" where
  "errors_join errs = (let es = map the (filter (\<lambda>e. e \<noteq> None) errs) in
     if es = [] then None else Some (Join_Error es))"

definition systemPromptError :: "string \<Rightarrow> go_error" where
  "systemPromptError m = runtime_error ErrorSystemPrompt ''session.system_prompt'' m"

definition sessionClosedError :: "string \<Rightarrow> go_error" where
  "sessionClosedError op = runtime_error ErrorSessionClosed op ''session is closed''"

section \<open>Tolerance of older agents\<close>

definition isMethodNotImplemented :: "(rpc_error \<Rightarrow> string) \<Rightarrow> go_error option \<Rightarrow> bool" where
  "isMethodNotImplemented rpc_text err = (case err of
     None \<Rightarrow> False
   | Some e \<Rightarrow> (case as_rpc e of
       Some r \<Rightarrow> re_code r = -32601
     | None \<Rightarrow> (let msg = to_lower (error_text rpc_text e) in
         str_contains msg ''method not found'' \<or>
         str_contains msg (CHR 0x22 # ''method not found'' @ [CHR 0x22]))))"

definition isAuthenticationNotImplemented :: "(rpc_error \<Rightarrow> string) \<Rightarrow> go_error option \<Rightarrow> bool" where
  "isAuthenticationNotImplemented rpc_text err = (case err of
     None \<Rightarrow> False
   | Some e \<Rightarrow> str_contains (to_lower (error_text rpc_text e)) ''authentication not implemented'')"

section \<open>Lemmas\<close>

lemma error_tree_self: "\<exists>es. error_tree e = e # es"
  by (cases e) auto

lemma as_runtime_Runtime [simp]: "as_runtime (Runtime_Error k op m c sid cl ce) = Some k"
  by (simp add: as_runtime_def)

lemma tree_cause: "error_tree (Runtime_Error k op m (Some e) sid cl ce) =
    Runtime_Error k op m (Some e) sid cl ce # error_tree e"
  by simp

lemma wrapError_None: "wrapError k op msg None = runtime_error k op msg"
  by (simp add: wrapError_def runtime_error_def)

lemma wrapError_is_runtime: "is_runtime_error (wrapError k op msg err)"
  by (cases err) (simp_all add: wrapError_def)

lemma wrapError_again: "wrapError k' op' msg' (Some (wrapError k op msg err)) = wrapError k op msg err"
  using wrapError_is_runtime [of k op msg err] by (simp add: wrapError_def)

lemma wrapError_chain:
  "is_closed_pipe (wrapError k op msg (Some e)) = is_closed_pipe e"
  "as_rpc (wrapError k op msg (Some e)) = as_rpc e"
  by (simp_all add: wrapError_def is_closed_pipe_def as_rpc_def)

lemma wrapError_kind:
  "as_runtime (wrapError k op msg (Some e)) = (if is_runtime_error e then as_runtime e else Some k)"
  by (simp add: wrapError_def)

lemma isMethodNotImplemented_wrap:
  assumes "as_rpc e = Some r"
  shows "isMethodNotImplemented t (Some (wrapError k op msg (Some e))) \<longleftrightarrow> re_code r = -32601"
  using assms by (simp add: isMethodNotImplemented_def wrapError_chain)

section \<open>Properties\<close>

text \<open>Wrapping an error loses nothing: the result is a runtime error, wrapping it again
changes nothing, the peer's closed-pipe sentinel and its JSON-RPC error are still found through
the wrapping, and the kind that \<open>errors.As\<close> reports is the innermost wrapper's (the one
already there, if the error was a runtime error).\<close>

theorem wrapError_transparent:
  "let w = wrapError k op msg (Some e) in
     is_runtime_error w
     \<and> (\<forall>k' op' msg'. wrapError k' op' msg' (Some w) = w)
     \<and> is_closed_pipe w = is_closed_pipe e
     \<and> as_rpc w = as_rpc e
     \<and> as_runtime w = (if is_runtime_error e then as_runtime e else Some k)"
  unfolding Let_def
  by (simp add: wrapError_is_runtime wrapError_again wrapError_chain wrapError_kind)

lemma decorate_shows:
  "\<exists>p q. decorate sid cleanup base = base @ p @ sid @ q"
  "\<exists>p q. decorate sid cleanup base = base @ p @ cleanup_text cleanup @ q"
proof -
  show "\<exists>p q. decorate sid cleanup base = base @ p @ sid @ q"
  proof (cases "sid = []")
    case True
    then show ?thesis by (cases "cleanup = CleanupUnset") (auto simp: decorate_def)
  next
    case False
    show ?thesis
    proof (cases "cleanup = CleanupUnset")
      case True
      with False have "decorate sid cleanup base = base @ '' (session_id='' @ sid @ '')''"
        by (simp add: decorate_def)
      then show ?thesis by blast
    next
      case cl: False
      with False have "decorate sid cleanup base =
          base @ '' (session_id='' @ sid @ '' cleanup='' @ cleanup_text cleanup @ '')''"
        by (simp add: decorate_def)
      then show ?thesis by blast
    qed
  qed
  show "\<exists>p q. decorate sid cleanup base = base @ p @ cleanup_text cleanup @ q"
  proof (cases "cleanup = CleanupUnset")
    case True
    then show ?thesis by (cases "sid = []") (auto simp: decorate_def)
  next
    case False
    show ?thesis
    proof (cases "sid = []")
      case True
      with False have "decorate sid cleanup base = base @ '' (cleanup='' @ cleanup_text cleanup @ '')''"
        by (simp add: decorate_def)
      then show ?thesis by blast
    next
      case sid: False
      with False have "decorate sid cleanup base =
          base @ ('' (session_id='' @ sid @ '' cleanup='') @ cleanup_text cleanup @ '')''"
        by (simp add: decorate_def)
      then show ?thesis by blast
    qed
  qed
qed

text \<open>The text up to the cleanup error.\<close>

lemma error_text_base:
  "\<exists>base. error_text t (Runtime_Error kind op msg cause sid cleanup ce) =
     decorate sid cleanup base @
     (case ce of None \<Rightarrow> [] | Some e \<Rightarrow> '' (cleanup_error='' @ error_text t e @ '')'')
   \<and> (msg \<noteq> [] \<longrightarrow> (\<exists>p q. base = p @ msg @ q))
   \<and> (case cause of None \<Rightarrow> True
      | Some c \<Rightarrow> (op \<noteq> [] \<or> msg = [] \<longrightarrow> (\<exists>p. base = p @ error_text t c)))"
proof -
  define base where "base = (if op \<noteq> [] \<and> msg \<noteq> [] \<and> cause \<noteq> None
                  then op @ '': '' @ msg @ '': '' @ the (map_option (error_text t) cause)
                  else if op \<noteq> [] \<and> msg \<noteq> [] then op @ '': '' @ msg
                  else if msg \<noteq> [] then msg
                  else if cause \<noteq> None then the (map_option (error_text t) cause)
                  else kind_text kind)"
  have a: "error_text t (Runtime_Error kind op msg cause sid cleanup ce) =
     decorate sid cleanup base @
     (case ce of None \<Rightarrow> [] | Some e \<Rightarrow> '' (cleanup_error='' @ error_text t e @ '')'')"
    by (cases cause; cases ce) (simp_all add: base_def)
  have b: "\<exists>p q. base = p @ msg @ q" if "msg \<noteq> []"
  proof (cases "op = []")
    case True
    then have "base = [] @ msg @ []" using that by (simp add: base_def)
    then show ?thesis by blast
  next
    case False
    show ?thesis
    proof (cases cause)
      case None
      then have "base = (op @ '': '') @ msg @ []" using that False by (simp add: base_def)
      then show ?thesis by blast
    next
      case (Some c)
      then have "base = (op @ '': '') @ msg @ ('': '' @ error_text t c)"
        using that False by (simp add: base_def)
      then show ?thesis by blast
    qed
  qed
  have c: "\<exists>p. base = p @ error_text t c" if "cause = Some c" "op \<noteq> [] \<or> msg = []" for c
  proof (cases "msg = []")
    case True
    then have "base = [] @ error_text t c" using that by (simp add: base_def)
    then show ?thesis by blast
  next
    case False
    then have "base = (op @ '': '' @ msg @ '': '') @ error_text t c" using that by (simp add: base_def)
    then show ?thesis by blast
  qed
  show ?thesis using a b c by (auto split: option.splits)
qed

text \<open>The text of a runtime error shows its message, its session id and its cleanup status,
and ends with the text of the cleanup error when there is one.\<close>

theorem error_text_shows_cleanup:
  "let t = error_text rpc_text (Runtime_Error kind op msg cause sid cleanup ce) in
     (\<exists>p q. t = p @ msg @ q)
   \<and> (\<exists>p q. t = p @ sid @ q)
   \<and> (\<exists>p q. t = p @ cleanup_text cleanup @ q)
   \<and> (case ce of None \<Rightarrow> True
      | Some e \<Rightarrow> (\<exists>p. t = p @ '' (cleanup_error='' @ error_text rpc_text e @ '')''))"
proof -
  define tail where "tail = (case ce of None \<Rightarrow> [] | Some e \<Rightarrow> '' (cleanup_error='' @ error_text rpc_text e @ '')'')"
  obtain base where t: "error_text rpc_text (Runtime_Error kind op msg cause sid cleanup ce) =
        decorate sid cleanup base @ tail"
    and m: "msg \<noteq> [] \<longrightarrow> (\<exists>p q. base = p @ msg @ q)"
    using error_text_base [of rpc_text kind op msg cause sid cleanup ce] unfolding tail_def by blast
  obtain d where d: "decorate sid cleanup base = base @ d"
    using decorate_shows(1) [of sid cleanup base] by blast
  have 1: "\<exists>p q. base @ d @ tail = p @ msg @ q"
  proof (cases "msg = []")
    case False
    then obtain p q where "base = p @ msg @ q" using m by blast
    then have "base @ d @ tail = p @ msg @ (q @ d @ tail)" by simp
    then show ?thesis by blast
  qed auto
  have 2: "\<exists>p q. decorate sid cleanup base @ tail = p @ sid @ q"
    using decorate_shows(1) [of sid cleanup base] by (metis append.assoc)
  have 3: "\<exists>p q. decorate sid cleanup base @ tail = p @ cleanup_text cleanup @ q"
    using decorate_shows(2) [of sid cleanup base] by (metis append.assoc)
  show ?thesis
    unfolding Let_def t using 1 2 3 d by (auto simp: tail_def split: option.splits)
qed

end
