(* ===== verification/Profiles.thy ===== *)
theory Profiles
  imports Errors
begin

text \<open>
  \<open>agents.go\<close>, \<open>profiles.go\<close>, \<open>system_prompt.go\<close> and the preparation half of
  \<open>session_service.go\<close>: how an agent is assembled, which profile it gets, how a system prompt
  and a unified configuration are projected onto it, and how session metadata is merged.

  \<open>json.Unmarshal\<close> of \<open>CODEX_CONFIG\<close> into a \<open>map[string]any\<close> and \<open>json.Marshal\<close> of the map are
  arguments: \<open>dec\<close> returns \<open>None\<close> on an error and \<open>Some None\<close> when the JSON value is null, which
  leaves a nil map behind; \<open>enc\<close> returns the bytes, or the text of its error. Writing to a nil map panics in Go,
  so the operations return an \<open>outcome\<close>.
\<close>

datatype 'a outcome = Value 'a | Panic

definition bind_outcome :: "'a outcome \<Rightarrow> ('a \<Rightarrow> 'b outcome) \<Rightarrow> 'b outcome" where
  "bind_outcome m f = (case m of Value x \<Rightarrow> f x | Panic \<Rightarrow> Panic)"

lemma bind_outcome_simps [simp]:
  "bind_outcome (Value x) f = f x" "bind_outcome Panic f = Panic"
  by (simp_all add: bind_outcome_def)

section \<open>Agents\<close>

definition mergeAgent :: "agent \<Rightarrow> agent \<Rightarrow> agent" where
  "mergeAgent base overrides =
     (let base = (if ag_Type overrides \<noteq> [] then base\<lparr>ag_Type := ag_Type overrides\<rparr> else base);
          base = (if ag_Command overrides \<noteq> [] then base\<lparr>ag_Command := ag_Command overrides\<rparr> else base);
          base = (if ag_Args overrides \<noteq> None then base\<lparr>ag_Args := ag_Args overrides\<rparr> else base);
          base = (if ag_Env overrides \<noteq> None then base\<lparr>ag_Env := ag_Env overrides\<rparr> else base);
          extra = ag_ExtraArgs base @ ag_ExtraArgs overrides;
          base = (if extra \<noteq> [] then base\<lparr>ag_Args := Some (ag_args base @ extra)\<rparr> else base)
      in base\<lparr>ag_ExtraArgs := []\<rparr>)"

definition CreateCodexAgent :: "agent \<Rightarrow> agent" where
  "CreateCodexAgent = mergeAgent (empty_agent\<lparr>ag_Type := ''codex-acp'', ag_Command := ''npm'',
     ag_Args := Some [''exec'', ''--yes'', ''@agentclientprotocol/codex-acp'', ''--'']\<rparr>)"

definition CreateClaudeCodeAgent :: "agent \<Rightarrow> agent" where
  "CreateClaudeCodeAgent = mergeAgent (empty_agent\<lparr>ag_Type := ''claude-acp'', ag_Command := ''npm'',
     ag_Args := Some [''exec'', ''--yes'', ''@agentclientprotocol/claude-agent-acp'', ''--'']\<rparr>)"

definition CreateGeminiAgent :: "agent \<Rightarrow> agent" where
  "CreateGeminiAgent = mergeAgent (empty_agent\<lparr>ag_Type := ''gemini'', ag_Command := ''gemini'',
     ag_Args := Some [''--experimental-acp'']\<rparr>)"

definition CreateGitHubCopilotAgent :: "agent \<Rightarrow> agent" where
  "CreateGitHubCopilotAgent = mergeAgent (empty_agent\<lparr>ag_Type := ''github-copilot-cli'',
     ag_Command := ''copilot'', ag_Args := Some [''acp'']\<rparr>)"

definition CreateOpenCodeAgent :: "agent \<Rightarrow> agent" where
  "CreateOpenCodeAgent = mergeAgent (empty_agent\<lparr>ag_Type := ''opencode'', ag_Command := ''opencode'',
     ag_Args := Some [''acp'']\<rparr>)"

definition CreatePiAgent :: "agent \<Rightarrow> agent" where
  "CreatePiAgent = mergeAgent (empty_agent\<lparr>ag_Type := ''pi-acp'', ag_Command := ''pi'',
     ag_Args := Some [''acp'']\<rparr>)"

definition CreateCodexNativeAgent :: "agent \<Rightarrow> agent" where
  "CreateCodexNativeAgent = mergeAgent (empty_agent\<lparr>ag_Type := ''codex-native'', ag_Command := ''codex'',
     ag_Args := Some [''app-server'', ''--listen'', ''stdio://'']\<rparr>)"

definition CreateClaudeCodeNativeAgent :: "agent \<Rightarrow> agent" where
  "CreateClaudeCodeNativeAgent =
     mergeAgent (empty_agent\<lparr>ag_Type := ''claude-native'', ag_Command := ''claude''\<rparr>)"

definition CreateClaudeCodeOptions :: "claude_code_options \<Rightarrow> meta" where
  "CreateClaudeCodeOptions opts =
     (let options = (case cl_Tools opts of None \<Rightarrow> [] | Some ts \<Rightarrow> [(''tools'', Strs ts)]);
          options = (if cl_DisallowedTools opts \<noteq> []
                     then mput ''disallowedTools'' (Strs (cl_DisallowedTools opts)) options else options);
          options = (if cl_AllowedTools opts \<noteq> []
                     then mput ''allowedTools'' (Strs (cl_AllowedTools opts)) options else options);
          options = (case cl_Settings opts of None \<Rightarrow> options
                     | Some s \<Rightarrow> mput ''settings'' (Obj s) options)
      in [(''claudeCode'', Obj [(''options'', Obj options)])])"

text \<open>The assignments of \<open>buildCodexEnv\<close> in their order, as one list.\<close>

definition codex_settings :: "codex_config \<Rightarrow> meta" where
  "codex_settings opts =
     (if cx_Model opts \<noteq> [] then [(''model'', Str (cx_Model opts))] else []) @
     (if cx_SandboxMode opts \<noteq> [] then [(''sandbox_mode'', Str (cx_SandboxMode opts))] else []) @
     (if cx_ApprovalPolicy opts \<noteq> [] then [(''approval_policy'', Str (cx_ApprovalPolicy opts))] else []) @
     (if cx_WritableRoots opts \<noteq> [] then [(''writable_roots'', Strs (cx_WritableRoots opts))] else []) @
     (case cx_NetworkAccess opts of None \<Rightarrow> []
      | Some b \<Rightarrow> [(''sandbox_workspace_write'', Obj [(''network_access'', Bool_Value b)])]) @
     cx_Extra opts"

text \<open>The nil map takes no write.\<close>

definition put_all_or_panic :: "meta \<Rightarrow> meta option \<Rightarrow> meta option outcome" where
  "put_all_or_panic ps m = (case m of
     Some m \<Rightarrow> Value (Some (mput_all ps m))
   | None \<Rightarrow> if ps = [] then Value None else Panic)"

text \<open>
  Parsing what is already in the environment: an error leaves the fresh map that
  \<open>config\<close> was initialised with.
\<close>

definition existing_config :: "(bytes \<Rightarrow> meta option option) \<Rightarrow> string gomap \<Rightarrow> meta option" where
  "existing_config dec env =
     (let existing = (case mget env ''CODEX_CONFIG'' of None \<Rightarrow> [] | Some t \<Rightarrow> t) in
      if existing \<noteq> [] then (case dec existing of Some m \<Rightarrow> m | None \<Rightarrow> Some []) else Some [])"

definition buildCodexEnv ::
  "(bytes \<Rightarrow> meta option option) \<Rightarrow> (meta option \<Rightarrow> string + bytes) \<Rightarrow>
   codex_config \<Rightarrow> string gomap \<Rightarrow> (go_error + string gomap) outcome" where
  "buildCodexEnv dec enc opts existingEnv =
     (let env = mput_all existingEnv [] in
      bind_outcome (put_all_or_panic (codex_settings opts) (existing_config dec env)) (\<lambda>config.
        Value (case enc config of
          Inl t \<Rightarrow> Inl (Wrapped_Error (''marshal CODEX_CONFIG: '' @ t) (Other_Error t))
        | Inr data \<Rightarrow> Inr (mput ''CODEX_CONFIG'' data env))))"

definition CreateCodexConfig ::
  "(bytes \<Rightarrow> meta option option) \<Rightarrow> (meta option \<Rightarrow> string + bytes) \<Rightarrow>
   codex_config \<Rightarrow> (go_error + string gomap) outcome" where
  "CreateCodexConfig dec enc opts = buildCodexEnv dec enc opts []"

text \<open>
  \<open>WriteOpenCodeConfig\<close>: the map it writes to \<open>opencode.json\<close>. \<open>file\<close> is the file's content if
  it can be read; the same nil map arises from a file that holds JSON null.
\<close>

definition permission_map :: "permission_config \<Rightarrow> meta" where
  "permission_map p =
     (if pm_Allow p \<noteq> [] then [(''allow'', Strs (pm_Allow p))] else []) @
     (if pm_Deny p \<noteq> [] then [(''deny'', Strs (pm_Deny p))] else []) @
     (if pm_Ask p \<noteq> [] then [(''ask'', Strs (pm_Ask p))] else [])"

definition opencode_settings :: "opencode_config \<Rightarrow> meta" where
  "opencode_settings opts =
     (if oc_Model opts \<noteq> [] then [(''model'', Str (oc_Model opts))] else []) @
     (if oc_Provider opts \<noteq> [] then [(''provider'', Str (oc_Provider opts))] else []) @
     (if pm_Allow (oc_Permission opts) \<noteq> [] \<or> pm_Deny (oc_Permission opts) \<noteq> [] \<or>
         pm_Ask (oc_Permission opts) \<noteq> []
      then [(''permission'', Obj (permission_map (oc_Permission opts)))] else []) @
     oc_Extra opts"

definition WriteOpenCodeConfig ::
  "(bytes \<Rightarrow> meta option option) \<Rightarrow> bytes option \<Rightarrow> opencode_config \<Rightarrow> meta option outcome" where
  "WriteOpenCodeConfig dec file opts =
     put_all_or_panic (opencode_settings opts)
       (case file of None \<Rightarrow> Some []
        | Some data \<Rightarrow> (case dec data of Some m \<Rightarrow> m | None \<Rightarrow> Some []))"

section \<open>Session metadata\<close>

text \<open>
  \<open>mergeSessionMeta\<close>: \<open>out\<close> starts as a copy of \<open>base\<close>; the loop ranges over \<open>extra\<close>. Each key
  of \<open>extra\<close> is visited once and only its own entry of \<open>out\<close> is read and written, so the order
  does not matter.
\<close>

function (sequential) mergeSessionMeta :: "meta \<Rightarrow> meta \<Rightarrow> meta" where
  "mergeSessionMeta out [] = out"
| "mergeSessionMeta out ((k, v) # ps) =
     mergeSessionMeta
       (mput k (case mget out k of
                  Some (Obj m) \<Rightarrow> (case v of Obj n \<Rightarrow> Obj (mergeSessionMeta m n) | _ \<Rightarrow> v)
                | _ \<Rightarrow> v) out) ps"
  by pat_completeness auto

termination mergeSessionMeta
  by (relation "measure (\<lambda>p. size_list (size_prod (\<lambda>x. 0) size) (snd p))") auto

definition MergeMeta :: "meta list \<Rightarrow> meta" where
  "MergeMeta parts = fold mput_all parts []"

definition WithSystemPrompt :: "string \<Rightarrow> meta" where
  "WithSystemPrompt t = [(SystemPromptMetaKey, Str t)]"

definition WithAppendSystemPrompt :: "string \<Rightarrow> meta" where
  "WithAppendSystemPrompt t = [(AppendSystemPromptMetaKey, Str t)]"

section \<open>System prompts\<close>

definition systemPromptText :: "meta \<Rightarrow> string \<Rightarrow> go_error + string" where
  "systemPromptText meta key = (case mget meta key of
     None \<Rightarrow> Inr []
   | Some value \<Rightarrow> (case as_string value of
       None \<Rightarrow> Inl (systemPromptError (''_meta.'' @ key @ '' must be a string''))
     | Some text \<Rightarrow> if trim_space text = [] then Inr [] else Inr text))"

definition without_prompt_keys :: "meta \<Rightarrow> meta" where
  "without_prompt_keys meta =
     filter (\<lambda>p. fst p \<noteq> SystemPromptMetaKey \<and> fst p \<noteq> AppendSystemPromptMetaKey) meta"

definition extractSystemPrompt ::
  "meta \<Rightarrow> go_error + system_prompt_projection option \<times> meta" where
  "extractSystemPrompt meta =
     bind_result (systemPromptText meta SystemPromptMetaKey) (\<lambda>replace.
     bind_result (systemPromptText meta AppendSystemPromptMetaKey) (\<lambda>appendText.
       if replace \<noteq> [] \<and> appendText \<noteq> [] then
         Inl (systemPromptError ''_meta.systemPrompt and _meta.appendSystemPrompt are mutually exclusive'')
       else if replace \<noteq> [] then
         Inr (Some \<lparr>sp_Mode = Prompt_Replace, sp_Text = replace\<rparr>, without_prompt_keys meta)
       else if appendText \<noteq> [] then
         Inr (Some \<lparr>sp_Mode = Prompt_Append, sp_Text = appendText\<rparr>, without_prompt_keys meta)
       else Inr (None, without_prompt_keys meta)))"

definition hasSystemPromptKey :: "meta \<Rightarrow> bool" where
  "hasSystemPromptKey meta \<longleftrightarrow>
     mget meta SystemPromptMetaKey \<noteq> None \<or> mget meta AppendSystemPromptMetaKey \<noteq> None"

definition is_prompt_flag :: "string \<Rightarrow> bool" where
  "is_prompt_flag arg \<longleftrightarrow> arg = ''--system-prompt'' \<or> arg = ''--append-system-prompt''"

definition is_prompt_assignment :: "string \<Rightarrow> bool" where
  "is_prompt_assignment arg \<longleftrightarrow>
     has_prefix arg ''--system-prompt='' \<or> has_prefix arg ''--append-system-prompt=''"

fun removeClaudeSystemPromptArgs :: "string list \<Rightarrow> string list" where
  "removeClaudeSystemPromptArgs [] = []"
| "removeClaudeSystemPromptArgs (arg # rest) =
     (if is_prompt_flag arg then
        (case rest of [] \<Rightarrow> [] | _ # rest' \<Rightarrow> removeClaudeSystemPromptArgs rest')
      else if is_prompt_assignment arg then removeClaudeSystemPromptArgs rest
      else arg # removeClaudeSystemPromptArgs rest)"

text \<open>
  \<open>injectCodexSystemPromptConfig\<close>. The nil-map write after a JSON null in \<open>CODEX_CONFIG\<close>
  panics; the text is not empty on this path.
\<close>

definition injectCodexSystemPromptConfig ::
  "(bytes \<Rightarrow> meta option option) \<Rightarrow> (meta option \<Rightarrow> string + bytes) \<Rightarrow>
   string gomap \<Rightarrow> system_prompt_projection \<Rightarrow> (go_error + string gomap) outcome" where
  "injectCodexSystemPromptConfig dec enc existingEnv prompt =
     (let env = mput_all existingEnv [];
          config = existing_config dec env;
          text = trim_space (sp_Text prompt) in
      if text = [] then Value (Inr env)
      else
        let old = (case config of None \<Rightarrow> [] | Some m \<Rightarrow> m);
            item = (if sp_Mode prompt = Prompt_Append
              then (let prev = (case lookup_as as_string old ''developer_instructions'' of
                                  Some p \<Rightarrow> trim_space p | None \<Rightarrow> []) in
                    (''developer_instructions'',
                     Str (if prev \<noteq> [] then prev @ [CHR 0x0A, CHR 0x0A] @ text else text)))
              else (''instructions'', Str text)) in
        bind_outcome (put_all_or_panic [item] config) (\<lambda>config.
          Value (case enc config of
            Inl t \<Rightarrow> Inl (Other_Error t)
          | Inr data \<Rightarrow> Inr (mput ''CODEX_CONFIG'' data env))))"

definition projectCodexSystemPrompt ::
  "(bytes \<Rightarrow> meta option option) \<Rightarrow> (meta option \<Rightarrow> string + bytes) \<Rightarrow>
   agent \<Rightarrow> system_prompt_projection \<Rightarrow> (agent \<times> meta) outcome" where
  "projectCodexSystemPrompt dec enc agent prompt =
     bind_outcome (injectCodexSystemPromptConfig dec enc (ag_env agent) prompt) (\<lambda>r. Value (case r of
       Inl _ \<Rightarrow> (agent, [])
     | Inr env \<Rightarrow> (agent\<lparr>ag_Env := Some env\<rparr>, [])))"

section \<open>Unified configuration\<close>

definition codexSandboxName :: "string \<Rightarrow> string" where
  "codexSandboxName unified =
     (if unified = ''read-only'' then ''read-only''
      else if unified = ''workspace-write'' then ''workspace-write''
      else if unified = ''full-access'' then ''danger-full-access''
      else unified)"

definition filterWritableRoots :: "string list \<Rightarrow> string list" where
  "filterWritableRoots deny = filter (\<lambda>d. str_contains d ''/'') deny"

text \<open>
  \<open>mergeExtraIntoClaudeOptions\<close> writes through the nested maps it finds; the model returns the
  outer map with the inner one replaced.
\<close>

definition mergeExtraIntoClaudeOptions :: "meta \<Rightarrow> meta \<Rightarrow> meta" where
  "mergeExtraIntoClaudeOptions meta extra =
     (case lookup_as as_map meta ''claudeCode'' of
        None \<Rightarrow> meta
      | Some cc \<Rightarrow> (case lookup_as as_map cc ''options'' of
          None \<Rightarrow> meta
        | Some options \<Rightarrow>
            mput ''claudeCode'' (Obj (mput ''options'' (Obj (mput_all extra options)) cc)) meta))"

definition applyClaudeAgentConfig :: "agent \<Rightarrow> agent_config \<Rightarrow> agent \<times> meta" where
  "applyClaudeAgentConfig agent cfg =
     (let p = cf_Permissions cfg;
          settings = (if pm_Deny p \<noteq> [] \<or> pm_Allow p \<noteq> [] \<or> pm_Ask p \<noteq> []
                      then Some [(''permissions'', Obj (permission_map p))] else None);
          meta = CreateClaudeCodeOptions
            \<lparr>cl_Tools = None, cl_DisallowedTools = cf_DisallowedTools cfg,
             cl_AllowedTools = cf_AllowedTools cfg, cl_Settings = settings\<rparr>
      in (agent, if cf_Extra cfg \<noteq> [] then mergeExtraIntoClaudeOptions meta (cf_Extra cfg) else meta))"

definition codex_options :: "agent_config \<Rightarrow> codex_config" where
  "codex_options cfg =
     \<lparr>cx_Model = cf_Model cfg,
      cx_SandboxMode = (if cf_Sandbox cfg \<noteq> [] then codexSandboxName (cf_Sandbox cfg) else []),
      cx_ApprovalPolicy = (if cf_Sandbox cfg = ''read-only'' then ''on-request''
                           else if cf_Sandbox cfg = ''full-access'' then ''never'' else []),
      cx_WritableRoots = (if pm_Deny (cf_Permissions cfg) \<noteq> []
                          then filterWritableRoots (pm_Deny (cf_Permissions cfg)) else []),
      cx_NetworkAccess = None, cx_Extra = []\<rparr>"

definition applyCodexAgentConfig ::
  "(bytes \<Rightarrow> meta option option) \<Rightarrow> (meta option \<Rightarrow> string + bytes) \<Rightarrow>
   agent \<Rightarrow> agent_config \<Rightarrow> (agent \<times> meta) outcome" where
  "applyCodexAgentConfig dec enc agent cfg =
     bind_outcome (buildCodexEnv dec enc (codex_options cfg) (ag_env agent)) (\<lambda>r. Value (case r of
       Inl _ \<Rightarrow> (agent, [])
     | Inr env \<Rightarrow> (agent\<lparr>ag_Env := Some env\<rparr>, [])))"

definition applyOpenCodeAgentConfig :: "agent \<Rightarrow> agent_config \<Rightarrow> agent \<times> meta" where
  "applyOpenCodeAgentConfig agent cfg =
     (let meta = (if cf_Model cfg \<noteq> [] then [(''model'', Str (cf_Model cfg))] else []) in
      (agent, if cf_Extra cfg \<noteq> [] then mput_all (cf_Extra cfg) meta else meta))"

section \<open>Profiles\<close>

record config_selector =
  cs_Categories :: "string list"
  cs_IDs :: "string list"

record agent_profile =
  ProjectSystemPrompt :: "agent \<Rightarrow> system_prompt_projection \<Rightarrow> (agent \<times> meta) outcome"
  NormalizeInitializeAuthMethods :: "auth_method list \<Rightarrow> auth_method list"
  NormalizeRuntimeAuthMethods :: "runtime_auth_method list \<Rightarrow> runtime_auth_method list"
  CreateInitialConfigAliases :: "string \<Rightarrow> any \<Rightarrow> any list"
  CreateInitialConfigOptionSelector :: "string \<Rightarrow> config_selector"
  MapOperationKind :: "string \<Rightarrow> string"
  ApplyAgentConfig :: "(agent \<Rightarrow> agent_config \<Rightarrow> (agent \<times> meta) outcome) option"

definition default_selector :: "string \<Rightarrow> config_selector" where
  "default_selector key =
     (if key = ''mode'' then \<lparr>cs_Categories = [''mode''], cs_IDs = [''mode'']\<rparr>
      else if key = ''model'' then \<lparr>cs_Categories = [''model''], cs_IDs = [''model'']\<rparr>
      else if key = ''effort''
      then \<lparr>cs_Categories = [''effort'', ''thought_level''], cs_IDs = [''effort'', ''reasoning_effort'']\<rparr>
      else \<lparr>cs_Categories = [], cs_IDs = [key]\<rparr>)"

definition default_operation_kind :: "string \<Rightarrow> string" where
  "default_operation_kind kind =
     (let k = to_lower kind in
      if k \<in> {''read'', ''search''} then ''read_file''
      else if k \<in> {''edit'', ''delete'', ''move''} then ''write_file''
      else if k = ''execute'' then ''execute_command''
      else if k = ''fetch'' then ''network_request''
      else if k = [] then ''unknown''
      else ''mcp_call'')"

definition default_projection :: "agent \<Rightarrow> system_prompt_projection \<Rightarrow> (agent \<times> meta) outcome" where
  "default_projection agent prompt =
     Value (agent, [(if sp_Mode prompt = Prompt_Append then AppendSystemPromptMetaKey
                     else SystemPromptMetaKey, Str (sp_Text prompt))])"

definition defaultAgentProfile :: agent_profile where
  "defaultAgentProfile =
     \<lparr>ProjectSystemPrompt = default_projection,
      NormalizeInitializeAuthMethods = (\<lambda>ms. ms),
      NormalizeRuntimeAuthMethods = (\<lambda>ms. ms),
      CreateInitialConfigAliases = (\<lambda>key value. [value]),
      CreateInitialConfigOptionSelector = default_selector,
      MapOperationKind = default_operation_kind,
      ApplyAgentConfig = None\<rparr>"

definition yolo_aliases :: "string \<Rightarrow> any \<Rightarrow> any list" where
  "yolo_aliases key value =
     (if key = ''mode'' \<and> value = Str ''yolo'' then [Str ''bypassPermissions'', value] else [value])"

definition strip_prompt_args :: "agent \<Rightarrow> agent" where
  "strip_prompt_args a = a\<lparr>ag_Args := Some (removeClaudeSystemPromptArgs (ag_args a))\<rparr>"

definition claude_projection :: "agent \<Rightarrow> system_prompt_projection \<Rightarrow> (agent \<times> meta) outcome" where
  "claude_projection agent prompt =
     Value (strip_prompt_args agent,
       [(SystemPromptMetaKey,
         if sp_Mode prompt = Prompt_Append
         then Obj [(''type'', Str ''preset''), (''preset'', Str ''claude_code''),
                   (''append'', Str (sp_Text prompt))]
         else Str (sp_Text prompt))])"

definition copilot_auth_methods :: "auth_method list \<Rightarrow> auth_method list" where
  "copilot_auth_methods methods =
     (if methods \<noteq> [] then methods
      else [\<lparr>am_Type = ''agent'', am_ID = ''github-copilot-login'', am_Name = ''GitHub Copilot'',
             am_Description = None, am_Link = None, am_Vars = [], am_Args = [], am_Env = [],
             am_Meta = []\<rparr>])"

definition ResolveAgentProfile ::
  "(bytes \<Rightarrow> meta option option) \<Rightarrow> (meta option \<Rightarrow> string + bytes) \<Rightarrow> agent \<Rightarrow> agent_profile" where
  "ResolveAgentProfile dec enc agent =
     (let profile = defaultAgentProfile; t = ag_Type agent in
      if t = ''codex-acp'' \<or> t = ''codex-native'' then
        profile\<lparr>NormalizeRuntimeAuthMethods := (\<lambda>ms. ms),
                ProjectSystemPrompt := projectCodexSystemPrompt dec enc,
                ApplyAgentConfig := Some (applyCodexAgentConfig dec enc)\<rparr>
      else if t = ''claude-acp'' then
        profile\<lparr>CreateInitialConfigAliases := yolo_aliases,
                ProjectSystemPrompt := claude_projection,
                ApplyAgentConfig := Some (\<lambda>a c. Value (applyClaudeAgentConfig a c))\<rparr>
      else if t = ''claude-native'' then
        profile\<lparr>ProjectSystemPrompt := (\<lambda>a p. default_projection (strip_prompt_args a) p),
                ApplyAgentConfig := Some (\<lambda>a c.
                  let (a', meta) = applyClaudeAgentConfig a c in
                  Value (a', if cf_Model c \<noteq> []
                             then mergeSessionMeta meta [(''model'', Str (cf_Model c))] else meta)),
                CreateInitialConfigAliases := yolo_aliases\<rparr>
      else if t = ''github-copilot-cli'' then
        profile\<lparr>NormalizeInitializeAuthMethods := copilot_auth_methods\<rparr>
      else if t = ''local-simulator-agent-acp'' \<or> t = ''simulator-agent-acp'' then
        profile\<lparr>NormalizeInitializeAuthMethods := (\<lambda>ms. ms)\<rparr>
      else if t = ''opencode'' then
        profile\<lparr>ApplyAgentConfig := Some (\<lambda>a c. Value (applyOpenCodeAgentConfig a c))\<rparr>
      else profile)"

definition prepareAgentSessionStart ::
  "agent_profile \<Rightarrow> agent \<Rightarrow> meta \<Rightarrow> agent_config option \<Rightarrow> (go_error + agent \<times> meta) outcome" where
  "prepareAgentSessionStart profile agent input_meta config =
     (case extractSystemPrompt input_meta of
        Inl e \<Rightarrow> Value (Inl e)
      | Inr (prompt, callerMeta) \<Rightarrow>
          bind_outcome
            (case prompt of None \<Rightarrow> Value (agent, [])
             | Some p \<Rightarrow> bind_outcome (ProjectSystemPrompt profile agent p) (\<lambda>(a, promptMeta).
                 Value (a, mergeSessionMeta [] promptMeta))) (\<lambda>(agent, sessionMeta).
          bind_outcome
            (case (config, ApplyAgentConfig profile) of
               (Some c, Some apply) \<Rightarrow> bind_outcome (apply agent c) (\<lambda>(a, configMeta).
                 if hasSystemPromptKey configMeta
                 then Value (Inl (systemPromptError
                        ''AgentConfig metadata contains a reserved system prompt key''))
                 else if configMeta \<noteq> []
                 then Value (Inr (a, mergeSessionMeta sessionMeta configMeta))
                 else Value (Inr (a, sessionMeta)))
             | _ \<Rightarrow> Value (Inr (agent, sessionMeta))) (\<lambda>r.
          Value (bind_result r (\<lambda>(agent, sessionMeta).
            Inr (agent, if callerMeta \<noteq> [] then mergeSessionMeta sessionMeta callerMeta
                        else sessionMeta))))))"

section \<open>Authentication methods\<close>

definition runtimeAuthMethodsFromACP :: "auth_method list \<Rightarrow> runtime_auth_method list" where
  "runtimeAuthMethodsFromACP methods = map (\<lambda>m.
     \<lparr>ra_Type = (if am_Type m = [] then ''agent'' else am_Type m), ra_ID = am_ID m,
      ra_Name = am_Name m, ra_Description = (case am_Description m of None \<Rightarrow> [] | Some d \<Rightarrow> d),
      ra_Link = (case am_Link m of None \<Rightarrow> [] | Some l \<Rightarrow> l), ra_Vars = am_Vars m,
      ra_Args = am_Args m, ra_Env = am_Env m, ra_Meta = am_Meta m\<rparr>) methods"

definition selectRuntimeAuthenticationMethod ::
  "runtime_auth_method list \<Rightarrow> runtime_auth_method option" where
  "selectRuntimeAuthenticationMethod methods = (case methods of
     [] \<Rightarrow> None
   | m # _ \<Rightarrow> (case List.find (\<lambda>m. ra_Type m = ''agent'' \<or> ra_Type m = []) methods of
       Some a \<Rightarrow> Some a | None \<Rightarrow> Some m))"

end
