(* ===== verification/Profile_Laws.thy ===== *)
theory Profile_Laws
  imports Profiles
begin

text \<open>
  What the preparation of a session promises: arguments are stripped of prompt flags and of
  nothing else, metadata merges by path with the caller on top, a system prompt reaches the
  agent exactly once, and \<open>CODEX_CONFIG\<close> survives a round through its JSON text.
\<close>

section \<open>Merging by path\<close>

text \<open>Metadata maps as Go has them: no key twice, at any depth.\<close>

fun any_wf :: "any \<Rightarrow> bool" where
  "any_wf (Obj m) = (distinct (map fst m) \<and> (\<forall>p\<in>set m. any_wf (snd p)))"
| "any_wf (Seq xs) = (\<forall>x\<in>set xs. any_wf x)"
| "any_wf _ = True"

abbreviation meta_wf :: "meta \<Rightarrow> bool" where
  "meta_wf m \<equiv> any_wf (Obj m)"

fun meta_at :: "meta \<Rightarrow> string list \<Rightarrow> any option" where
  "meta_at m [] = Some (Obj m)"
| "meta_at m [k] = mget m k"
| "meta_at m (k # p) = (case mget m k of Some (Obj n) \<Rightarrow> meta_at n p | _ \<Rightarrow> None)"

fun is_obj :: "any \<Rightarrow> bool" where
  "is_obj (Obj _) = True"
| "is_obj _ = False"

definition merge_value :: "any option \<Rightarrow> any \<Rightarrow> any" where
  "merge_value old v = (case old of
     Some (Obj m) \<Rightarrow> (case v of Obj n \<Rightarrow> Obj (mergeSessionMeta m n) | _ \<Rightarrow> v) | _ \<Rightarrow> v)"

lemma mergeSessionMeta_Cons:
  "mergeSessionMeta out ((k, v) # ps) = mergeSessionMeta (mput k (merge_value (mget out k) v) out) ps"
  by (simp add: merge_value_def)

declare mergeSessionMeta.simps(2) [simp del]

lemma mget_mergeSessionMeta:
  "mwf ps \<Longrightarrow> mget (mergeSessionMeta out ps) k =
     (case mget ps k of None \<Rightarrow> mget out k | Some v \<Rightarrow> Some (merge_value (mget out k) v))"
proof (induction ps arbitrary: out)
  case (Cons p ps)
  obtain j v where p: "p = (j, v)" by (cases p)
  have j: "mget ps j = None" using Cons.prems p by (simp add: map_of_eq_None_iff)
  show ?case
    using Cons j unfolding p mergeSessionMeta_Cons by (auto split: option.splits)
qed simp

lemma merge_value_leaf: "\<not> is_obj v \<Longrightarrow> merge_value old v = v"
  by (cases v) (auto simp: merge_value_def split: option.splits any.splits)

lemma merge_value_obj:
  "merge_value old (Obj n) = Obj (case old of Some (Obj m) \<Rightarrow> mergeSessionMeta m n | _ \<Rightarrow> n)"
  by (auto simp: merge_value_def split: option.splits any.splits)

lemma meta_wf_sub: "meta_wf m \<Longrightarrow> mget m k = Some (Obj n) \<Longrightarrow> meta_wf n"
  by (metis any_wf.simps(1) map_of_SomeD snd_conv)

lemma meta_at_Cons2:
  "p \<noteq> [] \<Longrightarrow> meta_at m (k # p) = (case mget m k of Some (Obj n) \<Rightarrow> meta_at n p | _ \<Rightarrow> None)"
  by (cases p) auto

lemma meta_at_merge_leaf:
  assumes "meta_wf e" "meta_at e p = Some v" "\<not> is_obj v"
  shows "meta_at (mergeSessionMeta b e) p = Some v"
  using assms
proof (induction p arbitrary: b e)
  case (Cons k p)
  have wf: "mwf e" using Cons.prems by simp
  show ?case
  proof (cases "p = []")
    case True
    then have "mget e k = Some v" using Cons.prems by simp
    then show ?thesis using True wf Cons.prems by (simp add: mget_mergeSessionMeta merge_value_leaf)
  next
    case False
    then obtain n where n: "mget e k = Some (Obj n)" "meta_at n p = Some v"
      using Cons.prems by (auto simp: meta_at_Cons2 split: option.splits any.splits)
    have "meta_wf n" using Cons.prems n meta_wf_sub by blast
    then have sub: "meta_at (mergeSessionMeta c n) p = Some v" for c
      using Cons.IH n Cons.prems by blast
    have "meta_at (mergeSessionMeta b e) (k # p) =
      meta_at (case mget b k of Some (Obj m) \<Rightarrow> mergeSessionMeta m n | _ \<Rightarrow> n) p"
      using False wf n by (simp add: meta_at_Cons2 mget_mergeSessionMeta merge_value_obj)
    also have "\<dots> = Some v" using sub n by (auto split: option.splits any.splits)
    finally show ?thesis .
  qed
qed auto

text \<open>What \<open>extra\<close> says nothing about stays as it was.\<close>

lemma meta_at_merge_base:
  assumes "mwf e" "mget e k = None"
  shows "meta_at (mergeSessionMeta b e) (k # p) = meta_at b (k # p)"
  using assms by (cases p) (simp_all add: mget_mergeSessionMeta)

lemma mget_without_prompt_keys:
  "mget (without_prompt_keys m) k =
     (if k = SystemPromptMetaKey \<or> k = AppendSystemPromptMetaKey then None else mget m k)"
  using mget_filter_key [of "\<lambda>k. k \<noteq> SystemPromptMetaKey \<and> k \<noteq> AppendSystemPromptMetaKey" m k]
  by (auto simp: without_prompt_keys_def)

lemma meta_wf_without_prompt_keys: "meta_wf m \<Longrightarrow> meta_wf (without_prompt_keys m)"
  by (auto simp: without_prompt_keys_def distinct_map_filter)

lemma extract_remaining:
  "extractSystemPrompt m = Inr (p, rest) \<Longrightarrow> rest = without_prompt_keys m"
  by (auto simp: extractSystemPrompt_def bind_result_Inr_iff split: if_splits)

text \<open>Merging session metadata is right-biased at every depth: a key of the extra map that
holds anything but a map replaces what was there, two maps are merged by the same rule, and a
key the extra map does not have keeps its value.\<close>

theorem mergeSessionMeta_by_key:
  assumes "mwf extra"
  shows "mget (mergeSessionMeta base extra) k =
    (case (mget base k, mget extra k) of
       (old, None) \<Rightarrow> old
     | (Some (Obj m), Some (Obj n)) \<Rightarrow> Some (Obj (mergeSessionMeta m n))
     | (_, Some v) \<Rightarrow> Some v)"
  using mget_mergeSessionMeta [OF assms, of base k]
  by (auto simp: merge_value_def split: option.splits any.splits)

theorem mergeSessionMeta_by_key_witness:
  "mget (mergeSessionMeta [(''a'', Obj [(''x'', Str ''1''), (''y'', Str ''2'')])]
           [(''a'', Obj [(''x'', Str ''3'')]), (''b'', Nil_Value)]) ''a''
     = Some (Obj [(''x'', Str ''3''), (''y'', Str ''2'')])"
  by (subst mergeSessionMeta_by_key) (simp_all add: mergeSessionMeta_Cons merge_value_def)

section \<open>Preparing a session\<close>

lemma prepare_caller_part:
  assumes "prepareAgentSessionStart profile agent meta config = Value (Inr (a, m))"
  obtains base where "m = (if without_prompt_keys meta \<noteq> []
      then mergeSessionMeta base (without_prompt_keys meta) else base)"
  using assms extract_remaining [of meta]
  by (auto simp: prepareAgentSessionStart_def bind_outcome_def bind_result_Inr_iff
      split: sum.splits outcome.splits prod.splits)

text \<open>C36. The caller's metadata wins: when preparation succeeds, every leaf of the caller's
metadata outside the two reserved prompt keys is in the metadata that is sent, whatever the
profile projected and whatever the unified configuration added.\<close>

theorem caller_meta_wins:
  assumes "prepareAgentSessionStart profile agent meta config = Value (Inr (a, m))"
    and "meta_wf meta"
    and "meta_at meta (k # p) = Some v" "\<not> is_obj v"
    and "k \<noteq> SystemPromptMetaKey" "k \<noteq> AppendSystemPromptMetaKey"
  shows "meta_at m (k # p) = Some v"
proof -
  let ?rest = "without_prompt_keys meta"
  have at: "meta_at ?rest (k # p) = Some v"
    using assms(3,5,6) by (cases p) (simp_all add: mget_without_prompt_keys)
  have "mget ?rest k \<noteq> None" using at by (cases p) (auto split: option.splits)
  then have ne: "?rest \<noteq> []" by auto
  obtain base where "m = mergeSessionMeta base ?rest"
    using prepare_caller_part [OF assms(1)] ne by auto
  then show ?thesis
    using meta_at_merge_leaf [OF meta_wf_without_prompt_keys [OF assms(2)] at assms(4)] by simp
qed

definition demo_config :: agent_config where
  "demo_config = \<lparr>cf_Model = ''opus'', cf_Sandbox = [], cf_DisallowedTools = [], cf_AllowedTools = [],
     cf_Permissions = \<lparr>pm_Allow = [], pm_Deny = [], pm_Ask = []\<rparr>, cf_Extra = []\<rparr>"

lemma demo_prepare:
  "prepareAgentSessionStart (ResolveAgentProfile (\<lambda>_. None) (\<lambda>_. Inl ''e'')
      (empty_agent\<lparr>ag_Type := ''opencode''\<rparr>)) (empty_agent\<lparr>ag_Type := ''opencode''\<rparr>)
      [(''model'', Str ''mine'')] (Some demo_config)
    = Value (Inr (empty_agent\<lparr>ag_Type := ''opencode''\<rparr>, [(''model'', Str ''mine'')]))"
  by (simp add: prepareAgentSessionStart_def extractSystemPrompt_def systemPromptText_def
      without_prompt_keys_def ResolveAgentProfile_def defaultAgentProfile_def
      applyOpenCodeAgentConfig_def hasSystemPromptKey_def demo_config_def empty_agent_def
      mergeSessionMeta_Cons merge_value_def)

theorem caller_meta_wins_witness:
  "meta_at [(''model'', Str ''mine'')] [''model''] = Some (Str ''mine'')"
  by (rule caller_meta_wins [OF demo_prepare]) simp_all



section \<open>Prompts per agent\<close>








lemma trim_one: "trim_space ''x'' = ''x''"
  by (simp add: trim_space_def trim_left_with.simps space_encodings_def has_prefix_def)


section \<open>Arguments\<close>

lemma remove_subseq: "subseq (removeClaudeSystemPromptArgs args) args"
proof (induction args rule: removeClaudeSystemPromptArgs.induct)
  case (2 arg rest)
  show ?case
  proof (cases "is_prompt_flag arg")
    case True
    then show ?thesis using 2(1) by (cases rest) (auto intro: list_emb_Cons)
  next
    case False
    then show ?thesis using 2(2,3) by (auto intro: list_emb_Cons)
  qed
qed simp

lemma remove_clean:
  "list_all (\<lambda>a. \<not> is_prompt_flag a \<and> \<not> is_prompt_assignment a) (removeClaudeSystemPromptArgs args)"
  by (induction args rule: removeClaudeSystemPromptArgs.induct) (auto split: list.splits)

lemma remove_id:
  "list_all (\<lambda>a. \<not> is_prompt_flag a \<and> \<not> is_prompt_assignment a) args \<Longrightarrow>
   removeClaudeSystemPromptArgs args = args"
  by (induction args rule: removeClaudeSystemPromptArgs.induct) auto

lemma remove_idem [simp]:
  "removeClaudeSystemPromptArgs (removeClaudeSystemPromptArgs args) = removeClaudeSystemPromptArgs args"
  using remove_clean remove_id by blast

text \<open>\<open>removeClaudeSystemPromptArgs\<close> leaves no prompt flag behind, keeps the order of what
it keeps, changes nothing exactly when there was no prompt flag, and running it twice is
running it once.\<close>

theorem prompt_args_removed:
  "list_all (\<lambda>a. \<not> is_prompt_flag a \<and> \<not> is_prompt_assignment a) (removeClaudeSystemPromptArgs args)
   \<and> subseq (removeClaudeSystemPromptArgs args) args
   \<and> (removeClaudeSystemPromptArgs args = args
        \<longleftrightarrow> list_all (\<lambda>a. \<not> is_prompt_flag a \<and> \<not> is_prompt_assignment a) args)
   \<and> removeClaudeSystemPromptArgs (removeClaudeSystemPromptArgs args) = removeClaudeSystemPromptArgs args"
  using remove_clean [of args] remove_subseq [of args] remove_id [of args] by (metis remove_idem)

section \<open>Codex\<close>

lemma put_all_or_panic_None: "put_all_or_panic ps None = (if ps = [] then Value None else Panic)"
  by (simp add: put_all_or_panic_def)

lemma existing_null:
  assumes "mget env ''CODEX_CONFIG'' = Some t" "t \<noteq> []" "dec t = Some None"
  shows "existing_config dec env = None"
  using assms by (simp add: existing_config_def)

lemma copied_env: "mwf env \<Longrightarrow> mget (mput_all env []) k = mget env k"
  by (simp add: mget_mput_all split: option.splits)

text \<open>A \<open>CODEX_CONFIG\<close> that holds JSON null makes the runtime panic: the decoder leaves a nil
map behind without an error, and both the prompt and the unified configuration write to it.\<close>

theorem codex_null_config_panics:
  assumes "mwf env" "mget env ''CODEX_CONFIG'' = Some ''null''" "dec ''null'' = Some None"
    and "trim_space (sp_Text prompt) \<noteq> []" "cf_Model cfg \<noteq> []"
  shows "injectCodexSystemPromptConfig dec enc env prompt = Panic
    \<and> applyCodexAgentConfig dec enc (a\<lparr>ag_Env := Some env\<rparr>) cfg = Panic"
proof -
  have "existing_config dec (mput_all env []) = None"
    using existing_null [of "mput_all env []" "''null''" dec] assms by (simp add: copied_env)
  then show ?thesis
    using assms
    by (simp add: injectCodexSystemPromptConfig_def applyCodexAgentConfig_def buildCodexEnv_def
        put_all_or_panic_None codex_settings_def codex_options_def ag_env_def Let_def)
qed

theorem codex_null_config_panics_witness:
  "injectCodexSystemPromptConfig (\<lambda>_. Some None) (\<lambda>_. Inr ''{}'') [(''CODEX_CONFIG'', ''null'')]
     \<lparr>sp_Mode = Prompt_Append, sp_Text = ''x''\<rparr> = Panic
   \<and> applyCodexAgentConfig (\<lambda>_. Some None) (\<lambda>_. Inr ''{}'')
       (empty_agent\<lparr>ag_Env := Some [(''CODEX_CONFIG'', ''null'')]\<rparr>) demo_config = Panic"
  using codex_null_config_panics [of "[(''CODEX_CONFIG'', ''null'')]" "\<lambda>_. Some None"
      "\<lparr>sp_Mode = Prompt_Append, sp_Text = ''x''\<rparr>" demo_config "\<lambda>_. Inr ''{}''" empty_agent]
  by (simp add: trim_one demo_config_def)

text \<open>Replacing the system prompt of a Codex agent is read back from its environment: every
other environment variable is unchanged, and the decoded \<open>CODEX_CONFIG\<close> has the trimmed text
under \<open>instructions\<close> and every other setting as it was. The hypothesis on \<open>dec\<close> and \<open>enc\<close> is that
\<open>json.Unmarshal\<close> reads back the one map that was marshalled.\<close>

theorem codex_prompt_read_back:
  assumes "mwf env" "existing_config dec env = Some old"
    and "trim_space t \<noteq> []"
    and "enc (Some (mput ''instructions'' (Str (trim_space t)) old)) = Inr data" "data \<noteq> []"
    and "dec data = Some (Some (mput ''instructions'' (Str (trim_space t)) old))"
  shows "\<exists>env' new.
     injectCodexSystemPromptConfig dec enc env \<lparr>sp_Mode = Prompt_Replace, sp_Text = t\<rparr> = Value (Inr env')
     \<and> existing_config dec env' = Some new
     \<and> (\<forall>k. mget env' k = (if k = ''CODEX_CONFIG'' then Some data else mget env k))
     \<and> (\<forall>k. mget new k = (if k = ''instructions'' then Some (Str (trim_space t)) else mget old k))"
proof -
  let ?new = "mput ''instructions'' (Str (trim_space t)) old"
  let ?env = "mput ''CODEX_CONFIG'' data (mput_all env [])"
  have "existing_config dec (mput_all env []) = Some old"
    using assms(1,2) by (simp add: existing_config_def copied_env)
  then have 1: "injectCodexSystemPromptConfig dec enc env \<lparr>sp_Mode = Prompt_Replace, sp_Text = t\<rparr>
      = Value (Inr ?env)"
    using assms(3,4) by (simp add: injectCodexSystemPromptConfig_def put_all_or_panic_def Let_def)
  have 2: "existing_config dec ?env = Some ?new"
    using assms(5,6) by (simp add: existing_config_def)
  show ?thesis
    using 1 2 assms(1) by (intro exI [of _ ?env] exI [of _ ?new]) (simp add: copied_env)
qed

theorem codex_prompt_read_back_witness:
  "\<exists>env' new.
     injectCodexSystemPromptConfig (\<lambda>d. if d = ''D'' then Some (Some [(''instructions'', Str ''x'')]) else None)
       (\<lambda>_. Inr ''D'') [(''HOME'', ''/h'')] \<lparr>sp_Mode = Prompt_Replace, sp_Text = ''x''\<rparr> = Value (Inr env')
     \<and> existing_config (\<lambda>d. if d = ''D'' then Some (Some [(''instructions'', Str ''x'')]) else None) env' = Some new
     \<and> (\<forall>k. mget env' k = (if k = ''CODEX_CONFIG'' then Some ''D'' else mget [(''HOME'', ''/h'')] k))
     \<and> (\<forall>k. mget new k = (if k = ''instructions'' then Some (Str (trim_space ''x'')) else mget [] k))"
  by (rule codex_prompt_read_back) (simp_all add: trim_one existing_config_def)

text \<open>Denied paths become writable: for a Codex agent every entry of the unified deny list
that contains a slash is passed to the agent in \<open>writable_roots\<close>, the list of additional
directories it may write to, and nothing else is.\<close>

theorem codex_denied_path_writable:
  "mget (codex_settings (codex_options cfg)) ''writable_roots'' =
     (if \<exists>d\<in>set (pm_Deny (cf_Permissions cfg)). CHR ''/'' \<in> set d
      then Some (Strs (filter (\<lambda>d. CHR ''/'' \<in> set d) (pm_Deny (cf_Permissions cfg)))) else None)"
  by (auto simp: codex_settings_def codex_options_def filterWritableRoots_def filter_empty_conv
      split: option.splits)

end
