(* ===== verification/Read_Model.thy ===== *)
theory Read_Model
  imports Profiles
begin

text \<open>
  The read model of \<open>acpSessionDriver\<close> (\<open>session_driver.go\<close>): the struct, its construction, and
  every change made to it inside one critical section of its mutex. A turn is known here by its
  address only; the turns themselves, the unlocked code and the goroutines are in Session_Driver.

  \<^item> \<open>range\<close> over a map visits the keys in an unspecified order: an operation that depends on it
    takes \<open>order\<close>, any list of strings, and visits the keys named there first, then the others.
    Every order arises from some list, and every list gives an order.
  \<^item> \<open>dec\<close> is \<open>json.Unmarshal\<close> into a \<open>map[string]any\<close>, as in Profiles.
  \<^item> \<open>time.Now()\<close> is an argument.
\<close>

record acp_driver =
  d_agent :: agent
  d_cwd :: string
  d_mcpServers :: "mcp_server list"
  d_profile :: agent_profile
  d_sessionID :: string
  d_status :: string
  d_capabilities :: runtime_capabilities
  d_diagnostics :: runtime_diagnostics
  d_metadata :: runtime_metadata
  d_thread :: "thread_entry list"
  d_toolCalls :: "tool_call_snapshot gomap"
  d_operations :: "operation gomap"
  d_permissions :: "permission_snapshot gomap"
  d_currentTurn :: "nat option"
  d_turnSeq :: nat
  d_orphanGen :: nat
  d_orphanID :: string
  d_orphanMessage :: string
  d_rawConfig :: meta
  d_delivery :: string
  d_configOptionsCurrent :: bool
  d_configChangeVersion :: nat
  d_configChangesPending :: int
  d_maxThread :: int
  d_maxToolCalls :: int
  d_maxPermissions :: int

section \<open>Construction\<close>

definition or_default :: "int \<Rightarrow> int \<Rightarrow> int" where
  "or_default x def = (if x = 0 then def else x)"

definition resolveReadModelLimits :: "read_model_limits \<Rightarrow> int \<times> int \<times> int" where
  "resolveReadModelLimits limits =
     (or_default (lim_MaxThreadEntries limits) DefaultMaxThreadEntries,
      or_default (lim_MaxToolCallEntries limits) DefaultMaxToolCallEntries,
      or_default (lim_MaxPermissionEntries limits) DefaultMaxPermissionEntries)"

definition capabilitiesFromInitialize :: "initialize_response \<Rightarrow> runtime_capabilities" where
  "capabilitiesFromInitialize resp =
     (let caps = ir_AgentCapabilities resp; sc = ac_SessionCapabilities caps in
      \<lparr>rc_CanLoadSession = ac_LoadSession caps,
       rc_CanListSessions = sc_List sc \<noteq> None,
       rc_CanForkSession = sc_Fork sc \<noteq> None,
       rc_CanResumeSession = sc_Resume sc \<noteq> None,
       rc_CanCloseSession = sc_Close sc \<noteq> None,
       rc_PromptCapabilities = ac_PromptCapabilities caps\<rparr>)"

definition or_blank :: "string option \<Rightarrow> string" where
  "or_blank s = (case s of None \<Rightarrow> [] | Some t \<Rightarrow> t)"

lemma or_blank_simps [simp]: "or_blank None = []" "or_blank (Some t) = t"
  by (simp_all add: or_blank_def)

definition runtimeConfigOptionFromACP :: "session_config_option \<Rightarrow> runtime_config_option" where
  "runtimeConfigOptionFromACP o' =
     \<lparr>ro_Type = so_Type o', ro_ID = so_ID o', ro_Name = so_Name o',
      ro_Description = or_blank (so_Description o'), ro_Category = or_blank (so_Category o'),
      ro_Value = so_Value o', ro_Options = so_Options o'\<rparr>"

definition metadataFromSessionResponse :: "new_session_response \<Rightarrow> runtime_metadata" where
  "metadataFromSessionResponse resp =
     \<lparr>md_SessionID = nr_SessionID resp, md_Title = [], md_UpdatedAt = [],
      md_AgentModes = (case nr_Modes resp of None \<Rightarrow> []
        | Some ms \<Rightarrow> map (\<lambda>m. \<lparr>rm_ID = sm_ID m, rm_Name = sm_Name m, rm_Description = sm_Description m\<rparr>)
                       (sms_AvailableModes ms)),
      md_AgentModels = (case nr_Models resp of None \<Rightarrow> []
        | Some ms \<Rightarrow> map (\<lambda>m. \<lparr>rl_ID = mi_ID m, rl_Name = mi_Name m, rl_Description = mi_Description m\<rparr>)
                       (sml_AvailableModels ms)),
      md_CurrentModeID = (case nr_Modes resp of None \<Rightarrow> [] | Some ms \<Rightarrow> sms_CurrentModeID ms),
      md_AgentConfigOptions = map runtimeConfigOptionFromACP (or_empty (nr_ConfigOptions resp)),
      md_AvailableCommands = nr_AvailableCommands resp\<rparr>"

definition rawConfigFromMetadata :: "runtime_metadata \<Rightarrow> meta" where
  "rawConfigFromMetadata md =
     fold (\<lambda>o' m. if ro_ID o' \<noteq> [] \<and> ro_Value o' \<noteq> Nil_Value then mput (ro_ID o') (ro_Value o') m else m)
       (md_AgentConfigOptions md)
       (if md_CurrentModeID md \<noteq> [] then [(''mode'', Str (md_CurrentModeID md))] else [])"

text \<open>The warning about a native engine below its verified floor.\<close>

definition native_diagnostics :: "meta \<Rightarrow> runtime_diagnostics" where
  "native_diagnostics init_meta =
     (case lookup_as as_map init_meta ''x-acp-runtime-native'' of
        None \<Rightarrow> \<lparr>dg_Warnings = [], dg_Raw = []\<rparr>
      | Some info \<Rightarrow>
          \<lparr>dg_Warnings =
             (if lookup_as as_bool info ''belowVerifiedFloor'' = Some True
              then [''native '' @ or_blank (lookup_as as_string info ''engine'')
                    @ '' engine version '' @ or_blank (lookup_as as_string info ''version'')
                    @ '' is below the verified floor '' @ or_blank (lookup_as as_string info ''verifiedFloor'')]
              else []),
           dg_Raw = [(''nativeEngine'', Obj info)]\<rparr>)"

record session_bootstrap =
  bs_Agent :: agent
  bs_CWD :: string
  bs_MCPServers :: "mcp_server list"
  bs_InitializeResponse :: initialize_response
  bs_SessionResponse :: new_session_response
  bs_Profile :: agent_profile
  bs_QueuePolicy :: string
  bs_ReadModelLimits :: read_model_limits

definition newACPSessionDriver :: "session_bootstrap \<Rightarrow> acp_driver" where
  "newACPSessionDriver b =
     (let (maxThread, maxToolCalls, maxPermissions) = resolveReadModelLimits (bs_ReadModelLimits b);
          md = metadataFromSessionResponse (bs_SessionResponse b) in
      \<lparr>d_agent = bs_Agent b, d_cwd = bs_CWD b, d_mcpServers = bs_MCPServers b, d_profile = bs_Profile b,
       d_sessionID = nr_SessionID (bs_SessionResponse b), d_status = ''ready'',
       d_capabilities = capabilitiesFromInitialize (bs_InitializeResponse b),
       d_diagnostics = native_diagnostics (ir_Meta (bs_InitializeResponse b)),
       d_metadata = md\<lparr>md_SessionID := nr_SessionID (bs_SessionResponse b)\<rparr>,
       d_thread = [], d_toolCalls = [], d_operations = [], d_permissions = [],
       d_currentTurn = None, d_turnSeq = 0, d_orphanGen = 0, d_orphanID = [], d_orphanMessage = [],
       d_rawConfig = rawConfigFromMetadata md, d_delivery = bs_QueuePolicy b,
       d_configOptionsCurrent = (nr_ConfigOptions (bs_SessionResponse b) \<noteq> None),
       d_configChangeVersion = 0, d_configChangesPending = 0,
       d_maxThread = maxThread, d_maxToolCalls = maxToolCalls, d_maxPermissions = maxPermissions\<rparr>)"

section \<open>Pruning\<close>

definition thread_cap :: "acp_driver \<Rightarrow> int" where
  "thread_cap d = or_default (d_maxThread d) DefaultMaxThreadEntries"

definition tool_cap :: "acp_driver \<Rightarrow> int" where
  "tool_cap d = or_default (d_maxToolCalls d) DefaultMaxToolCallEntries"

definition permission_cap :: "acp_driver \<Rightarrow> int" where
  "permission_cap d = or_default (d_maxPermissions d) DefaultMaxPermissionEntries"

definition pruneThreadLocked :: "acp_driver \<Rightarrow> acp_driver" where
  "pruneThreadLocked d =
     (let cap = thread_cap d in
      if cap < 0 \<or> int (length (d_thread d)) \<le> cap then d
      else d\<lparr>d_thread := drop (length (d_thread d) - nat cap) (d_thread d)\<rparr>)"

text \<open>The keys in the order in which one \<open>range\<close> loop visits them.\<close>

definition range_order :: "string list \<Rightarrow> 'v gomap \<Rightarrow> string list" where
  "range_order order m =
     filter (\<lambda>k. k \<in> mkeys m) (remdups order) @ filter (\<lambda>k. k \<notin> set order) (map fst m)"

text \<open>
  The first loop of \<open>pruneToolCallsLocked\<close> deletes finished calls, the second any call. Either
  returns as soon as the map is small enough; the flag says whether it has.
\<close>

fun drop_finished ::
  "int \<Rightarrow> string list \<Rightarrow> tool_call_snapshot gomap \<times> operation gomap \<Rightarrow>
   bool \<times> tool_call_snapshot gomap \<times> operation gomap" where
  "drop_finished cap [] (tools, ops) = (False, tools, ops)"
| "drop_finished cap (k # ks) (tools, ops) =
     (if int (length tools) \<le> cap then (True, tools, ops)
      else case mget tools k of
        None \<Rightarrow> drop_finished cap ks (tools, ops)
      | Some snapshot \<Rightarrow>
          if tc_Status snapshot = ''completed'' \<or> tc_Status snapshot = ''failed''
          then drop_finished cap ks (mdel k tools, mdel k ops)
          else drop_finished cap ks (tools, ops))"

fun drop_any ::
  "int \<Rightarrow> string list \<Rightarrow> tool_call_snapshot gomap \<times> operation gomap \<Rightarrow>
   tool_call_snapshot gomap \<times> operation gomap" where
  "drop_any cap [] (tools, ops) = (tools, ops)"
| "drop_any cap (k # ks) (tools, ops) =
     (if int (length tools) \<le> cap then (tools, ops)
      else drop_any cap ks (mdel k tools, mdel k ops))"

definition pruneToolCallsLocked :: "string list \<Rightarrow> string list \<Rightarrow> acp_driver \<Rightarrow> acp_driver" where
  "pruneToolCallsLocked order1 order2 d =
     (let cap = tool_cap d in
      if cap < 0 \<or> int (length (d_toolCalls d)) \<le> cap then d
      else let (returned, tools, ops) =
             drop_finished cap (range_order order1 (d_toolCalls d)) (d_toolCalls d, d_operations d);
           (tools, ops) = (if returned then (tools, ops)
                           else drop_any cap (range_order order2 tools) (tools, ops))
      in d\<lparr>d_toolCalls := tools, d_operations := ops\<rparr>)"

fun drop_permissions ::
  "int \<Rightarrow> string list \<Rightarrow> permission_snapshot gomap \<Rightarrow> permission_snapshot gomap" where
  "drop_permissions cap [] m = m"
| "drop_permissions cap (k # ks) m =
     (if int (length m) \<le> cap then m else drop_permissions cap ks (mdel k m))"

definition prunePermissionsLocked :: "string list \<Rightarrow> acp_driver \<Rightarrow> acp_driver" where
  "prunePermissionsLocked order d =
     (let cap = permission_cap d in
      if cap < 0 \<or> int (length (d_permissions d)) \<le> cap then d
      else d\<lparr>d_permissions := drop_permissions cap (range_order order (d_permissions d)) (d_permissions d)\<rparr>)"

definition recordPermission ::
  "string list \<Rightarrow> permission_request \<Rightarrow> permission_decision \<Rightarrow> acp_driver \<Rightarrow> acp_driver" where
  "recordPermission order req decision d =
     (let d = (if pr_ToolCallID req = [] then d\<lparr>d_turnSeq := Suc (d_turnSeq d)\<rparr> else d);
          id = (if pr_ToolCallID req = [] then ''permission-'' @ nat_decimal (d_turnSeq d)
                else pr_ToolCallID req);
          snapshot = \<lparr>ps_ID = id, ps_Phase = ''decided'', ps_Operation = pd_Outcome decision,
                      ps_Request = req\<rparr>
      in prunePermissionsLocked order (d\<lparr>d_permissions := mput id snapshot (d_permissions d)\<rparr>))"

section \<open>The thread\<close>

definition add_thread_entry :: "thread_entry \<Rightarrow> acp_driver \<Rightarrow> acp_driver" where
  "add_thread_entry e d = pruneThreadLocked (d\<lparr>d_thread := d_thread d @ [e]\<rparr>)"

definition mapPrompt :: "runtime_prompt \<Rightarrow> content_block list" where
  "mapPrompt prompt =
     (if pt_Parts prompt \<noteq> [] then pt_Parts prompt
      else if pt_Text prompt \<noteq> [] then [text_block (pt_Text prompt)]
      else case List.find (\<lambda>m. pg_Role m = [] \<or> pg_Role m = ''user'') (pt_Messages prompt) of
        Some m \<Rightarrow> pg_Parts m
      | None \<Rightarrow> [text_block []])"

definition first_text :: "content_block list \<Rightarrow> string" where
  "first_text blocks = (case List.find (\<lambda>b. cb_Type b = ''text'') blocks of
     Some b \<Rightarrow> cb_Text b | None \<Rightarrow> [])"

definition promptText :: "runtime_prompt \<Rightarrow> string" where
  "promptText prompt = (if pt_Text prompt \<noteq> [] then pt_Text prompt else first_text (mapPrompt prompt))"

definition sessionUpdateText :: "session_update \<Rightarrow> string" where
  "sessionUpdateText u = (if su_Text u \<noteq> [] then su_Text u else first_text (or_empty (su_Content u)))"

section \<open>Updates\<close>

definition operationPhase :: "string \<Rightarrow> string" where
  "operationPhase status =
     (if status = ''completed'' then ''completed''
      else if status = ''failed'' then ''failed''
      else if status = ''pending'' then ''proposed''
      else ''running'')"

definition inferOperationTarget :: "(bytes \<Rightarrow> meta option option) \<Rightarrow> session_update \<Rightarrow> operation_target" where
  "inferOperationTarget dec u =
     (let unknown = \<lparr>ot_Type = ''unknown'', ot_Value = []\<rparr> in
      if su_Locations u \<noteq> [] \<and> tl_Path (hd (su_Locations u)) \<noteq> []
      then \<lparr>ot_Type = ''path'', ot_Value = tl_Path (hd (su_Locations u))\<rparr>
      else if su_RawInput u \<noteq> [] then
        (case dec (su_RawInput u) of
           None \<Rightarrow> unknown
         | Some raw \<Rightarrow>
             (let raw = (case raw of None \<Rightarrow> [] | Some m \<Rightarrow> m) in
              case lookup_as as_string raw ''command'' of
                Some command \<Rightarrow> \<lparr>ot_Type = ''command'', ot_Value = command\<rparr>
              | None \<Rightarrow> (case lookup_as as_string raw ''url'' of
                  Some url \<Rightarrow> \<lparr>ot_Type = ''endpoint'', ot_Value = url\<rparr>
                | None \<Rightarrow> unknown)))
      else unknown)"

definition replaceConfigOptionsLocked :: "session_config_option list \<Rightarrow> acp_driver \<Rightarrow> acp_driver" where
  "replaceConfigOptionsLocked options d =
     (let md = (d_metadata d)\<lparr>md_AgentConfigOptions := map runtimeConfigOptionFromACP options\<rparr> in
      d\<lparr>d_metadata := md, d_rawConfig := rawConfigFromMetadata md,
        d_configOptionsCurrent := (d_configChangesPending d = 0)\<rparr>)"

text \<open>The clock readings and map orders of one call.\<close>

record update_env =
  ue_now :: int
  ue_now2 :: int
  ue_order1 :: "string list"
  ue_order2 :: "string list"

definition tool_call_entry :: "int \<Rightarrow> session_update \<Rightarrow> tool_call_snapshot" where
  "tool_call_entry now u =
     \<lparr>tc_ID = su_ToolCallID u, tc_Title = or_blank (su_Title u), tc_Kind = or_blank (su_Kind u),
      tc_Status = or_blank (su_Status u), tc_Target = [], tc_Content = su_Content u,
      tc_RawInput = su_RawInput u, tc_RawOutput = su_RawOutput u, tc_UpdatedAt = now\<rparr>"

definition apply_tool_call ::
  "(bytes \<Rightarrow> meta option option) \<Rightarrow> update_env \<Rightarrow> session_update \<Rightarrow> acp_driver \<Rightarrow> acp_driver" where
  "apply_tool_call dec env u d =
     (let id = su_ToolCallID u in
      if id = [] then d
      else
        let snapshot = tool_call_entry (ue_now env) u;
            op = \<lparr>op_ID = id, op_Kind = MapOperationKind (d_profile d) (tc_Kind snapshot),
                  op_Phase = operationPhase (tc_Status snapshot), op_Title = tc_Title snapshot,
                  op_Target = inferOperationTarget dec u, op_UpdatedAt = ue_now2 env\<rparr>
        in pruneToolCallsLocked (ue_order1 env) (ue_order2 env)
             (d\<lparr>d_toolCalls := mput id snapshot (d_toolCalls d),
                d_operations := mput id op (d_operations d)\<rparr>))"

definition patch_tool_call :: "int \<Rightarrow> session_update \<Rightarrow> tool_call_snapshot \<Rightarrow> tool_call_snapshot" where
  "patch_tool_call now u s =
     (let s = (case su_Title u of None \<Rightarrow> s | Some t \<Rightarrow> s\<lparr>tc_Title := t\<rparr>);
          s = (case su_Kind u of None \<Rightarrow> s | Some t \<Rightarrow> s\<lparr>tc_Kind := t\<rparr>);
          s = (case su_Status u of None \<Rightarrow> s | Some t \<Rightarrow> s\<lparr>tc_Status := t\<rparr>);
          s = (case su_Content u of None \<Rightarrow> s | Some c \<Rightarrow> s\<lparr>tc_Content := Some c\<rparr>);
          s = (if su_RawInput u \<noteq> [] then s\<lparr>tc_RawInput := su_RawInput u\<rparr> else s);
          s = (if su_RawOutput u \<noteq> [] then s\<lparr>tc_RawOutput := su_RawOutput u\<rparr> else s)
      in s\<lparr>tc_UpdatedAt := now\<rparr>)"

definition apply_tool_call_update :: "update_env \<Rightarrow> session_update \<Rightarrow> acp_driver \<Rightarrow> acp_driver" where
  "apply_tool_call_update env u d =
     (let id = su_ToolCallID u in
      if id = [] then d
      else
        let old = (case mget (d_toolCalls d) id of None \<Rightarrow> zero_tool_call | Some s \<Rightarrow> s);
            snapshot = patch_tool_call (ue_now env) u old;
            op = (case mget (d_operations d) id of None \<Rightarrow> zero_operation | Some p \<Rightarrow> p);
            op = op\<lparr>op_Phase := operationPhase (tc_Status snapshot), op_UpdatedAt := ue_now env\<rparr>
        in pruneToolCallsLocked (ue_order1 env) (ue_order2 env)
             (d\<lparr>d_toolCalls := mput id snapshot (d_toolCalls d),
                d_operations := mput id op (d_operations d)\<rparr>))"

definition is_text_update :: "string \<Rightarrow> bool" where
  "is_text_update kind \<longleftrightarrow>
     kind = ''agent_message_chunk'' \<or> kind = ''agent_message'' \<or> kind = ''message''"

text \<open>
  The critical section of \<open>handleSessionUpdate\<close>, less the text that goes into the active turn.
\<close>

definition apply_update ::
  "(bytes \<Rightarrow> meta option option) \<Rightarrow> update_env \<Rightarrow> session_update \<Rightarrow> acp_driver \<Rightarrow> acp_driver" where
  "apply_update dec env u d =
     (let kind = su_SessionUpdate u in
      if kind = ''current_mode_update'' then
        (if su_CurrentModeID u \<noteq> []
         then d\<lparr>d_configChangeVersion := Suc (d_configChangeVersion d),
                d_configOptionsCurrent := False,
                d_metadata := (d_metadata d)\<lparr>md_CurrentModeID := su_CurrentModeID u\<rparr>,
                d_rawConfig := mput ''mode'' (Str (su_CurrentModeID u)) (d_rawConfig d)\<rparr>
         else d)
      else if kind = ''config_option_update'' then
        replaceConfigOptionsLocked (su_ConfigOptions u)
          (d\<lparr>d_configChangeVersion := Suc (d_configChangeVersion d)\<rparr>)
      else if kind = ''session_info_update'' then
        (let md = d_metadata d;
             md = (case su_Title u of None \<Rightarrow> md | Some t \<Rightarrow> md\<lparr>md_Title := t\<rparr>);
             md = (case su_UpdatedAt u of None \<Rightarrow> md | Some t \<Rightarrow> md\<lparr>md_UpdatedAt := t\<rparr>)
         in d\<lparr>d_metadata := md\<rparr>)
      else if kind = ''available_commands_update'' then
        d\<lparr>d_metadata := (d_metadata d)\<lparr>md_AvailableCommands := su_AvailableCommands u\<rparr>\<rparr>
      else if kind = ''tool_call'' then apply_tool_call dec env u d
      else if kind = ''tool_call_update'' then apply_tool_call_update env u d
      else d)"

section \<open>Configuration changes\<close>

definition beginConfigChange :: "acp_driver \<Rightarrow> (nat \<times> bool) \<times> acp_driver" where
  "beginConfigChange d =
     (let d = d\<lparr>d_configChangeVersion := Suc (d_configChangeVersion d),
                d_configChangesPending := d_configChangesPending d + 1,
                d_configOptionsCurrent := False\<rparr>
      in ((d_configChangeVersion d, d_configChangesPending d = 1), d))"

definition endConfigChange :: "acp_driver \<Rightarrow> acp_driver" where
  "endConfigChange d = d\<lparr>d_configChangesPending := d_configChangesPending d - 1\<rparr>"

definition mode_applied :: "string \<Rightarrow> acp_driver \<Rightarrow> acp_driver" where
  "mode_applied modeID d =
     d\<lparr>d_metadata := (d_metadata d)\<lparr>md_CurrentModeID := modeID\<rparr>,
       d_rawConfig := mput ''mode'' (Str modeID) (d_rawConfig d)\<rparr>"

text \<open>
  The critical section of \<open>SetAgentConfigOption\<close> after a response: \<open>options\<close> is the full
  snapshot of a provider that sends one.
\<close>

definition option_applied ::
  "string \<Rightarrow> any \<Rightarrow> nat \<Rightarrow> bool \<Rightarrow> session_config_option list option \<Rightarrow> acp_driver \<Rightarrow> acp_driver" where
  "option_applied key value version exclusive options d =
     (let d = d\<lparr>d_rawConfig := mput key value (d_rawConfig d)\<rparr> in
      case options of
        Some os \<Rightarrow>
          (let d = replaceConfigOptionsLocked os d in
           d\<lparr>d_configOptionsCurrent :=
               (exclusive \<and> d_configChangesPending d = 1 \<and> version = d_configChangeVersion d)\<rparr>)
      | None \<Rightarrow>
          d\<lparr>d_metadata := (d_metadata d)\<lparr>md_AgentConfigOptions :=
             map (\<lambda>o'. if ro_ID o' = key then o'\<lparr>ro_Value := value\<rparr> else o')
               (md_AgentConfigOptions (d_metadata d))\<rparr>\<rparr>)"

section \<open>Views\<close>

definition driver_snapshot :: "acp_driver \<Rightarrow> runtime_snapshot" where
  "driver_snapshot d =
     \<lparr>sh_Version = 1, sh_Agent = d_agent d, sh_CWD = d_cwd d, sh_MCPServers = d_mcpServers d,
      sh_SessionID = d_sessionID d, sh_CurrentModeID = md_CurrentModeID (d_metadata d),
      sh_RawConfig = mput_all (d_rawConfig d) []\<rparr>"

text \<open>\<open>ToolCalls\<close>, \<open>Operations\<close> and \<open>PermissionRequests\<close>: the values in some order.\<close>

definition tool_calls_view :: "string list \<Rightarrow> acp_driver \<Rightarrow> tool_call_snapshot list" where
  "tool_calls_view order d = map (\<lambda>k. the (mget (d_toolCalls d) k)) (range_order order (d_toolCalls d))"

definition operations_view :: "string list \<Rightarrow> acp_driver \<Rightarrow> operation list" where
  "operations_view order d = map (\<lambda>k. the (mget (d_operations d) k)) (range_order order (d_operations d))"

definition permissions_view :: "string list \<Rightarrow> acp_driver \<Rightarrow> permission_snapshot list" where
  "permissions_view order d =
     map (\<lambda>k. the (mget (d_permissions d) k)) (range_order order (d_permissions d))"

end
