(* ===== verification/Read_Model_Laws.thy ===== *)
theory Read_Model_Laws
  imports Read_Model
begin

text \<open>
  What the read model promises: its two tool tables always have the same keys and agreeing
  phases, no table or thread is ever larger than its cap, pruning drops finished calls before
  running ones, and the thread is the most recent window of everything ever said.
\<close>

section \<open>Restricting two tables together\<close>

definition restrict_map :: "string set \<Rightarrow> 'v gomap \<Rightarrow> 'v gomap" where
  "restrict_map D m = filter (\<lambda>p. fst p \<notin> D) m"

lemma restrict_map_empty [simp]: "restrict_map {} m = m"
  by (simp add: restrict_map_def)

lemma mdel_restrict: "mdel k m = restrict_map {k} m"
  by (simp add: mdel_def restrict_map_def)

lemma restrict_restrict [simp]: "restrict_map D (restrict_map E m) = restrict_map (E \<union> D) m"
  by (simp add: restrict_map_def conj_ac)

lemma mget_restrict [simp]: "mget (restrict_map D m) k = (if k \<in> D then None else mget m k)"
  using mget_filter_key [of "\<lambda>k. k \<notin> D" m k] by (simp add: restrict_map_def)

lemma mkeys_restrict [simp]: "mkeys (restrict_map D m) = mkeys m - D"
  by (auto simp: restrict_map_def)

lemma mwf_restrict [simp]: "mwf m \<Longrightarrow> mwf (restrict_map D m)"
  by (simp add: restrict_map_def distinct_map_filter)

lemma length_restrict_le [simp]: "length (restrict_map D m) \<le> length m"
  by (simp add: restrict_map_def)

lemma range_order_perm:
  "mwf m \<Longrightarrow> distinct (range_order order m) \<and> set (range_order order m) = mkeys m"
  by (auto simp: range_order_def distinct_map_filter)

lemma length_range_order: "mwf m \<Longrightarrow> length (range_order order m) = length m"
  using range_order_perm [of m order] by (metis distinct_card mwf_card)

section \<open>Pruning\<close>

definition finished_call :: "tool_call_snapshot \<Rightarrow> bool" where
  "finished_call s \<longleftrightarrow> tc_Status s = ''completed'' \<or> tc_Status s = ''failed''"

lemma drop_finished_spec:
  assumes "drop_finished cap ks (tools, ops) = (r, tools', ops')" "mwf tools"
  shows "\<exists>D. D \<subseteq> set ks \<and> tools' = restrict_map D tools \<and> ops' = restrict_map D ops
    \<and> (\<forall>k\<in>D. \<exists>s. mget tools k = Some s \<and> finished_call s)
    \<and> (cap < int (length tools) \<longrightarrow> cap \<le> int (length tools'))
    \<and> (r \<longrightarrow> int (length tools') \<le> cap)
    \<and> (\<not> r \<longrightarrow> (\<forall>k\<in>set ks. \<forall>s. mget tools' k = Some s \<longrightarrow> \<not> finished_call s))"
  using assms
proof (induction cap ks "(tools, ops)" arbitrary: tools ops rule: drop_finished.induct)
  case (1 cap tools ops)
  then show ?case by (intro exI [of _ "{}"]) simp
next
  case (2 cap k ks tools ops)
  show ?case
  proof (cases "int (length tools) \<le> cap")
    case True
    then show ?thesis using 2(4) by (intro exI [of _ "{}"]) simp
  next
    case big: False
    show ?thesis
    proof (cases "\<exists>s. mget tools k = Some s \<and> finished_call s")
      case True
      then obtain s where s: "mget tools k = Some s" "finished_call s" by blast
      have fin: "tc_Status s = ''completed'' \<or> tc_Status s = ''failed''"
        using s(2) by (simp add: finished_call_def)
      have step: "drop_finished cap ks (mdel k tools, mdel k ops) = (r, tools', ops')"
        using 2(4) big s(1) fin by simp
      obtain D where D: "D \<subseteq> set ks" "tools' = restrict_map D (mdel k tools)"
        "ops' = restrict_map D (mdel k ops)"
        "\<forall>j\<in>D. \<exists>s. mget (mdel k tools) j = Some s \<and> finished_call s"
        "cap < int (length (mdel k tools)) \<longrightarrow> cap \<le> int (length tools')"
        "r \<longrightarrow> int (length tools') \<le> cap"
        "\<not> r \<longrightarrow> (\<forall>j\<in>set ks. \<forall>s. mget tools' j = Some s \<longrightarrow> \<not> finished_call s)"
        using 2(2) [OF big s(1) fin step] 2(5) by auto
      have len: "length (mdel k tools) = length tools - 1"
        using length_mdel [OF 2(5), of k] gm.get_SomeD [OF s(1)] by simp
      have le: "cap \<le> int (length tools')"
      proof (cases "cap < int (length (mdel k tools))")
        case True
        then show ?thesis using D(5) by simp
      next
        case False
        have ge: "cap \<le> int (length (mdel k tools))" using len big by linarith
        then have eq: "int (length (mdel k tools)) = cap" using False by simp
        show ?thesis
        proof (cases ks)
          case Nil
          then have "tools' = mdel k tools" using step by simp
          then show ?thesis using eq by simp
        next
          case (Cons a list)
          then have "tools' = mdel k tools" using step eq by simp
          then show ?thesis using eq by simp
        qed
      qed
      have gone: "mget tools' k = None" using D(2) by simp
      have sub: "insert k D \<subseteq> set (k # ks)" using D(1) by auto
      have t: "tools' = restrict_map (insert k D) tools" using D(2) by (simp add: mdel_restrict)
      have o': "ops' = restrict_map (insert k D) ops" using D(3) by (simp add: mdel_restrict)
      have f: "\<forall>j\<in>insert k D. \<exists>s. mget tools j = Some s \<and> finished_call s"
        using D(4) s by (auto split: if_splits)
      have n: "\<not> r \<longrightarrow> (\<forall>j\<in>set (k # ks). \<forall>s. mget tools' j = Some s \<longrightarrow> \<not> finished_call s)"
        using D(7) gone by auto
      show ?thesis
        by (intro exI [of _ "insert k D"] conjI impI) (use sub t o' f le D(6) n in auto)
    next
      case False
      have step: "drop_finished cap ks (tools, ops) = (r, tools', ops')"
        using 2(4) big False by (auto simp: finished_call_def split: option.splits if_splits)
      have "\<exists>D. D \<subseteq> set ks \<and> tools' = restrict_map D tools \<and> ops' = restrict_map D ops
        \<and> (\<forall>k\<in>D. \<exists>s. mget tools k = Some s \<and> finished_call s)
        \<and> (cap < int (length tools) \<longrightarrow> cap \<le> int (length tools'))
        \<and> (r \<longrightarrow> int (length tools') \<le> cap)
        \<and> (\<not> r \<longrightarrow> (\<forall>k\<in>set ks. \<forall>s. mget tools' k = Some s \<longrightarrow> \<not> finished_call s))"
      proof (cases "mget tools k")
        case None
        then show ?thesis using 2(1) [OF big None step 2(5)] by blast
      next
        case (Some s)
        have nf: "\<not> (tc_Status s = ''completed'' \<or> tc_Status s = ''failed'')"
          using Some False by (auto simp: finished_call_def)
        show ?thesis using 2(3) [OF big Some nf step 2(5)] by blast
      qed
      then obtain D where D: "D \<subseteq> set ks" "tools' = restrict_map D tools" "ops' = restrict_map D ops"
        "\<forall>j\<in>D. \<exists>s. mget tools j = Some s \<and> finished_call s"
        "cap < int (length tools) \<longrightarrow> cap \<le> int (length tools')"
        "r \<longrightarrow> int (length tools') \<le> cap"
        "\<not> r \<longrightarrow> (\<forall>j\<in>set ks. \<forall>s. mget tools' j = Some s \<longrightarrow> \<not> finished_call s)"
        by blast
      have n: "\<not> r \<longrightarrow> (\<forall>j\<in>set (k # ks). \<forall>s. mget tools' j = Some s \<longrightarrow> \<not> finished_call s)"
        using D(2,7) False by (auto split: if_splits)
      show ?thesis
        by (intro exI [of _ D] conjI) (use D n in auto)
    qed
  qed
qed

lemma drop_any_spec:
  assumes "mwf tools" "distinct ks" "set ks \<subseteq> mkeys tools" "0 \<le> cap"
    and "drop_any cap ks (tools, ops) = (tools', ops')"
  shows "(\<exists>D. tools' = restrict_map D tools \<and> ops' = restrict_map D ops)
    \<and> (length ks = length tools \<longrightarrow> int (length tools') \<le> cap)
    \<and> (cap \<le> int (length tools) \<longrightarrow> cap \<le> int (length tools'))
    \<and> (int (length tools) \<le> cap \<longrightarrow> tools' = tools)"
  using assms
proof (induction cap ks "(tools, ops)" arbitrary: tools ops rule: drop_any.induct)
  case (1 cap tools ops)
  then show ?case by (auto intro: exI [of _ "{}"])
next
  case (2 cap k ks tools ops)
  show ?case
  proof (cases "int (length tools) \<le> cap")
    case True
    then show ?thesis using 2(6) by (auto intro: exI [of _ "{}"])
  next
    case False
    have k: "k \<in> mkeys tools" using 2(4) by simp
    have len: "length (mdel k tools) = length tools - 1" using length_mdel [OF 2(2), of k] k by simp
    have pos: "0 < length tools" using k by (cases tools) auto
    have IH: "(\<exists>D. tools' = restrict_map D (mdel k tools) \<and> ops' = restrict_map D (mdel k ops))
      \<and> (length ks = length (mdel k tools) \<longrightarrow> int (length tools') \<le> cap)
      \<and> (cap \<le> int (length (mdel k tools)) \<longrightarrow> cap \<le> int (length tools'))
      \<and> (int (length (mdel k tools)) \<le> cap \<longrightarrow> tools' = mdel k tools)"
      using 2(1) [OF False] 2(2-6) False by auto
    then obtain D where D: "tools' = restrict_map D (mdel k tools)" "ops' = restrict_map D (mdel k ops)"
      by blast
    have "tools' = restrict_map (insert k D) tools \<and> ops' = restrict_map (insert k D) ops"
      using D by (simp add: mdel_restrict)
    moreover have "length (k # ks) = length tools \<longrightarrow> int (length tools') \<le> cap"
      using IH len by auto
    moreover have "cap \<le> int (length tools')"
      using IH len pos False by (simp add: of_nat_diff)
    ultimately show ?thesis using False by blast
  qed
qed

text \<open>The effect of \<open>pruneToolCallsLocked\<close> on the two tables.\<close>

lemma prune_tool_calls_tables:
  assumes "mwf (d_toolCalls d)" "d' = pruneToolCallsLocked order1 order2 d"
  shows "(\<exists>D. d_toolCalls d' = restrict_map D (d_toolCalls d) \<and>
             d_operations d' = restrict_map D (d_operations d))
    \<and> (tool_cap d < 0 \<or> int (length (d_toolCalls d)) \<le> tool_cap d \<longrightarrow> d' = d)
    \<and> (0 \<le> tool_cap d \<longrightarrow> int (length (d_toolCalls d')) = min (tool_cap d) (int (length (d_toolCalls d))))
    \<and> (\<forall>k s j t. mget (d_toolCalls d) k = Some s \<and> \<not> finished_call s \<and> mget (d_toolCalls d') k = None
         \<and> mget (d_toolCalls d') j = Some t \<longrightarrow> \<not> finished_call t)"
proof (cases "tool_cap d < 0 \<or> int (length (d_toolCalls d)) \<le> tool_cap d")
  case True
  then have "d' = d" using assms(2) by (auto simp: pruneToolCallsLocked_def Let_def)
  then show ?thesis using True by (auto intro: exI [of _ "{}"])
next
  case False
  let ?t = "d_toolCalls d" and ?o = "d_operations d" and ?c = "tool_cap d"
  obtain r t1 o1 where f: "drop_finished ?c (range_order order1 ?t) (?t, ?o) = (r, t1, o1)"
    by (metis prod_cases3)
  obtain D where D: "t1 = restrict_map D ?t" "o1 = restrict_map D ?o"
    "\<forall>k\<in>D. \<exists>s. mget ?t k = Some s \<and> finished_call s"
    "?c < int (length ?t) \<longrightarrow> ?c \<le> int (length t1)" "r \<longrightarrow> int (length t1) \<le> ?c"
    "\<not> r \<longrightarrow> (\<forall>k\<in>set (range_order order1 ?t). \<forall>s. mget t1 k = Some s \<longrightarrow> \<not> finished_call s)"
    using drop_finished_spec [OF f assms(1)] by blast
  have keys: "set (range_order order1 ?t) = mkeys ?t" using range_order_perm [OF assms(1)] by blast
  show ?thesis
  proof (cases r)
    case True
    then have d': "d_toolCalls d' = t1" "d_operations d' = o1"
      using assms(2) False f by (simp_all add: pruneToolCallsLocked_def Let_def)
    have "int (length t1) = min ?c (int (length ?t))" using D(4,5) True False by auto
    moreover have "mget ?t k = Some s \<Longrightarrow> \<not> finished_call s \<Longrightarrow> mget t1 k = None \<Longrightarrow> False" for k s
      using D(1,3) by (auto split: if_splits)
    ultimately show ?thesis using d' D(1,2) False by blast
  next
    case nr: False
    obtain t2 o2 where a: "drop_any ?c (range_order order2 t1) (t1, o1) = (t2, o2)"
      by (metis prod.exhaust)
    have wf1: "mwf t1" using D(1) assms(1) by simp
    have d': "d_toolCalls d' = t2" "d_operations d' = o2"
      using assms(2) False f nr a by (simp_all add: pruneToolCallsLocked_def Let_def)
    have p: "distinct (range_order order2 t1)" "set (range_order order2 t1) \<subseteq> mkeys t1"
      using range_order_perm [OF wf1] by blast+
    have c0: "0 \<le> ?c" using False by simp
    note A = drop_any_spec [OF wf1 p c0 a]
    obtain E where E: "t2 = restrict_map E t1" "o2 = restrict_map E o1" using A by blast
    have both: "t2 = restrict_map (D \<union> E) ?t" "o2 = restrict_map (D \<union> E) ?o"
      using E D(1,2) by simp_all
    have "int (length t2) \<le> ?c" using A length_range_order [OF wf1] by blast
    moreover have "?c \<le> int (length t2)" using A D(4) False by auto
    ultimately have len: "int (length t2) = min ?c (int (length ?t))" using False by simp
    have none: "mget t2 j = Some t \<Longrightarrow> \<not> finished_call t" for j t
    proof -
      assume j: "mget t2 j = Some t"
      then have "mget t1 j = Some t" using E(1) by (auto split: if_splits)
      moreover have "j \<in> mkeys ?t" using calculation D(1) gm.get_SomeD by (metis mget_restrict option.distinct(1))
      ultimately show "\<not> finished_call t" using D(6) nr keys by blast
    qed
    show ?thesis using d' both len none False by blast
  qed
qed

text \<open>Each operation touches its own part of the driver.\<close>

lemma prune_tool_calls_frame [simp]:
  "d_agent (pruneToolCallsLocked o1 o2 d) = d_agent d"
  "d_cwd (pruneToolCallsLocked o1 o2 d) = d_cwd d"
  "d_mcpServers (pruneToolCallsLocked o1 o2 d) = d_mcpServers d"
  "d_profile (pruneToolCallsLocked o1 o2 d) = d_profile d"
  "d_sessionID (pruneToolCallsLocked o1 o2 d) = d_sessionID d"
  "d_status (pruneToolCallsLocked o1 o2 d) = d_status d"
  "d_capabilities (pruneToolCallsLocked o1 o2 d) = d_capabilities d"
  "d_diagnostics (pruneToolCallsLocked o1 o2 d) = d_diagnostics d"
  "d_metadata (pruneToolCallsLocked o1 o2 d) = d_metadata d"
  "d_thread (pruneToolCallsLocked o1 o2 d) = d_thread d"
  "d_permissions (pruneToolCallsLocked o1 o2 d) = d_permissions d"
  "d_currentTurn (pruneToolCallsLocked o1 o2 d) = d_currentTurn d"
  "d_turnSeq (pruneToolCallsLocked o1 o2 d) = d_turnSeq d"
  "d_orphanGen (pruneToolCallsLocked o1 o2 d) = d_orphanGen d"
  "d_orphanID (pruneToolCallsLocked o1 o2 d) = d_orphanID d"
  "d_orphanMessage (pruneToolCallsLocked o1 o2 d) = d_orphanMessage d"
  "d_rawConfig (pruneToolCallsLocked o1 o2 d) = d_rawConfig d"
  "d_delivery (pruneToolCallsLocked o1 o2 d) = d_delivery d"
  "d_configOptionsCurrent (pruneToolCallsLocked o1 o2 d) = d_configOptionsCurrent d"
  "d_configChangeVersion (pruneToolCallsLocked o1 o2 d) = d_configChangeVersion d"
  "d_configChangesPending (pruneToolCallsLocked o1 o2 d) = d_configChangesPending d"
  "d_maxThread (pruneToolCallsLocked o1 o2 d) = d_maxThread d"
  "d_maxToolCalls (pruneToolCallsLocked o1 o2 d) = d_maxToolCalls d"
  "d_maxPermissions (pruneToolCallsLocked o1 o2 d) = d_maxPermissions d"
  by (simp_all add: pruneToolCallsLocked_def Let_def split: prod.splits)

lemma prune_thread_frame [simp]:
  "d_agent (pruneThreadLocked d) = d_agent d"
  "d_cwd (pruneThreadLocked d) = d_cwd d"
  "d_mcpServers (pruneThreadLocked d) = d_mcpServers d"
  "d_profile (pruneThreadLocked d) = d_profile d"
  "d_sessionID (pruneThreadLocked d) = d_sessionID d"
  "d_status (pruneThreadLocked d) = d_status d"
  "d_capabilities (pruneThreadLocked d) = d_capabilities d"
  "d_diagnostics (pruneThreadLocked d) = d_diagnostics d"
  "d_metadata (pruneThreadLocked d) = d_metadata d"
  "d_toolCalls (pruneThreadLocked d) = d_toolCalls d"
  "d_operations (pruneThreadLocked d) = d_operations d"
  "d_permissions (pruneThreadLocked d) = d_permissions d"
  "d_currentTurn (pruneThreadLocked d) = d_currentTurn d"
  "d_turnSeq (pruneThreadLocked d) = d_turnSeq d"
  "d_orphanGen (pruneThreadLocked d) = d_orphanGen d"
  "d_orphanID (pruneThreadLocked d) = d_orphanID d"
  "d_orphanMessage (pruneThreadLocked d) = d_orphanMessage d"
  "d_rawConfig (pruneThreadLocked d) = d_rawConfig d"
  "d_delivery (pruneThreadLocked d) = d_delivery d"
  "d_configOptionsCurrent (pruneThreadLocked d) = d_configOptionsCurrent d"
  "d_configChangeVersion (pruneThreadLocked d) = d_configChangeVersion d"
  "d_configChangesPending (pruneThreadLocked d) = d_configChangesPending d"
  "d_maxThread (pruneThreadLocked d) = d_maxThread d"
  "d_maxToolCalls (pruneThreadLocked d) = d_maxToolCalls d"
  "d_maxPermissions (pruneThreadLocked d) = d_maxPermissions d"
  by (simp_all add: pruneThreadLocked_def Let_def)

lemma prune_permissions_frame [simp]:
  "d_agent (prunePermissionsLocked o1 d) = d_agent d"
  "d_cwd (prunePermissionsLocked o1 d) = d_cwd d"
  "d_mcpServers (prunePermissionsLocked o1 d) = d_mcpServers d"
  "d_profile (prunePermissionsLocked o1 d) = d_profile d"
  "d_sessionID (prunePermissionsLocked o1 d) = d_sessionID d"
  "d_status (prunePermissionsLocked o1 d) = d_status d"
  "d_capabilities (prunePermissionsLocked o1 d) = d_capabilities d"
  "d_diagnostics (prunePermissionsLocked o1 d) = d_diagnostics d"
  "d_metadata (prunePermissionsLocked o1 d) = d_metadata d"
  "d_thread (prunePermissionsLocked o1 d) = d_thread d"
  "d_toolCalls (prunePermissionsLocked o1 d) = d_toolCalls d"
  "d_operations (prunePermissionsLocked o1 d) = d_operations d"
  "d_currentTurn (prunePermissionsLocked o1 d) = d_currentTurn d"
  "d_turnSeq (prunePermissionsLocked o1 d) = d_turnSeq d"
  "d_orphanGen (prunePermissionsLocked o1 d) = d_orphanGen d"
  "d_orphanID (prunePermissionsLocked o1 d) = d_orphanID d"
  "d_orphanMessage (prunePermissionsLocked o1 d) = d_orphanMessage d"
  "d_rawConfig (prunePermissionsLocked o1 d) = d_rawConfig d"
  "d_delivery (prunePermissionsLocked o1 d) = d_delivery d"
  "d_configOptionsCurrent (prunePermissionsLocked o1 d) = d_configOptionsCurrent d"
  "d_configChangeVersion (prunePermissionsLocked o1 d) = d_configChangeVersion d"
  "d_configChangesPending (prunePermissionsLocked o1 d) = d_configChangesPending d"
  "d_maxThread (prunePermissionsLocked o1 d) = d_maxThread d"
  "d_maxToolCalls (prunePermissionsLocked o1 d) = d_maxToolCalls d"
  "d_maxPermissions (prunePermissionsLocked o1 d) = d_maxPermissions d"
  by (simp_all add: prunePermissionsLocked_def Let_def)

section \<open>Permissions\<close>

lemma drop_permissions_spec:
  assumes "mwf m" "distinct ks" "set ks \<subseteq> mkeys m" "0 \<le> cap"
  shows "(\<exists>D. drop_permissions cap ks m = restrict_map D m)
    \<and> (length ks = length m \<longrightarrow> int (length (drop_permissions cap ks m)) \<le> cap)"
  using assms
proof (induction cap ks m rule: drop_permissions.induct)
  case (2 cap k ks m)
  show ?case
  proof (cases "int (length m) \<le> cap")
    case True
    then show ?thesis by (auto intro: exI [of _ "{}"])
  next
    case False
    have k: "k \<in> mkeys m" using 2(4) by simp
    have len: "length (mdel k m) = length m - 1" using length_mdel [OF 2(2), of k] k by simp
    have IH: "(\<exists>D. drop_permissions cap ks (mdel k m) = restrict_map D (mdel k m))
      \<and> (length ks = length (mdel k m) \<longrightarrow> int (length (drop_permissions cap ks (mdel k m))) \<le> cap)"
      using 2(1) [OF False] 2(2-5) by auto
    then obtain D where "drop_permissions cap ks (mdel k m) = restrict_map (insert k D) m"
      by (auto simp: mdel_restrict)
    then show ?thesis using IH len False by auto
  qed
qed (auto intro: exI [of _ "{}"])

lemma prune_permissions_table:
  assumes "mwf (d_permissions d)"
  shows "(\<exists>D. d_permissions (prunePermissionsLocked order d) = restrict_map D (d_permissions d))
    \<and> (permission_cap d < 0 \<or> int (length (d_permissions (prunePermissionsLocked order d))) \<le> permission_cap d)"
proof (cases "permission_cap d < 0 \<or> int (length (d_permissions d)) \<le> permission_cap d")
  case True
  then show ?thesis by (auto simp: prunePermissionsLocked_def Let_def intro: exI [of _ "{}"])
next
  case False
  let ?ks = "range_order order (d_permissions d)"
  have "distinct ?ks" "set ?ks \<subseteq> mkeys (d_permissions d)" "0 \<le> permission_cap d"
    using range_order_perm [OF assms] False by auto
  note drop_permissions_spec [OF assms this]
  then show ?thesis
    using False length_range_order [OF assms, of order] by (simp add: prunePermissionsLocked_def Let_def)
qed

section \<open>The invariant\<close>

definition fits :: "int \<Rightarrow> nat \<Rightarrow> bool" where
  "fits cap n \<longleftrightarrow> cap < 0 \<or> int n \<le> cap"

lemma fits_0 [simp]: "fits cap 0"
  by (auto simp: fits_def)

definition caps_inv :: "acp_driver \<Rightarrow> bool" where
  "caps_inv d \<longleftrightarrow> fits (thread_cap d) (length (d_thread d))
     \<and> fits (tool_cap d) (length (d_toolCalls d))
     \<and> fits (permission_cap d) (length (d_permissions d))"

definition tables_ok ::
  "tool_call_snapshot gomap \<Rightarrow> operation gomap \<Rightarrow> permission_snapshot gomap \<Rightarrow> bool" where
  "tables_ok tools ops perms \<longleftrightarrow> mwf tools \<and> mwf ops \<and> mwf perms
     \<and> mkeys tools = mkeys ops \<and> mget tools [] = None
     \<and> (\<forall>k s p. mget tools k = Some s \<and> mget ops k = Some p
          \<longrightarrow> op_Phase p = operationPhase (tc_Status s))"

definition tables_inv :: "acp_driver \<Rightarrow> bool" where
  "tables_inv d \<longleftrightarrow> tables_ok (d_toolCalls d) (d_operations d) (d_permissions d)"

definition read_model_inv :: "acp_driver \<Rightarrow> bool" where
  "read_model_inv d \<longleftrightarrow> caps_inv d \<and> tables_inv d"

text \<open>The fields the invariant reads.\<close>

definition same_model :: "acp_driver \<Rightarrow> acp_driver \<Rightarrow> bool" where
  "same_model d e \<longleftrightarrow> d_thread e = d_thread d \<and> d_toolCalls e = d_toolCalls d
     \<and> d_operations e = d_operations d \<and> d_permissions e = d_permissions d
     \<and> d_maxThread e = d_maxThread d \<and> d_maxToolCalls e = d_maxToolCalls d
     \<and> d_maxPermissions e = d_maxPermissions d"

lemma same_model_inv [inv_intros]: "read_model_inv d \<Longrightarrow> same_model d e \<Longrightarrow> read_model_inv e"
  unfolding read_model_inv_def caps_inv_def tables_inv_def same_model_def
    thread_cap_def tool_cap_def permission_cap_def
  by (elim conjE) simp

lemma new_driver_inv: "read_model_inv (newACPSessionDriver b)"
  by (simp add: read_model_inv_def caps_inv_def tables_inv_def tables_ok_def newACPSessionDriver_def
      resolveReadModelLimits_def Let_def)

lemma caps_frame [simp]:
  "thread_cap (pruneThreadLocked d) = thread_cap d"
  "thread_cap (pruneToolCallsLocked o1 o2 d) = thread_cap d"
  "thread_cap (prunePermissionsLocked o1 d) = thread_cap d"
  "tool_cap (pruneThreadLocked d) = tool_cap d"
  "tool_cap (pruneToolCallsLocked o1 o2 d) = tool_cap d"
  "tool_cap (prunePermissionsLocked o1 d) = tool_cap d"
  "permission_cap (pruneThreadLocked d) = permission_cap d"
  "permission_cap (pruneToolCallsLocked o1 o2 d) = permission_cap d"
  "permission_cap (prunePermissionsLocked o1 d) = permission_cap d"
  by (simp_all add: thread_cap_def tool_cap_def permission_cap_def)

lemma prune_thread_fits: "fits (thread_cap d) (length (d_thread (pruneThreadLocked d)))"
  by (auto simp: fits_def pruneThreadLocked_def Let_def)

lemma add_thread_entry_inv [inv_intros]: "read_model_inv d \<Longrightarrow> read_model_inv (add_thread_entry e d)"
  using prune_thread_fits [of "d\<lparr>d_thread := d_thread d @ [e]\<rparr>"]
  by (simp add: read_model_inv_def caps_inv_def tables_inv_def add_thread_entry_def
      thread_cap_def tool_cap_def permission_cap_def)

text \<open>The write that both tool handlers make.\<close>

definition put_call ::
  "update_env \<Rightarrow> string \<Rightarrow> tool_call_snapshot \<Rightarrow> operation \<Rightarrow> acp_driver \<Rightarrow> acp_driver" where
  "put_call env k s p d = pruneToolCallsLocked (ue_order1 env) (ue_order2 env)
     (d\<lparr>d_toolCalls := mput k s (d_toolCalls d), d_operations := mput k p (d_operations d)\<rparr>)"

lemma tables_ok_put:
  assumes "tables_ok t q ps" "k \<noteq> []" "op_Phase p = operationPhase (tc_Status s)"
  shows "tables_ok (mput k s t) (mput k p q) ps"
  unfolding tables_ok_def
proof (intro conjI)
  show "\<forall>j s' p'. mget (mput k s t) j = Some s' \<and> mget (mput k p q) j = Some p' \<longrightarrow>
      op_Phase p' = operationPhase (tc_Status s')"
    using assms by (simp add: tables_ok_def)
qed (use assms in \<open>simp_all add: tables_ok_def\<close>)

lemma tables_ok_restrict:
  assumes "tables_ok t q ps"
  shows "tables_ok (restrict_map D t) (restrict_map D q) ps"
  unfolding tables_ok_def
proof (intro conjI)
  show "\<forall>j s' p'. mget (restrict_map D t) j = Some s' \<and> mget (restrict_map D q) j = Some p' \<longrightarrow>
      op_Phase p' = operationPhase (tc_Status s')"
    using assms by (simp add: tables_ok_def)
  show "mkeys (restrict_map D t) = mkeys (restrict_map D q)" "mget (restrict_map D t) [] = None"
    using assms unfolding tables_ok_def mkeys_restrict mget_restrict by simp_all
qed (use assms in \<open>simp_all add: tables_ok_def\<close>)

lemma tables_ok_permissions: "tables_ok t q ps \<Longrightarrow> mwf ps' \<Longrightarrow> tables_ok t q ps'"
  unfolding tables_ok_def by blast

lemma put_call_inv:
  assumes "read_model_inv d" "k \<noteq> []" "op_Phase p = operationPhase (tc_Status s)"
  shows "read_model_inv (put_call env k s p d)"
proof -
  let ?d = "d\<lparr>d_toolCalls := mput k s (d_toolCalls d), d_operations := mput k p (d_operations d)\<rparr>"
  let ?e = "put_call env k s p d"
  have t: "tables_ok (d_toolCalls ?d) (d_operations ?d) (d_permissions d)"
    using assms tables_ok_put by (simp add: read_model_inv_def tables_inv_def)
  then have wf: "mwf (d_toolCalls ?d)" unfolding tables_ok_def by blast
  have e: "?e = pruneToolCallsLocked (ue_order1 env) (ue_order2 env) ?d" by (simp add: put_call_def)
  note P = prune_tool_calls_tables [OF wf e]
  obtain D where D: "d_toolCalls ?e = restrict_map D (d_toolCalls ?d)"
    "d_operations ?e = restrict_map D (d_operations ?d)" using P by blast
  have "tables_ok (d_toolCalls ?e) (d_operations ?e) (d_permissions d)"
    using tables_ok_restrict [OF t, of D] unfolding D .
  moreover have "fits (tool_cap ?e) (length (d_toolCalls ?e))"
  proof (cases "tool_cap ?d < 0")
    case True
    then show ?thesis by (simp add: fits_def e)
  next
    case False
    then have "int (length (d_toolCalls ?e)) = min (tool_cap ?d) (int (length (d_toolCalls ?d)))"
      using P by simp
    then show ?thesis unfolding fits_def e by simp
  qed
  moreover have "thread_cap ?e = thread_cap d" "d_thread ?e = d_thread d"
    "permission_cap ?e = permission_cap d" "d_permissions ?e = d_permissions d"
    by (simp_all add: put_call_def thread_cap_def permission_cap_def)
  ultimately show ?thesis using assms(1)
    by (simp add: read_model_inv_def caps_inv_def tables_inv_def)
qed

lemma apply_tool_call_put:
  "apply_tool_call dec env u d =
     (if su_ToolCallID u = [] then d
      else put_call env (su_ToolCallID u) (tool_call_entry (ue_now env) u)
        \<lparr>op_ID = su_ToolCallID u, op_Kind = MapOperationKind (d_profile d) (or_blank (su_Kind u)),
         op_Phase = operationPhase (or_blank (su_Status u)), op_Title = or_blank (su_Title u),
         op_Target = inferOperationTarget dec u, op_UpdatedAt = ue_now2 env\<rparr> d)"
  by (simp add: apply_tool_call_def put_call_def tool_call_entry_def Let_def)

lemma apply_tool_call_update_put:
  "apply_tool_call_update env u d =
     (if su_ToolCallID u = [] then d
      else let old = (case mget (d_toolCalls d) (su_ToolCallID u) of None \<Rightarrow> zero_tool_call | Some s \<Rightarrow> s);
               op = (case mget (d_operations d) (su_ToolCallID u) of None \<Rightarrow> zero_operation | Some p \<Rightarrow> p);
               s = patch_tool_call (ue_now env) u old in
        put_call env (su_ToolCallID u) s
          (op\<lparr>op_Phase := operationPhase (tc_Status s), op_UpdatedAt := ue_now env\<rparr>) d)"
  by (simp add: apply_tool_call_update_def put_call_def Let_def)

lemma apply_update_inv [inv_intros]:
  assumes "read_model_inv d"
  shows "read_model_inv (apply_update dec env u d)"
proof -
  have tc: "read_model_inv (apply_tool_call dec env u d)"
    using assms put_call_inv by (simp add: apply_tool_call_put tool_call_entry_def)
  have tu: "read_model_inv (apply_tool_call_update env u d)"
    using assms put_call_inv by (simp add: apply_tool_call_update_put Let_def)
  consider "su_SessionUpdate u = ''tool_call''" | "su_SessionUpdate u = ''tool_call_update''"
    | "su_SessionUpdate u \<noteq> ''tool_call''" "su_SessionUpdate u \<noteq> ''tool_call_update''"
    by blast
  then show ?thesis
  proof cases
    case 3
    then have "same_model d (apply_update dec env u d)"
      by (simp add: apply_update_def same_model_def replaceConfigOptionsLocked_def Let_def)
    then show ?thesis using assms same_model_inv by blast
  qed (simp_all add: apply_update_def tc tu)
qed

lemma recordPermission_inv [inv_intros]:
  assumes "read_model_inv d"
  shows "read_model_inv (recordPermission order req dec' d)"
proof -
  obtain d1 k v where d1: "same_model d d1"
    "recordPermission order req dec' d =
       prunePermissionsLocked order (d1\<lparr>d_permissions := mput k v (d_permissions d1)\<rparr>)"
  proof -
    let ?d1 = "if pr_ToolCallID req = [] then d\<lparr>d_turnSeq := Suc (d_turnSeq d)\<rparr> else d"
    let ?k = "if pr_ToolCallID req = [] then ''permission-'' @ nat_decimal (d_turnSeq ?d1)
              else pr_ToolCallID req"
    let ?v = "\<lparr>ps_ID = ?k, ps_Phase = ''decided'', ps_Operation = pd_Outcome dec', ps_Request = req\<rparr>"
    have "same_model d ?d1" by (simp add: same_model_def)
    moreover have "recordPermission order req dec' d =
        prunePermissionsLocked order (?d1\<lparr>d_permissions := mput ?k ?v (d_permissions ?d1)\<rparr>)"
      by (simp add: recordPermission_def Let_def)
    ultimately show ?thesis using that by blast
  qed
  have inv1: "read_model_inv d1" using assms d1(1) same_model_inv by blast
  let ?d = "d1\<lparr>d_permissions := mput k v (d_permissions d1)\<rparr>"
  let ?e = "prunePermissionsLocked order ?d"
  have ok: "tables_ok (d_toolCalls d1) (d_operations d1) (d_permissions d1)"
    using inv1 by (simp add: read_model_inv_def tables_inv_def)
  then have wf: "mwf (d_permissions ?d)" by (simp add: tables_ok_def)
  obtain D where "d_permissions ?e = restrict_map D (d_permissions ?d)"
    and w: "fits (permission_cap ?d) (length (d_permissions ?e))"
    using prune_permissions_table [OF wf, of order] by (auto simp: fits_def)
  then have "mwf (d_permissions ?e)" using wf by simp
  with ok have "tables_ok (d_toolCalls ?e) (d_operations ?e) (d_permissions ?e)"
    using tables_ok_permissions by simp
  moreover have "caps_inv ?e"
    using inv1 w by (simp add: read_model_inv_def caps_inv_def thread_cap_def tool_cap_def permission_cap_def)
  ultimately show ?thesis unfolding d1(2) by (simp add: read_model_inv_def tables_inv_def)
qed

lemma config_change_inv [inv_intros]:
  "read_model_inv d \<Longrightarrow> read_model_inv (snd (beginConfigChange d))"
  "read_model_inv d \<Longrightarrow> read_model_inv (endConfigChange d)"
  "read_model_inv d \<Longrightarrow> read_model_inv (mode_applied m d)"
  "read_model_inv d \<Longrightarrow> read_model_inv (option_applied k v ver ex os d)"
  by (erule same_model_inv; simp add: same_model_def beginConfigChange_def endConfigChange_def
      mode_applied_def option_applied_def replaceConfigOptionsLocked_def Let_def split: option.splits)+

end
