(* ===== verification/Orphans.thy ===== *)
theory Orphans
  imports Read_Model_Laws
begin

text \<open>
  Updates that arrive with no turn in flight (\<open>session_driver.go\<close>): \<open>bindOrphanUpdate\<close> groups
  them into generations, each under one update id, and closes a generation with one terminal
  notification. The abstract contract is the automaton \<open>grouping\<close>: a generation opens with a
  body, goes on with notifications of its own id, and is closed once before the next opens.
\<close>

section \<open>Binding\<close>

definition isOrphanBodyUpdate :: "string \<Rightarrow> bool" where
  "isOrphanBodyUpdate kind \<longleftrightarrow> trim_space kind \<in>
     {''agent_message_chunk'', ''agent_message'', ''message'', ''agent_thought_chunk'',
      ''user_message_chunk'', ''tool_call'', ''tool_call_update'', ''plan''}"

definition isOrphanIdleUpdate :: "string \<Rightarrow> bool" where
  "isOrphanIdleUpdate kind \<longleftrightarrow> trim_space kind = ''available_commands_update''"

definition orphan_terminal :: "acp_driver \<Rightarrow> session_notification" where
  "orphan_terminal d =
     \<lparr>sn_SessionID = d_sessionID d, sn_Update = empty_update, sn_UpdateID = d_orphanID d,
      sn_Terminal = True\<rparr>"

definition takeOrphanTerminalLocked :: "acp_driver \<Rightarrow> session_notification option \<times> acp_driver" where
  "takeOrphanTerminalLocked d =
     (if d_orphanID d = [] then (None, d)
      else (Some (orphan_terminal d), d\<lparr>d_orphanID := [], d_orphanMessage := []\<rparr>))"

definition orphan_generation_id :: "acp_driver \<Rightarrow> string" where
  "orphan_generation_id d = ''orphan:'' @ d_sessionID d @ '':'' @ nat_decimal (d_orphanGen d)"

text \<open>The notification as bound, and the notifications to send before it.\<close>

definition bindOrphanUpdate ::
  "session_notification \<Rightarrow> acp_driver \<Rightarrow>
   session_notification \<times> session_notification list \<times> acp_driver" where
  "bindOrphanUpdate n d =
     (let kind = trim_space (su_SessionUpdate (sn_Update n));
          msgID = trim_space (su_MessageID (sn_Update n)) in
      if isOrphanIdleUpdate kind then
        (if d_orphanID d = [] then (n, [], d)
         else (n\<lparr>sn_UpdateID := d_orphanID d, sn_Terminal := True\<rparr>, [],
               d\<lparr>d_orphanID := [], d_orphanMessage := []\<rparr>))
      else if \<not> isOrphanBodyUpdate kind then (n\<lparr>sn_UpdateID := d_orphanID d\<rparr>, [], d)
      else
        let (previous, d) =
              (if d_orphanID d \<noteq> [] \<and> msgID \<noteq> [] \<and> d_orphanMessage d \<noteq> [] \<and> msgID \<noteq> d_orphanMessage d
               then ([orphan_terminal d], d\<lparr>d_orphanID := [], d_orphanMessage := []\<rparr>)
               else ([], d));
            d = (if d_orphanID d = [] then
                   (let d = d\<lparr>d_orphanGen := Suc (d_orphanGen d)\<rparr> in
                    d\<lparr>d_orphanID := (if msgID \<noteq> [] then msgID else orphan_generation_id d),
                      d_orphanMessage := msgID\<rparr>)
                 else if d_orphanMessage d = [] \<and> msgID \<noteq> [] then d\<lparr>d_orphanMessage := msgID\<rparr>
                 else d)
        in (n\<lparr>sn_UpdateID := d_orphanID d\<rparr>, previous, d))"

section \<open>The contract\<close>

text \<open>
  The open generation after a log of notifications, \<open>[]\<close> for none; \<open>None\<close> when the log breaks the
  contract. A notification that arrives bound carries no terminal flag of its own.
\<close>

fun grouping :: "string \<Rightarrow> session_notification list \<Rightarrow> string option" where
  "grouping cur [] = Some cur"
| "grouping cur (n # ns) =
     (if sn_Terminal n then
        (if cur \<noteq> [] \<and> sn_UpdateID n = cur then grouping [] ns else None)
      else if cur = [] then grouping (sn_UpdateID n) ns
      else if sn_UpdateID n = cur then grouping cur ns else None)"

lemma grouping_append:
  "grouping cur (xs @ ys) = Option.bind (grouping cur xs) (\<lambda>c. grouping c ys)"
  by (induction xs arbitrary: cur) auto

lemma orphan_generation_id_nonempty [simp]: "orphan_generation_id d \<noteq> []"
  by (simp add: orphan_generation_id_def)

lemma take_terminal_grouping:
  assumes "takeOrphanTerminalLocked d = (t, d')"
  shows "grouping (d_orphanID d) (case t of None \<Rightarrow> [] | Some n \<Rightarrow> [n]) = Some (d_orphanID d')"
  using assms by (auto simp: takeOrphanTerminalLocked_def orphan_terminal_def split: if_splits)

lemma bind_grouping:
  assumes "bindOrphanUpdate n d = (n', previous, d')" "sn_Terminal n = False" "sn_UpdateID n = []"
  shows "grouping (d_orphanID d) (previous @ [n']) = Some (d_orphanID d')"
  using assms
  by (auto simp: bindOrphanUpdate_def Let_def orphan_terminal_def split: if_splits)

text \<open>Only the three orphan fields change.\<close>

lemma take_terminal_frame:
  "snd (takeOrphanTerminalLocked d) =
     d\<lparr>d_orphanID := d_orphanID (snd (takeOrphanTerminalLocked d)),
       d_orphanMessage := d_orphanMessage (snd (takeOrphanTerminalLocked d))\<rparr>"
  by (simp add: takeOrphanTerminalLocked_def)

lemma bind_frame:
  assumes "bindOrphanUpdate n d = (n', previous, d')"
  shows "d' = d\<lparr>d_orphanGen := d_orphanGen d', d_orphanID := d_orphanID d',
                d_orphanMessage := d_orphanMessage d'\<rparr>"
  using assms by (auto simp: bindOrphanUpdate_def Let_def split: if_splits)

lemma bind_closes:
  "d_orphanID d = [] \<longrightarrow> fst (snd (bindOrphanUpdate n d)) = []"
  by (simp add: bindOrphanUpdate_def Let_def)

end
