(* ===== verification/Session_Driver.thy ===== *)
theory Session_Driver
  imports Orphans
begin

text \<open>
  \<open>acpSessionDriver\<close> (\<open>session_driver.go\<close>) as a step system. Every critical section of the
  mutex, every channel operation and every external reply is one step; the rest of a goroutine's
  body is the list of operations it still has to do. So the model has every interleaving of host
  calls, the peer's read loop, prompt replies and the cancel timer that the code has.

  \<^item> A turn is a cell of \<open>w_turns\<close>; its address is its index. Its two channels are lists with a
    capacity and a closed flag. A send on a closed channel, and a second close, set \<open>w_panic\<close>.
  \<^item> \<open>finishTurn\<close> runs under \<open>sync.Once\<close>: \<open>at_once\<close> says how far the one goroutine inside has come
    (action \<open>Advance\<close>); every caller returns when it is done.
  \<^item> The read loop calls \<open>handleSessionUpdate\<close> for one notification after another: \<open>w_reader\<close> is
    what it still has to do for the current one. A successful prompt response is delivered by the
    same loop, between two notifications.
  \<^item> JSON-RPC calls return when the environment gives a reply (\<open>Reply\<close> actions).
\<close>

section \<open>Turns\<close>

record turn_event =
  tv_Type :: string
  tv_TurnID :: string
  tv_Text :: string
  tv_Thinking :: string
  tv_Plan :: "plan_entry list"
  tv_ToolCall :: "tool_call_snapshot option"
  tv_Operation :: "operation option"
  tv_Usage :: "usage option"
  tv_Error :: "go_error option"
  tv_Completion :: "turn_completion option"

definition turn_event :: "string \<Rightarrow> string \<Rightarrow> turn_event" where
  "turn_event ty turn =
     \<lparr>tv_Type = ty, tv_TurnID = turn, tv_Text = [], tv_Thinking = [], tv_Plan = [], tv_ToolCall = None,
      tv_Operation = None, tv_Usage = None, tv_Error = None, tv_Completion = None\<rparr>"

record turn_result =
  tr_Completion :: turn_completion
  tr_Err :: "go_error option"

text \<open>The arguments of the \<open>finishTurn\<close> call that entered the once block.\<close>

record finish_args =
  fa_Completion :: turn_completion
  fa_Err :: "go_error option"

datatype once_state =
    Once_New
  | Send_Completion finish_args
  | Send_Terminal finish_args
  | Close_Events finish_args
  | Close_Completion finish_args
  | Finish_Hook finish_args
  | Once_Done

text \<open>The cancel timer: not set, running, or set and fired; a fired timer is not set again.\<close>

datatype timer_state = No_Timer | Timer_Armed | Timer_Fired

record active_turn =
  at_id :: string
  at_events :: "turn_event list"
  at_eventsClosed :: bool
  at_completion :: "turn_result list"
  at_completionClosed :: bool
  at_outputText :: string
  at_dropIntermediate :: bool
  at_once :: once_state
  at_cancelTimer :: timer_state
  at_results :: "turn_result list"

text \<open>\<open>at_results\<close> is history: everything ever sent on the completion channel.\<close>

abbreviation events_cap :: nat where "events_cap \<equiv> 64"
abbreviation completion_cap :: nat where "completion_cap \<equiv> 1"
abbreviation orphanUpdatesBuffer :: nat where "orphanUpdatesBuffer \<equiv> 256"

section \<open>The world\<close>

datatype op =
    Op_Emit nat turn_event
  | Op_Read_Tool nat string
  | Op_Bind session_notification
  | Op_Send session_notification
  | Op_Turn_Hook string string
  | Op_Await_Prompt nat
  | Op_Settle nat string "usage option" int
  | Op_Finish nat finish_args int
  | Op_Finish_Wait nat
  | Op_Cancel_Notify string
  | Op_Await_Mode string
  | Op_Await_Option string any nat bool
  | Op_End_Config
  | Op_Await_Close string

record world =
  w_driver :: acp_driver
  w_turns :: "active_turn list"
  w_updates :: "session_notification list"
  w_reader :: "op list"
  w_threads :: "op list list"
  w_panic :: bool
  w_turnHooks :: "(string \<times> string) list"
  w_sessionHooks :: "(string \<times> go_error option) list"
  w_drops :: "(string \<times> string) list"
  w_said :: "thread_entry list"
  w_bound :: "session_notification list"
  w_options :: "runtime_config_option list"

text \<open>
  \<open>w_said\<close>, \<open>w_bound\<close> and \<open>w_options\<close> are history: every thread entry ever added, every orphan
  notification in binding order, and the last full option snapshot of the provider.
\<close>

definition initial_world :: "acp_driver \<Rightarrow> world" where
  "initial_world d =
     \<lparr>w_driver = d, w_turns = [], w_updates = [], w_reader = [], w_threads = [], w_panic = False,
      w_turnHooks = [], w_sessionHooks = [], w_drops = [], w_said = [], w_bound = [],
      w_options = md_AgentConfigOptions (d_metadata d)\<rparr>"

definition set_turn :: "nat \<Rightarrow> active_turn \<Rightarrow> world \<Rightarrow> world" where
  "set_turn p t w = w\<lparr>w_turns := (w_turns w)[p := t]\<rparr>"

section \<open>Channel operations\<close>

text \<open>\<open>emitTurnEvent\<close>: a non-blocking send; a full buffer drops the event.\<close>

definition emitTurnEvent :: "nat \<Rightarrow> turn_event \<Rightarrow> world \<Rightarrow> world" where
  "emitTurnEvent p e w =
     (let t = w_turns w ! p in
      if at_eventsClosed t then w\<lparr>w_panic := True\<rparr>
      else if length (at_events t) < events_cap
      then set_turn p (t\<lparr>at_events := at_events t @ [e]\<rparr>) w
      else w\<lparr>w_drops := w_drops w @ [(at_id t, tv_Type e)]\<rparr>)"

definition firstNonEmpty2 :: "string \<Rightarrow> string \<Rightarrow> string" where
  "firstNonEmpty2 a b = (if a \<noteq> [] then a else b)"

definition sendOrphanUpdate :: "session_notification \<Rightarrow> world \<Rightarrow> world" where
  "sendOrphanUpdate n w =
     (if length (w_updates w) < orphanUpdatesBuffer then w\<lparr>w_updates := w_updates w @ [n]\<rparr>
      else w\<lparr>w_drops := w_drops w @
             [(sn_UpdateID n, firstNonEmpty2 (su_SessionUpdate (sn_Update n)) ''orphan_terminal'')]\<rparr>)"

section \<open>Finishing a turn\<close>

definition turn_hook_type :: "go_error option \<Rightarrow> string" where
  "turn_hook_type err = (case err of
     None \<Rightarrow> ''completed''
   | Some e \<Rightarrow> if as_runtime e = Some ErrorTurnCancelled then ''cancelled'' else ''failed'')"

definition assistant_entry :: "active_turn \<Rightarrow> turn_completion \<Rightarrow> int \<Rightarrow> thread_entry" where
  "assistant_entry t c now =
     \<lparr>te_ID = at_id t @ ''-assistant'', te_Kind = ''assistant_message'', te_Status = ''completed'',
      te_Text = tn_OutputText c, te_CreatedAt = now, te_UpdatedAt = now\<rparr>"

text \<open>The critical section at the start of the once block.\<close>

definition finish_locked :: "nat \<Rightarrow> finish_args \<Rightarrow> int \<Rightarrow> world \<Rightarrow> world" where
  "finish_locked p a now w =
     (let t = w_turns w ! p;
          d = w_driver w;
          d = (if d_currentTurn d = Some p
               then (let d = d\<lparr>d_currentTurn := None\<rparr> in
                     if d_status d \<noteq> ''closed'' then d\<lparr>d_status := ''ready''\<rparr> else d)
               else d);
          e = assistant_entry t (fa_Completion a) now;
          (d, said) = (if fa_Err a = None then (add_thread_entry e d, w_said w @ [e])
                       else (d, w_said w))
      in (set_turn p (t\<lparr>at_cancelTimer := No_Timer, at_once := Send_Completion a\<rparr>) w)
           \<lparr>w_driver := d, w_said := said\<rparr>)"

text \<open>The remaining steps inside the once block.\<close>

definition advance :: "nat \<Rightarrow> world \<Rightarrow> world option" where
  "advance p w =
     (if length (w_turns w) \<le> p then None
      else let t = w_turns w ! p in
      case at_once t of
        Once_New \<Rightarrow> None
      | Once_Done \<Rightarrow> None
      | Send_Completion a \<Rightarrow>
          (let r = \<lparr>tr_Completion = (if fa_Err a = None then fa_Completion a else empty_completion),
                    tr_Err = fa_Err a\<rparr> in
           if at_completionClosed t then Some (w\<lparr>w_panic := True\<rparr>)
           else if length (at_completion t) < completion_cap
           then Some (set_turn p (t\<lparr>at_completion := at_completion t @ [r],
                                   at_results := at_results t @ [r], at_once := Send_Terminal a\<rparr>) w)
           else Some (set_turn p (t\<lparr>at_once := Send_Terminal a\<rparr>) w))
      | Send_Terminal a \<Rightarrow>
          (let e = (case fa_Err a of
                      Some err \<Rightarrow> (turn_event ''failed'' (at_id t))\<lparr>tv_Error := Some err\<rparr>
                    | None \<Rightarrow> (turn_event ''completed'' (at_id t))\<lparr>tv_Completion := Some (fa_Completion a)\<rparr>) in
           if at_eventsClosed t then Some (w\<lparr>w_panic := True\<rparr>)
           else if length (at_events t) < events_cap
           then Some (set_turn p (t\<lparr>at_events := at_events t @ [e], at_once := Close_Events a\<rparr>) w)
           else Some (set_turn p (t\<lparr>at_once := Close_Events a\<rparr>) w))
      | Close_Events a \<Rightarrow>
          (if at_eventsClosed t then Some (w\<lparr>w_panic := True\<rparr>)
           else Some (set_turn p (t\<lparr>at_eventsClosed := True, at_once := Close_Completion a\<rparr>) w))
      | Close_Completion a \<Rightarrow>
          (if at_completionClosed t then Some (w\<lparr>w_panic := True\<rparr>)
           else Some (set_turn p (t\<lparr>at_completionClosed := True, at_once := Finish_Hook a\<rparr>) w))
      | Finish_Hook a \<Rightarrow>
          Some ((set_turn p (t\<lparr>at_once := Once_Done\<rparr>) w)
                  \<lparr>w_turnHooks := w_turnHooks w @ [(turn_hook_type (fa_Err a), at_id t)]\<rparr>))"

section \<open>Steps of a goroutine\<close>

text \<open>
  One operation: the operations that follow it in its goroutine, and the new world. \<open>None\<close>: the
  goroutine is blocked (it waits for a reply, or for the once block).
\<close>

definition op_step :: "op \<Rightarrow> world \<Rightarrow> (op list \<times> world) option" where
  "op_step o' w = (case o' of
     Op_Emit p e \<Rightarrow> Some ([], emitTurnEvent p e w)
   | Op_Read_Tool p k \<Rightarrow>
       (let tool = (case mget (d_toolCalls (w_driver w)) k of None \<Rightarrow> zero_tool_call | Some s \<Rightarrow> s);
            q = (case mget (d_operations (w_driver w)) k of None \<Rightarrow> zero_operation | Some q \<Rightarrow> q) in
        Some ([Op_Emit p ((turn_event ''operation_updated'' (at_id (w_turns w ! p)))
                 \<lparr>tv_ToolCall := Some tool, tv_Operation := Some q\<rparr>)], w))
   | Op_Bind n \<Rightarrow>
       (let (n', previous, d) = bindOrphanUpdate n (w_driver w) in
        Some (map Op_Send (previous @ [n']),
              w\<lparr>w_driver := d, w_bound := w_bound w @ previous @ [n']\<rparr>))
   | Op_Send n \<Rightarrow> Some ([], sendOrphanUpdate n w)
   | Op_Turn_Hook ty turn \<Rightarrow> Some ([], w\<lparr>w_turnHooks := w_turnHooks w @ [(ty, turn)]\<rparr>)
   | Op_Settle p stop use now \<Rightarrow>
       (let t = w_turns w ! p in
        Some ([Op_Finish p \<lparr>fa_Completion = \<lparr>tn_TurnID = at_id t, tn_OutputText = at_outputText t,
                 tn_StopReason = stop, tn_Usage = use\<rparr>, fa_Err = None\<rparr> now], w))
   | Op_Finish p a now \<Rightarrow>
       Some ([Op_Finish_Wait p],
             if at_once (w_turns w ! p) = Once_New then finish_locked p a now w else w)
   | Op_Finish_Wait p \<Rightarrow> if at_once (w_turns w ! p) = Once_Done then Some ([], w) else None
   | Op_End_Config \<Rightarrow> Some ([], w\<lparr>w_driver := endConfigChange (w_driver w)\<rparr>)
   | _ \<Rightarrow> None)"

definition step_reader :: "world \<Rightarrow> world option" where
  "step_reader w = (case w_reader w of
     [] \<Rightarrow> None
   | o' # ops \<Rightarrow> map_option (\<lambda>(more, w'). w'\<lparr>w_reader := more @ ops\<rparr>) (op_step o' w))"

definition step_thread :: "nat \<Rightarrow> world \<Rightarrow> world option" where
  "step_thread i w =
     (if length (w_threads w) \<le> i then None
      else case w_threads w ! i of
        [] \<Rightarrow> None
      | o' # ops \<Rightarrow>
          map_option (\<lambda>(more, w'). w'\<lparr>w_threads := (w_threads w')[i := more @ ops]\<rparr>) (op_step o' w))"

definition spawn :: "op list \<Rightarrow> world \<Rightarrow> world" where
  "spawn ops w = w\<lparr>w_threads := w_threads w @ [ops]\<rparr>"

text \<open>A reply lets goroutine \<open>i\<close> go on: its first operation is replaced.\<close>

definition continue_with :: "nat \<Rightarrow> op list \<Rightarrow> world \<Rightarrow> world" where
  "continue_with i ops w = w\<lparr>w_threads := (w_threads w)[i := ops @ tl (w_threads w ! i)]\<rparr>"

definition waiting :: "nat \<Rightarrow> world \<Rightarrow> op option" where
  "waiting i w = (if length (w_threads w) \<le> i then None
     else case w_threads w ! i of [] \<Rightarrow> None | o' # _ \<Rightarrow> Some o')"

section \<open>Entry points\<close>

text \<open>\<open>handleSessionUpdate\<close>: the critical section, and what follows the unlock.\<close>

definition after_update :: "nat \<Rightarrow> active_turn \<Rightarrow> session_update \<Rightarrow> op list" where
  "after_update p t u =
     (let kind = su_SessionUpdate u; ev = (\<lambda>ty. turn_event ty (at_id t)) in
      if is_text_update kind then [Op_Emit p ((ev ''text'')\<lparr>tv_Text := sessionUpdateText u\<rparr>)]
      else if kind = ''agent_thought_chunk''
      then [Op_Emit p ((ev ''thinking'')\<lparr>tv_Thinking := sessionUpdateText u\<rparr>)]
      else if kind = ''plan'' then [Op_Emit p ((ev ''plan_updated'')\<lparr>tv_Plan := su_Entries u\<rparr>)]
      else if kind = ''usage_update'' then [Op_Emit p ((ev ''usage_updated'')\<lparr>tv_Usage := su_Usage u\<rparr>)]
      else if kind = ''session_info_update'' \<or> kind = ''available_commands_update''
      then [Op_Emit p (ev ''metadata_updated'')]
      else if (kind = ''tool_call'' \<or> kind = ''tool_call_update'') \<and> su_ToolCallID u \<noteq> []
      then [Op_Read_Tool p (su_ToolCallID u)]
      else [])"

definition handleSessionUpdate ::
  "(bytes \<Rightarrow> meta option option) \<Rightarrow> update_env \<Rightarrow> session_notification \<Rightarrow> world \<Rightarrow> world" where
  "handleSessionUpdate dec env n w =
     (let d = w_driver w; u = sn_Update n in
      if sn_SessionID n \<noteq> [] \<and> sn_SessionID n \<noteq> d_sessionID d then w
      else
        let w1 = w\<lparr>w_driver := apply_update dec env u d,
                   w_options := (if su_SessionUpdate u = ''config_option_update''
                                 then map runtimeConfigOptionFromACP (su_ConfigOptions u)
                                 else w_options w)\<rparr> in
        case d_currentTurn d of
          None \<Rightarrow> w1\<lparr>w_reader := [Op_Bind n]\<rparr>
        | Some p \<Rightarrow>
            let t = w_turns w ! p;
                w2 = (if is_text_update (su_SessionUpdate u)
                      then set_turn p (t\<lparr>at_outputText := at_outputText t @ sessionUpdateText u\<rparr>) w1
                      else w1)
            in w2\<lparr>w_reader := (if at_dropIntermediate t then [] else after_update p t u)\<rparr>)"

definition new_turn :: "string \<Rightarrow> bool \<Rightarrow> active_turn" where
  "new_turn turnID drop_it =
     \<lparr>at_id = turnID, at_events = [], at_eventsClosed = False, at_completion = [],
      at_completionClosed = False, at_outputText = [], at_dropIntermediate = drop_it,
      at_once = Once_New, at_cancelTimer = No_Timer, at_results = []\<rparr>"

text \<open>
  \<open>StartTurn\<close>. A closed session and a running turn are refused with a handle whose completion
  already holds the error; the coalesced one is also reported to the hook.
\<close>

datatype start_result = Started nat | Refused go_error

definition user_entry :: "string \<Rightarrow> runtime_prompt \<Rightarrow> int \<Rightarrow> thread_entry" where
  "user_entry turnID prompt now =
     \<lparr>te_ID = turnID @ ''-user'', te_Kind = ''user_message'', te_Status = ''completed'',
      te_Text = promptText prompt, te_CreatedAt = now, te_UpdatedAt = now\<rparr>"

definition StartTurn :: "int \<Rightarrow> runtime_prompt \<Rightarrow> world \<Rightarrow> start_result \<times> world" where
  "StartTurn now prompt w =
     (let d = w_driver w in
      if d_status d = ''closed'' then (Refused (sessionClosedError ''session.start_turn''), w)
      else if d_currentTurn d \<noteq> None then
        (Refused (runtime_error ErrorTurnCoalesced ''session.start_turn'' ''a turn is already running''),
         w\<lparr>w_turnHooks := w_turnHooks w @ [(''coalesced'', '''')]\<rparr>)
      else
        let d = d\<lparr>d_turnSeq := Suc (d_turnSeq d)\<rparr>;
            turnID = ''turn-'' @ nat_decimal (d_turnSeq d);
            p = length (w_turns w);
            (terminal, d) = takeOrphanTerminalLocked d;
            e = user_entry turnID prompt now;
            d = add_thread_entry e (d\<lparr>d_currentTurn := Some p, d_status := ''running''\<rparr>);
            sends = (case terminal of None \<Rightarrow> [] | Some n \<Rightarrow> [n])
        in (Started p,
            spawn (map Op_Send sends @
                   [Op_Emit p (turn_event ''started'' turnID), Op_Turn_Hook ''started'' turnID,
                    Op_Await_Prompt p])
              (w\<lparr>w_driver := d, w_turns := w_turns w @ [new_turn turnID (d_delivery d = ''drop'')],
                 w_said := w_said w @ [e], w_bound := w_bound w @ sends\<rparr>)))"

definition closing_error :: "string \<Rightarrow> go_error" where
  "closing_error op' = runtime_error ErrorSessionClosed op' ''session closed during turn''"

text \<open>\<open>beginClose\<close> and the rest of \<open>Close\<close> and \<open>Delete\<close> (\<open>op'\<close> is \<open>session.close\<close> or \<open>session.delete\<close>).\<close>

definition beginClose :: "world \<Rightarrow> (nat option \<times> session_notification option) \<times> world" where
  "beginClose w =
     (let d = w_driver w in
      if d_status d = ''closed'' then ((None, None), w)
      else let (terminal, d') = takeOrphanTerminalLocked (d\<lparr>d_status := ''closed''\<rparr>) in
        ((d_currentTurn d, terminal), w\<lparr>w_driver := d'\<rparr>))"

definition CloseOrDelete :: "string \<Rightarrow> int \<Rightarrow> world \<Rightarrow> world" where
  "CloseOrDelete op' now w =
     (let ((active, terminal), w) = beginClose w;
          sends = (case terminal of None \<Rightarrow> [] | Some n \<Rightarrow> [n]);
          finish = (case active of None \<Rightarrow> []
            | Some p \<Rightarrow> [Op_Finish p \<lparr>fa_Completion = empty_completion, fa_Err = Some (closing_error op')\<rparr> now])
      in spawn (map Op_Send sends @ finish @ [Op_Await_Close op']) (w\<lparr>w_bound := w_bound w @ sends\<rparr>))"

definition CancelTurn :: "string \<Rightarrow> world \<Rightarrow> bool \<times> world" where
  "CancelTurn turnID w = (case d_currentTurn (w_driver w) of
     None \<Rightarrow> (False, w)
   | Some p \<Rightarrow>
       (let t = w_turns w ! p in
        if at_id t \<noteq> turnID then (False, w)
        else (True, spawn [Op_Cancel_Notify turnID] (set_turn p
               (if at_cancelTimer t = No_Timer then t\<lparr>at_cancelTimer := Timer_Armed\<rparr> else t) w))))"

definition cancelled_locally :: go_error where
  "cancelled_locally = runtime_error ErrorTurnCancelled ''session.cancel_turn''
     ''turn cancelled locally after agent did not stop''"

definition prompt_failure :: "go_error \<Rightarrow> go_error" where
  "prompt_failure err =
     (if is_closed_pipe err
      then wrapError ErrorProcess ''session/prompt''
        ''agent connection closed while the turn was in flight (agent process likely exited)'' (Some err)
      else err)"

section \<open>Actions\<close>

datatype prompt_reply = Prompt_Failed go_error | Prompt_Done string "usage option"

datatype action =
    Call_Start int runtime_prompt
  | Deliver update_env session_notification
  | Call_Close string int
  | Call_Cancel string
  | Fire_Timer nat int
  | Call_SetMode string
  | Call_SetOption string any
  | Permission_Request "string list" permission_request permission_decision
  | Step_Reader
  | Step_Thread nat
  | Advance nat
  | Prompt_Reply nat prompt_reply int
  | Cancel_Reply nat "go_error option"
  | Mode_Reply nat "go_error option"
  | Option_Reply nat "go_error + session_config_option list option"
  | Close_Reply nat "go_error option" "go_error option"
  | Recv_Event nat
  | Recv_Completion nat
  | Recv_Update

fun exec :: "(bytes \<Rightarrow> meta option option) \<Rightarrow> action \<Rightarrow> world \<Rightarrow> world option" where
  "exec dec (Call_Start now prompt) w = Some (snd (StartTurn now prompt w))"
| "exec dec (Deliver env n) w =
     (if w_reader w = [] then Some (handleSessionUpdate dec env n w) else None)"
| "exec dec (Call_Close op' now) w = Some (CloseOrDelete op' now w)"
| "exec dec (Call_Cancel turnID) w = Some (snd (CancelTurn turnID w))"
| "exec dec (Fire_Timer p now) w =
     (if p < length (w_turns w) \<and> at_cancelTimer (w_turns w ! p) = Timer_Armed
      then Some (spawn [Op_Finish p \<lparr>fa_Completion = empty_completion, fa_Err = Some cancelled_locally\<rparr> now]
                  (set_turn p ((w_turns w ! p)\<lparr>at_cancelTimer := Timer_Fired\<rparr>) w))
      else None)"
| "exec dec (Call_SetMode modeID) w =
     (let (_, d) = beginConfigChange (w_driver w) in
      Some (spawn [Op_Await_Mode modeID, Op_End_Config] (w\<lparr>w_driver := d\<rparr>)))"
| "exec dec (Call_SetOption key value) w =
     (let ((version, exclusive), d) = beginConfigChange (w_driver w) in
      Some (spawn [Op_Await_Option key value version exclusive, Op_End_Config] (w\<lparr>w_driver := d\<rparr>)))"
| "exec dec (Permission_Request order req decision) w =
     Some (w\<lparr>w_driver := recordPermission order req decision (w_driver w)\<rparr>)"
| "exec dec Step_Reader w = step_reader w"
| "exec dec (Step_Thread i) w = step_thread i w"
| "exec dec (Advance p) w = advance p w"
| "exec dec (Prompt_Reply i r now) w = (case waiting i w of
     Some (Op_Await_Prompt p) \<Rightarrow>
       (case r of
          Prompt_Failed err \<Rightarrow>
            Some (continue_with i [Op_Finish p \<lparr>fa_Completion = empty_completion,
                                                fa_Err = Some (prompt_failure err)\<rparr> now] w)
        | Prompt_Done stop use \<Rightarrow>
            if w_reader w = [] then Some (continue_with i [Op_Settle p stop use now] w) else None)
   | _ \<Rightarrow> None)"
| "exec dec (Cancel_Reply i err) w = (case waiting i w of
     Some (Op_Cancel_Notify turnID) \<Rightarrow>
       Some (continue_with i (if err = None then [Op_Turn_Hook ''cancelled'' turnID] else []) w)
   | _ \<Rightarrow> None)"
| "exec dec (Mode_Reply i err) w = (case waiting i w of
     Some (Op_Await_Mode modeID) \<Rightarrow>
       Some (continue_with i []
         (if err = None then w\<lparr>w_driver := mode_applied modeID (w_driver w)\<rparr> else w))
   | _ \<Rightarrow> None)"
| "exec dec (Option_Reply i r) w = (case waiting i w of
     Some (Op_Await_Option key value version exclusive) \<Rightarrow>
       Some (continue_with i [] (case r of
         Inl _ \<Rightarrow> w
       | Inr options \<Rightarrow>
           w\<lparr>w_driver := option_applied key value version exclusive options (w_driver w),
             w_options := (case options of None \<Rightarrow> w_options w
                           | Some os \<Rightarrow> map runtimeConfigOptionFromACP os)\<rparr>))
   | _ \<Rightarrow> None)"
| "exec dec (Close_Reply i deleteErr disposeErr) w = (case waiting i w of
     Some (Op_Await_Close op') \<Rightarrow>
       Some (continue_with i [] (w\<lparr>w_sessionHooks := w_sessionHooks w @
         [if op' = ''session.delete'' then (''deleted'', errors_join [deleteErr, disposeErr])
          else (''closed'', disposeErr)]\<rparr>))
   | _ \<Rightarrow> None)"
| "exec dec (Recv_Event p) w =
     (if p < length (w_turns w) \<and> at_events (w_turns w ! p) \<noteq> []
      then Some (set_turn p ((w_turns w ! p)\<lparr>at_events := tl (at_events (w_turns w ! p))\<rparr>) w) else None)"
| "exec dec (Recv_Completion p) w =
     (if p < length (w_turns w) \<and> at_completion (w_turns w ! p) \<noteq> []
      then Some (set_turn p ((w_turns w ! p)\<lparr>at_completion := tl (at_completion (w_turns w ! p))\<rparr>) w)
      else None)"
| "exec dec Recv_Update w =
     (if w_updates w \<noteq> [] then Some (w\<lparr>w_updates := tl (w_updates w)\<rparr>) else None)"

end
