(* ===== verification/Driver_Laws.thy ===== *)
theory Driver_Laws
  imports Session_Driver
begin

text \<open>
  Invariants of the session driver and what follows from them: a turn is finished once and its
  completion channel carries one result, at most one turn is in flight, the read model stays
  inside its caps and shows the most recent window, and configuration snapshots are trusted only
  when they are the provider's last word.
\<close>

section \<open>Frames\<close>

lemma replace_frame [simp]:
  "d_currentTurn (replaceConfigOptionsLocked os d) = d_currentTurn d"
  "d_status (replaceConfigOptionsLocked os d) = d_status d"
  "d_thread (replaceConfigOptionsLocked os d) = d_thread d"
  "d_maxThread (replaceConfigOptionsLocked os d) = d_maxThread d"
  "d_orphanID (replaceConfigOptionsLocked os d) = d_orphanID d"
  by (simp_all add: replaceConfigOptionsLocked_def Let_def)

lemma put_call_frame [simp]:
  "d_currentTurn (put_call env k s p d) = d_currentTurn d"
  "d_status (put_call env k s p d) = d_status d"
  "d_thread (put_call env k s p d) = d_thread d"
  "d_maxThread (put_call env k s p d) = d_maxThread d"
  "d_orphanID (put_call env k s p d) = d_orphanID d"
  "d_metadata (put_call env k s p d) = d_metadata d"
  "d_configOptionsCurrent (put_call env k s p d) = d_configOptionsCurrent d"
  "d_configChangesPending (put_call env k s p d) = d_configChangesPending d"
  by (simp_all add: put_call_def)

lemma tool_frame [simp]:
  "d_currentTurn (apply_tool_call dec env u d) = d_currentTurn d"
  "d_status (apply_tool_call dec env u d) = d_status d"
  "d_thread (apply_tool_call dec env u d) = d_thread d"
  "d_maxThread (apply_tool_call dec env u d) = d_maxThread d"
  "d_orphanID (apply_tool_call dec env u d) = d_orphanID d"
  "d_metadata (apply_tool_call dec env u d) = d_metadata d"
  "d_configOptionsCurrent (apply_tool_call dec env u d) = d_configOptionsCurrent d"
  "d_configChangesPending (apply_tool_call dec env u d) = d_configChangesPending d"
  "d_currentTurn (apply_tool_call_update env u d) = d_currentTurn d"
  "d_status (apply_tool_call_update env u d) = d_status d"
  "d_thread (apply_tool_call_update env u d) = d_thread d"
  "d_maxThread (apply_tool_call_update env u d) = d_maxThread d"
  "d_orphanID (apply_tool_call_update env u d) = d_orphanID d"
  "d_metadata (apply_tool_call_update env u d) = d_metadata d"
  "d_configOptionsCurrent (apply_tool_call_update env u d) = d_configOptionsCurrent d"
  "d_configChangesPending (apply_tool_call_update env u d) = d_configChangesPending d"
  by (simp_all add: apply_tool_call_put apply_tool_call_update_put Let_def)

lemma apply_update_frame [simp]:
  "d_currentTurn (apply_update dec env u d) = d_currentTurn d"
  "d_status (apply_update dec env u d) = d_status d"
  "d_thread (apply_update dec env u d) = d_thread d"
  "d_maxThread (apply_update dec env u d) = d_maxThread d"
  "d_orphanID (apply_update dec env u d) = d_orphanID d"
  "d_configChangesPending (apply_update dec env u d) = d_configChangesPending d"
  by (simp_all add: apply_update_def Let_def replaceConfigOptionsLocked_def)

lemma permission_frame [simp]:
  "d_currentTurn (recordPermission order req dec' d) = d_currentTurn d"
  "d_status (recordPermission order req dec' d) = d_status d"
  "d_thread (recordPermission order req dec' d) = d_thread d"
  "d_maxThread (recordPermission order req dec' d) = d_maxThread d"
  "d_orphanID (recordPermission order req dec' d) = d_orphanID d"
  "d_metadata (recordPermission order req dec' d) = d_metadata d"
  "d_configOptionsCurrent (recordPermission order req dec' d) = d_configOptionsCurrent d"
  "d_configChangesPending (recordPermission order req dec' d) = d_configChangesPending d"
  by (simp_all add: recordPermission_def Let_def)

lemma add_entry_frame [simp]:
  "d_currentTurn (add_thread_entry e d) = d_currentTurn d"
  "d_status (add_thread_entry e d) = d_status d"
  "d_maxThread (add_thread_entry e d) = d_maxThread d"
  "d_orphanID (add_thread_entry e d) = d_orphanID d"
  "d_metadata (add_thread_entry e d) = d_metadata d"
  "d_configOptionsCurrent (add_thread_entry e d) = d_configOptionsCurrent d"
  "d_configChangesPending (add_thread_entry e d) = d_configChangesPending d"
  by (simp_all add: add_thread_entry_def)

lemma config_frame [simp]:
  "d_currentTurn (snd (beginConfigChange d)) = d_currentTurn d"
  "d_status (snd (beginConfigChange d)) = d_status d"
  "d_thread (snd (beginConfigChange d)) = d_thread d"
  "d_maxThread (snd (beginConfigChange d)) = d_maxThread d"
  "d_orphanID (snd (beginConfigChange d)) = d_orphanID d"
  "d_currentTurn (endConfigChange d) = d_currentTurn d"
  "d_status (endConfigChange d) = d_status d"
  "d_thread (endConfigChange d) = d_thread d"
  "d_maxThread (endConfigChange d) = d_maxThread d"
  "d_orphanID (endConfigChange d) = d_orphanID d"
  "d_currentTurn (mode_applied m d) = d_currentTurn d"
  "d_status (mode_applied m d) = d_status d"
  "d_thread (mode_applied m d) = d_thread d"
  "d_maxThread (mode_applied m d) = d_maxThread d"
  "d_orphanID (mode_applied m d) = d_orphanID d"
  "d_currentTurn (option_applied k v ver ex os d) = d_currentTurn d"
  "d_status (option_applied k v ver ex os d) = d_status d"
  "d_thread (option_applied k v ver ex os d) = d_thread d"
  "d_maxThread (option_applied k v ver ex os d) = d_maxThread d"
  "d_orphanID (option_applied k v ver ex os d) = d_orphanID d"
  by (simp_all add: beginConfigChange_def endConfigChange_def mode_applied_def option_applied_def
      Let_def split: option.splits)

lemma take_frame [simp]:
  "d_currentTurn (snd (takeOrphanTerminalLocked d)) = d_currentTurn d"
  "d_status (snd (takeOrphanTerminalLocked d)) = d_status d"
  "d_thread (snd (takeOrphanTerminalLocked d)) = d_thread d"
  "d_maxThread (snd (takeOrphanTerminalLocked d)) = d_maxThread d"
  "d_metadata (snd (takeOrphanTerminalLocked d)) = d_metadata d"
  "d_configOptionsCurrent (snd (takeOrphanTerminalLocked d)) = d_configOptionsCurrent d"
  "d_configChangesPending (snd (takeOrphanTerminalLocked d)) = d_configChangesPending d"
  by (simp_all add: takeOrphanTerminalLocked_def)

lemma bind_driver_frame [simp]:
  "d_currentTurn (snd (snd (bindOrphanUpdate n d))) = d_currentTurn d"
  "d_status (snd (snd (bindOrphanUpdate n d))) = d_status d"
  "d_thread (snd (snd (bindOrphanUpdate n d))) = d_thread d"
  "d_maxThread (snd (snd (bindOrphanUpdate n d))) = d_maxThread d"
  "d_metadata (snd (snd (bindOrphanUpdate n d))) = d_metadata d"
  "d_configOptionsCurrent (snd (snd (bindOrphanUpdate n d))) = d_configOptionsCurrent d"
  "d_configChangesPending (snd (snd (bindOrphanUpdate n d))) = d_configChangesPending d"
  by (simp_all add: bindOrphanUpdate_def Let_def)

section \<open>Turns\<close>

fun phase_ok :: "once_state \<Rightarrow> bool \<Rightarrow> bool \<Rightarrow> nat \<Rightarrow> nat \<Rightarrow> bool" where
  "phase_ok Once_New ev co buffered sent = (\<not> ev \<and> \<not> co \<and> buffered = 0 \<and> sent = 0)"
| "phase_ok (Send_Completion a) ev co buffered sent = (\<not> ev \<and> \<not> co \<and> buffered = 0 \<and> sent = 0)"
| "phase_ok (Send_Terminal a) ev co buffered sent = (\<not> ev \<and> \<not> co \<and> sent = 1)"
| "phase_ok (Close_Events a) ev co buffered sent = (\<not> ev \<and> \<not> co \<and> sent = 1)"
| "phase_ok (Close_Completion a) ev co buffered sent = (ev \<and> \<not> co \<and> sent = 1)"
| "phase_ok (Finish_Hook a) ev co buffered sent = (ev \<and> co \<and> sent = 1)"
| "phase_ok Once_Done ev co buffered sent = (ev \<and> co \<and> sent = 1)"

definition turn_ok :: "active_turn \<Rightarrow> bool" where
  "turn_ok t \<longleftrightarrow> length (at_events t) \<le> events_cap \<and> length (at_completion t) \<le> completion_cap
     \<and> phase_ok (at_once t) (at_eventsClosed t) (at_completionClosed t)
         (length (at_completion t)) (length (at_results t))"

definition turns_inv :: "active_turn list \<Rightarrow> nat option \<Rightarrow> string \<Rightarrow> bool" where
  "turns_inv ts cur st \<longleftrightarrow> (\<forall>p<length ts. turn_ok (ts ! p))
     \<and> (\<forall>p<length ts. at_once (ts ! p) = Once_New \<longleftrightarrow> cur = Some p)
     \<and> (case cur of Some p \<Rightarrow> p < length ts | None \<Rightarrow> True)
     \<and> (st = ''closed'' \<or> (if cur = None then st = ''ready'' else st = ''running''))"

lemma nth_update: "xs[i := x] ! j = (if j = i \<and> i < length xs then x else xs ! j)"
  by (cases "i < length xs") (auto simp: nth_list_update list_update_beyond)

lemma turns_inv_update:
  assumes "turns_inv ts cur st" "turn_ok t" "at_once t = Once_New \<longleftrightarrow> at_once (ts ! p) = Once_New"
  shows "turns_inv (ts[p := t]) cur st"
  using assms unfolding turns_inv_def by (auto simp: nth_update split: option.splits)

lemma turns_inv_append:
  assumes "turns_inv ts None st" "st \<noteq> ''closed''"
  shows "turns_inv (ts @ [new_turn i b]) (Some (length ts)) ''running''"
  using assms by (auto simp: turns_inv_def nth_append turn_ok_def new_turn_def)

lemma turns_inv_finish:
  assumes "turns_inv ts cur st" "p < length ts" "at_once (ts ! p) = Once_New" "turn_ok t"
    "at_once t \<noteq> Once_New" "st' = (if st \<noteq> ''closed'' then ''ready'' else st)"
  shows "turns_inv (ts[p := t]) None st'"
  using assms by (auto simp: turns_inv_def nth_list_update)

lemma turns_inv_closed: "turns_inv ts cur st \<Longrightarrow> turns_inv ts cur ''closed''"
  by (simp add: turns_inv_def)

fun op_addr :: "op \<Rightarrow> nat option" where
  "op_addr (Op_Emit p _) = Some p"
| "op_addr (Op_Read_Tool p _) = Some p"
| "op_addr (Op_Await_Prompt p) = Some p"
| "op_addr (Op_Settle p _ _ _) = Some p"
| "op_addr (Op_Finish p _ _) = Some p"
| "op_addr (Op_Finish_Wait p) = Some p"
| "op_addr _ = None"

definition addr_ok :: "nat \<Rightarrow> op \<Rightarrow> bool" where
  "addr_ok n o' \<longleftrightarrow> (case op_addr o' of None \<Rightarrow> True | Some p \<Rightarrow> p < n)"

abbreviation turns_of :: "world \<Rightarrow> bool" where
  "turns_of w \<equiv> turns_inv (w_turns w) (d_currentTurn (w_driver w)) (d_status (w_driver w))"

definition addrs_inv :: "world \<Rightarrow> bool" where
  "addrs_inv w \<longleftrightarrow> list_all (addr_ok (length (w_turns w))) (w_reader w)
     \<and> list_all (list_all (addr_ok (length (w_turns w)))) (w_threads w)"

definition driver_inv :: "world \<Rightarrow> bool" where
  "driver_inv w \<longleftrightarrow> turns_of w \<and> addrs_inv w"

lemma addr_ok_mono: "addr_ok n o' \<Longrightarrow> n \<le> m \<Longrightarrow> addr_ok m o'"
  by (auto simp: addr_ok_def split: option.splits)

lemma set_turn_simps [simp]:
  "w_driver (set_turn p t w) = w_driver w" "w_reader (set_turn p t w) = w_reader w"
  "w_threads (set_turn p t w) = w_threads w" "w_panic (set_turn p t w) = w_panic w"
  "w_said (set_turn p t w) = w_said w" "w_bound (set_turn p t w) = w_bound w"
  "w_options (set_turn p t w) = w_options w"
  "w_turns (set_turn p t w) = (w_turns w)[p := t]"
  by (simp_all add: set_turn_def)

lemma turn_ok_at: "turns_of w \<Longrightarrow> p < length (w_turns w) \<Longrightarrow> turn_ok (w_turns w ! p)"
  by (simp add: turns_inv_def)

lemma emit_turns:
  assumes "turns_of w" "p < length (w_turns w)"
  shows "turns_of (emitTurnEvent p e w)"
proof -
  have "turn_ok (w_turns w ! p)" using turn_ok_at assms by blast
  then have "length (at_events (w_turns w ! p)) < 64 \<Longrightarrow>
      turn_ok ((w_turns w ! p)\<lparr>at_events := at_events (w_turns w ! p) @ [e]\<rparr>)"
    by (simp add: turn_ok_def)
  then show ?thesis using assms by (auto simp: emitTurnEvent_def Let_def intro: turns_inv_update)
qed

lemma emit_frame [simp]:
  "w_driver (emitTurnEvent p e w) = w_driver w" "w_reader (emitTurnEvent p e w) = w_reader w"
  "w_threads (emitTurnEvent p e w) = w_threads w" "length (w_turns (emitTurnEvent p e w)) = length (w_turns w)"
  "w_said (emitTurnEvent p e w) = w_said w" "w_bound (emitTurnEvent p e w) = w_bound w"
  "w_options (emitTurnEvent p e w) = w_options w"
  by (simp_all add: emitTurnEvent_def Let_def)

lemma send_frame [simp]:
  "w_driver (sendOrphanUpdate n w) = w_driver w" "w_reader (sendOrphanUpdate n w) = w_reader w"
  "w_threads (sendOrphanUpdate n w) = w_threads w" "w_turns (sendOrphanUpdate n w) = w_turns w"
  "w_said (sendOrphanUpdate n w) = w_said w" "w_bound (sendOrphanUpdate n w) = w_bound w"
  "w_options (sendOrphanUpdate n w) = w_options w" "w_panic (sendOrphanUpdate n w) = w_panic w"
  by (simp_all add: sendOrphanUpdate_def)

lemma finish_locked_simps [simp]:
  "w_reader (finish_locked p a now w) = w_reader w"
  "w_threads (finish_locked p a now w) = w_threads w"
  "w_panic (finish_locked p a now w) = w_panic w"
  "w_bound (finish_locked p a now w) = w_bound w"
  "w_options (finish_locked p a now w) = w_options w"
  "w_turns (finish_locked p a now w) =
     (w_turns w)[p := (w_turns w ! p)\<lparr>at_cancelTimer := No_Timer, at_once := Send_Completion a\<rparr>]"
  by (simp_all add: finish_locked_def Let_def)

lemma finish_locked_driver [simp]:
  "d_currentTurn (w_driver (finish_locked p a now w)) =
     (if d_currentTurn (w_driver w) = Some p then None else d_currentTurn (w_driver w))"
  "d_status (w_driver (finish_locked p a now w)) =
     (if d_currentTurn (w_driver w) = Some p \<and> d_status (w_driver w) \<noteq> ''closed'' then ''ready''
      else d_status (w_driver w))"
  "d_metadata (w_driver (finish_locked p a now w)) = d_metadata (w_driver w)"
  "d_orphanID (w_driver (finish_locked p a now w)) = d_orphanID (w_driver w)"
  "d_maxThread (w_driver (finish_locked p a now w)) = d_maxThread (w_driver w)"
  "d_configOptionsCurrent (w_driver (finish_locked p a now w)) = d_configOptionsCurrent (w_driver w)"
  "d_configChangesPending (w_driver (finish_locked p a now w)) = d_configChangesPending (w_driver w)"
  by (simp_all add: finish_locked_def Let_def)

lemma finish_locked_turns:
  assumes "turns_of w" "p < length (w_turns w)" "at_once (w_turns w ! p) = Once_New"
  shows "turns_of (finish_locked p a now w)"
proof -
  have cur: "d_currentTurn (w_driver w) = Some p" using assms by (auto simp: turns_inv_def)
  have "turn_ok (w_turns w ! p)" using turn_ok_at assms by blast
  then have ok: "turn_ok ((w_turns w ! p)\<lparr>at_cancelTimer := No_Timer, at_once := Send_Completion a\<rparr>)"
    using assms(3) by (simp add: turn_ok_def)
  show ?thesis
    using turns_inv_finish [OF assms ok] cur by simp
qed

lemma op_step_turns:
  assumes "turns_of w" "addr_ok (length (w_turns w)) o'" "op_step o' w = Some (next_ops, w')"
  shows "turns_of w' \<and> length (w_turns w') = length (w_turns w)
    \<and> list_all (addr_ok (length (w_turns w))) next_ops
    \<and> w_reader w' = w_reader w \<and> w_threads w' = w_threads w"
proof (cases o')
  case (Op_Emit p e)
  then show ?thesis using assms emit_turns by (auto simp: op_step_def addr_ok_def)
next
  case (Op_Bind n)
  obtain n' previous d where b: "bindOrphanUpdate n (w_driver w) = (n', previous, d)"
    by (metis prod_cases3)
  have "d_currentTurn d = d_currentTurn (w_driver w)" "d_status d = d_status (w_driver w)"
    using bind_driver_frame(1,2) [of n "w_driver w"] unfolding b by simp_all
  then show ?thesis using assms Op_Bind b by (auto simp: op_step_def addr_ok_def list_all_iff)
next
  case (Op_Finish p a now)
  then show ?thesis using assms finish_locked_turns by (auto simp: op_step_def addr_ok_def)
qed (use assms in \<open>auto simp: op_step_def addr_ok_def Let_def split: if_splits\<close>)

lemma driver_invI:
  assumes "driver_inv w" "w_turns w' = w_turns w" "w_reader w' = w_reader w" "w_threads w' = w_threads w"
    "d_currentTurn (w_driver w') = d_currentTurn (w_driver w)" "d_status (w_driver w') = d_status (w_driver w)"
  shows "driver_inv w'"
  using assms by (simp add: driver_inv_def addrs_inv_def)

lemma step_reader_inv:
  assumes "driver_inv w" "step_reader w = Some w'"
  shows "driver_inv w'"
proof -
  obtain o' ops next_ops v where r: "w_reader w = o' # ops" "op_step o' w = Some (next_ops, v)"
    "w' = v\<lparr>w_reader := next_ops @ ops\<rparr>"
    using assms(2) by (auto simp: step_reader_def split: list.splits)
  show ?thesis
    using op_step_turns [OF _ _ r(2)] assms(1) r by (auto simp: driver_inv_def addrs_inv_def)
qed

lemma list_all_update: "list_all P xs \<Longrightarrow> P x \<Longrightarrow> list_all P (xs[i := x])"
  using set_update_subset_insert [of xs i x] by (auto simp: list_all_iff)

lemma step_thread_inv:
  assumes "driver_inv w" "step_thread i w = Some w'"
  shows "driver_inv w'"
proof -
  obtain o' ops next_ops v where r: "i < length (w_threads w)" "w_threads w ! i = o' # ops"
    "op_step o' w = Some (next_ops, v)" "w' = v\<lparr>w_threads := (w_threads v)[i := next_ops @ ops]\<rparr>"
    using assms(2) by (auto simp: step_thread_def split: list.splits if_splits)
  have all: "list_all (addr_ok (length (w_turns w))) (o' # ops)"
    using assms(1) r(1,2) by (metis addrs_inv_def driver_inv_def list_all_length)
  note S = op_step_turns [OF _ _ r(3)]
  show ?thesis
    using S assms(1) r(4) all
    by (auto simp: driver_inv_def addrs_inv_def intro!: list_all_update)
qed

lemma advance_inv:
  assumes "driver_inv w" "advance p w = Some w'"
  shows "driver_inv w' \<and> w_panic w' = w_panic w"
proof -
  let ?t = "w_turns w ! p"
  have p: "p < length (w_turns w)" using assms(2) by (auto simp: advance_def split: if_splits)
  have ok: "turn_ok ?t" using turn_ok_at p assms(1) by (simp add: driver_inv_def)
  have upd: "driver_inv (set_turn p t w)" if "turn_ok t" "at_once t \<noteq> Once_New" "at_once ?t \<noteq> Once_New" for t
    using assms(1) that turns_inv_update [of "w_turns w" _ _ t p] by (simp add: driver_inv_def addrs_inv_def)
  have hook: "driver_inv (v\<lparr>w_turnHooks := h\<rparr>)" if "driver_inv v" for v h
    using that by (simp add: driver_inv_def addrs_inv_def)
  show ?thesis
  proof (cases "at_once ?t")
    case (Send_Completion a)
    then have "\<not> at_completionClosed ?t" "at_completion ?t = []" "at_results ?t = []"
      using ok by (simp_all add: turn_ok_def)
    then show ?thesis using assms(2) p Send_Completion ok
      by (auto simp: advance_def Let_def turn_ok_def intro!: upd)
  next
    case (Send_Terminal a)
    then have "\<not> at_eventsClosed ?t" using ok by (simp add: turn_ok_def)
    then show ?thesis using assms(2) p Send_Terminal ok
      by (auto simp: advance_def Let_def turn_ok_def split: if_splits intro!: upd)
  next
    case (Close_Events a)
    then show ?thesis using assms(2) p ok
      by (auto simp: advance_def Let_def turn_ok_def intro!: upd)
  next
    case (Close_Completion a)
    then show ?thesis using assms(2) p ok
      by (auto simp: advance_def Let_def turn_ok_def intro!: upd)
  next
    case (Finish_Hook a)
    then show ?thesis using assms(2) p ok
      by (auto simp: advance_def Let_def turn_ok_def intro!: hook upd)
  qed (use assms(2) p in \<open>auto simp: advance_def\<close>)
qed

section \<open>Every action keeps the invariant\<close>

lemma spawn_simps [simp]:
  "w_driver (spawn ops w) = w_driver w" "w_turns (spawn ops w) = w_turns w"
  "w_reader (spawn ops w) = w_reader w" "w_threads (spawn ops w) = w_threads w @ [ops]"
  "w_panic (spawn ops w) = w_panic w" "w_said (spawn ops w) = w_said w"
  "w_bound (spawn ops w) = w_bound w" "w_options (spawn ops w) = w_options w"
  by (simp_all add: spawn_def)

lemma continue_simps [simp]:
  "w_driver (continue_with i ops w) = w_driver w" "w_turns (continue_with i ops w) = w_turns w"
  "w_reader (continue_with i ops w) = w_reader w"
  "w_threads (continue_with i ops w) = (w_threads w)[i := ops @ tl (w_threads w ! i)]"
  "w_panic (continue_with i ops w) = w_panic w" "w_said (continue_with i ops w) = w_said w"
  "w_bound (continue_with i ops w) = w_bound w" "w_options (continue_with i ops w) = w_options w"
  by (simp_all add: continue_with_def)

lemma spawn_inv:
  assumes "driver_inv w" "list_all (addr_ok (length (w_turns w))) ops"
  shows "driver_inv (spawn ops w)"
  using assms by (simp add: driver_inv_def addrs_inv_def)

lemma waiting_cong: "w_threads w' = w_threads w \<Longrightarrow> waiting i w' = waiting i w"
  by (simp add: waiting_def)

lemma waiting_SomeD: "waiting i w = Some o' \<Longrightarrow> i < length (w_threads w) \<and> (\<exists>ops. w_threads w ! i = o' # ops)"
  by (auto simp: waiting_def split: if_splits list.splits)

lemma continue_inv:
  assumes "driver_inv w" "waiting i w = Some o'" "list_all (addr_ok (length (w_turns w))) ops"
  shows "driver_inv (continue_with i ops w)"
proof -
  obtain rest where i: "i < length (w_threads w)" "w_threads w ! i = o' # rest"
    using waiting_SomeD [OF assms(2)] by blast
  then have "list_all (addr_ok (length (w_turns w))) (o' # rest)"
    using assms(1) by (metis addrs_inv_def driver_inv_def list_all_length)
  then show ?thesis
    using assms(1,3) i by (auto simp: driver_inv_def addrs_inv_def intro!: list_all_update)
qed

lemma waiting_addr:
  assumes "driver_inv w" "waiting i w = Some o'"
  shows "addr_ok (length (w_turns w)) o'"
proof -
  obtain rest where i: "i < length (w_threads w)" "w_threads w ! i = o' # rest"
    using waiting_SomeD [OF assms(2)] by blast
  then have "list_all (addr_ok (length (w_turns w))) (o' # rest)"
    using assms(1) by (metis addrs_inv_def driver_inv_def list_all_length)
  then show ?thesis by simp
qed

lemma set_turn_inv:
  assumes "driver_inv w" "turn_ok t" "at_once t = Once_New \<longleftrightarrow> at_once (w_turns w ! p) = Once_New"
  shows "driver_inv (set_turn p t w)"
  using assms turns_inv_update by (simp add: driver_inv_def addrs_inv_def)

lemma turn_ok_frame:
  "turn_ok (t\<lparr>at_cancelTimer := c\<rparr>) = turn_ok t"
  "turn_ok (t\<lparr>at_outputText := x\<rparr>) = turn_ok t"
  by (simp_all add: turn_ok_def)

lemma current_turn_bound:
  "driver_inv w \<Longrightarrow> d_currentTurn (w_driver w) = Some p \<Longrightarrow> p < length (w_turns w)"
  by (simp add: driver_inv_def turns_inv_def)

lemma driver_turn_ok: "driver_inv w \<Longrightarrow> p < length (w_turns w) \<Longrightarrow> turn_ok (w_turns w ! p)"
  by (simp add: driver_inv_def turn_ok_at)

lemma after_update_addr: "p < n \<Longrightarrow> list_all (addr_ok n) (after_update p t u)"
  by (simp add: after_update_def Let_def addr_ok_def)

lemma reader_inv:
  "driver_inv w \<Longrightarrow> list_all (addr_ok (length (w_turns w))) ops \<Longrightarrow> driver_inv (w\<lparr>w_reader := ops\<rparr>)"
  by (simp add: driver_inv_def addrs_inv_def)

lemma deliver_inv:
  assumes "driver_inv w"
  shows "driver_inv (handleSessionUpdate dec env n w)"
proof (cases "sn_SessionID n \<noteq> [] \<and> sn_SessionID n \<noteq> d_sessionID (w_driver w)")
  case True
  then show ?thesis using assms by (simp add: handleSessionUpdate_def)
next
  case False
  let ?u = "sn_Update n"
  define w1 where "w1 = w\<lparr>w_driver := apply_update dec env ?u (w_driver w),
      w_options := (if su_SessionUpdate ?u = ''config_option_update''
                    then map runtimeConfigOptionFromACP (su_ConfigOptions ?u) else w_options w)\<rparr>"
  have w1: "driver_inv w1" by (rule driver_invI [OF assms]) (simp_all add: w1_def)
  show ?thesis
  proof (cases "d_currentTurn (w_driver w)")
    case None
    then have "handleSessionUpdate dec env n w = w1\<lparr>w_reader := [Op_Bind n]\<rparr>"
      unfolding handleSessionUpdate_def Let_def if_not_P [OF False] by (simp add: w1_def)
    then show ?thesis using reader_inv [OF w1] by (simp add: addr_ok_def)
  next
    case (Some p)
    let ?t = "w_turns w ! p"
    define w2 where "w2 = (if is_text_update (su_SessionUpdate ?u)
        then set_turn p (?t\<lparr>at_outputText := at_outputText ?t @ sessionUpdateText ?u\<rparr>) w1 else w1)"
    have p: "p < length (w_turns w)" using current_turn_bound [OF assms Some] .
    have ok: "turn_ok ?t" using driver_turn_ok [OF assms p] .
    have t1: "w_turns w1 = w_turns w" by (simp add: w1_def)
    have w2: "driver_inv w2"
      using w1 ok t1 by (auto simp: w2_def turn_ok_frame intro!: set_turn_inv)
    have len: "length (w_turns w2) = length (w_turns w)" by (simp add: w2_def t1)
    have "handleSessionUpdate dec env n w =
        w2\<lparr>w_reader := (if at_dropIntermediate ?t then [] else after_update p ?t ?u)\<rparr>"
      unfolding handleSessionUpdate_def Let_def if_not_P [OF False] using Some
      by (simp add: w1_def w2_def)
    then show ?thesis using reader_inv [OF w2] after_update_addr [OF p] len by simp
  qed
qed

lemma start_inv:
  assumes "driver_inv w"
  shows "driver_inv (snd (StartTurn now prompt w))"
proof -
  let ?d = "w_driver w"
  consider "d_status ?d = ''closed''" | "d_status ?d \<noteq> ''closed''" "d_currentTurn ?d \<noteq> None"
    | "d_status ?d \<noteq> ''closed''" "d_currentTurn ?d = None" by blast
  then show ?thesis
  proof cases
    case 1
    then show ?thesis using assms by (simp add: StartTurn_def)
  next
    case 2
    then show ?thesis using assms by (auto simp: StartTurn_def intro!: driver_invI [OF assms])
  next
    case 3
    let ?d1 = "?d\<lparr>d_turnSeq := Suc (d_turnSeq ?d)\<rparr>"
    let ?id = "''turn-'' @ nat_decimal (d_turnSeq ?d1)"
    obtain terminal d2 where t: "takeOrphanTerminalLocked ?d1 = (terminal, d2)" by (metis surj_pair)
    let ?sends = "case terminal of None \<Rightarrow> [] | Some n \<Rightarrow> [n]"
    let ?e = "user_entry ?id prompt now"
    let ?p = "length (w_turns w)"
    define d3 where "d3 = add_thread_entry ?e (d2\<lparr>d_currentTurn := Some ?p, d_status := ''running''\<rparr>)"
    define v where "v = w\<lparr>w_driver := d3, w_turns := w_turns w @ [new_turn ?id (d_delivery d3 = ''drop'')],
        w_said := w_said w @ [?e], w_bound := w_bound w @ ?sends\<rparr>"
    have eq: "snd (StartTurn now prompt w) = spawn (map Op_Send ?sends @
        [Op_Emit ?p (turn_event ''started'' ?id), Op_Turn_Hook ''started'' ?id, Op_Await_Prompt ?p]) v"
      using 3 t by (simp add: StartTurn_def Let_def d3_def v_def)
    have "turns_of v"
      using assms 3 turns_inv_append [of "w_turns w" "d_status ?d" ?id] by (simp add: v_def d3_def driver_inv_def)
    moreover have "addrs_inv v"
      using assms by (auto simp: v_def driver_inv_def addrs_inv_def list_all_iff
          intro: addr_ok_mono [of "length (w_turns w)" _ "Suc (length (w_turns w))"])
    ultimately have "driver_inv v" by (simp add: driver_inv_def)
    then show ?thesis unfolding eq
      by (rule spawn_inv) (simp add: v_def addr_ok_def list_all_iff)
  qed
qed

lemma beginClose_inv:
  assumes "driver_inv w" "beginClose w = ((active, terminal), w')"
  shows "driver_inv w' \<and> (case active of None \<Rightarrow> True | Some p \<Rightarrow> p < length (w_turns w'))"
proof (cases "d_status (w_driver w) = ''closed''")
  case True
  then show ?thesis using assms by (auto simp: beginClose_def)
next
  case False
  let ?d = "(w_driver w)\<lparr>d_status := ''closed''\<rparr>"
  have w': "w' = w\<lparr>w_driver := snd (takeOrphanTerminalLocked ?d)\<rparr>" "active = d_currentTurn (w_driver w)"
    using assms(2) False by (auto simp: beginClose_def Let_def split: prod.splits)
  have "turns_inv (w_turns w) (d_currentTurn (w_driver w)) ''closed''"
    using assms(1) turns_inv_closed unfolding driver_inv_def by blast
  then have "driver_inv w'"
    using assms(1) by (simp add: w'(1) driver_inv_def addrs_inv_def)
  moreover have "p < length (w_turns w')" if "active = Some p" for p
    using current_turn_bound [OF assms(1)] that w' by simp
  ultimately show ?thesis by (simp split: option.split)
qed

lemma close_inv:
  assumes "driver_inv w"
  shows "driver_inv (CloseOrDelete op' now w)"
proof -
  obtain active terminal w' where b: "beginClose w = ((active, terminal), w')" by (metis surj_pair)
  note B = beginClose_inv [OF assms b]
  have "driver_inv (w'\<lparr>w_bound := x\<rparr>)" for x by (rule driver_invI [of w']) (use B in simp_all)
  then show ?thesis
    using B b by (auto simp: CloseOrDelete_def Let_def addr_ok_def list_all_iff intro!: spawn_inv
        split: option.splits)
qed

lemma cancel_inv:
  assumes "driver_inv w"
  shows "driver_inv (snd (CancelTurn turnID w))"
proof (cases "d_currentTurn (w_driver w)")
  case (Some p)
  let ?t = "w_turns w ! p"
  have p: "p < length (w_turns w)" using current_turn_bound [OF assms Some] .
  have ok: "turn_ok ?t" using driver_turn_ok [OF assms p] .
  let ?t' = "if at_cancelTimer ?t = No_Timer then ?t\<lparr>at_cancelTimer := Timer_Armed\<rparr> else ?t"
  have "driver_inv (set_turn p ?t' w)"
    by (rule set_turn_inv [OF assms]) (use ok in \<open>simp_all add: turn_ok_frame\<close>)
  then have "driver_inv (spawn [Op_Cancel_Notify turnID] (set_turn p ?t' w))"
    by (rule spawn_inv) (simp add: addr_ok_def)
  then show ?thesis using assms Some unfolding CancelTurn_def by (simp add: Let_def)
qed (use assms in \<open>simp add: CancelTurn_def\<close>)

lemma prompt_reply_inv:
  assumes "driver_inv w" "exec dec (Prompt_Reply i r now) w = Some w'"
  shows "driver_inv w'"
proof -
  obtain p where p: "waiting i w = Some (Op_Await_Prompt p)"
    using assms(2) by (auto split: option.splits op.splits)
  have "addr_ok (length (w_turns w)) (Op_Await_Prompt p)" using waiting_addr [OF assms(1) p] .
  then have "list_all (addr_ok (length (w_turns w))) [Op_Finish p a now]"
    "list_all (addr_ok (length (w_turns w))) [Op_Settle p stop use now]" for a stop use
    by (simp_all add: addr_ok_def)
  note C = this [THEN continue_inv [OF assms(1) p]]
  show ?thesis using assms(2) p C by (auto split: prompt_reply.splits if_splits)
qed

lemma exec_inv:
  assumes "driver_inv w" "exec dec a w = Some w'"
  shows "driver_inv w'"
proof (cases a)
  case (Call_Start now prompt)
  then show ?thesis using assms start_inv by auto
next
  case (Deliver env n)
  then show ?thesis using assms deliver_inv by (auto split: if_splits)
next
  case (Call_Close op' now)
  then show ?thesis using assms close_inv by auto
next
  case (Call_Cancel turnID)
  then show ?thesis using assms cancel_inv by auto
next
  case (Fire_Timer p now)
  let ?t = "(w_turns w ! p)\<lparr>at_cancelTimer := Timer_Fired\<rparr>"
  have p: "p < length (w_turns w)" and w': "w' = spawn [Op_Finish p \<lparr>fa_Completion = empty_completion,
      fa_Err = Some cancelled_locally\<rparr> now] (set_turn p ?t w)"
    using assms(2) Fire_Timer by (auto split: if_splits)
  have "driver_inv (set_turn p ?t w)"
    by (rule set_turn_inv [OF assms(1)]) (use driver_turn_ok [OF assms(1) p] in \<open>simp_all add: turn_ok_frame\<close>)
  then show ?thesis unfolding w' by (rule spawn_inv) (simp add: addr_ok_def p)
next
  case (Call_SetMode modeID)
  have "driver_inv (w\<lparr>w_driver := snd (beginConfigChange (w_driver w))\<rparr>)"
    by (rule driver_invI [OF assms(1)]) simp_all
  then have "driver_inv (spawn [Op_Await_Mode modeID, Op_End_Config]
      (w\<lparr>w_driver := snd (beginConfigChange (w_driver w))\<rparr>))"
    by (rule spawn_inv) (simp add: addr_ok_def)
  then show ?thesis using assms(2) Call_SetMode by (auto split: prod.splits)
next
  case (Call_SetOption key val)
  have "driver_inv (w\<lparr>w_driver := snd (beginConfigChange (w_driver w))\<rparr>)"
    by (rule driver_invI [OF assms(1)]) simp_all
  then have "driver_inv (spawn [Op_Await_Option key val v x, Op_End_Config]
      (w\<lparr>w_driver := snd (beginConfigChange (w_driver w))\<rparr>))" for v x
    by (rule spawn_inv) (simp add: addr_ok_def)
  then show ?thesis using assms(2) Call_SetOption by (auto split: prod.splits)
next
  case (Permission_Request order req decision)
  have "driver_inv (w\<lparr>w_driver := recordPermission order req decision (w_driver w)\<rparr>)"
    by (rule driver_invI [OF assms(1)]) simp_all
  then show ?thesis using assms(2) Permission_Request by auto
next
  case Step_Reader
  then show ?thesis using assms step_reader_inv by auto
next
  case (Step_Thread i)
  then show ?thesis using assms step_thread_inv by auto
next
  case (Advance p)
  then show ?thesis using assms advance_inv by auto
next
  case (Prompt_Reply i r now)
  then show ?thesis using assms prompt_reply_inv by blast
next
  case (Cancel_Reply i err)
  then obtain t where t: "waiting i w = Some (Op_Cancel_Notify t)"
    "w' = continue_with i (if err = None then [Op_Turn_Hook ''cancelled'' t] else []) w"
    using assms(2) by (auto split: option.splits op.splits)
  then show ?thesis using continue_inv [OF assms(1) t(1)] by (simp add: addr_ok_def)
next
  case (Mode_Reply i err)
  then obtain m where m: "waiting i w = Some (Op_Await_Mode m)"
    "w' = continue_with i [] (if err = None then w\<lparr>w_driver := mode_applied m (w_driver w)\<rparr> else w)"
    using assms(2) by (auto split: option.splits op.splits)
  let ?v = "if err = None then w\<lparr>w_driver := mode_applied m (w_driver w)\<rparr> else w"
  have "driver_inv ?v" by (rule driver_invI [OF assms(1)]) simp_all
  moreover have "waiting i ?v = Some (Op_Await_Mode m)" using m(1) waiting_cong [of ?v w i] by simp
  ultimately show ?thesis unfolding m(2) by (rule continue_inv) simp
next
  case (Option_Reply i r)
  then obtain k v ver ex where k: "waiting i w = Some (Op_Await_Option k v ver ex)"
    using assms(2) by (auto split: option.splits op.splits)
  define u where "u = (case r of Inl _ \<Rightarrow> w | Inr options \<Rightarrow>
      w\<lparr>w_driver := option_applied k v ver ex options (w_driver w),
        w_options := (case options of None \<Rightarrow> w_options w | Some os \<Rightarrow> map runtimeConfigOptionFromACP os)\<rparr>)"
  have w': "w' = continue_with i [] u" using assms(2) Option_Reply k by (simp add: u_def)
  have "driver_inv u" by (rule driver_invI [OF assms(1)]) (auto simp: u_def split: sum.splits)
  moreover have "waiting i u = Some (Op_Await_Option k v ver ex)"
    using k waiting_cong [of u w i] by (simp add: u_def split: sum.splits)
  ultimately show ?thesis unfolding w' by (rule continue_inv) simp
next
  case (Close_Reply i deleteErr disposeErr)
  then obtain q where q: "waiting i w = Some (Op_Await_Close q)"
    using assms(2) by (auto split: option.splits op.splits)
  obtain h where w': "w' = continue_with i [] (w\<lparr>w_sessionHooks := h\<rparr>)"
    using assms(2) Close_Reply q by (auto dest: sym)
  have "driver_inv (w\<lparr>w_sessionHooks := h\<rparr>)" by (rule driver_invI [OF assms(1)]) simp_all
  moreover have "waiting i (w\<lparr>w_sessionHooks := h\<rparr>) = Some (Op_Await_Close q)"
    using q waiting_cong [of "w\<lparr>w_sessionHooks := h\<rparr>" w i] by simp
  ultimately show ?thesis unfolding w' by (rule continue_inv) simp
next
  case (Recv_Event p)
  then have p: "p < length (w_turns w)" and w': "w' = set_turn p ((w_turns w ! p)\<lparr>at_events := tl (at_events (w_turns w ! p))\<rparr>) w"
    using assms(2) by (auto split: if_splits)
  show ?thesis unfolding w'
    by (rule set_turn_inv [OF assms(1)]) (use driver_turn_ok [OF assms(1) p] in \<open>auto simp: turn_ok_def\<close>)
next
  case (Recv_Completion p)
  then have p: "p < length (w_turns w)" "at_completion (w_turns w ! p) \<noteq> []"
    and w': "w' = set_turn p ((w_turns w ! p)\<lparr>at_completion := tl (at_completion (w_turns w ! p))\<rparr>) w"
    using assms(2) by (auto split: if_splits)
  have ok: "turn_ok (w_turns w ! p)" using driver_turn_ok [OF assms(1) p(1)] .
  then have "turn_ok ((w_turns w ! p)\<lparr>at_completion := tl (at_completion (w_turns w ! p))\<rparr>)"
    using p(2) by (cases "at_once (w_turns w ! p)") (auto simp: turn_ok_def)
  then show ?thesis unfolding w' by (intro set_turn_inv [OF assms(1)]) simp_all
next
  case Recv_Update
  then have "w' = w\<lparr>w_updates := tl (w_updates w)\<rparr>" using assms(2) by (auto split: if_splits)
  then show ?thesis by (auto intro: driver_invI [OF assms(1)])
qed

lemma initial_inv: "driver_inv (initial_world (newACPSessionDriver b))"
  by (simp add: driver_inv_def addrs_inv_def initial_world_def newACPSessionDriver_def turns_inv_def Let_def
      resolveReadModelLimits_def)

interpretation driver: step_invariant "exec dec" driver_inv
  by unfold_locales (rule exec_inv)

end
