(* ===== verification/Driver_Model.thy ===== *)
theory Driver_Model
  imports Driver_Laws
begin

text \<open>
  The read model over whole runs. Every action of the driver changes the model's fields in one of
  four ways (\<open>effect\<close>); the locale \<open>model_contract\<close> turns a predicate kept by these into one that
  holds in every reachable world. It is interpreted by the caps and tables of Read_Model_Laws and
  by the refinement of the thread to a window of everything said.
\<close>

section \<open>What an action does to the model\<close>

inductive effect :: "acp_driver \<Rightarrow> thread_entry list \<Rightarrow> acp_driver \<Rightarrow> thread_entry list \<Rightarrow> bool" where
  effect_frame: "same_model d d' \<Longrightarrow> effect d s d' s"
| effect_update: "effect d s (apply_update dec env u d) s"
| effect_permission: "effect d s (recordPermission order req decision d) s"
| effect_say: "same_model d d1 \<Longrightarrow> same_model (add_thread_entry e d1) d' \<Longrightarrow> effect d s d' (s @ [e])"

lemma same_model_refl [simp]: "same_model d d"
  by (simp add: same_model_def)

lemma same_model_ops:
  "same_model d (snd (beginConfigChange d))"
  "same_model d (endConfigChange d)"
  "same_model d (mode_applied m d)"
  "same_model d (option_applied k v ver ex os d)"
  "same_model d (snd (takeOrphanTerminalLocked d))"
  "same_model d (snd (snd (bindOrphanUpdate n d)))"
  by (simp_all add: same_model_def beginConfigChange_def endConfigChange_def mode_applied_def
      option_applied_def replaceConfigOptionsLocked_def takeOrphanTerminalLocked_def
      bindOrphanUpdate_def Let_def split: option.splits)

lemma same_model_status:
  "same_model d (d\<lparr>d_status := x\<rparr>)" "same_model d (d\<lparr>d_currentTurn := y\<rparr>)"
  "same_model d (d\<lparr>d_turnSeq := z\<rparr>)"
  by (simp_all add: same_model_def)

lemma same_model_trans: "same_model d e \<Longrightarrow> same_model e f \<Longrightarrow> same_model d f"
  by (simp add: same_model_def)

abbreviation effect_of :: "world \<Rightarrow> world \<Rightarrow> bool" where
  "effect_of w w' \<equiv> effect (w_driver w) (w_said w) (w_driver w') (w_said w')"

lemma effect_same: "w_driver w' = w_driver w \<Longrightarrow> w_said w' = w_said w \<Longrightarrow> effect_of w w'"
  by (simp add: effect_frame)

lemma finish_locked_effect: "effect_of w (finish_locked p a now w)"
proof -
  let ?d = "w_driver w"
  let ?d1 = "if d_currentTurn ?d = Some p
     then (let d = ?d\<lparr>d_currentTurn := None\<rparr> in if d_status d \<noteq> ''closed'' then d\<lparr>d_status := ''ready''\<rparr> else d)
     else ?d"
  let ?e = "assistant_entry (w_turns w ! p) (fa_Completion a) now"
  have s: "same_model ?d ?d1" by (simp add: same_model_def Let_def)
  show ?thesis
  proof (cases "fa_Err a")
    case None
    then have "w_driver (finish_locked p a now w) = add_thread_entry ?e ?d1"
      "w_said (finish_locked p a now w) = w_said w @ [?e]"
      by (simp_all add: finish_locked_def Let_def)
    then show ?thesis using effect_say [OF s, of ?e] by simp
  next
    case (Some err)
    then have "w_driver (finish_locked p a now w) = ?d1" "w_said (finish_locked p a now w) = w_said w"
      by (simp_all add: finish_locked_def Let_def)
    then show ?thesis using effect_frame [OF s] by simp
  qed
qed

lemma op_step_effect:
  assumes "op_step o' w = Some (next_ops, w')"
  shows "effect_of w w'"
proof (cases o')
  case (Op_Bind n)
  then have "w_driver w' = snd (snd (bindOrphanUpdate n (w_driver w)))" "w_said w' = w_said w"
    using assms by (auto simp: op_step_def split: prod.splits)
  then show ?thesis using effect_frame same_model_ops by simp
next
  case (Op_Finish p a now)
  then show ?thesis using assms finish_locked_effect by (auto simp: op_step_def intro: effect_same)
next
  case Op_End_Config
  then show ?thesis using assms effect_frame same_model_ops by (auto simp: op_step_def)
qed (use assms in \<open>auto simp: op_step_def Let_def intro!: effect_same split: if_splits\<close>)

lemma advance_frame:
  "advance p w = Some w' \<Longrightarrow> w_driver w' = w_driver w \<and> w_said w' = w_said w
     \<and> w_reader w' = w_reader w \<and> w_threads w' = w_threads w \<and> w_bound w' = w_bound w
     \<and> w_options w' = w_options w"
  by (auto simp: advance_def Let_def split: if_splits once_state.splits)

lemma deliver_driver:
  "w_driver (handleSessionUpdate dec env n w) =
     (if sn_SessionID n \<noteq> [] \<and> sn_SessionID n \<noteq> d_sessionID (w_driver w) then w_driver w
      else apply_update dec env (sn_Update n) (w_driver w))"
  "w_said (handleSessionUpdate dec env n w) = w_said w"
  "w_threads (handleSessionUpdate dec env n w) = w_threads w"
  "w_bound (handleSessionUpdate dec env n w) = w_bound w"
  "w_options (handleSessionUpdate dec env n w) =
     (if sn_SessionID n \<noteq> [] \<and> sn_SessionID n \<noteq> d_sessionID (w_driver w) then w_options w
      else if su_SessionUpdate (sn_Update n) = ''config_option_update''
      then map runtimeConfigOptionFromACP (su_ConfigOptions (sn_Update n)) else w_options w)"
  by (simp_all add: handleSessionUpdate_def Let_def split: option.splits)

lemma start_effect: "effect_of w (snd (StartTurn now prompt w))"
proof (cases "d_status (w_driver w) = ''closed'' \<or> d_currentTurn (w_driver w) \<noteq> None")
  case True
  then show ?thesis by (auto simp: StartTurn_def Let_def intro!: effect_same)
next
  case False
  let ?d1 = "(w_driver w)\<lparr>d_turnSeq := Suc (d_turnSeq (w_driver w))\<rparr>"
  let ?e = "user_entry (''turn-'' @ nat_decimal (d_turnSeq ?d1)) prompt now"
  let ?d2 = "(snd (takeOrphanTerminalLocked ?d1))\<lparr>d_currentTurn := Some (length (w_turns w)), d_status := ''running''\<rparr>"
  have s: "same_model (w_driver w) ?d2"
    by (simp add: same_model_def takeOrphanTerminalLocked_def)
  have "w_driver (snd (StartTurn now prompt w)) = add_thread_entry ?e ?d2"
    "w_said (snd (StartTurn now prompt w)) = w_said w @ [?e]"
    using False by (auto simp: StartTurn_def Let_def split: prod.splits)
  then show ?thesis using effect_say [OF s, of ?e] by simp
qed

lemma close_effect: "effect_of w (CloseOrDelete op' now w)"
proof (cases "d_status (w_driver w) = ''closed''")
  case True
  then show ?thesis by (auto simp: CloseOrDelete_def beginClose_def intro!: effect_same)
next
  case False
  have "w_driver (CloseOrDelete op' now w) =
      snd (takeOrphanTerminalLocked ((w_driver w)\<lparr>d_status := ''closed''\<rparr>))"
    "w_said (CloseOrDelete op' now w) = w_said w"
    using False by (simp_all add: CloseOrDelete_def beginClose_def Let_def split: prod.splits)
  then show ?thesis
    using effect_frame same_model_trans [OF same_model_status(1) same_model_ops(5)] by simp
qed

lemma exec_effect:
  assumes "exec dec a w = Some w'"
  shows "effect_of w w'"
proof (cases a)
  case (Call_Start now prompt)
  then show ?thesis using assms start_effect by auto
next
  case (Deliver env n)
  then have "w' = handleSessionUpdate dec env n w" using assms by (auto split: if_splits)
  then show ?thesis using effect_update effect_frame by (auto simp: deliver_driver)
next
  case (Call_Close op' now)
  then show ?thesis using assms close_effect by auto
next
  case (Call_Cancel turnID)
  then show ?thesis using assms
    by (auto simp: CancelTurn_def Let_def intro!: effect_same split: option.splits)
next
  case (Call_SetMode modeID)
  then have "w_driver w' = snd (beginConfigChange (w_driver w))" "w_said w' = w_said w"
    using assms by (auto split: prod.splits)
  then show ?thesis using effect_frame same_model_ops by simp
next
  case (Call_SetOption key val)
  then have "w_driver w' = snd (beginConfigChange (w_driver w))" "w_said w' = w_said w"
    using assms by (auto split: prod.splits)
  then show ?thesis using effect_frame same_model_ops by simp
next
  case (Permission_Request order req decision)
  then show ?thesis using assms effect_permission by auto
next
  case Step_Reader
  then obtain o' ops more_ops v where "op_step o' w = Some (more_ops, v)" "w' = v\<lparr>w_reader := more_ops @ ops\<rparr>"
    using assms by (auto simp: step_reader_def split: list.splits)
  then show ?thesis using op_step_effect by simp
next
  case (Step_Thread i)
  then obtain o' ops more_ops v where "op_step o' w = Some (more_ops, v)"
    "w' = v\<lparr>w_threads := (w_threads v)[i := more_ops @ ops]\<rparr>"
    using assms by (auto simp: step_thread_def split: list.splits if_splits)
  then show ?thesis using op_step_effect by simp
next
  case (Advance p)
  then show ?thesis using assms advance_frame effect_same by simp
next
  case (Mode_Reply i err)
  then show ?thesis using assms effect_frame same_model_ops
    by (auto split: option.splits op.splits if_splits)
next
  case (Option_Reply i r)
  then show ?thesis using assms effect_frame same_model_ops
    by (auto split: option.splits op.splits sum.splits)
qed (use assms in \<open>auto intro!: effect_same split: option.splits op.splits prompt_reply.splits if_splits\<close>)

section \<open>The contract of a model predicate\<close>

locale model_contract =
  fixes P :: "acp_driver \<Rightarrow> thread_entry list \<Rightarrow> bool"
  assumes on_frame: "P d s \<Longrightarrow> same_model d e \<Longrightarrow> P e s"
    and on_update: "P d s \<Longrightarrow> P (apply_update dec env u d) s"
    and on_permission: "P d s \<Longrightarrow> P (recordPermission order req decision d) s"
    and on_say: "P d s \<Longrightarrow> P (add_thread_entry x d) (s @ [x])"
begin

lemma on_effect: "effect d s d' s' \<Longrightarrow> P d s \<Longrightarrow> P d' s'"
  by (induction rule: effect.induct) (blast intro: on_frame on_update on_permission on_say)+

lemma on_exec: "exec dec a w = Some w' \<Longrightarrow> P (w_driver w) (w_said w) \<Longrightarrow> P (w_driver w') (w_said w')"
  using on_effect exec_effect by blast

lemma on_reach:
  "reach (exec dec) w w' \<Longrightarrow> P (w_driver w) (w_said w) \<Longrightarrow> P (w_driver w') (w_said w')"
  by (induction rule: reach.induct) (auto intro: on_exec)

end

text \<open>The abstract thread: a window of the last \<open>cap\<close> entries; a negative cap means all.\<close>

definition window :: "int \<Rightarrow> 'a list \<Rightarrow> 'a list" where
  "window cap xs = (if cap < 0 then xs else drop (length xs - nat cap) xs)"

lemma window_snoc: "window cap (window cap xs @ [x]) = window cap (xs @ [x])"
proof (cases "cap < 0 \<or> length xs \<le> nat cap")
  case True
  then show ?thesis by (auto simp: window_def)
next
  case False
  define k where "k = length xs - nat cap"
  have k: "k \<le> length xs" "length xs - k = nat cap" "length xs = k + nat cap" using False by (auto simp: k_def)
  have w: "window cap xs = drop k xs" using False by (simp add: window_def k_def)
  have "Suc (length xs) - nat cap = Suc k" using k(3) by simp
  then have "window cap (xs @ [x]) = drop (Suc k) (xs @ [x])" using False by (simp add: window_def)
  moreover have "window cap (drop k xs @ [x]) = drop (Suc (nat cap) - nat cap) (drop k xs @ [x])"
    using False k by (simp add: window_def)
  moreover have "drop 1 (drop k xs @ [x]) = drop (Suc k) (xs @ [x])"
  proof -
    have "drop k xs @ [x] = drop k (xs @ [x])" using k(1) by simp
    then show ?thesis by (metis drop_drop plus_1_eq_Suc)
  qed
  ultimately show ?thesis unfolding w by (simp add: Suc_diff_le)
qed

lemma pruneThread_window: "d_thread (pruneThreadLocked d) = window (thread_cap d) (d_thread d)"
  by (auto simp: pruneThreadLocked_def window_def Let_def)

lemma window_say:
  assumes "d_thread d = window (thread_cap d) s"
  shows "d_thread (add_thread_entry x d) = window (thread_cap d) (s @ [x])"
  using assms by (simp add: add_thread_entry_def pruneThread_window thread_cap_def window_snoc)

lemma thread_cap_ops:
  "thread_cap (apply_update dec env u d) = thread_cap d"
  "thread_cap (recordPermission order req decision d) = thread_cap d"
  "thread_cap (add_thread_entry x d) = thread_cap d"
  by (simp_all add: thread_cap_def)

interpretation capped: model_contract "\<lambda>d s. read_model_inv d"
  by unfold_locales (auto intro: inv_intros)

interpretation windowed: model_contract "\<lambda>d s. thread_cap d = c \<and> d_thread d = window (thread_cap d) s" for c
proof
  show "thread_cap e = c \<and> d_thread e = window (thread_cap e) s"
    if "thread_cap d = c \<and> d_thread d = window (thread_cap d) s" "same_model d e" for d s e
    using that by (simp add: same_model_def thread_cap_def)
qed (simp_all add: thread_cap_ops window_say)

end
