(* ===== verification/Driver_Config.thy ===== *)
theory Driver_Config
  imports Driver_Model
begin

text \<open>
  Two more invariants of the session driver over whole runs: the accounting of configuration
  changes, which decides when the option snapshot may be trusted, and the grouping of orphan
  notifications.
\<close>

section \<open>Configuration changes in flight\<close>

fun is_await :: "op \<Rightarrow> bool" where
  "is_await (Op_Await_Mode _) = True"
| "is_await (Op_Await_Option _ _ _ _) = True"
| "is_await _ = False"

fun is_end :: "op \<Rightarrow> bool" where
  "is_end Op_End_Config = True"
| "is_end _ = False"

definition awaits :: "op list \<Rightarrow> nat" where
  "awaits ops = length (filter is_await ops)"

definition ends :: "op list \<Rightarrow> nat" where
  "ends ops = length (filter is_end ops)"

lemma awaits_simps [simp]:
  "awaits [] = 0" "awaits (o' # ops) = (if is_await o' then Suc (awaits ops) else awaits ops)"
  "awaits (xs @ ys) = awaits xs + awaits ys"
  by (simp_all add: awaits_def)

lemma ends_simps [simp]:
  "ends [] = 0" "ends (o' # ops) = (if is_end o' then Suc (ends ops) else ends ops)"
  "ends (xs @ ys) = ends xs + ends ys"
  by (simp_all add: ends_def)

definition cfg_shape :: "op list \<Rightarrow> bool" where
  "cfg_shape ops \<longleftrightarrow> awaits ops = 0 \<or> (\<exists>a. is_await a \<and> ops = [a, Op_End_Config])"

definition in_flight :: "world \<Rightarrow> nat" where
  "in_flight w = sum_list (map ends (w_threads w))"

definition awaiting :: "world \<Rightarrow> nat" where
  "awaiting w = sum_list (map awaits (w_threads w))"

definition config_inv :: "world \<Rightarrow> bool" where
  "config_inv w \<longleftrightarrow> d_configChangesPending (w_driver w) = int (in_flight w)
     \<and> (\<forall>ops\<in>set (w_threads w). cfg_shape ops)
     \<and> awaits (w_reader w) = 0 \<and> ends (w_reader w) = 0
     \<and> (d_configOptionsCurrent (w_driver w) \<longrightarrow>
          awaiting w = 0 \<and> md_AgentConfigOptions (d_metadata (w_driver w)) = w_options w)"

lemma cfg_shape_le: "cfg_shape ops \<Longrightarrow> awaits ops \<le> ends ops"
  by (auto simp: cfg_shape_def)

lemma sum_update:
  "i < length xs \<Longrightarrow> sum_list (map f (xs[i := x])) + f (xs ! i) = sum_list (map f xs) + (f x :: nat)"
  by (induction xs arbitrary: i) (auto split: nat.splits)

lemma awaiting_le: "(\<forall>ops\<in>set (w_threads w). cfg_shape ops) \<Longrightarrow> awaiting w \<le> in_flight w"
  unfolding awaiting_def in_flight_def by (rule sum_list_mono) (auto intro: cfg_shape_le)

text \<open>The fields the invariant reads.\<close>

definition same_config :: "acp_driver \<Rightarrow> acp_driver \<Rightarrow> bool" where
  "same_config d e \<longleftrightarrow> d_configChangesPending e = d_configChangesPending d
     \<and> d_configOptionsCurrent e = d_configOptionsCurrent d
     \<and> md_AgentConfigOptions (d_metadata e) = md_AgentConfigOptions (d_metadata d)"

lemma config_invI:
  assumes "config_inv w" "same_config (w_driver w) (w_driver w')" "w_options w' = w_options w"
    "w_threads w' = w_threads w" "awaits (w_reader w') = 0" "ends (w_reader w') = 0"
  shows "config_inv w'"
  using assms by (simp add: config_inv_def same_config_def in_flight_def awaiting_def)

lemma config_quiet:
  assumes "config_inv w" "w_driver w' = w_driver w" "w_options w' = w_options w"
    "w_threads w' = w_threads w" "w_reader w' = w_reader w"
  shows "config_inv w'"
  using assms by (simp add: config_inv_def in_flight_def awaiting_def)

lemma await_not_end [simp]: "is_await o' \<Longrightarrow> \<not> is_end o'"
  by (cases o') auto

lemma same_config_simps [simp]:
  "same_config d d"
  "same_config d (apply_tool_call dec env u d)" "same_config d (apply_tool_call_update env u d)"
  "same_config d (recordPermission order req decision d)"
  "same_config d (add_thread_entry x d)"
  "same_config d (snd (takeOrphanTerminalLocked d))"
  "same_config d (snd (snd (bindOrphanUpdate n d)))"
  "same_config d (w_driver (finish_locked p a now w)) = same_config d (w_driver w)"
  by (simp_all add: same_config_def)

lemma op_step_config:
  assumes "op_step o' w = Some (next_ops, w')"
  shows "awaits next_ops = 0 \<and> ends next_ops = 0 \<and> \<not> is_await o' \<and> w_options w' = w_options w
    \<and> w_threads w' = w_threads w
    \<and> (if is_end o' then w_driver w' = endConfigChange (w_driver w)
       else same_config (w_driver w) (w_driver w'))"
proof (cases o')
  case (Op_Bind n)
  obtain n' previous d where b: "bindOrphanUpdate n (w_driver w) = (n', previous, d)"
    by (metis prod_cases3)
  have "same_config (w_driver w) d"
    using same_config_simps(7) [of "w_driver w" n] unfolding b by simp
  then show ?thesis using assms Op_Bind b
    by (auto simp: op_step_def awaits_def ends_def filter_empty_conv)
next
  case (Op_Finish p a now)
  then show ?thesis using assms by (auto simp: op_step_def)
qed (use assms in \<open>auto simp: op_step_def Let_def split: if_splits\<close>)

lemma op_step_reader: "op_step o' w = Some (next_ops, w') \<Longrightarrow> w_reader w' = w_reader w"
  by (cases o') (auto simp: op_step_def Let_def split: if_splits prod.splits)

lemma step_reader_config:
  assumes "config_inv w" "step_reader w = Some w'"
  shows "config_inv w'"
proof -
  obtain o' ops next_ops v where r: "w_reader w = o' # ops" "op_step o' w = Some (next_ops, v)"
    "w' = v\<lparr>w_reader := next_ops @ ops\<rparr>"
    using assms(2) by (auto simp: step_reader_def split: list.splits)
  have z: "\<not> is_end o'" "ends ops = 0" "awaits ops = 0"
    using assms(1) r(1) by (auto simp: config_inv_def split: if_splits)
  show ?thesis
    by (rule config_invI [OF assms(1)]) (use op_step_config [OF r(2)] z r(3) in auto)
qed

lemma step_thread_config:
  assumes "config_inv w" "step_thread i w = Some w'"
  shows "config_inv w'"
proof -
  obtain o' ops next_ops v where r: "i < length (w_threads w)" "w_threads w ! i = o' # ops"
    "op_step o' w = Some (next_ops, v)" "w' = v\<lparr>w_threads := (w_threads v)[i := next_ops @ ops]\<rparr>"
    using assms(2) by (auto simp: step_thread_def split: list.splits if_splits)
  note S = op_step_config [OF r(3)]
  have shape: "cfg_shape (o' # ops)" using assms(1) r(1,2) by (metis config_inv_def nth_mem)
  then have a0: "awaits (o' # ops) = 0" using S by (auto simp: cfg_shape_def)
  let ?new = "next_ops @ ops"
  have new: "awaits ?new = 0" "ends ?new = ends ops" using S a0 by (auto split: if_splits)
  have th: "w_threads w' = (w_threads w)[i := ?new]" using r(4) S by simp
  have flight: "in_flight w' + ends (o' # ops) = in_flight w + ends ops"
    using sum_update [OF r(1), of ends ?new] r(2) new(2) by (simp add: in_flight_def th)
  have aw: "awaiting w' = awaiting w"
    using sum_update [OF r(1), of awaits ?new] r(2) new(1) a0 by (simp add: awaiting_def th)
  have shapes: "\<forall>ops\<in>set (w_threads w'). cfg_shape ops"
    using assms(1) new(1) set_update_subset_insert [of "w_threads w" i ?new]
    by (auto simp: th config_inv_def cfg_shape_def)
  have rest: "w_reader w' = w_reader w" "w_options w' = w_options w" "w_driver w' = w_driver v"
    using op_step_reader r S by auto
  show ?thesis
  proof (cases "is_end o'")
    case True
    then have "w_driver w' = endConfigChange (w_driver w)" using S rest by simp
    then show ?thesis using assms(1) flight aw shapes rest True
      by (simp add: config_inv_def endConfigChange_def)
  next
    case False
    then have "same_config (w_driver w) (w_driver w')" using S rest by simp
    then show ?thesis using assms(1) flight aw shapes rest False
      by (simp add: config_inv_def same_config_def)
  qed
qed

lemma spawn_config:
  assumes "config_inv w" "awaits ops = 0" "ends ops = 0"
  shows "config_inv (spawn ops w)"
  using assms by (auto simp: config_inv_def in_flight_def awaiting_def cfg_shape_def)

text \<open>A reply to an operation that is not a configuration change.\<close>

lemma continue_config:
  assumes "config_inv w" "waiting i w = Some o'" "\<not> is_await o'" "\<not> is_end o'"
    "awaits ops = 0" "ends ops = 0"
  shows "config_inv (continue_with i ops w)"
proof -
  obtain rest where i: "i < length (w_threads w)" "w_threads w ! i = o' # rest"
    using waiting_SomeD [OF assms(2)] by blast
  have "cfg_shape (o' # rest)" using assms(1) i by (metis config_inv_def nth_mem)
  then have a0: "awaits rest = 0" using assms(3) by (auto simp: cfg_shape_def)
  have "in_flight (continue_with i ops w) = in_flight w"
    using sum_update [OF i(1), of ends "ops @ rest"] i(2) assms by (simp add: in_flight_def)
  moreover have "awaiting (continue_with i ops w) = awaiting w"
    using sum_update [OF i(1), of awaits "ops @ rest"] i(2) assms by (simp add: awaiting_def)
  moreover have "\<forall>ops\<in>set (w_threads (continue_with i ops w)). cfg_shape ops"
    using assms(1,5) a0 i(2) set_update_subset_insert [of "w_threads w" i "ops @ rest"]
    by (auto simp: config_inv_def cfg_shape_def)
  ultimately show ?thesis using assms(1) by (simp add: config_inv_def)
qed

text \<open>A configuration change starts: the flag is off until its reply.\<close>

lemma begin_config:
  assumes "config_inv w" "is_await a"
  shows "config_inv (spawn [a, Op_End_Config] (w\<lparr>w_driver := snd (beginConfigChange (w_driver w))\<rparr>))"
  using assms
  by (auto simp: config_inv_def in_flight_def awaiting_def beginConfigChange_def Let_def cfg_shape_def)

text \<open>The reply to a configuration change: its goroutine is left with the end of the change.\<close>

lemma reply_config:
  assumes inv: "config_inv w" and wait: "waiting i w = Some a" "is_await a"
    and d: "d_configChangesPending d = d_configChangesPending (w_driver w)"
    and cur: "d_configOptionsCurrent d \<Longrightarrow>
       d_configChangesPending (w_driver w) = 1 \<and> md_AgentConfigOptions (d_metadata d) = os"
  shows "config_inv (continue_with i [] (w\<lparr>w_driver := d, w_options := os\<rparr>))"
proof -
  let ?w = "continue_with i [] (w\<lparr>w_driver := d, w_options := os\<rparr>)"
  obtain rest where i: "i < length (w_threads w)" "w_threads w ! i = a # rest"
    using waiting_SomeD [OF wait(1)] by blast
  have "cfg_shape (a # rest)" using inv i by (metis config_inv_def nth_mem)
  then have rest: "rest = [Op_End_Config]" using wait(2) by (auto simp: cfg_shape_def)
  have not_end: "\<not> is_end a" using wait(2) by (cases a) auto
  have flight: "in_flight ?w = in_flight w"
    using sum_update [OF i(1), of ends rest] i(2) rest not_end by (simp add: in_flight_def)
  have shapes: "\<forall>ops\<in>set (w_threads ?w). cfg_shape ops"
    using inv i(2) rest set_update_subset_insert [of "w_threads w" i rest]
    by (auto simp: config_inv_def cfg_shape_def)
  have aw: "awaiting ?w = 0" if "d_configChangesPending (w_driver w) = 1"
  proof -
    have one: "in_flight ?w = 1" using that inv flight by (simp add: config_inv_def)
    have "\<forall>x\<in>set (w_threads ?w). awaits x = 0"
    proof (rule ccontr)
      assume "\<not> ?thesis"
      then obtain j where j: "j < length (w_threads ?w)" "awaits (w_threads ?w ! j) \<noteq> 0"
        by (metis in_set_conv_nth)
      have "cfg_shape (w_threads ?w ! j)" using shapes j(1) by (metis nth_mem)
      then have ej: "ends (w_threads ?w ! j) = 1" using j(2) by (auto simp: cfg_shape_def)
      have ij: "i \<noteq> j" using j rest i by (auto simp: nth_update)
      have "ends (w_threads ?w ! i) = 1" using i rest by simp
      moreover have "ends (w_threads ?w ! i) + ends (w_threads ?w ! j) \<le> in_flight ?w"
      proof -
        let ?f = "\<lambda>k. ends (w_threads ?w ! k)"
        have "in_flight ?w = (\<Sum>k<length (w_threads ?w). ?f k)"
          unfolding in_flight_def by (simp add: sum_list_sum_nth atLeast0LessThan)
        moreover have "(\<Sum>k\<in>{i, j}. ?f k) \<le> (\<Sum>k<length (w_threads ?w). ?f k)"
          by (rule sum_mono2) (use i(1) j(1) in auto)
        ultimately show ?thesis using ij by simp
      qed
      ultimately show False using ej one by simp
    qed
    then show ?thesis by (simp add: awaiting_def)
  qed
  show ?thesis
    using inv flight shapes aw cur d by (auto simp: config_inv_def)
qed

lemma deliver_config:
  assumes "config_inv w"
  shows "config_inv (handleSessionUpdate dec env n w)"
proof (cases "sn_SessionID n \<noteq> [] \<and> sn_SessionID n \<noteq> d_sessionID (w_driver w)")
  case True
  then show ?thesis using assms by (simp add: handleSessionUpdate_def)
next
  case False
  let ?w = "handleSessionUpdate dec env n w" and ?u = "sn_Update n" and ?d = "w_driver w"
  have after: "awaits (after_update p t u) = 0 \<and> ends (after_update p t u) = 0" for p t u
    by (simp add: after_update_def Let_def)
  have reader: "awaits (w_reader ?w) = 0" "ends (w_reader ?w) = 0"
    using after False unfolding handleSessionUpdate_def Let_def if_not_P [OF False]
    by (auto split: option.splits)
  have drv: "w_driver ?w = apply_update dec env ?u ?d" using False deliver_driver(1) [of dec env n w] by auto
  have thr: "w_threads ?w = w_threads w" by (simp add: deliver_driver)
  have opts: "w_options ?w = (if su_SessionUpdate ?u = ''config_option_update''
      then map runtimeConfigOptionFromACP (su_ConfigOptions ?u) else w_options w)"
    using False deliver_driver(5) [of dec env n w] by auto
  consider "su_SessionUpdate ?u = ''config_option_update''" | "su_SessionUpdate ?u = ''current_mode_update''"
    | "su_SessionUpdate ?u \<noteq> ''config_option_update''" "su_SessionUpdate ?u \<noteq> ''current_mode_update''" by blast
  then show ?thesis
  proof cases
    case 1
    have "awaiting w = 0" if "d_configChangesPending ?d = 0"
      using that assms awaiting_le [of w] by (simp add: config_inv_def)
    then show ?thesis
      using assms reader drv thr opts 1
      by (simp add: config_inv_def in_flight_def awaiting_def apply_update_def replaceConfigOptionsLocked_def Let_def)
  next
    case 2
    then have "same_config ?d (w_driver ?w) \<or> (\<not> d_configOptionsCurrent (w_driver ?w) \<and>
        d_configChangesPending (w_driver ?w) = d_configChangesPending ?d)"
      by (simp add: drv apply_update_def same_config_def Let_def)
    then show ?thesis using assms reader thr opts 2
      by (auto simp: config_inv_def in_flight_def awaiting_def same_config_def)
  next
    case 3
    then have "same_config ?d (w_driver ?w)"
      by (auto simp: drv apply_update_def same_config_def Let_def split: option.splits)
    then show ?thesis using config_invI [OF assms] reader thr opts 3 by simp
  qed
qed

lemma start_refused:
  "d_status (w_driver w) = ''closed'' \<Longrightarrow> snd (StartTurn now prompt w) = w"
  "d_status (w_driver w) \<noteq> ''closed'' \<Longrightarrow> d_currentTurn (w_driver w) \<noteq> None \<Longrightarrow>
   snd (StartTurn now prompt w) = w\<lparr>w_turnHooks := w_turnHooks w @ [(''coalesced'', [])]\<rparr>"
  by (simp_all add: StartTurn_def Let_def)

lemma cancel_cases:
  "snd (CancelTurn turnID w) = w \<or>
   (\<exists>p t. snd (CancelTurn turnID w) = spawn [Op_Cancel_Notify turnID] (set_turn p t w))"
  by (auto simp: CancelTurn_def Let_def split: option.splits)

lemma set_turn_config: "config_inv w \<Longrightarrow> config_inv (set_turn p t w)"
  by (rule config_quiet) simp_all

lemma exec_config:
  assumes "config_inv w" "exec dec a w = Some w'"
  shows "config_inv w'"
proof (cases a)
  case (Call_Start now prompt)
  show ?thesis
  proof (cases "d_status (w_driver w) = ''closed'' \<or> d_currentTurn (w_driver w) \<noteq> None")
    case True
    then have "w_driver w' = w_driver w \<and> w_options w' = w_options w \<and> w_threads w' = w_threads w
        \<and> w_reader w' = w_reader w"
      using assms(2) Call_Start start_refused [of w now prompt]
      by (cases "d_status (w_driver w) = ''closed''") auto
    then show ?thesis using config_quiet [OF assms(1)] by blast
  next
    case False
    let ?d1 = "(w_driver w)\<lparr>d_turnSeq := Suc (d_turnSeq (w_driver w))\<rparr>"
    obtain terminal d2 where t: "takeOrphanTerminalLocked ?d1 = (terminal, d2)" by (metis surj_pair)
    have "same_config ?d1 d2" using same_config_simps(6) [of ?d1] t by simp
    then have s: "same_config (w_driver w) (add_thread_entry x (d2\<lparr>d_currentTurn := c, d_status := st\<rparr>))" for x c st
      by (simp add: same_config_def)
    obtain ops v where w': "w' = spawn ops v" "awaits ops = 0" "ends ops = 0"
      "same_config (w_driver w) (w_driver v)" "w_options v = w_options w" "w_threads v = w_threads w"
      "w_reader v = w_reader w"
      using assms(2) Call_Start False t s
      by (auto simp: StartTurn_def Let_def awaits_def ends_def filter_empty_conv)
    have "config_inv v"
      by (rule config_invI [OF assms(1)]) (use w' assms(1) in \<open>auto simp: config_inv_def\<close>)
    then show ?thesis using w' spawn_config by simp
  qed
next
  case (Deliver env n)
  then show ?thesis using assms deliver_config by (auto split: if_splits)
next
  case (Call_Close op' now)
  obtain active terminal v where b: "beginClose w = ((active, terminal), v)" by (metis surj_pair)
  have s: "same_config (w_driver w) (w_driver v)" "w_threads v = w_threads w" "w_reader v = w_reader w"
    "w_options v = w_options w"
    using b by (auto simp: beginClose_def Let_def same_config_def takeOrphanTerminalLocked_def split: if_splits)
  have "config_inv v"
    by (rule config_invI [OF assms(1)]) (use s assms(1) in \<open>auto simp: config_inv_def\<close>)
  moreover from this have "config_inv (v\<lparr>w_bound := x\<rparr>)" for x by (rule config_quiet) simp_all
  ultimately have "config_inv v" "\<And>x. config_inv (v\<lparr>w_bound := x\<rparr>)" by blast+
  then show ?thesis using assms(2) Call_Close b
    by (auto simp: CloseOrDelete_def Let_def awaits_def ends_def filter_empty_conv intro!: spawn_config
        split: option.splits)
next
  case (Call_Cancel turnID)
  then have "w' = snd (CancelTurn turnID w)" using assms(2) by simp
  then show ?thesis
    using cancel_cases [of turnID w] spawn_config set_turn_config [OF assms(1)] assms(1) by fastforce
next
  case (Fire_Timer p now)
  then show ?thesis using assms(2) spawn_config set_turn_config [OF assms(1)] by (auto split: if_splits)
next
  case (Call_SetMode modeID)
  then show ?thesis using assms begin_config [OF assms(1), of "Op_Await_Mode modeID"]
    by (auto split: prod.splits)
next
  case (Call_SetOption key val)
  then obtain v x where "w' = spawn [Op_Await_Option key val v x, Op_End_Config]
      (w\<lparr>w_driver := snd (beginConfigChange (w_driver w))\<rparr>)"
    using assms by (auto split: prod.splits)
  then show ?thesis using begin_config [OF assms(1), of "Op_Await_Option key val v x"] by simp
next
  case (Permission_Request order req decision)
  then have "w' = w\<lparr>w_driver := recordPermission order req decision (w_driver w)\<rparr>" using assms by simp
  then show ?thesis
    by (intro config_invI [OF assms(1)]) (use assms(1) in \<open>auto simp: config_inv_def\<close>)
next
  case Step_Reader
  then show ?thesis using assms step_reader_config by auto
next
  case (Step_Thread i)
  then show ?thesis using assms step_thread_config by auto
next
  case (Advance p)
  then show ?thesis using assms(2) advance_frame by (intro config_quiet [OF assms(1)]) auto
next
  case (Prompt_Reply i r now)
  then obtain p ops where "waiting i w = Some (Op_Await_Prompt p)" "w' = continue_with i ops w"
    "awaits ops = 0" "ends ops = 0"
    using assms by (auto split: option.splits op.splits prompt_reply.splits if_splits)
  then show ?thesis using continue_config [OF assms(1)] by simp
next
  case (Cancel_Reply i err)
  then obtain t where "waiting i w = Some (Op_Cancel_Notify t)"
    "w' = continue_with i (if err = None then [Op_Turn_Hook ''cancelled'' t] else []) w"
    using assms by (auto split: option.splits op.splits)
  then show ?thesis using continue_config [OF assms(1)] by simp
next
  case (Mode_Reply i err)
  then obtain m where m: "waiting i w = Some (Op_Await_Mode m)"
    "w' = continue_with i [] (if err = None then w\<lparr>w_driver := mode_applied m (w_driver w)\<rparr> else w)"
    using assms by (auto split: option.splits op.splits)
  let ?d = "if err = None then mode_applied m (w_driver w) else w_driver w"
  have off: "\<not> d_configOptionsCurrent (w_driver w)"
  proof
    assume "d_configOptionsCurrent (w_driver w)"
    then have "awaiting w = 0" using assms(1) by (simp add: config_inv_def)
    moreover obtain rest where "i < length (w_threads w)" "w_threads w ! i = Op_Await_Mode m # rest"
      using waiting_SomeD [OF m(1)] by blast
    ultimately show False
      by (metis (no_types, lifting) awaiting_def awaits_simps(2) is_await.simps(1) list.set_map
          nat.distinct(1) imageI nth_mem sum_list_eq_0_iff)
  qed
  have w': "w' = continue_with i [] (w\<lparr>w_driver := ?d, w_options := w_options w\<rparr>)" using m(2) by simp
  have "d_configChangesPending ?d = d_configChangesPending (w_driver w)" "\<not> d_configOptionsCurrent ?d"
    using off by (simp_all add: mode_applied_def)
  then show ?thesis unfolding w' by (intro reply_config [OF assms(1) m(1)]) simp_all
next
  case (Option_Reply i r)
  then obtain k v ver ex where k: "waiting i w = Some (Op_Await_Option k v ver ex)"
    using assms(2) by (auto split: option.splits op.splits)
  have off: "\<not> d_configOptionsCurrent (w_driver w)"
  proof
    assume "d_configOptionsCurrent (w_driver w)"
    then have "awaiting w = 0" using assms(1) by (simp add: config_inv_def)
    moreover obtain rest where "i < length (w_threads w)" "w_threads w ! i = Op_Await_Option k v ver ex # rest"
      using waiting_SomeD [OF k] by blast
    ultimately show False
      by (metis (no_types, lifting) awaiting_def awaits_simps(2) is_await.simps(2) list.set_map
          nat.distinct(1) imageI nth_mem sum_list_eq_0_iff)
  qed
  show ?thesis
  proof (cases r)
    case (Inl e)
    then have w': "w' = continue_with i [] (w\<lparr>w_driver := w_driver w, w_options := w_options w\<rparr>)"
      using assms(2) Option_Reply k by simp
    show ?thesis unfolding w' by (rule reply_config [OF assms(1) k]) (use off in simp_all)
  next
    case (Inr options)
    let ?d = "option_applied k v ver ex options (w_driver w)"
    let ?os = "case options of None \<Rightarrow> w_options w | Some os \<Rightarrow> map runtimeConfigOptionFromACP os"
    have w': "w' = continue_with i [] (w\<lparr>w_driver := ?d, w_options := ?os\<rparr>)"
      using assms(2) Option_Reply k Inr by simp
    have "d_configChangesPending ?d = d_configChangesPending (w_driver w)"
      by (simp add: option_applied_def Let_def replaceConfigOptionsLocked_def split: option.splits)
    moreover have "d_configOptionsCurrent ?d \<Longrightarrow>
        d_configChangesPending (w_driver w) = 1 \<and> md_AgentConfigOptions (d_metadata ?d) = ?os"
      using off by (auto simp: option_applied_def Let_def replaceConfigOptionsLocked_def split: option.splits)
    ultimately show ?thesis unfolding w' by (intro reply_config [OF assms(1) k]) simp_all
  qed
next
  case (Close_Reply i deleteErr disposeErr)
  then obtain q h where q: "waiting i w = Some (Op_Await_Close q)" "w' = continue_with i [] (w\<lparr>w_sessionHooks := h\<rparr>)"
    using assms(2) by (auto split: option.splits op.splits)
  have "config_inv (w\<lparr>w_sessionHooks := h\<rparr>)" by (rule config_quiet [OF assms(1)]) simp_all
  moreover have "waiting i (w\<lparr>w_sessionHooks := h\<rparr>) = Some (Op_Await_Close q)"
    using q(1) waiting_cong [of "w\<lparr>w_sessionHooks := h\<rparr>" w i] by simp
  ultimately show ?thesis using q(2) continue_config by simp
next
  case (Recv_Event p)
  then show ?thesis using assms(2)
    by (auto intro!: config_quiet [OF assms(1)] split: if_splits)
next
  case (Recv_Completion p)
  then show ?thesis using assms(2)
    by (auto intro!: config_quiet [OF assms(1)] split: if_splits)
next
  case Recv_Update
  then show ?thesis using assms(2)
    by (auto intro!: config_quiet [OF assms(1)] split: if_splits)
qed

lemma initial_config:
  "config_inv (initial_world (newACPSessionDriver b))"
  by (simp add: config_inv_def initial_world_def in_flight_def awaiting_def newACPSessionDriver_def
      Let_def resolveReadModelLimits_def)

interpretation config: step_invariant "exec dec" config_inv
  by unfold_locales (rule exec_config)

section \<open>Grouping of orphan notifications\<close>

text \<open>
  A notification from the wire should not carry the SDK's own fields (\<open>updateId\<close>, \<open>terminal\<close>);
  \<open>exec_clean\<close> is the driver fed with such notifications only.
\<close>

definition clean_notification :: "session_notification \<Rightarrow> bool" where
  "clean_notification n \<longleftrightarrow> \<not> sn_Terminal n \<and> sn_UpdateID n = []"

fun clean_action :: "action \<Rightarrow> bool" where
  "clean_action (Deliver env n) = clean_notification n"
| "clean_action _ = True"

definition exec_clean :: "(bytes \<Rightarrow> meta option option) \<Rightarrow> action \<Rightarrow> world \<Rightarrow> world option" where
  "exec_clean dec a w = (if clean_action a then exec dec a w else None)"

fun clean_op :: "op \<Rightarrow> bool" where
  "clean_op (Op_Bind n) = clean_notification n"
| "clean_op _ = True"

fun no_bind :: "op \<Rightarrow> bool" where
  "no_bind (Op_Bind n) = False"
| "no_bind _ = True"

definition group_inv :: "world \<Rightarrow> bool" where
  "group_inv w \<longleftrightarrow> grouping [] (w_bound w) = Some (d_orphanID (w_driver w))
     \<and> list_all clean_op (w_reader w) \<and> list_all (list_all no_bind) (w_threads w)"

lemma no_bind_clean: "no_bind o' \<Longrightarrow> clean_op o'"
  by (cases o') auto

lemma op_step_group:
  assumes "op_step o' w = Some (next_ops, w')" "no_bind o'"
  shows "d_orphanID (w_driver w') = d_orphanID (w_driver w) \<and> w_bound w' = w_bound w
    \<and> w_threads w' = w_threads w \<and> w_reader w' = w_reader w \<and> list_all no_bind next_ops"
proof (cases o')
  case Op_End_Config
  then show ?thesis using assms by (auto simp: op_step_def)
qed (use assms in \<open>auto simp: op_step_def Let_def split: if_splits\<close>)

lemma op_bind_group:
  assumes "op_step (Op_Bind n) w = Some (next_ops, w')" "clean_notification n"
    "grouping [] (w_bound w) = Some (d_orphanID (w_driver w))"
  shows "grouping [] (w_bound w') = Some (d_orphanID (w_driver w'))
    \<and> w_threads w' = w_threads w \<and> list_all no_bind next_ops"
proof -
  obtain n' previous d where b: "bindOrphanUpdate n (w_driver w) = (n', previous, d)"
    by (metis prod_cases3)
  have "grouping (d_orphanID (w_driver w)) (previous @ [n']) = Some (d_orphanID d)"
    using bind_grouping [OF b] assms(2) by (simp add: clean_notification_def)
  then show ?thesis
    using assms(1,3) b by (auto simp: op_step_def grouping_append list_all_iff)
qed

lemma step_reader_group:
  assumes "group_inv w" "step_reader w = Some w'"
  shows "group_inv w'"
proof -
  obtain o' ops next_ops v where r: "w_reader w = o' # ops" "op_step o' w = Some (next_ops, v)"
    "w' = v\<lparr>w_reader := next_ops @ ops\<rparr>"
    using assms(2) by (auto simp: step_reader_def split: list.splits)
  have ops: "clean_op o'" "list_all clean_op ops" using assms(1) r(1) by (auto simp: group_inv_def)
  have *: "grouping [] (w_bound v) = Some (d_orphanID (w_driver v)) \<and> w_threads v = w_threads w
      \<and> list_all no_bind next_ops"
  proof (cases "no_bind o'")
    case True
    then show ?thesis using op_step_group [OF r(2)] assms(1) by (simp add: group_inv_def)
  next
    case False
    then obtain n where n: "o' = Op_Bind n" by (cases o') auto
    then show ?thesis using op_bind_group [of n w next_ops v] r(2) ops(1) assms(1)
      by (simp add: group_inv_def)
  qed
  then have "list_all clean_op next_ops" using no_bind_clean by (auto simp: list_all_iff)
  then show ?thesis using * ops assms(1) by (simp add: r(3) group_inv_def)
qed

lemma step_thread_group:
  assumes "group_inv w" "step_thread i w = Some w'"
  shows "group_inv w'"
proof -
  obtain o' ops next_ops v where r: "i < length (w_threads w)" "w_threads w ! i = o' # ops"
    "op_step o' w = Some (next_ops, v)" "w' = v\<lparr>w_threads := (w_threads v)[i := next_ops @ ops]\<rparr>"
    using assms(2) by (auto simp: step_thread_def split: list.splits if_splits)
  have "list_all no_bind (o' # ops)" using assms(1) r(1,2) by (metis group_inv_def list_all_length)
  then show ?thesis
    using op_step_group [OF r(3)] assms(1) r(4) by (auto simp: group_inv_def intro!: list_all_update)
qed

lemma group_quiet:
  assumes "group_inv w" "d_orphanID (w_driver w') = d_orphanID (w_driver w)" "w_bound w' = w_bound w"
    "w_threads w' = w_threads w" "w_reader w' = w_reader w"
  shows "group_inv w'"
  using assms by (simp add: group_inv_def)

lemma spawn_group: "group_inv w \<Longrightarrow> list_all no_bind ops \<Longrightarrow> group_inv (spawn ops w)"
  by (simp add: group_inv_def)

lemma continue_group:
  assumes "group_inv w" "waiting i w = Some o'" "list_all no_bind ops"
  shows "group_inv (continue_with i ops w)"
proof -
  obtain rest where i: "i < length (w_threads w)" "w_threads w ! i = o' # rest"
    using waiting_SomeD [OF assms(2)] by blast
  have "list_all no_bind (o' # rest)" using assms(1) i by (metis group_inv_def list_all_length)
  then show ?thesis using assms(1,3) i by (auto simp: group_inv_def intro!: list_all_update)
qed

lemma deliver_group:
  assumes "group_inv w" "clean_notification n"
  shows "group_inv (handleSessionUpdate dec env n w)"
proof (cases "sn_SessionID n \<noteq> [] \<and> sn_SessionID n \<noteq> d_sessionID (w_driver w)")
  case True
  then show ?thesis using assms by (simp add: handleSessionUpdate_def)
next
  case False
  let ?w = "handleSessionUpdate dec env n w"
  have "list_all clean_op (after_update p t u)" for p t u by (simp add: after_update_def Let_def)
  then have "list_all clean_op (w_reader ?w)"
    using assms(2) unfolding handleSessionUpdate_def Let_def if_not_P [OF False]
    by (auto split: option.splits)
  moreover have "d_orphanID (w_driver ?w) = d_orphanID (w_driver w)"
    by (simp add: deliver_driver(1))
  ultimately show ?thesis using assms(1) by (simp add: group_inv_def deliver_driver)
qed

lemma start_group:
  assumes "group_inv w"
  shows "group_inv (snd (StartTurn now prompt w))"
proof (cases "d_status (w_driver w) = ''closed'' \<or> d_currentTurn (w_driver w) \<noteq> None")
  case True
  then show ?thesis using start_refused [of w now prompt] group_quiet [OF assms] assms
    by (cases "d_status (w_driver w) = ''closed''") auto
next
  case False
  let ?d1 = "(w_driver w)\<lparr>d_turnSeq := Suc (d_turnSeq (w_driver w))\<rparr>"
  obtain terminal d2 where t: "takeOrphanTerminalLocked ?d1 = (terminal, d2)" by (metis surj_pair)
  let ?sends = "case terminal of None \<Rightarrow> [] | Some n \<Rightarrow> [n]"
  have g: "grouping (d_orphanID (w_driver w)) ?sends = Some (d_orphanID d2)"
    using take_terminal_grouping [OF t] by simp
  obtain ops v where w': "snd (StartTurn now prompt w) = spawn ops v" "list_all no_bind ops"
    "d_orphanID (w_driver v) = d_orphanID d2" "w_bound v = w_bound w @ ?sends"
    "w_threads v = w_threads w" "w_reader v = w_reader w"
    using False t by (auto simp: StartTurn_def Let_def list_all_iff split: option.splits)
  have "group_inv v" using assms w' g by (simp add: group_inv_def grouping_append)
  then show ?thesis using w' spawn_group by simp
qed

lemma close_group:
  assumes "group_inv w"
  shows "group_inv (CloseOrDelete op' now w)"
proof -
  obtain active terminal v where b: "beginClose w = ((active, terminal), v)" by (metis surj_pair)
  let ?sends = "case terminal of None \<Rightarrow> [] | Some n \<Rightarrow> [n]"
  have g: "grouping (d_orphanID (w_driver w)) ?sends = Some (d_orphanID (w_driver v))
      \<and> w_bound v = w_bound w \<and> w_threads v = w_threads w \<and> w_reader v = w_reader w"
  proof (cases "d_status (w_driver w) = ''closed''")
    case True
    then show ?thesis using b by (auto simp: beginClose_def)
  next
    case False
    let ?d = "(w_driver w)\<lparr>d_status := ''closed''\<rparr>"
    obtain tm d2 where t: "takeOrphanTerminalLocked ?d = (tm, d2)" by (metis surj_pair)
    have "terminal = tm" "v = w\<lparr>w_driver := d2\<rparr>" using b False t by (auto simp: beginClose_def Let_def)
    then show ?thesis using take_terminal_grouping [OF t] by simp
  qed
  have "group_inv (v\<lparr>w_bound := w_bound v @ ?sends\<rparr>)"
    using assms g by (simp add: group_inv_def grouping_append)
  then have "group_inv (spawn ops (v\<lparr>w_bound := w_bound v @ ?sends\<rparr>))" if "list_all no_bind ops" for ops
    using that by (rule spawn_group)
  then show ?thesis using b
    by (auto simp: CloseOrDelete_def Let_def list_all_iff split: option.splits)
qed

lemma exec_group:
  assumes "group_inv w" "exec_clean dec a w = Some w'"
  shows "group_inv w'"
proof -
  have e: "exec dec a w = Some w'" and c: "clean_action a"
    using assms(2) by (auto simp: exec_clean_def split: if_splits)
  show ?thesis
  proof (cases a)
    case (Call_Start now prompt)
    then show ?thesis using e start_group assms(1) by auto
  next
    case (Deliver env n)
    then show ?thesis using e c deliver_group assms(1) by (auto split: if_splits)
  next
    case (Call_Close op' now)
    then show ?thesis using e close_group assms(1) by auto
  next
    case (Call_Cancel turnID)
    then have "w' = snd (CancelTurn turnID w)" using e by simp
    moreover have "group_inv (spawn [Op_Cancel_Notify turnID] (set_turn p t w))" for p t
      by (rule spawn_group, rule group_quiet [OF assms(1)]) simp_all
    ultimately show ?thesis using cancel_cases [of turnID w] assms(1) by fastforce
  next
    case (Fire_Timer p now)
    have "group_inv (set_turn p t w)" for t by (rule group_quiet [OF assms(1)]) simp_all
    then show ?thesis using e Fire_Timer by (auto intro!: spawn_group split: if_splits)
  next
    case (Call_SetMode modeID)
    have "group_inv (w\<lparr>w_driver := snd (beginConfigChange (w_driver w))\<rparr>)"
      by (rule group_quiet [OF assms(1)]) simp_all
    then show ?thesis using e Call_SetMode by (auto intro!: spawn_group split: prod.splits)
  next
    case (Call_SetOption key val)
    have "group_inv (w\<lparr>w_driver := snd (beginConfigChange (w_driver w))\<rparr>)"
      by (rule group_quiet [OF assms(1)]) simp_all
    then show ?thesis using e Call_SetOption by (auto intro!: spawn_group split: prod.splits)
  next
    case (Permission_Request order req decision)
    then show ?thesis using e by (auto intro!: group_quiet [OF assms(1)])
  next
    case Step_Reader
    then show ?thesis using e step_reader_group assms(1) by auto
  next
    case (Step_Thread i)
    then show ?thesis using e step_thread_group assms(1) by auto
  next
    case (Advance p)
    then show ?thesis using e advance_frame by (intro group_quiet [OF assms(1)]) auto
  next
    case (Prompt_Reply i r now)
    then obtain q ops where "waiting i w = Some q" "w' = continue_with i ops w" "list_all no_bind ops"
      using e by (auto split: option.splits op.splits prompt_reply.splits if_splits)
    then show ?thesis using continue_group [OF assms(1)] by simp
  next
    case (Cancel_Reply i err)
    then obtain q ops where "waiting i w = Some q" "w' = continue_with i ops w" "list_all no_bind ops"
      using e by (auto split: option.splits op.splits if_splits)
    then show ?thesis using continue_group [OF assms(1)] by simp
  next
    case (Mode_Reply i err)
    then obtain m where m: "waiting i w = Some (Op_Await_Mode m)"
      using e by (auto split: option.splits op.splits)
    define v where "v = (if err = None then w\<lparr>w_driver := mode_applied m (w_driver w)\<rparr> else w)"
    have q: "w' = continue_with i [] v" "w_threads v = w_threads w"
      "d_orphanID (w_driver v) = d_orphanID (w_driver w)" "w_bound v = w_bound w" "w_reader v = w_reader w"
      using e Mode_Reply m by (simp_all add: v_def)
    have "group_inv v" by (rule group_quiet [OF assms(1)]) (use q in simp_all)
    moreover have "waiting i v = Some (Op_Await_Mode m)" using m waiting_cong [OF q(2)] by simp
    ultimately show ?thesis unfolding q(1) by (rule continue_group) simp
  next
    case (Option_Reply i r)
    then obtain k v0 ver ex where k: "waiting i w = Some (Op_Await_Option k v0 ver ex)"
      using e by (auto split: option.splits op.splits)
    define v where "v = (case r of Inl _ \<Rightarrow> w | Inr options \<Rightarrow>
        w\<lparr>w_driver := option_applied k v0 ver ex options (w_driver w),
          w_options := (case options of None \<Rightarrow> w_options w | Some os \<Rightarrow> map runtimeConfigOptionFromACP os)\<rparr>)"
    have q: "w' = continue_with i [] v" "w_threads v = w_threads w"
      "d_orphanID (w_driver v) = d_orphanID (w_driver w)" "w_bound v = w_bound w" "w_reader v = w_reader w"
      using e Option_Reply k by (simp_all add: v_def split: sum.splits)
    have "group_inv v" by (rule group_quiet [OF assms(1)]) (use q in simp_all)
    moreover have "waiting i v = Some (Op_Await_Option k v0 ver ex)" using k waiting_cong [OF q(2)] by simp
    ultimately show ?thesis unfolding q(1) by (rule continue_group) simp
  next
    case (Close_Reply i deleteErr disposeErr)
    then obtain q h where q: "waiting i w = Some q" "w' = continue_with i [] (w\<lparr>w_sessionHooks := h\<rparr>)"
      using e by (auto split: option.splits op.splits)
    have "group_inv (w\<lparr>w_sessionHooks := h\<rparr>)" by (rule group_quiet [OF assms(1)]) simp_all
    moreover have "waiting i (w\<lparr>w_sessionHooks := h\<rparr>) = Some q"
      using q(1) waiting_cong [of "w\<lparr>w_sessionHooks := h\<rparr>" w i] by simp
    ultimately show ?thesis unfolding q(2) by (rule continue_group) simp
  next
    case (Recv_Event p)
    then show ?thesis using e by (auto intro!: group_quiet [OF assms(1)] split: if_splits)
  next
    case (Recv_Completion p)
    then show ?thesis using e by (auto intro!: group_quiet [OF assms(1)] split: if_splits)
  next
    case Recv_Update
    then show ?thesis using e by (auto intro!: group_quiet [OF assms(1)] split: if_splits)
  qed
qed

lemma initial_group: "group_inv (initial_world (newACPSessionDriver b))"
  by (simp add: group_inv_def initial_world_def newACPSessionDriver_def Let_def resolveReadModelLimits_def)

interpretation orphans: step_invariant "exec_clean dec" group_inv
  by unfold_locales (rule exec_group)

end
