(* ===== verification/Driver_Props.thy ===== *)
theory Driver_Props
  imports Driver_Config
begin

text \<open>
  The properties of the session driver, over every reachable world: \<open>reach (exec dec)\<close> from the
  driver that \<open>newACPSessionDriver\<close> builds. The witnesses run a session of one turn.
\<close>

section \<open>A concrete session\<close>

definition demo_response :: new_session_response where
  "demo_response = \<lparr>nr_SessionID = ''s'', nr_Modes = None, nr_Models = None,
     nr_ConfigOptions = Some [\<lparr>so_Type = ''select'', so_ID = ''model'', so_Name = ''Model'',
       so_Description = None, so_Category = None, so_Value = Str ''a'', so_Options = [],
       so_Groups = [], so_Meta = []\<rparr>],
     nr_AvailableCommands = [], nr_Meta = []\<rparr>"

definition demo_initialize :: initialize_response where
  "demo_initialize = \<lparr>ir_ProtocolVersion = 1, ir_AgentInfo = None,
     ir_AgentCapabilities = \<lparr>ac_LoadSession = False, ac_Auth = [],
       ac_PromptCapabilities = \<lparr>pc_Audio = False, pc_Image = False, pc_EmbeddedContext = False\<rparr>,
       ac_MCPCapabilities = \<lparr>mc_HTTP = False, mc_SSE = False\<rparr>,
       ac_SessionCapabilities = \<lparr>sc_Close = None, sc_Fork = None, sc_List = None, sc_Resume = None,
         sc_AdditionalDirectories = None\<rparr>, ac_Meta = [], ac_Raw = []\<rparr>,
     ir_AuthMethods = [], ir_Meta = []\<rparr>"

definition demo_bootstrap :: session_bootstrap where
  "demo_bootstrap = \<lparr>bs_Agent = empty_agent, bs_CWD = ''/w'', bs_MCPServers = [],
     bs_InitializeResponse = demo_initialize, bs_SessionResponse = demo_response,
     bs_Profile = defaultAgentProfile, bs_QueuePolicy = ''buffer'',
     bs_ReadModelLimits = \<lparr>lim_MaxThreadEntries = 1, lim_MaxToolCallEntries = 1,
       lim_MaxPermissionEntries = 0\<rparr>\<rparr>"

definition demo_prompt :: runtime_prompt where
  "demo_prompt = \<lparr>pt_Messages = [], pt_Text = ''hi'', pt_Parts = []\<rparr>"

definition demo_env :: update_env where
  "demo_env = \<lparr>ue_now = 7, ue_now2 = 8, ue_order1 = [], ue_order2 = []\<rparr>"

definition demo_chunk :: session_notification where
  "demo_chunk = \<lparr>sn_SessionID = ''s'', sn_Update = empty_update
     \<lparr>su_SessionUpdate := ''agent_message_chunk'', su_Text := ''ok''\<rparr>,
     sn_UpdateID = [], sn_Terminal = False\<rparr>"

abbreviation demo_world :: world where
  "demo_world \<equiv> initial_world (newACPSessionDriver demo_bootstrap)"

abbreviation demo_dec :: "bytes \<Rightarrow> meta option option" where
  "demo_dec \<equiv> (\<lambda>_. None)"

text \<open>One turn: it starts, a chunk arrives, the prompt returns, the turn is finished.\<close>

definition demo_turn :: "action list" where
  "demo_turn = [Call_Start 1 demo_prompt, Step_Thread 0, Step_Thread 0,
     Deliver demo_env demo_chunk, Step_Reader, Prompt_Reply 0 (Prompt_Done ''end_turn'' None) 2,
     Step_Thread 0, Step_Thread 0, Advance 0, Advance 0, Advance 0, Advance 0, Advance 0]"

lemma demo_turn_result:
  "map_option (\<lambda>w. (w_panic w, map at_results (w_turns w), map at_once (w_turns w),
      map te_Text (d_thread (w_driver w)), d_status (w_driver w)))
     (run (exec demo_dec) demo_turn demo_world)
   = Some (False, [[\<lparr>tr_Completion = \<lparr>tn_TurnID = ''turn-1'', tn_OutputText = ''ok'',
       tn_StopReason = ''end_turn'', tn_Usage = None\<rparr>, tr_Err = None\<rparr>]], [Once_Done], [''ok''], ''ready'')"
  by code_simp

lemma demo_turn_run:
  obtains w where "run (exec demo_dec) demo_turn demo_world = Some w" "length (w_turns w) = 1"
    "length (d_thread (w_driver w)) = 1" "w_said w \<noteq> []"
proof -
  have "map_option (\<lambda>w. (length (w_turns w), length (d_thread (w_driver w)), w_said w \<noteq> []))
      (run (exec demo_dec) demo_turn demo_world) = Some (1, 1, True)"
    by code_simp
  then show ?thesis using that by auto
qed

section \<open>Turns\<close>

text \<open>C2. A turn ends once: in every reachable world a turn's completion channel has carried at
most one result, exactly one when it is closed; a turn is unfinished exactly while it is the
current one, so at most one turn is in flight; a finished turn has both channels closed; the
status is closed, or running exactly while a turn is in flight; and no step of finishing sends
on or closes a closed channel.\<close>

theorem turn_finished_once:
  assumes "reach (exec dec) (initial_world (newACPSessionDriver b)) w" "p < length (w_turns w)"
  shows "let t = w_turns w ! p; cur = d_currentTurn (w_driver w); st = d_status (w_driver w) in
     length (at_results t) \<le> 1
   \<and> (at_completionClosed t \<longrightarrow> length (at_results t) = 1)
   \<and> (at_once t = Once_New \<longleftrightarrow> cur = Some p)
   \<and> (at_once t = Once_Done \<longrightarrow> at_eventsClosed t \<and> at_completionClosed t)
   \<and> (st = ''closed'' \<or> st = (if cur = None then ''ready'' else ''running''))
   \<and> (\<forall>w'. exec dec (Advance p) w = Some w' \<longrightarrow> w_panic w' = w_panic w)"
proof -
  have inv: "driver_inv w" using driver.reachable [OF assms(1) initial_inv] .
  have ok: "turn_ok (w_turns w ! p)" using driver_turn_ok [OF inv assms(2)] .
  have panic: "\<forall>w'. exec dec (Advance p) w = Some w' \<longrightarrow> w_panic w' = w_panic w"
    using advance_inv [OF inv] by simp
  have cur: "at_once (w_turns w ! p) = Once_New \<longleftrightarrow> d_currentTurn (w_driver w) = Some p"
    "d_status (w_driver w) = ''closed'' \<or>
     d_status (w_driver w) = (if d_currentTurn (w_driver w) = None then ''ready'' else ''running'')"
    using inv assms(2) by (auto simp: driver_inv_def turns_inv_def)
  show ?thesis
    unfolding Let_def using ok panic cur
    by (cases "at_once (w_turns w ! p)") (auto simp: turn_ok_def)
qed

theorem turn_finished_once_witness:
  "\<exists>w. run (exec demo_dec) demo_turn demo_world = Some w \<and> length (at_results (w_turns w ! 0)) \<le> 1"
proof -
  obtain w where w: "run (exec demo_dec) demo_turn demo_world = Some w" "length (w_turns w) = 1"
    using demo_turn_run by blast
  have "length (at_results (w_turns w ! 0)) \<le> 1"
    using turn_finished_once [OF reach_run [OF w(1)], of 0] w(2) by (simp add: Let_def)
  then show ?thesis using w(1) by blast
qed






section \<open>Late updates\<close>

text \<open>
  The prompt has returned and its goroutine is about to finish the turn when a late chunk
  arrives: its handler has seen the turn still current, and sends after the channel is closed.
\<close>

definition late_update :: "action list" where
  "late_update = [Call_Start 1 demo_prompt, Step_Thread 0, Step_Thread 0,
     Prompt_Reply 0 (Prompt_Done ''end_turn'' None) 2,
     Deliver demo_env demo_chunk,
     Step_Thread 0, Step_Thread 0, Advance 0, Advance 0, Advance 0]"


lemma op_step_panic:
  assumes "op_step o' w = Some (next_ops, w')" "\<not> w_panic w" "w_panic w'"
  shows "\<exists>p e. o' = Op_Emit p e \<and> at_eventsClosed (w_turns w ! p)"
  using assms by (cases o') (auto simp: op_step_def emitTurnEvent_def Let_def split: if_splits prod.splits)

lemma exec_panic:
  assumes "driver_inv w" "\<not> w_panic w" "exec dec a w = Some w'" "w_panic w'"
  shows "\<exists>p e. at_eventsClosed (w_turns w ! p) \<and>
     (a = Step_Reader \<and> (\<exists>ops. w_reader w = Op_Emit p e # ops)
      \<or> (\<exists>i ops. a = Step_Thread i \<and> w_threads w ! i = Op_Emit p e # ops))"
proof (cases a)
  case Step_Reader
  then obtain o' ops next_ops v where r: "w_reader w = o' # ops" "op_step o' w = Some (next_ops, v)"
    "w_panic v" using assms(3,4) by (auto simp: step_reader_def split: list.splits)
  then show ?thesis using op_step_panic [OF r(2) assms(2) r(3)] Step_Reader by blast
next
  case (Step_Thread i)
  then obtain o' ops next_ops v where r: "w_threads w ! i = o' # ops" "op_step o' w = Some (next_ops, v)"
    "w_panic v" using assms(3,4) by (auto simp: step_thread_def split: list.splits if_splits)
  then show ?thesis using op_step_panic [OF r(2) assms(2) r(3)] Step_Thread by blast
next
  case (Advance p)
  then show ?thesis using advance_inv [OF assms(1)] assms(2-4) by simp
next
  case (Call_Start now prompt)
  then show ?thesis using assms(2-4) by (auto simp: StartTurn_def Let_def split: if_splits prod.splits)
next
  case (Deliver env n)
  then show ?thesis using assms(2-4)
    by (auto simp: handleSessionUpdate_def Let_def split: if_splits option.splits)
next
  case (Call_Close op' now)
  then show ?thesis using assms(2-4)
    by (auto simp: CloseOrDelete_def beginClose_def Let_def split: if_splits prod.splits)
next
  case (Call_Cancel turnID)
  then show ?thesis using assms(2-4) cancel_cases [of turnID w] by auto
next
  case (Mode_Reply i err)
  then show ?thesis using assms(2-4) by (auto split: option.splits op.splits if_splits)
next
  case (Option_Reply i r)
  then show ?thesis using assms(2-4) by (auto split: option.splits op.splits sum.splits)
qed (use assms(2-4) in \<open>auto split: option.splits op.splits prompt_reply.splits if_splits prod.splits\<close>)

text \<open>C17. That is the only way: the step that makes the runtime panic is the send of an
intermediate event, by the read loop or by the goroutine of \<open>StartTurn\<close>, to a turn whose events
channel a concurrent \<open>finishTurn\<close> has already closed.\<close>

theorem panic_only_from_late_emit:
  assumes "reach (exec dec) (initial_world (newACPSessionDriver b)) w" "\<not> w_panic w"
    and "exec dec a w = Some w'" "w_panic w'"
  shows "\<exists>p e. at_eventsClosed (w_turns w ! p) \<and>
     (a = Step_Reader \<and> (\<exists>ops. w_reader w = Op_Emit p e # ops)
      \<or> (\<exists>i ops. a = Step_Thread i \<and> w_threads w ! i = Op_Emit p e # ops))"
  using exec_panic [OF driver.reachable [OF assms(1) initial_inv] assms(2-4)] .

theorem panic_only_from_late_emit_witness:
  "\<exists>w p e. run (exec demo_dec) late_update demo_world = Some w
    \<and> at_eventsClosed (w_turns w ! p) \<and> (\<exists>ops. w_reader w = Op_Emit p e # ops)"
proof -
  have "map_option w_panic (run (exec demo_dec) late_update demo_world) = Some False"
    "map_option w_panic (Option.bind (run (exec demo_dec) late_update demo_world)
       (exec demo_dec Step_Reader)) = Some True"
    by code_simp+
  then obtain w w' where w: "run (exec demo_dec) late_update demo_world = Some w" "\<not> w_panic w"
    "exec demo_dec Step_Reader w = Some w'" "w_panic w'"
    by (auto simp del: exec.simps simp: bind_eq_Some_conv)
  then show ?thesis
    using panic_only_from_late_emit [OF reach_run [OF w(1)] w(2-4)] by blast
qed

section \<open>The read model\<close>

text \<open>C18. The read model is bounded and consistent in every reachable world: the thread and the
three tables respect their caps, the tool calls and operations have the same non-empty keys, and
an operation's phase is the phase of its tool call's status.\<close>

theorem read_model_bounded:
  assumes "reach (exec dec) (initial_world (newACPSessionDriver b)) w"
  shows "read_model_inv (w_driver w)"
  using capped.on_reach [OF assms] new_driver_inv by (simp add: initial_world_def)

theorem read_model_bounded_witness:
  "\<exists>w. run (exec demo_dec) demo_turn demo_world = Some w \<and> read_model_inv (w_driver w)"
  using demo_turn_run read_model_bounded [OF reach_run] by metis

text \<open>C19. The thread refines its specification: in every reachable world \<open>ThreadEntries\<close> is the
window of the last \<open>MaxThreadEntries\<close> (default 256, negative for all) of the messages of the
whole session.\<close>

theorem thread_is_window:
  assumes "reach (exec dec) (initial_world (newACPSessionDriver b)) w"
  shows "d_thread (w_driver w) =
     window (or_default (lim_MaxThreadEntries (bs_ReadModelLimits b)) DefaultMaxThreadEntries) (w_said w)"
proof -
  let ?d = "newACPSessionDriver b"
  let ?c = "or_default (lim_MaxThreadEntries (bs_ReadModelLimits b)) DefaultMaxThreadEntries"
  have c: "thread_cap ?d = ?c"
    by (simp add: thread_cap_def newACPSessionDriver_def resolveReadModelLimits_def Let_def or_default_def
        DefaultMaxThreadEntries_def)
  have "thread_cap ?d = ?c \<and> d_thread ?d = window (thread_cap ?d) []"
    using c by (simp add: newACPSessionDriver_def resolveReadModelLimits_def Let_def window_def)
  then have "thread_cap (w_driver w) = ?c \<and> d_thread (w_driver w) = window (thread_cap (w_driver w)) (w_said w)"
    using windowed.on_reach [OF assms, of ?c] by (simp add: initial_world_def)
  then show ?thesis by simp
qed

theorem thread_is_window_witness:
  "\<exists>w. run (exec demo_dec) demo_turn demo_world = Some w
    \<and> d_thread (w_driver w) = window 1 (w_said w) \<and> length (w_said w) = 2"
proof -
  have "map_option (\<lambda>w. length (w_said w)) (run (exec demo_dec) demo_turn demo_world) = Some 2" by code_simp
  then obtain w where w: "run (exec demo_dec) demo_turn demo_world = Some w" "length (w_said w) = 2" by auto
  have "d_thread (w_driver w) = window 1 (w_said w)"
    using thread_is_window [OF reach_run [OF w(1)]] by (simp add: demo_bootstrap_def or_default_def)
  then show ?thesis using w by blast
qed



section \<open>Orphans\<close>




end
