(* ===== verification/Tool_Props.thy ===== *)
theory Tool_Props
  imports Driver_Props
begin

text \<open>
  How the tool tables are pruned and patched: the functional behaviour of \<open>pruneToolCallsLocked\<close>
  for every map order, and two consequences the source does not announce.
\<close>

section \<open>Pruning\<close>

text \<open>Pruning the tool calls, in whatever order Go ranges over the map: under the cap nothing
changes; over it exactly \<open>cap\<close> calls remain, each unchanged, their operations with them; and an
unfinished call is dropped only when no finished call is left.\<close>

theorem prune_tool_calls_exact:
  assumes "tables_inv d" "d' = pruneToolCallsLocked order1 order2 d"
  shows "(tool_cap d < 0 \<or> int (length (d_toolCalls d)) \<le> tool_cap d \<longrightarrow> d' = d)
    \<and> (0 \<le> tool_cap d \<longrightarrow> int (length (d_toolCalls d')) = min (tool_cap d) (int (length (d_toolCalls d))))
    \<and> (\<exists>D. (\<forall>k. mget (d_toolCalls d') k = (if k \<in> D then None else mget (d_toolCalls d) k))
          \<and> (\<forall>k. mget (d_operations d') k = (if k \<in> D then None else mget (d_operations d) k)))
    \<and> (\<forall>k s j t. mget (d_toolCalls d) k = Some s \<and> \<not> finished_call s \<and> mget (d_toolCalls d') k = None
         \<and> mget (d_toolCalls d') j = Some t \<longrightarrow> \<not> finished_call t)"
proof -
  have wf: "mwf (d_toolCalls d)" using assms(1) by (simp add: tables_inv_def tables_ok_def)
  note P = prune_tool_calls_tables [OF wf assms(2)]
  obtain D where "d_toolCalls d' = restrict_map D (d_toolCalls d)"
    "d_operations d' = restrict_map D (d_operations d)" using P by blast
  then have "(\<forall>k. mget (d_toolCalls d') k = (if k \<in> D then None else mget (d_toolCalls d) k))
      \<and> (\<forall>k. mget (d_operations d') k = (if k \<in> D then None else mget (d_operations d) k))" by simp
  then show ?thesis using P by blast
qed

definition demo_call :: "string \<Rightarrow> string \<Rightarrow> session_update" where
  "demo_call k status = empty_update\<lparr>su_SessionUpdate := ''tool_call'', su_ToolCallID := k, su_Status := Some status\<rparr>"

abbreviation demo_driver :: acp_driver where
  "demo_driver \<equiv> newACPSessionDriver demo_bootstrap"

theorem prune_tool_calls_exact_witness:
  "int (length (d_toolCalls (pruneToolCallsLocked [] [] (apply_update demo_dec demo_env (demo_call ''a'' ''pending'') demo_driver)))) = 1"
proof -
  define d where "d = apply_update demo_dec demo_env (demo_call ''a'' ''pending'') demo_driver"
  have t: "tables_inv d" using apply_update_inv new_driver_inv by (simp add: d_def read_model_inv_def)
  have "tool_cap d = 1 \<and> length (d_toolCalls d) = 1" unfolding d_def by code_simp
  then show ?thesis
    using prune_tool_calls_exact [OF t refl, of "[]" "[]"] unfolding d_def [symmetric] by simp
qed

section \<open>Calls at the cap\<close>

lemma put_call_keeps_running:
  assumes "read_model_inv d" "0 \<le> tool_cap d" "int (length (d_toolCalls d)) = tool_cap d"
    and "\<forall>j s. mget (d_toolCalls d) j = Some s \<longrightarrow> \<not> finished_call s"
    and "k \<notin> mkeys (d_toolCalls d)" "finished_call s"
  shows "mget (d_toolCalls (put_call env k s p d)) k = None"
proof (rule ccontr)
  let ?d = "d\<lparr>d_toolCalls := mput k s (d_toolCalls d), d_operations := mput k p (d_operations d)\<rparr>"
  let ?e = "put_call env k s p d"
  assume kept: "mget (d_toolCalls ?e) k \<noteq> None"
  have wf: "mwf (d_toolCalls d)" using assms(1) by (simp add: read_model_inv_def tables_inv_def tables_ok_def)
  then have wf': "mwf (d_toolCalls ?d)" by simp
  have len: "length (d_toolCalls ?d) = Suc (length (d_toolCalls d))"
    using length_mput [OF wf, of k s] assms(5) by simp
  have e: "?e = pruneToolCallsLocked (ue_order1 env) (ue_order2 env) ?d" by (simp add: put_call_def)
  have cap: "tool_cap ?d = tool_cap d" by (simp add: tool_cap_def)
  note P = prune_tool_calls_tables [OF wf' e]
  obtain D where D: "d_toolCalls ?e = restrict_map D (d_toolCalls ?d)" using P by blast
  have small: "length (d_toolCalls ?e) = length (d_toolCalls d)"
    using P assms(2,3) len unfolding cap by simp
  have "mget (d_toolCalls ?e) k = Some s" using kept D by (auto split: if_splits)
  moreover have "\<exists>j t. mget (d_toolCalls ?d) j = Some t \<and> \<not> finished_call t \<and> mget (d_toolCalls ?e) j = None"
  proof (rule ccontr)
    assume none: "\<not> ?thesis"
    have "mkeys (d_toolCalls ?d) \<subseteq> mkeys (d_toolCalls ?e)"
    proof
      fix j assume j: "j \<in> mkeys (d_toolCalls ?d)"
      show "j \<in> mkeys (d_toolCalls ?e)"
      proof (cases "j = k")
        case True
        then show ?thesis using kept by (simp add: mget_eq_None)
      next
        case False
        have "mget (d_toolCalls d) j \<noteq> None" using j False unfolding mget_eq_None by auto
        then obtain t where t: "mget (d_toolCalls d) j = Some t" by blast
        have "mget (d_toolCalls ?d) j = Some t" using t False by simp
        moreover have "\<not> finished_call t" using t assms(4) by blast
        ultimately have "mget (d_toolCalls ?e) j \<noteq> None" using none by metis
        then show ?thesis unfolding mget_eq_None by blast
      qed
    qed
    then have "card (mkeys (d_toolCalls ?d)) \<le> card (mkeys (d_toolCalls ?e))" by (intro card_mono) auto
    moreover have "mwf (d_toolCalls ?e)" using D wf' by simp
    ultimately show False using mwf_card [OF wf'] mwf_card [of "d_toolCalls ?e"] len small by simp
  qed
  ultimately show False using P assms(6) by blast
qed

text \<open>A finished call can vanish as it arrives: when the table is full of unfinished calls, a
\<open>tool_call\<close> that is reported completed or failed is pruned in the same critical section that
stored it, and the \<open>operation_updated\<close> event that follows carries an empty call and operation.\<close>

theorem finished_call_lost_at_cap:
  assumes "read_model_inv (w_driver w)" "0 \<le> tool_cap (w_driver w)"
    and "int (length (d_toolCalls (w_driver w))) = tool_cap (w_driver w)"
    and "\<forall>j s. mget (d_toolCalls (w_driver w)) j = Some s \<longrightarrow> \<not> finished_call s"
    and "su_SessionUpdate (sn_Update n) = ''tool_call''" "su_ToolCallID (sn_Update n) = k" "k \<noteq> []"
    and "k \<notin> mkeys (d_toolCalls (w_driver w))"
    and "su_Status (sn_Update n) \<in> {Some ''completed'', Some ''failed''}"
    and "sn_SessionID n = d_sessionID (w_driver w)"
    and "d_currentTurn (w_driver w) = Some p" "\<not> at_dropIntermediate (w_turns w ! p)"
  shows "mget (d_toolCalls (w_driver (handleSessionUpdate dec env n w))) k = None
    \<and> w_reader (handleSessionUpdate dec env n w) = [Op_Read_Tool p k]
    \<and> (case op_step (Op_Read_Tool p k) (handleSessionUpdate dec env n w) of
         Some ([Op_Emit q e], w') \<Rightarrow> q = p \<and> tv_ToolCall e = Some zero_tool_call \<and> tv_Operation e = Some zero_operation
       | _ \<Rightarrow> False)"
proof -
  let ?w = "handleSessionUpdate dec env n w" and ?d = "w_driver w" and ?u = "sn_Update n"
  have drv: "w_driver ?w = apply_tool_call dec env ?u ?d"
    using assms(5,10) by (simp add: deliver_driver apply_update_def)
  have fin: "finished_call (tool_call_entry (ue_now env) ?u)"
    using assms(9) by (auto simp: finished_call_def tool_call_entry_def)
  obtain q where put: "w_driver ?w = put_call env k (tool_call_entry (ue_now env) ?u) q ?d"
    using assms(6,7) by (simp add: drv apply_tool_call_put)
  have none: "mget (d_toolCalls (w_driver ?w)) k = None"
    unfolding put by (rule put_call_keeps_running [OF assms(1-4,8) fin])
  have inv: "read_model_inv (w_driver ?w)"
    unfolding deliver_driver using assms(1) apply_update_inv by simp
  then have "mkeys (d_toolCalls (w_driver ?w)) = mkeys (d_operations (w_driver ?w))"
    by (simp add: read_model_inv_def tables_inv_def tables_ok_def)
  then have none': "mget (d_operations (w_driver ?w)) k = None" using none unfolding mget_eq_None by simp
  have rd: "w_reader ?w = [Op_Read_Tool p k]"
    using assms(5-7,10-12) by (simp add: handleSessionUpdate_def Let_def after_update_def is_text_update_def)
  show ?thesis using none none' rd by (simp add: op_step_def Let_def)
qed

definition full_table :: "action list" where
  "full_table = [Call_Start 1 demo_prompt,
     Deliver demo_env (demo_chunk\<lparr>sn_Update := demo_call ''a'' ''in_progress''\<rparr>), Step_Reader, Step_Reader]"

theorem finished_call_lost_at_cap_witness:
  "\<exists>w. run (exec demo_dec) full_table demo_world = Some w
    \<and> mget (d_toolCalls (w_driver (handleSessionUpdate demo_dec demo_env
        (demo_chunk\<lparr>sn_Update := demo_call ''b'' ''completed''\<rparr>) w))) ''b'' = None"
proof -
  have "map_option (\<lambda>w. (tool_cap (w_driver w), d_currentTurn (w_driver w), at_dropIntermediate (w_turns w ! 0),
        map (\<lambda>(k, s). (k, tc_Status s)) (d_toolCalls (w_driver w)), d_sessionID (w_driver w)))
      (run (exec demo_dec) full_table demo_world) = Some (1, Some 0, False, [(''a'', ''in_progress'')], ''s'')"
    by code_simp
  then obtain w where w: "run (exec demo_dec) full_table demo_world = Some w"
    "(tool_cap (w_driver w), d_currentTurn (w_driver w), at_dropIntermediate (w_turns w ! 0),
        map (\<lambda>(k, s). (k, tc_Status s)) (d_toolCalls (w_driver w)), d_sessionID (w_driver w))
      = (1, Some 0, False, [(''a'', ''in_progress'')], ''s'')"
    unfolding map_option_eq_Some by (elim exE conjE)
  then obtain s where s: "d_toolCalls (w_driver w) = [(''a'', s)]" "tc_Status s = ''in_progress''"
    by (auto simp: map_eq_Cons_conv)
  have inv: "read_model_inv (w_driver w)"
    using capped.on_reach [OF reach_run [OF w(1)]] new_driver_inv by (simp add: initial_world_def)
  have "mget (d_toolCalls (w_driver (handleSessionUpdate demo_dec demo_env
        (demo_chunk\<lparr>sn_Update := demo_call ''b'' ''completed''\<rparr>) w))) ''b'' = None"
    using finished_call_lost_at_cap [OF inv, of "demo_chunk\<lparr>sn_Update := demo_call ''b'' ''completed''\<rparr>" "''b''" 0 demo_dec demo_env]
      w(2) s by (simp add: finished_call_def demo_call_def demo_chunk_def)
  then show ?thesis using w(1) by (intro exI conjI)
qed

section \<open>Updates of unknown calls\<close>

text \<open>An update of a call that is not in the table (never announced, or pruned) creates an
entry without an identity: the snapshot and the operation get an empty id, and the operation an
empty kind, title and target, whatever the update says.\<close>

theorem unknown_call_update:
  assumes "tables_inv d" "su_ToolCallID u = k" "k \<noteq> []" "k \<notin> mkeys (d_toolCalls d)" "tool_cap d < 0"
  shows "\<exists>s q. mget (d_toolCalls (apply_tool_call_update env u d)) k = Some s
    \<and> mget (d_operations (apply_tool_call_update env u d)) k = Some q
    \<and> tc_ID s = [] \<and> tc_Kind s = or_blank (su_Kind u) \<and> tc_Title s = or_blank (su_Title u)
    \<and> op_ID q = [] \<and> op_Kind q = [] \<and> op_Title q = []
    \<and> op_Target q = \<lparr>ot_Type = [], ot_Value = []\<rparr>
    \<and> op_Phase q = operationPhase (or_blank (su_Status u))"
proof -
  have k: "k \<notin> mkeys (d_operations d)" using assms(1,4) by (simp add: tables_inv_def tables_ok_def)
  have none: "mget (d_toolCalls d) k = None" "mget (d_operations d) k = None"
    using assms(4) k unfolding mget_eq_None by simp_all
  have keep: "put_call env k s q d = d\<lparr>d_toolCalls := mput k s (d_toolCalls d), d_operations := mput k q (d_operations d)\<rparr>" for s q
    using assms(5) by (simp add: put_call_def pruneToolCallsLocked_def tool_cap_def Let_def)
  show ?thesis
    using assms(2,3) none
    by (simp add: apply_tool_call_update_put keep Let_def patch_tool_call_def zero_tool_call_def
        zero_operation_def split: option.split)
qed

theorem unknown_call_update_witness:
  "\<exists>q. mget (d_operations (apply_tool_call_update demo_env
        (empty_update\<lparr>su_ToolCallID := ''x'', su_Kind := Some ''edit''\<rparr>) (demo_driver\<lparr>d_maxToolCalls := -1\<rparr>))) ''x'' = Some q
    \<and> op_ID q = [] \<and> op_Kind q = []"
proof -
  have cap: "tool_cap (demo_driver\<lparr>d_maxToolCalls := -1\<rparr>) < 0" by (simp add: tool_cap_def or_default_def)
  have "read_model_inv demo_driver" by (rule new_driver_inv)
  then have "tables_inv (demo_driver\<lparr>d_maxToolCalls := -1\<rparr>)" by (simp add: read_model_inv_def tables_inv_def)
  moreover have "''x'' \<notin> mkeys (d_toolCalls (demo_driver\<lparr>d_maxToolCalls := -1\<rparr>))"
    by (simp add: newACPSessionDriver_def resolveReadModelLimits_def Let_def)
  ultimately show ?thesis
    using unknown_call_update [of "demo_driver\<lparr>d_maxToolCalls := -1\<rparr>"
        "empty_update\<lparr>su_ToolCallID := ''x'', su_Kind := Some ''edit''\<rparr>" "''x''" demo_env] cap
    by auto
qed

end
