(* ===== verification/Client_Side.thy ===== *)
theory Client_Side
  imports Read_Model
begin

text \<open>
  The client side of \<open>connection.go\<close>: what the runtime offers the agent. A host's handlers are
  opaque closures: a number names one, and \<open>None\<close> is nil. The typed wrappers that forward one
  request to \<open>Peer.Call\<close> are not here: their replies are arguments of the operations that call
  them (Session_Service, Session_Driver).
\<close>

record authority_handlers =
  ah_Permission :: "nat option"
  ah_Filesystem :: "nat option"
  ah_Terminal :: "nat option"

definition no_handlers :: authority_handlers where
  "no_handlers = \<lparr>ah_Permission = None, ah_Filesystem = None, ah_Terminal = None\<rparr>"

record runtime_options =
  opt_ClientInfo :: implementation
  opt_HomeDir :: string
  opt_CacheDir :: string
  opt_StoredSessionsEnabled :: bool
  opt_AuthenticationHandler :: bool
  opt_AuthorityHandlers :: authority_handlers
  opt_OnSessionEvent :: bool
  opt_ReadModelLimits :: read_model_limits

record client =
  cl_Info :: implementation
  cl_Capabilities :: client_capabilities
  cl_Authority :: authority_handlers

section \<open>Capabilities\<close>

definition or_handler :: "nat option \<Rightarrow> nat option \<Rightarrow> nat option" where
  "or_handler h fallback = (if h = None then fallback else h)"

text \<open>Every handler of the session falls back to the runtime's.\<close>

definition defaultClient :: "runtime_options \<Rightarrow> authority_handlers \<Rightarrow> client" where
  "defaultClient options handlers =
     (let info = (if im_Name (opt_ClientInfo options) = []
                  then \<lparr>im_Name = ''acp-runtime-go'', im_Version = ''0.1.0''\<rparr>
                  else opt_ClientInfo options);
          host = opt_AuthorityHandlers options;
          h = \<lparr>ah_Permission = or_handler (ah_Permission handlers) (ah_Permission host),
               ah_Filesystem = or_handler (ah_Filesystem handlers) (ah_Filesystem host),
               ah_Terminal = or_handler (ah_Terminal handlers) (ah_Terminal host)\<rparr>
      in \<lparr>cl_Info = info,
          cl_Capabilities = \<lparr>cc_Terminal = (ah_Terminal h \<noteq> None),
            cc_FS = \<lparr>fc_ReadTextFile = (ah_Filesystem h \<noteq> None),
                     fc_WriteTextFile = (ah_Filesystem h \<noteq> None)\<rparr>,
            cc_Meta = []\<rparr>,
          cl_Authority = h\<rparr>)"

text \<open>The request methods \<open>NewConnectionWithObservability\<close> registers with the peer.\<close>

definition registered_methods :: "client \<Rightarrow> string list" where
  "registered_methods c =
     ''session/request_permission'' #
     (if ah_Filesystem (cl_Authority c) \<noteq> None
      then [''fs/read_text_file'', ''fs/write_text_file''] else []) @
     (if ah_Terminal (cl_Authority c) \<noteq> None
      then [''terminal/create'', ''terminal/output'', ''terminal/wait_for_exit'', ''terminal/kill'',
            ''terminal/release''] else [])"

section \<open>Permissions\<close>

definition defaultDenyPermissionDecision :: "permission_request \<Rightarrow> permission_decision" where
  "defaultDenyPermissionDecision req =
     (case List.find (\<lambda>o'. has_prefix (po_Kind o') ''reject'') (pr_Options req) of
        Some o' \<Rightarrow> \<lparr>pd_Outcome = ''selected'', pd_OptionID = po_ID o'\<rparr>
      | None \<Rightarrow> \<lparr>pd_Outcome = ''cancelled'', pd_OptionID = []\<rparr>)"

text \<open>
  The handler of \<open>session/request_permission\<close>: \<open>decoded\<close> is \<open>json.Unmarshal\<close>'s result and
  \<open>authority\<close> the host's handler. The result is the response and what the observer is told.
\<close>

definition answer_permission ::
  "(permission_request \<Rightarrow> go_error + permission_decision) option \<Rightarrow> go_error + permission_request \<Rightarrow>
   go_error + permission_decision \<times> (permission_request \<times> permission_decision)" where
  "answer_permission authority decoded = bind_result decoded (\<lambda>req.
     bind_result (case authority of
         Some h \<Rightarrow> h req
       | None \<Rightarrow> Inr (defaultDenyPermissionDecision req)) (\<lambda>decision.
     Inr (decision, (req, decision))))"

section \<open>Observability and environment\<close>

definition shouldCaptureProtocolErrorRaw :: "string \<Rightarrow> bool" where
  "shouldCaptureProtocolErrorRaw mode \<longleftrightarrow> to_lower (trim_space mode) \<in> {''all'', ''full'', ''raw''}"

text \<open>
  \<open>envSlice\<close>: \<open>environ\<close> is \<open>os.Environ()\<close>, \<open>order\<close> the order in which \<open>range\<close> visits the
  merged map. An item without \<open>=\<close> is dropped.
\<close>

fun split_item :: "string \<Rightarrow> (string \<times> string) option" where
  "split_item [] = None"
| "split_item (c # s) = (if c = CHR ''='' then Some ([], s)
     else map_option (\<lambda>(k, v). (c # k, v)) (split_item s))"

definition merge_environ :: "string list \<Rightarrow> string gomap" where
  "merge_environ environ =
     fold (\<lambda>item m. case split_item item of None \<Rightarrow> m | Some (k, v) \<Rightarrow> mput k v m) environ []"

definition envSlice :: "string list \<Rightarrow> string list \<Rightarrow> string gomap \<Rightarrow> string list" where
  "envSlice environ order env =
     (if env = [] then environ
      else let merged = mput_all (merge_environ environ) env in
        map (\<lambda>k. k @ ''='' @ or_blank (mget merged k)) (range_order order merged))"

section \<open>Properties\<close>

text \<open>Permission requests fail closed: without a host authority the answer is never an option
that is not a rejection; it selects the first option whose kind starts with reject, and cancels
when the agent offers none.\<close>

theorem permission_fails_closed:
  "case answer_permission None (Inr req) of
     Inl e \<Rightarrow> False
   | Inr (d, seen) \<Rightarrow> seen = (req, d) \<and>
       (if \<exists>o'\<in>set (pr_Options req). has_prefix (po_Kind o') ''reject''
        then pd_Outcome d = ''selected'' \<and>
          (\<exists>xs o' ys. pr_Options req = xs @ o' # ys \<and> pd_OptionID d = po_ID o'
             \<and> has_prefix (po_Kind o') ''reject''
             \<and> filter (\<lambda>x. has_prefix (po_Kind x) ''reject'') xs = [])
        else d = \<lparr>pd_Outcome = ''cancelled'', pd_OptionID = []\<rparr>)"
proof (cases "\<exists>o'\<in>set (pr_Options req). has_prefix (po_Kind o') ''reject''")
  case False
  then have "List.find (\<lambda>o'. has_prefix (po_Kind o') ''reject'') (pr_Options req) = None"
    by (simp add: find_None_iff)
  with False show ?thesis
    by (simp add: answer_permission_def defaultDenyPermissionDecision_def)
next
  case True
  obtain xs o' ys where split: "pr_Options req = xs @ o' # ys" "has_prefix (po_Kind o') ''reject''"
    "\<forall>x\<in>set xs. \<not> has_prefix (po_Kind x) ''reject''"
    using split_list_first_prop [OF True] by blast
  have "List.find (\<lambda>o'. has_prefix (po_Kind o') ''reject'') (xs @ o' # ys) = Some o'"
    using split(2,3) by (induction xs) auto
  then have d: "answer_permission None (Inr req)
      = Inr (\<lparr>pd_Outcome = ''selected'', pd_OptionID = po_ID o'\<rparr>,
             (req, \<lparr>pd_Outcome = ''selected'', pd_OptionID = po_ID o'\<rparr>))"
    by (simp add: answer_permission_def defaultDenyPermissionDecision_def split(1))
  have "filter (\<lambda>x. has_prefix (po_Kind x) ''reject'') xs = []"
    using split(3) by (simp add: filter_empty_conv)
  with True split(1,2) d show ?thesis by simp blast
qed

text \<open>What the client announces is what it serves.\<close>

lemma announced_iff_registered:
  "cc_Terminal (cl_Capabilities (defaultClient opts h)) \<longleftrightarrow>
     ''terminal/create'' \<in> set (registered_methods (defaultClient opts h))"
  "fc_ReadTextFile (cc_FS (cl_Capabilities (defaultClient opts h))) \<longleftrightarrow>
     ''fs/read_text_file'' \<in> set (registered_methods (defaultClient opts h))"
  by (simp_all add: defaultClient_def registered_methods_def Let_def)

end
