(* ===== verification/Session_Service.thy ===== *)
theory Session_Service
  imports Client_Side Orphans
begin

text \<open>
  \<open>session_service.go\<close>: creating, loading, resuming, forking and listing sessions.

  \<^item> What a call does outside this process is recorded as an \<open>event\<close>; the trace of events is the
    only state of an operation until it has a driver. The connection factory, the agent and the
    host's authentication handler are the fields of \<open>service_env\<close>: each reply is a function of
    the trace, whose last event is the request, so an environment may answer anything at any time.
  \<^item> While the initial configuration is applied, the read loop handles updates and permission
    requests. \<open>se_interference\<close> says which of them get in before each acquisition of the
    driver's mutex (\<open>sync\<close>). No turn exists yet: the driver has not been returned.
  \<^item> Timeouts are replies: a cancelled context is an error of the call.
\<close>

section \<open>Events and environment\<close>

datatype event =
    Ev_Factory agent client string
  | Ev_Initialize initialize_request
  | Ev_Authenticate string
  | Ev_Ask_Host "runtime_auth_method list"
  | Ev_New new_session_request
  | Ev_Load open_session_request
  | Ev_Resume open_session_request
  | Ev_Fork open_session_request
  | Ev_List list_sessions_request
  | Ev_Set_Mode string string
  | Ev_Set_Option set_config_option_request
  | Ev_Close string
  | Ev_Delete string
  | Ev_Dispose
  | Ev_Hook string string string "go_error option"

datatype interference =
    Got_Update update_env session_notification
  | Got_Permission "string list" permission_request permission_decision

record service_env =
  se_dec :: "bytes \<Rightarrow> meta option option"
  se_enc :: "meta option \<Rightarrow> string + bytes"
  se_rpc_text :: "rpc_error \<Rightarrow> string"
  se_has_dispose :: bool
  se_error :: "event list \<Rightarrow> go_error option"
  se_initialize :: "event list \<Rightarrow> go_error + initialize_response"
  se_decision :: "event list \<Rightarrow> go_error + string"
  se_session :: "event list \<Rightarrow> go_error + new_session_response"
  se_option :: "event list \<Rightarrow> go_error + session_config_option list option"
  se_sessions :: "event list \<Rightarrow> go_error + list_sessions_response"
  se_interference :: "event list \<Rightarrow> nat \<Rightarrow> interference list"

text \<open>\<open>runSessionCleanup(handle.Dispose)\<close> with its error ignored; a nil \<open>Dispose\<close> does nothing.\<close>

definition dispose :: "service_env \<Rightarrow> event list \<Rightarrow> event list" where
  "dispose E trace = (if se_has_dispose E then trace @ [Ev_Dispose] else trace)"

definition hook :: "runtime_options \<Rightarrow> string \<Rightarrow> string \<Rightarrow> string \<Rightarrow> go_error option \<Rightarrow> event list \<Rightarrow> event list" where
  "hook opts ty sid agentType err trace =
     (if opt_OnSessionEvent opts then trace @ [Ev_Hook ty sid agentType err] else trace)"

section \<open>Bootstrap\<close>

definition ProtocolVersion :: int where "ProtocolVersion = 1"

definition applyRuntimeEnvironment :: "agent \<Rightarrow> runtime_options \<Rightarrow> agent" where
  "applyRuntimeEnvironment agent opts =
     (if opt_HomeDir opts = [] \<and> opt_CacheDir opts = [] then agent
      else let env = mput_all [] (ag_env agent);
           env = (if opt_HomeDir opts \<noteq> []
                  then mput ''ACP_RUNTIME_HOME_DIR'' (opt_HomeDir opts) (mput ''HOME'' (opt_HomeDir opts) env)
                  else env);
           env = (if opt_CacheDir opts \<noteq> []
                  then mput ''ACP_RUNTIME_CACHE_DIR'' (opt_CacheDir opts) env else env)
      in agent\<lparr>ag_Env := Some env\<rparr>)"

definition send_authenticate :: "service_env \<Rightarrow> string \<Rightarrow> event list \<Rightarrow> go_error option \<times> event list" where
  "send_authenticate E methodID trace =
     (let trace = trace @ [Ev_Authenticate methodID]; err = se_error E trace in
      if err \<noteq> None \<and> \<not> isAuthenticationNotImplemented (se_rpc_text E) err
      then (Some (wrapError ErrorAuthentication ''authenticate'' ''agent authentication failed'' err), trace)
      else (None, trace))"

definition authenticate_agent ::
  "service_env \<Rightarrow> runtime_options \<Rightarrow> agent_profile \<Rightarrow> initialize_response \<Rightarrow> event list \<Rightarrow>
   go_error option \<times> event list" where
  "authenticate_agent E opts profile resp trace =
     (let methods = NormalizeInitializeAuthMethods profile (ir_AuthMethods resp);
          runtimeMethods = NormalizeRuntimeAuthMethods profile (runtimeAuthMethodsFromACP methods) in
      if runtimeMethods = [] then (None, trace)
      else
        let automatic = (if opt_AuthenticationHandler opts then None
              else case selectRuntimeAuthenticationMethod runtimeMethods of
                None \<Rightarrow> None
              | Some m \<Rightarrow> if ra_Type m = ''agent'' \<or> ra_Type m = [] then Some (ra_ID m) else None) in
        case automatic of
          Some methodID \<Rightarrow> send_authenticate E methodID trace
        | None \<Rightarrow>
            if opt_AuthenticationHandler opts then
              (let trace = trace @ [Ev_Ask_Host runtimeMethods] in
               case se_decision E trace of
                 Inl err \<Rightarrow> (Some err, trace)
               | Inr methodID \<Rightarrow> if methodID \<noteq> [] then send_authenticate E methodID trace else (None, trace))
            else (None, trace))"

definition no_response :: new_session_response where
  "no_response = \<lparr>nr_SessionID = [], nr_Modes = None, nr_Models = None, nr_ConfigOptions = None,
     nr_AvailableCommands = [], nr_Meta = []\<rparr>"

definition version_text :: "int \<Rightarrow> string" where
  "version_text v = ''agent speaks ACP protocol version '' @ int_decimal v
     @ ''; this runtime supports up to '' @ int_decimal ProtocolVersion"

definition bootstrap ::
  "service_env \<Rightarrow> runtime_options \<Rightarrow> agent \<Rightarrow> string \<Rightarrow> mcp_server list \<Rightarrow> authority_handlers \<Rightarrow>
   agent_profile \<Rightarrow> (go_error + session_bootstrap) \<times> event list" where
  "bootstrap E opts agent cwd mcp handlers profile =
     (let agent = applyRuntimeEnvironment agent opts;
          client = defaultClient opts handlers;
          trace = [Ev_Factory agent client cwd] in
      case se_error E trace of
        Some err \<Rightarrow> (Inl err, trace)
      | None \<Rightarrow>
          (let trace = trace @ [Ev_Initialize \<lparr>iq_ProtocolVersion = ProtocolVersion,
                       iq_ClientInfo = Some (cl_Info client),
                       iq_ClientCapabilities = cl_Capabilities client, iq_Meta = []\<rparr>] in
           case se_initialize E trace of
             Inl err \<Rightarrow> (Inl err, dispose E trace)
           | Inr resp \<Rightarrow>
               if ir_ProtocolVersion resp > ProtocolVersion
               then (Inl (wrapError ErrorProtocol ''initialize''
                            (version_text (ir_ProtocolVersion resp)) None), dispose E trace)
               else case authenticate_agent E opts profile resp trace of
                 (Some err, trace) \<Rightarrow> (Inl err, dispose E trace)
               | (None, trace) \<Rightarrow>
                   (Inr \<lparr>bs_Agent = agent, bs_CWD = cwd, bs_MCPServers = mcp,
                         bs_InitializeResponse = resp, bs_SessionResponse = no_response,
                         bs_Profile = profile, bs_QueuePolicy = [],
                         bs_ReadModelLimits = opt_ReadModelLimits opts\<rparr>, trace)))"

definition resolveQueuePolicy :: "string \<Rightarrow> string" where
  "resolveQueuePolicy input =
     (let delivery = to_lower (trim_space input) in if delivery = [] then ''buffer'' else delivery)"

section \<open>The driver while it is configured\<close>

record configuring =
  cg_driver :: acp_driver
  cg_log :: "event list"
  cg_tick :: nat

fun interfere :: "(bytes \<Rightarrow> meta option option) \<Rightarrow> interference \<Rightarrow> acp_driver \<Rightarrow> acp_driver" where
  "interfere dec (Got_Update env n) d =
     (if sn_SessionID n \<noteq> [] \<and> sn_SessionID n \<noteq> d_sessionID d then d
      else snd (snd (bindOrphanUpdate n (apply_update dec env (sn_Update n) d))))"
| "interfere dec (Got_Permission order req decision) d = recordPermission order req decision d"

definition sync :: "service_env \<Rightarrow> configuring \<Rightarrow> configuring" where
  "sync E c = c\<lparr>cg_driver := fold (interfere (se_dec E)) (se_interference E (cg_log c) (cg_tick c)) (cg_driver c),
     cg_tick := Suc (cg_tick c)\<rparr>"

text \<open>The deferred \<open>endConfigChange\<close>.\<close>

definition end_change :: "service_env \<Rightarrow> configuring \<Rightarrow> configuring" where
  "end_change E c = (let c = sync E c in c\<lparr>cg_driver := endConfigChange (cg_driver c)\<rparr>)"

definition SetAgentMode :: "service_env \<Rightarrow> string \<Rightarrow> configuring \<Rightarrow> go_error option \<times> configuring" where
  "SetAgentMode E modeID c =
     (let c = sync E c;
          (_, d) = beginConfigChange (cg_driver c);
          c = c\<lparr>cg_driver := d, cg_log := cg_log c @ [Ev_Set_Mode (d_sessionID d) modeID]\<rparr> in
      case se_error E (cg_log c) of
        Some err \<Rightarrow> (Some err, end_change E c)
      | None \<Rightarrow>
          (let c = sync E c in
           (None, end_change E (c\<lparr>cg_driver := mode_applied modeID (cg_driver c)\<rparr>))))"

definition SetAgentConfigOption ::
  "service_env \<Rightarrow> string \<Rightarrow> any \<Rightarrow> configuring \<Rightarrow> go_error option \<times> configuring" where
  "SetAgentConfigOption E key value c =
     (let c = sync E c;
          ((version, exclusive), d) = beginConfigChange (cg_driver c);
          c = c\<lparr>cg_driver := d, cg_log := cg_log c @ [Ev_Set_Option
                 \<lparr>sr_SessionID = d_sessionID d, sr_OptionID = key, sr_Value = value, sr_Meta = []\<rparr>]\<rparr> in
      case se_option E (cg_log c) of
        Inl err \<Rightarrow> (Some err, end_change E c)
      | Inr options \<Rightarrow>
          (let c = sync E c in
           (None, end_change E (c\<lparr>cg_driver := option_applied key value version exclusive options (cg_driver c)\<rparr>))))"

section \<open>Initial configuration\<close>

definition initialConfigOptionEqual :: "acp_driver \<Rightarrow> string \<Rightarrow> any \<Rightarrow> bool" where
  "initialConfigOptionEqual d key value \<longleftrightarrow>
     d_configOptionsCurrent d \<and> d_configChangesPending d = 0 \<and> value \<noteq> Nil_Value \<and>
     (case List.find (\<lambda>o'. ro_ID o' = key) (md_AgentConfigOptions (d_metadata d)) of
        None \<Rightarrow> False
      | Some o' \<Rightarrow> ro_Value o' \<noteq> Nil_Value \<and> deep_equal (ro_Value o') value)"

definition selectInitialConfigOption :: "runtime_config_option list \<Rightarrow> agent_profile \<Rightarrow> string \<Rightarrow> string" where
  "selectInitialConfigOption options profile key =
     (let selector = CreateInitialConfigOptionSelector profile key in
      case List.find (\<lambda>o'. list_ex (equal_fold (ro_ID o')) (cs_IDs selector)
                        \<or> list_ex (equal_fold (ro_Category o')) (cs_Categories selector)) options of
        None \<Rightarrow> []
      | Some o' \<Rightarrow> ro_ID o')"

definition initialConfigAliases :: "agent_profile \<Rightarrow> string \<Rightarrow> any \<Rightarrow> any list" where
  "initialConfigAliases profile key value =
     (let aliases = CreateInitialConfigAliases profile key value in
      if aliases = [] then [value] else aliases)"

fun try_modes ::
  "service_env \<Rightarrow> string \<Rightarrow> any list \<Rightarrow> go_error option \<Rightarrow> configuring \<Rightarrow> (go_error + string) \<times> configuring" where
  "try_modes E mode [] lastErr c =
     (case lastErr of
        Some err \<Rightarrow> (Inl err, c)
      | None \<Rightarrow> (case SetAgentMode E mode c of
          (Some err, c) \<Rightarrow> (Inl err, c)
        | (None, c) \<Rightarrow> (Inr [], c)))"
| "try_modes E mode (alias # aliases) lastErr c =
     (case as_string alias of
        None \<Rightarrow> try_modes E mode aliases lastErr c
      | Some modeID \<Rightarrow>
          if trim_space modeID = [] then try_modes E mode aliases lastErr c
          else
            let c = sync E c in
            if lastErr = None \<and> d_configChangesPending (cg_driver c) = 0
               \<and> md_CurrentModeID (d_metadata (cg_driver c)) = modeID
            then (Inr modeID, c)
            else case SetAgentMode E modeID c of
                   (Some err, c) \<Rightarrow> try_modes E mode aliases (Some err) c
                 | (None, c) \<Rightarrow> (Inr modeID, c))"

definition applyInitialConfigMode ::
  "service_env \<Rightarrow> string \<Rightarrow> agent_profile \<Rightarrow> configuring \<Rightarrow> (go_error + string) \<times> configuring" where
  "applyInitialConfigMode E mode profile c =
     try_modes E mode (initialConfigAliases profile ''mode'' (Str mode)) None c"

fun try_options ::
  "service_env \<Rightarrow> string \<Rightarrow> any \<Rightarrow> string \<Rightarrow> any list \<Rightarrow> go_error option \<Rightarrow> configuring \<Rightarrow>
   (go_error + initial_config_item) \<times> configuring" where
  "try_options E key value optionID [] lastErr c =
     (case lastErr of
        Some err \<Rightarrow> (Inl err, c)
      | None \<Rightarrow> (Inr \<lparr>ii_Key = key, ii_ID = [], ii_Value = value, ii_Reason = ''option_not_applied''\<rparr>, c))"
| "try_options E key value optionID (alias # aliases) lastErr c =
     (let c = sync E c;
          item = \<lparr>ii_Key = key, ii_ID = optionID, ii_Value = alias, ii_Reason = []\<rparr> in
      if initialConfigOptionEqual (cg_driver c) optionID alias then (Inr item, c)
      else case SetAgentConfigOption E optionID alias c of
             (Some err, c) \<Rightarrow> try_options E key value optionID aliases (Some err) c
           | (None, c) \<Rightarrow> (Inr item, c))"

definition applyInitialConfigOption ::
  "service_env \<Rightarrow> agent_profile \<Rightarrow> string \<Rightarrow> any \<Rightarrow> configuring \<Rightarrow>
   (go_error + initial_config_item) \<times> configuring" where
  "applyInitialConfigOption E profile key value c =
     (let c = sync E c;
          optionID = selectInitialConfigOption (md_AgentConfigOptions (d_metadata (cg_driver c))) profile key in
      if optionID = []
      then (Inr \<lparr>ii_Key = key, ii_ID = [], ii_Value = value, ii_Reason = ''option_not_found''\<rparr>, c)
      else try_options E key value optionID (initialConfigAliases profile key value) None c)"

fun apply_raw ::
  "service_env \<Rightarrow> (string \<times> any) list \<Rightarrow> initial_config_item list \<Rightarrow> configuring \<Rightarrow>
   (go_error + initial_config_item list) \<times> configuring" where
  "apply_raw E [] report c = (Inr report, c)"
| "apply_raw E ((key, value) # ps) report c =
     (let c = sync E c;
          report' = report @ [\<lparr>ii_Key = key, ii_ID = key, ii_Value = value, ii_Reason = []\<rparr>] in
      if initialConfigOptionEqual (cg_driver c) key value then apply_raw E ps report' c
      else case SetAgentConfigOption E key value c of
             (Some err, c) \<Rightarrow> (Inl err, c)
           | (None, c) \<Rightarrow> apply_raw E ps report' c)"

text \<open>Stop at an error, else go on with the value.\<close>

definition and_then ::
  "('e + 'a) \<times> 's \<Rightarrow> ('a \<Rightarrow> 's \<Rightarrow> ('e + 'b) \<times> 's) \<Rightarrow> ('e + 'b) \<times> 's" where
  "and_then r f = (case r of (Inl e, s) \<Rightarrow> (Inl e, s) | (Inr x, s) \<Rightarrow> f x s)"

definition apply_mode ::
  "service_env \<Rightarrow> initial_config \<Rightarrow> agent_profile \<Rightarrow> configuring \<Rightarrow>
   (go_error + initial_config_item list) \<times> configuring" where
  "apply_mode E config profile c =
     (case as_string (ic_Mode config) of
        None \<Rightarrow> (Inr [], c)
      | Some mode \<Rightarrow> and_then (applyInitialConfigMode E mode profile c) (\<lambda>applied c.
          (Inr [\<lparr>ii_Key = ''mode'', ii_ID = ''mode'', ii_Value = Str applied, ii_Reason = []\<rparr>], c)))"

definition apply_option ::
  "service_env \<Rightarrow> agent_profile \<Rightarrow> string \<Rightarrow> any \<Rightarrow> initial_config_item list \<Rightarrow> configuring \<Rightarrow>
   (go_error + initial_config_item list) \<times> configuring" where
  "apply_option E profile key value report c =
     (if value = Nil_Value then (Inr report, c)
      else and_then (applyInitialConfigOption E profile key value c) (\<lambda>item c. (Inr (report @ [item]), c)))"

text \<open>\<open>order\<close> is the order in which \<open>range\<close> visits \<open>config.Raw\<close>.\<close>

definition applyInitialConfig ::
  "service_env \<Rightarrow> string list \<Rightarrow> initial_config \<Rightarrow> agent_profile \<Rightarrow> configuring \<Rightarrow>
   (go_error + initial_config_item list) \<times> configuring" where
  "applyInitialConfig E order config profile c =
     and_then (apply_mode E config profile c) (\<lambda>report c.
     and_then (apply_option E profile ''model'' (ic_Model config) report c) (\<lambda>report c.
     and_then (apply_option E profile ''effort'' (ic_Effort config) report c) (\<lambda>report c.
       apply_raw E (map (\<lambda>k. (k, case mget (ic_Raw config) k of None \<Rightarrow> Nil_Value | Some v \<Rightarrow> v))
                      (range_order order (ic_Raw config))) report c)))"

section \<open>Giving up\<close>

text \<open>
  \<open>driver.Close\<close> and \<open>driver.Delete\<close> as cleanup: there is no turn to finish, and nobody holds
  the updates channel, so only the calls, the hook and the error remain.
\<close>

definition dispose_error :: "service_env \<Rightarrow> event list \<Rightarrow> go_error option" where
  "dispose_error E trace = (if se_has_dispose E then se_error E (trace @ [Ev_Dispose]) else None)"

definition cleanup_close ::
  "service_env \<Rightarrow> runtime_options \<Rightarrow> acp_driver \<Rightarrow> event list \<Rightarrow> go_error option \<times> event list" where
  "cleanup_close E opts d trace =
     (let trace = trace @ [Ev_Close (d_sessionID d)]; err = dispose_error E trace in
      (err, hook opts ''closed'' (d_sessionID d) (ag_Type (d_agent d)) err (dispose E trace)))"

definition cleanup_delete ::
  "service_env \<Rightarrow> runtime_options \<Rightarrow> acp_driver \<Rightarrow> event list \<Rightarrow> go_error option \<times> event list" where
  "cleanup_delete E opts d trace =
     (let trace = trace @ [Ev_Delete (d_sessionID d)];
          err = errors_join [se_error E trace, dispose_error E trace] in
      (err, hook opts ''deleted'' (d_sessionID d) (ag_Type (d_agent d)) err (dispose E trace)))"

definition config_error :: "go_error \<Rightarrow> string \<Rightarrow> cleanup_status \<Rightarrow> go_error option \<Rightarrow> go_error" where
  "config_error cause sid status cleanupErr =
     Runtime_Error ErrorInitialConfig ''session.initial_config'' ''failed to apply initial config''
       (Some cause) sid status cleanupErr"

section \<open>Opening a session\<close>

text \<open>The shared part: bootstrap, then one request; a refused request disposes of the connection.\<close>

definition open_connection ::
  "service_env \<Rightarrow> (go_error + session_bootstrap) \<times> event list \<Rightarrow> event \<Rightarrow> (go_error \<Rightarrow> go_error) \<Rightarrow>
   (go_error \<Rightarrow> go_error) \<Rightarrow> string \<Rightarrow> (go_error + session_bootstrap) \<times> event list" where
  "open_connection E start request boot_error open_error queue =
     (case start of
        (Inl err, trace) \<Rightarrow> (Inl (boot_error err), trace)
      | (Inr b, trace) \<Rightarrow>
          (let trace = trace @ [request] in
           case se_session E trace of
             Inl err \<Rightarrow> (Inl (open_error err), dispose E trace)
           | Inr resp \<Rightarrow> (Inr (b\<lparr>bs_QueuePolicy := queue, bs_SessionResponse := resp\<rparr>), trace)))"

definition new_request :: "start_session_options \<Rightarrow> meta \<Rightarrow> new_session_request" where
  "new_request input sessionMeta =
     \<lparr>nq_CWD = st_CWD input, nq_MCPServers = or_empty (st_MCPServers input),
      nq_AdditionalDirectories = st_AdditionalDirectories input, nq_Meta = sessionMeta\<rparr>"

definition open_request :: "load_session_options \<Rightarrow> meta \<Rightarrow> open_session_request" where
  "open_request input sessionMeta =
     \<lparr>nq_CWD = st_CWD input, nq_MCPServers = or_empty (st_MCPServers input),
      nq_AdditionalDirectories = st_AdditionalDirectories input, nq_Meta = sessionMeta,
      oq_SessionID = st_SessionID input\<rparr>"

definition create_prepared ::
  "service_env \<Rightarrow> runtime_options \<Rightarrow> authority_handlers \<Rightarrow> string list \<Rightarrow> start_session_options \<Rightarrow>
   agent_profile \<Rightarrow> agent \<Rightarrow> meta \<Rightarrow> (go_error + acp_driver) \<times> event list" where
  "create_prepared E opts handlers order input profile agent sessionMeta =
     (case open_connection E
             (bootstrap E opts agent (st_CWD input) (or_empty (st_MCPServers input)) handlers profile)
             (Ev_New (new_request input sessionMeta))
             (\<lambda>err. wrapError ErrorCreate ''session.start'' ''failed to bootstrap ACP session'' (Some err))
             (\<lambda>err. wrapError ErrorCreate ''session.new'' ''failed to create ACP session'' (Some err))
             (resolveQueuePolicy (st_Queue input)) of
        (Inl err, trace) \<Rightarrow> (Inl err, trace)
      | (Inr b, trace) \<Rightarrow>
          (let sid = nr_SessionID (bs_SessionResponse b) in
           case applyInitialConfig E order (st_InitialConfig input) profile
                  \<lparr>cg_driver = newACPSessionDriver b, cg_log = trace, cg_tick = 0\<rparr> of
             (Inl err, c) \<Rightarrow>
               (let (cleanupErr, trace) = cleanup_delete E opts (cg_driver (sync E c)) (cg_log c);
                    status = (if cleanupErr = None then CleanupSucceeded else CleanupFailed);
                    e = config_error err sid status cleanupErr
                in (Inl e, hook opts ''cleanup_failed'' sid (ag_Type agent) (Some e) trace))
           | (Inr report, c) \<Rightarrow>
               (Inr (cg_driver c), hook opts ''created'' sid (ag_Type agent) None (cg_log c))))"

text \<open>A panic while the start is prepared happens before any event.\<close>

definition Create ::
  "service_env \<Rightarrow> runtime_options \<Rightarrow> authority_handlers \<Rightarrow> string list \<Rightarrow> start_session_options \<Rightarrow>
   ((go_error + acp_driver) \<times> event list) outcome" where
  "Create E opts handlers order input =
     (let profile = ResolveAgentProfile (se_dec E) (se_enc E) (st_Agent input) in
      bind_outcome (prepareAgentSessionStart profile (st_Agent input) (st_Meta input) (st_AgentConfig input))
        (\<lambda>r. Value (case r of
           Inl err \<Rightarrow> (Inl err, [])
         | Inr (agent, sessionMeta) \<Rightarrow> create_prepared E opts handlers order input profile agent sessionMeta)))"

text \<open>\<open>Load\<close> and \<open>Fork\<close>: no metadata, no queue policy, no initial configuration, no hook.\<close>

definition open_existing ::
  "service_env \<Rightarrow> runtime_options \<Rightarrow> authority_handlers \<Rightarrow> load_session_options \<Rightarrow>
   (open_session_request \<Rightarrow> event) \<Rightarrow> error_kind \<Rightarrow> string \<Rightarrow> string \<Rightarrow>
   (go_error + acp_driver) \<times> event list" where
  "open_existing E opts handlers input request kind op' failed =
     (case open_connection E
             (bootstrap E opts (st_Agent input) (st_CWD input) (or_empty (st_MCPServers input)) handlers
               (ResolveAgentProfile (se_dec E) (se_enc E) (st_Agent input)))
             (request (open_request input []))
             (\<lambda>err. wrapError kind op' ''failed to bootstrap ACP session'' (Some err))
             (\<lambda>err. wrapError kind op' failed (Some err)) [] of
        (Inl err, trace) \<Rightarrow> (Inl err, trace)
      | (Inr b, trace) \<Rightarrow> (Inr (newACPSessionDriver b), trace))"

definition Load ::
  "service_env \<Rightarrow> runtime_options \<Rightarrow> authority_handlers \<Rightarrow> load_session_options \<Rightarrow>
   (go_error + acp_driver) \<times> event list" where
  "Load E opts handlers input =
     open_existing E opts handlers input Ev_Load ErrorLoad ''session.load'' ''failed to load ACP session''"

definition Fork ::
  "service_env \<Rightarrow> runtime_options \<Rightarrow> authority_handlers \<Rightarrow> load_session_options \<Rightarrow>
   (go_error + acp_driver) \<times> event list" where
  "Fork E opts handlers input =
     open_existing E opts handlers input Ev_Fork ErrorFork ''session.fork'' ''failed to fork ACP session''"

definition resume_prepared ::
  "service_env \<Rightarrow> runtime_options \<Rightarrow> authority_handlers \<Rightarrow> string list \<Rightarrow> load_session_options \<Rightarrow>
   agent_profile \<Rightarrow> agent \<Rightarrow> meta \<Rightarrow> (go_error + acp_driver) \<times> event list" where
  "resume_prepared E opts handlers order input profile agent sessionMeta =
     (case open_connection E
             (bootstrap E opts agent (st_CWD input) (or_empty (st_MCPServers input)) handlers profile)
             (Ev_Resume (open_request input sessionMeta))
             (\<lambda>err. wrapError ErrorResume ''session.resume'' ''failed to bootstrap ACP session'' (Some err))
             (\<lambda>err. wrapError ErrorResume ''session.resume'' ''failed to resume ACP session'' (Some err))
             (resolveQueuePolicy (st_Queue input)) of
        (Inl err, trace) \<Rightarrow> (Inl err, trace)
      | (Inr b, trace) \<Rightarrow>
          (let sid = nr_SessionID (bs_SessionResponse b) in
           case applyInitialConfig E order (st_InitialConfig input) (bs_Profile b)
                  \<lparr>cg_driver = newACPSessionDriver b, cg_log = trace, cg_tick = 0\<rparr> of
             (Inl err, c) \<Rightarrow>
               (let sessionID = (if sid = [] then st_SessionID input else sid);
                    (cleanupErr, trace) = cleanup_close E opts (cg_driver (sync E c)) (cg_log c)
                in (Inl (config_error err sessionID CleanupNotAttempted cleanupErr), trace))
           | (Inr report, c) \<Rightarrow>
               (Inr (cg_driver c), hook opts ''resumed'' sid (ag_Type agent) None (cg_log c))))"

definition Resume ::
  "service_env \<Rightarrow> runtime_options \<Rightarrow> authority_handlers \<Rightarrow> string list \<Rightarrow> load_session_options \<Rightarrow>
   ((go_error + acp_driver) \<times> event list) outcome" where
  "Resume E opts handlers order input =
     (let profile = ResolveAgentProfile (se_dec E) (se_enc E) (st_Agent input) in
      bind_outcome (prepareAgentSessionStart profile (st_Agent input) (st_Meta input) (st_AgentConfig input))
        (\<lambda>r. Value (case r of
           Inl err \<Rightarrow> (Inl err, [])
         | Inr (agent, sessionMeta) \<Rightarrow> resume_prepared E opts handlers order input profile agent sessionMeta)))"

section \<open>Listing\<close>

record list_sessions_options =
  ls_Agent :: agent
  ls_CWD :: string
  ls_Cursor :: "string option"
  ls_AdditionalDirectories :: "string list"

definition session_ref :: "agent \<Rightarrow> string \<Rightarrow> session_info \<Rightarrow> session_reference" where
  "session_ref agent source s =
     \<lparr>sf_ID = si_SessionID s, sf_AgentType = ag_Type agent, sf_CWD = si_CWD s,
      sf_Title = or_blank (si_Title s), sf_UpdatedAt = or_blank (si_UpdatedAt s), sf_Source = source\<rparr>"

definition ListAgentSessions ::
  "service_env \<Rightarrow> runtime_options \<Rightarrow> authority_handlers \<Rightarrow> list_sessions_options \<Rightarrow>
   (go_error + session_list) \<times> event list" where
  "ListAgentSessions E opts handlers input =
     (case bootstrap E opts (ls_Agent input) (ls_CWD input) [] handlers
             (ResolveAgentProfile (se_dec E) (se_enc E) (ls_Agent input)) of
        (Inl err, trace) \<Rightarrow>
          (Inl (wrapError ErrorList ''session.list'' ''failed to bootstrap ACP session'' (Some err)), trace)
      | (Inr b, trace) \<Rightarrow>
          (let trace = trace @ [Ev_List \<lparr>lq_CWD = ls_CWD input, lq_Cursor = ls_Cursor input,
                                    lq_AdditionalDirectories = ls_AdditionalDirectories input\<rparr>];
               source = (if opt_StoredSessionsEnabled opts then ''stored'' else ''remote'') in
           (case se_sessions E trace of
              Inl err \<Rightarrow> Inl (wrapError ErrorList ''session.list'' ''failed to list ACP sessions'' (Some err))
            | Inr resp \<Rightarrow> Inr \<lparr>sl_Sessions = map (session_ref (ls_Agent input) source) (lr_Sessions resp),
                              sl_NextCursor = lr_NextCursor resp\<rparr>,
            dispose E trace)))"

end
