(* ===== verification/Service_Laws.thy ===== *)
theory Service_Laws
  imports Session_Service Read_Model_Laws
begin

text \<open>
  The laws of the session service. \<open>config_relation\<close> is the interface between one step of a
  driver that is being configured and the whole of \<open>applyInitialConfig\<close>: a reflexive and
  transitive relation that the three steps respect holds between the driver before and after.
\<close>

locale config_relation =
  fixes E :: service_env
    and R :: "configuring \<Rightarrow> configuring \<Rightarrow> bool"
  assumes refl: "R c c"
    and trans: "R a b \<Longrightarrow> R b c \<Longrightarrow> R a c"
    and on_sync: "R c (sync E c)"
    and on_mode: "R c (snd (SetAgentMode E modeID c))"
    and on_option: "R c (snd (SetAgentConfigOption E key value c))"
begin

lemma after_mode: "SetAgentMode E modeID c = (r, c') \<Longrightarrow> R c c'"
  using on_mode [of c modeID] by simp

lemma after_option: "SetAgentConfigOption E key value c = (r, c') \<Longrightarrow> R c c'"
  using on_option by (metis snd_conv)

lemma modes: "R c (snd (try_modes E mode aliases lastErr c))"
proof (induction aliases arbitrary: lastErr c)
  case Nil
  then show ?case
    by (auto simp: refl split: option.split prod.split dest: after_mode)
next
  case (Cons a rest)
  show ?case
  proof (cases "as_string a")
    case None
    then show ?thesis by (simp add: Cons.IH)
  next
    case (Some m)
    show ?thesis
    proof (cases "trim_space m = []")
      case True
      then show ?thesis using Some by (simp add: Cons.IH)
    next
      case False
      obtain r c' where call: "SetAgentMode E m (sync E c) = (r, c')" by fastforce
      have "R c c'" using trans [OF on_sync after_mode [OF call]] .
      then show ?thesis
        using Some False call on_sync [of c] trans [OF _ Cons.IH]
        by (auto simp: Let_def split: option.split)
    qed
  qed
qed

lemma options: "R c (snd (try_options E key value optionID aliases lastErr c))"
proof (induction aliases arbitrary: lastErr c)
  case Nil
  then show ?case by (simp add: refl split: option.split)
next
  case (Cons a rest)
  obtain r c' where call: "SetAgentConfigOption E optionID a (sync E c) = (r, c')" by fastforce
  have "R c c'" using trans [OF on_sync after_option [OF call]] .
  then show ?case
    using call on_sync [of c] trans [OF _ Cons.IH] by (auto simp: Let_def split: option.split)
qed

lemma raw: "R c (snd (apply_raw E ps report c))"
proof (induction ps arbitrary: report c)
  case Nil
  then show ?case by (simp add: refl)
next
  case (Cons p ps)
  obtain k v where p: "p = (k, v)" by fastforce
  obtain r c' where call: "SetAgentConfigOption E k v (sync E c) = (r, c')" by fastforce
  have "R c c'" using trans [OF on_sync after_option [OF call]] .
  then show ?case
    using p call trans [OF on_sync Cons.IH] trans [OF _ Cons.IH] by (auto simp: Let_def split: option.split)
qed

lemma bind:
  assumes "R c (snd r)" "\<And>x c'. r = (Inr x, c') \<Longrightarrow> R c' (snd (f x c'))"
  shows "R c (snd (and_then r f))"
  using assms trans by (auto simp: and_then_def split: prod.split sum.split)

lemma one_option: "R c (snd (applyInitialConfigOption E profile key value c))"
  using on_sync [of c] trans [OF on_sync options] by (simp add: applyInitialConfigOption_def Let_def)

lemma mode_part: "R c (snd (apply_mode E config profile c))"
  by (auto simp: apply_mode_def applyInitialConfigMode_def refl modes intro!: bind split: option.split)

lemma option_part: "R c (snd (apply_option E profile key value report c))"
  by (auto simp: apply_option_def refl one_option intro!: bind)

lemma whole: "R c (snd (applyInitialConfig E order config profile c))"
  unfolding applyInitialConfig_def
  by (intro bind mode_part option_part raw)

lemma result: "applyInitialConfig E order config profile c = (r, c') \<Longrightarrow> R c c'"
  using whole [of c order config profile] by simp

end

section \<open>What the agent is asked\<close>

fun is_config_call :: "event \<Rightarrow> bool" where
  "is_config_call (Ev_Set_Mode _ _) = True"
| "is_config_call (Ev_Set_Option _) = True"
| "is_config_call _ = False"

definition asks :: "configuring \<Rightarrow> configuring \<Rightarrow> bool" where
  "asks c c' \<longleftrightarrow> (\<exists>es. cg_log c' = cg_log c @ es \<and> list_all is_config_call es)"

lemma sync_log [simp]: "cg_log (sync E c) = cg_log c"
  by (simp add: sync_def)

lemma end_change_log [simp]: "cg_log (end_change E c) = cg_log c"
  by (simp add: end_change_def Let_def)

lemma SetAgentMode_log:
  "cg_log (snd (SetAgentMode E m c)) = cg_log c @ [Ev_Set_Mode (d_sessionID (cg_driver (sync E c))) m]"
  by (auto simp: SetAgentMode_def beginConfigChange_def Let_def split: option.split)

lemma SetAgentConfigOption_log:
  "cg_log (snd (SetAgentConfigOption E k v c)) = cg_log c @ [Ev_Set_Option
     \<lparr>sr_SessionID = d_sessionID (cg_driver (sync E c)), sr_OptionID = k, sr_Value = v, sr_Meta = []\<rparr>]"
  by (auto simp: SetAgentConfigOption_def beginConfigChange_def Let_def split: sum.split)

interpretation asking: config_relation E asks for E
proof unfold_locales
  show "asks c c" for c by (simp add: asks_def)
  show "asks a b \<Longrightarrow> asks b c \<Longrightarrow> asks a c" for a b c by (force simp: asks_def)
  show "asks c (sync E c)" for c by (simp add: asks_def)
  show "asks c (snd (SetAgentMode E m c))" for m c by (simp add: asks_def SetAgentMode_log)
  show "asks c (snd (SetAgentConfigOption E k v c))" for k v c
    by (simp add: asks_def SetAgentConfigOption_log)
qed

section \<open>What the driver keeps\<close>

text \<open>A configuration call leaves the identity, the status and the count of pending calls.\<close>

definition same_frame :: "acp_driver \<Rightarrow> acp_driver \<Rightarrow> bool" where
  "same_frame d d' \<longleftrightarrow> d_sessionID d' = d_sessionID d \<and> d_agent d' = d_agent d
     \<and> d_status d' = d_status d \<and> d_currentTurn d' = d_currentTurn d
     \<and> d_configChangesPending d' = d_configChangesPending d"

definition keeps :: "configuring \<Rightarrow> configuring \<Rightarrow> bool" where
  "keeps c c' \<longleftrightarrow> same_frame (cg_driver c) (cg_driver c')"

lemma same_frame_refl [simp]: "same_frame d d"
  by (simp add: same_frame_def)

lemma same_frame_trans: "same_frame a b \<Longrightarrow> same_frame b c \<Longrightarrow> same_frame a c"
  by (simp add: same_frame_def)

lemma apply_update_same_frame: "same_frame d (apply_update dec env u d)"
  by (simp add: same_frame_def apply_update_def apply_tool_call_def apply_tool_call_update_def
      replaceConfigOptionsLocked_def Let_def split: option.split)

lemma bind_orphan_frame: "same_frame d (snd (snd (bindOrphanUpdate n d)))"
  by (simp add: same_frame_def bindOrphanUpdate_def Let_def)

lemma interfere_frame: "same_frame d (interfere dec i d)"
proof (cases i)
  case (Got_Update env n)
  then show ?thesis
    using same_frame_trans [OF apply_update_same_frame bind_orphan_frame] by simp
next
  case (Got_Permission order req decision)
  then show ?thesis by (simp add: same_frame_def recordPermission_def Let_def)
qed

lemma fold_interfere_frame: "same_frame d (fold (interfere dec) is d)"
  by (induction "is" arbitrary: d) (auto intro: same_frame_trans interfere_frame)

lemma sync_frame: "same_frame (cg_driver c) (cg_driver (sync E c))"
  by (simp add: sync_def fold_interfere_frame)

lemma sync_fields [simp]:
  "d_sessionID (cg_driver (sync E c)) = d_sessionID (cg_driver c)"
  "d_configChangesPending (cg_driver (sync E c)) = d_configChangesPending (cg_driver c)"
  "d_agent (cg_driver (sync E c)) = d_agent (cg_driver c)"
  "d_status (cg_driver (sync E c)) = d_status (cg_driver c)"
  "d_currentTurn (cg_driver (sync E c)) = d_currentTurn (cg_driver c)"
  using sync_frame [of c E] by (simp_all add: same_frame_def)

lemma mode_applied_fields [simp]: "same_frame d (mode_applied m d)"
  by (simp add: same_frame_def mode_applied_def)

lemma option_applied_fields [simp]: "same_frame d (option_applied k v ver ex os d)"
  by (simp add: same_frame_def option_applied_def replaceConfigOptionsLocked_def Let_def split: option.split)

lemma SetAgentMode_keeps: "keeps c (snd (SetAgentMode E m c))"
  by (auto simp: keeps_def same_frame_def SetAgentMode_def beginConfigChange_def endConfigChange_def
      end_change_def mode_applied_def Let_def split: option.split)

lemma SetAgentConfigOption_keeps: "keeps c (snd (SetAgentConfigOption E k v c))"
proof -
  have *: "d_sessionID (option_applied k v a b os d) = d_sessionID d"
    "d_configChangesPending (option_applied k v a b os d) = d_configChangesPending d"
    "d_agent (option_applied k v a b os d) = d_agent d" "d_status (option_applied k v a b os d) = d_status d"
    "d_currentTurn (option_applied k v a b os d) = d_currentTurn d" for a b os d
    using option_applied_fields [of d k v a b os] by (simp_all add: same_frame_def)
  show ?thesis
    by (auto simp: keeps_def same_frame_def SetAgentConfigOption_def beginConfigChange_def endConfigChange_def
        end_change_def Let_def * split: sum.split)
qed

interpretation keeping: config_relation E keeps for E
proof unfold_locales
  show "keeps c c" for c by (simp add: keeps_def)
  show "keeps a b \<Longrightarrow> keeps b c \<Longrightarrow> keeps a c" for a b c
    unfolding keeps_def by (rule same_frame_trans)
  show "keeps c (sync E c)" for c by (simp add: keeps_def sync_frame)
qed (rule SetAgentMode_keeps SetAgentConfigOption_keeps)+

text \<open>The read model stays bounded whatever arrives meanwhile.\<close>

definition bounded_after :: "configuring \<Rightarrow> configuring \<Rightarrow> bool" where
  "bounded_after c c' \<longleftrightarrow> (read_model_inv (cg_driver c) \<longrightarrow> read_model_inv (cg_driver c'))"

lemma interfere_inv: "read_model_inv d \<Longrightarrow> read_model_inv (interfere dec i d)"
proof (cases i)
  case (Got_Update env n)
  assume inv: "read_model_inv d"
  obtain n' previous d' where b: "bindOrphanUpdate n (apply_update dec env (sn_Update n) d) = (n', previous, d')"
    by (metis surj_pair)
  have "same_model (apply_update dec env (sn_Update n) d) d'"
    using b by (auto simp: bindOrphanUpdate_def same_model_def Let_def split: if_splits)
  then show ?thesis using Got_Update inv b same_model_inv [OF apply_update_inv [OF inv]] by simp
next
  case (Got_Permission order req decision)
  assume "read_model_inv d"
  then show ?thesis using Got_Permission by (simp add: recordPermission_inv)
qed

lemma sync_inv: "read_model_inv (cg_driver c) \<Longrightarrow> read_model_inv (cg_driver (sync E c))"
proof -
  have "read_model_inv d \<Longrightarrow> read_model_inv (fold (interfere dec) is d)" for dec "is" d
    by (induction "is" arbitrary: d) (auto intro: interfere_inv)
  then show "read_model_inv (cg_driver c) \<Longrightarrow> ?thesis" by (simp add: sync_def)
qed

lemma end_change_inv: "read_model_inv (cg_driver c) \<Longrightarrow> read_model_inv (cg_driver (end_change E c))"
  by (simp add: end_change_def Let_def sync_inv config_change_inv)

text \<open>The driver after a call, with the call that was begun.\<close>

definition begun :: "service_env \<Rightarrow> (acp_driver \<Rightarrow> event) \<Rightarrow> configuring \<Rightarrow> configuring" where
  "begun E ev c = (let c = sync E c; d = snd (beginConfigChange (cg_driver c)) in
     c\<lparr>cg_driver := d, cg_log := cg_log c @ [ev d]\<rparr>)"

lemma SetAgentMode_state:
  "SetAgentMode E m c = (let c = begun E (\<lambda>d. Ev_Set_Mode (d_sessionID d) m) c in
     case se_error E (cg_log c) of
       Some err \<Rightarrow> (Some err, end_change E c)
     | None \<Rightarrow> (None, end_change E ((sync E c)\<lparr>cg_driver := mode_applied m (cg_driver (sync E c))\<rparr>)))"
  by (simp add: SetAgentMode_def begun_def Let_def split_def split: option.split)

lemma SetAgentConfigOption_state:
  "\<exists>version exclusive. SetAgentConfigOption E k v c =
     (let c = begun E (\<lambda>d. Ev_Set_Option \<lparr>sr_SessionID = d_sessionID d, sr_OptionID = k, sr_Value = v, sr_Meta = []\<rparr>) c in
     case se_option E (cg_log c) of
       Inl err \<Rightarrow> (Some err, end_change E c)
     | Inr os \<Rightarrow> (None, end_change E
         ((sync E c)\<lparr>cg_driver := option_applied k v version exclusive os (cg_driver (sync E c))\<rparr>)))"
  by (simp add: SetAgentConfigOption_def begun_def Let_def split_def split: sum.split) blast

lemma begun_inv: "read_model_inv (cg_driver c) \<Longrightarrow> read_model_inv (cg_driver (begun E ev c))"
  by (simp add: begun_def Let_def sync_inv config_change_inv)

interpretation bounding: config_relation E bounded_after for E
proof unfold_locales
  show "bounded_after c (snd (SetAgentMode E m c))" for m c
    unfolding bounded_after_def SetAgentMode_state Let_def
    by (auto split: option.split intro!: end_change_inv sync_inv config_change_inv begun_inv)
  show "bounded_after c (snd (SetAgentConfigOption E k v c))" for k v c
    using SetAgentConfigOption_state [of E k v c] unfolding bounded_after_def Let_def
    by (auto split: sum.split intro!: end_change_inv sync_inv config_change_inv begun_inv)
qed (auto simp: bounded_after_def intro: sync_inv)

section \<open>Counting\<close>

fun is_dispose :: "event \<Rightarrow> bool" where
  "is_dispose Ev_Dispose = True"
| "is_dispose _ = False"

fun is_hook :: "event \<Rightarrow> bool" where
  "is_hook (Ev_Hook _ _ _ _) = True"
| "is_hook _ = False"

fun is_delete :: "event \<Rightarrow> bool" where
  "is_delete (Ev_Delete _) = True"
| "is_delete _ = False"

text \<open>The factory has given a connection: the first event is answered without an error.\<close>

fun has_connection :: "service_env \<Rightarrow> event list \<Rightarrow> bool" where
  "has_connection E (Ev_Factory a cl cwd # _) \<longleftrightarrow> se_error E [Ev_Factory a cl cwd] = None"
| "has_connection E _ \<longleftrightarrow> False"

text \<open>The connection is disposed of exactly once, and only hooks follow; or it is not.\<close>

definition live :: "event list \<Rightarrow> bool" where
  "live trace \<longleftrightarrow> filter is_dispose trace = []"

definition released :: "event list \<Rightarrow> bool" where
  "released trace \<longleftrightarrow> (\<exists>pre hooks. trace = pre @ Ev_Dispose # hooks \<and> live pre \<and> list_all is_hook hooks)"

definition settled :: "service_env \<Rightarrow> bool \<Rightarrow> event list \<Rightarrow> bool" where
  "settled E failed trace \<longleftrightarrow>
     (if has_connection E trace \<and> se_has_dispose E \<and> failed then released trace else live trace)"

lemma live_append [simp]: "live (xs @ ys) \<longleftrightarrow> live xs \<and> live ys"
  by (auto simp: live_def)

lemma live_Cons [simp]: "live (e # es) \<longleftrightarrow> \<not> is_dispose e \<and> live es" "live []"
  by (auto simp: live_def)

lemma live_config_calls: "list_all is_config_call es \<Longrightarrow> live es"
  by (induction es) (auto elim: is_config_call.elims)

lemma live_hook [simp]: "live (hook opts ty sid ag err trace) = live trace"
  by (simp add: hook_def)

lemma released_dispose: "live trace \<Longrightarrow> released (trace @ [Ev_Dispose])"
  unfolding released_def by (rule exI [of _ trace], rule exI [of _ "[]"]) simp

lemma released_hook: "released trace \<Longrightarrow> released (hook opts ty sid ag err trace)"
proof -
  assume "released trace"
  then obtain pre hooks where t: "trace = pre @ Ev_Dispose # hooks" "live pre" "list_all is_hook hooks"
    unfolding released_def by blast
  have "hook opts ty sid ag err trace
      = pre @ Ev_Dispose # (hooks @ (if opt_OnSessionEvent opts then [Ev_Hook ty sid ag err] else []))"
    by (simp add: hook_def t(1))
  moreover have "list_all is_hook (hooks @ (if opt_OnSessionEvent opts then [Ev_Hook ty sid ag err] else []))"
    using t(3) by simp
  ultimately show ?thesis unfolding released_def using t(2) by blast
qed

lemma has_connection_append [simp]: "trace \<noteq> [] \<Longrightarrow> has_connection E (trace @ es) = has_connection E trace"
  by (cases trace rule: list.exhaust; cases "hd trace") auto

lemma has_connection_hook [simp]: "has_connection E (hook opts ty sid ag err trace) = has_connection E trace"
proof (cases trace)
  case (Cons a list)
  then show ?thesis by (simp add: hook_def del: append_Cons)
qed (simp add: hook_def)

lemma has_connection_dispose [simp]: "has_connection E (dispose E trace) = has_connection E trace"
proof (cases trace)
  case (Cons a list)
  then show ?thesis by (simp add: dispose_def del: append_Cons)
qed (simp add: dispose_def)

lemma has_connection_nonempty: "has_connection E trace \<Longrightarrow> trace \<noteq> []"
  by auto

lemma settled_dispose: "live trace \<Longrightarrow> has_connection E trace \<Longrightarrow> settled E True (dispose E trace)"
  unfolding settled_def has_connection_dispose by (simp add: dispose_def released_dispose)

lemma settled_hook: "settled E failed trace \<Longrightarrow> settled E failed (hook opts ty sid ag err trace)"
  by (auto simp: settled_def released_hook split: if_splits)

lemma settled_ok: "live trace \<Longrightarrow> settled E False trace"
  by (simp add: settled_def)

section \<open>Bootstrap\<close>

lemma send_authenticate_trace:
  "\<exists>err. send_authenticate E m trace = (err, trace @ [Ev_Authenticate m])"
  by (simp add: send_authenticate_def Let_def)

text \<open>At most the host is asked and one \<open>authenticate\<close> is sent.\<close>

lemma authenticate_agent_trace:
  "\<exists>err es. authenticate_agent E opts p resp trace = (err, trace @ es)
     \<and> (es = [] \<or> (\<exists>m. es = [Ev_Authenticate m]) \<or> (\<exists>ms. es = [Ev_Ask_Host ms])
        \<or> (\<exists>ms m. es = [Ev_Ask_Host ms, Ev_Authenticate m]))"
  by (auto simp: authenticate_agent_def send_authenticate_def Let_def split: option.split sum.split)

definition quiet_prefix :: "event list \<Rightarrow> bool" where
  "quiet_prefix trace \<longleftrightarrow> live trace \<and> filter is_delete trace = [] \<and> filter is_config_call trace = []
     \<and> filter (\<lambda>e. \<exists>r. e = Ev_New r) trace = []"

lemma quiet_prefix_auth:
  assumes "quiet_prefix trace" "authenticate_agent E opts p resp trace = (err, trace')"
  shows "quiet_prefix trace' \<and> (trace \<noteq> [] \<longrightarrow> has_connection E trace' = has_connection E trace)"
  using authenticate_agent_trace [of E opts p resp trace] assms
  by (auto simp: quiet_prefix_def)

text \<open>The three exits: no connection; a connection given up; a connection kept.\<close>

lemma bootstrap_exits:
  assumes "bootstrap E opts ag cwd mcp h p = (r, trace)"
  shows "(\<exists>e. r = Inl e \<and> live trace \<and> quiet_prefix trace \<and> \<not> has_connection E trace)
    \<or> (\<exists>t. quiet_prefix t \<and> has_connection E t \<and>
         ((\<exists>e. r = Inl e \<and> trace = dispose E t) \<or> (\<exists>b. r = Inr b \<and> trace = t)))"
proof -
  define f where "f = Ev_Factory (applyRuntimeEnvironment ag opts) (defaultClient opts h) cwd"
  define i where "i = Ev_Initialize \<lparr>iq_ProtocolVersion = ProtocolVersion,
      iq_ClientInfo = Some (cl_Info (defaultClient opts h)),
      iq_ClientCapabilities = cl_Capabilities (defaultClient opts h), iq_Meta = []\<rparr>"
  have b: "bootstrap E opts ag cwd mcp h p =
     (case se_error E [f] of Some err \<Rightarrow> (Inl err, [f]) | None \<Rightarrow>
       (case se_initialize E [f, i] of Inl err \<Rightarrow> (Inl err, dispose E [f, i])
        | Inr resp \<Rightarrow> if ir_ProtocolVersion resp > ProtocolVersion
            then (Inl (wrapError ErrorProtocol ''initialize''
                         (version_text (ir_ProtocolVersion resp)) None), dispose E [f, i])
            else case authenticate_agent E opts p resp [f, i] of
              (Some err, t) \<Rightarrow> (Inl err, dispose E t)
            | (None, t) \<Rightarrow> (Inr \<lparr>bs_Agent = applyRuntimeEnvironment ag opts, bs_CWD = cwd,
                bs_MCPServers = mcp, bs_InitializeResponse = resp, bs_SessionResponse = no_response,
                bs_Profile = p, bs_QueuePolicy = [],
                bs_ReadModelLimits = opt_ReadModelLimits opts\<rparr>, t)))"
    by (simp only: bootstrap_def f_def i_def Let_def append_Cons append_Nil)
  show ?thesis
  proof (cases "se_error E [f]")
    case (Some e)
    then have "\<not> has_connection E [f]" by (simp add: f_def)
    moreover have "quiet_prefix [f]" "live [f]" by (simp_all add: quiet_prefix_def f_def)
    ultimately show ?thesis using assms Some unfolding b by auto
  next
    case None
    have q: "quiet_prefix [f, i]" by (simp add: quiet_prefix_def f_def i_def)
    have c: "has_connection E [f, i]" using None by (simp add: f_def)
    show ?thesis
    proof (cases "se_initialize E [f, i]")
      case (Inl e)
      then show ?thesis using assms None q c unfolding b by auto
    next
      case (Inr resp)
      show ?thesis
      proof (cases "ir_ProtocolVersion resp > ProtocolVersion")
        case True
        then show ?thesis using assms None Inr q c unfolding b by auto
      next
        case False
        obtain err t where a: "authenticate_agent E opts p resp [f, i] = (err, t)" by fastforce
        have "quiet_prefix t" "has_connection E t" using quiet_prefix_auth [OF q a] c by auto
        then show ?thesis
          using assms None Inr False a unfolding b by (cases err) auto
      qed
    qed
  qed
qed

section \<open>Opening\<close>

lemma quiet_dispose: "live t \<Longrightarrow> filter is_delete (dispose E t) = filter is_delete t"
  by (simp add: dispose_def)

text \<open>The same three exits after the request: it is refused or accepted.\<close>

lemma open_connection_exits:
  assumes "open_connection E (bootstrap E opts ag cwd mcp h p) req f g q = (r, trace)"
    and "\<not> is_dispose req" "\<not> is_delete req"
  shows "(\<exists>e. r = Inl e \<and> quiet_prefix trace \<and> \<not> has_connection E trace)
    \<or> (\<exists>e t. r = Inl e \<and> trace = dispose E t \<and> quiet_prefix t \<and> has_connection E t)
    \<or> (\<exists>t. quiet_prefix t \<and> has_connection E t \<and>
         ((\<exists>e e'. r = Inl e \<and> se_session E (t @ [req]) = Inl e' \<and> trace = dispose E (t @ [req]))
          \<or> (\<exists>b resp. r = Inr b \<and> se_session E (t @ [req]) = Inr resp
               \<and> bs_SessionResponse b = resp \<and> bs_QueuePolicy b = q \<and> trace = t @ [req])))"
proof -
  obtain r0 t where b: "bootstrap E opts ag cwd mcp h p = (r0, t)" by fastforce
  show ?thesis
    using bootstrap_exits [OF b] assms(1) unfolding open_connection_def b
    by (auto simp: Let_def split: sum.splits)
qed

end
