(* ===== verification/Service_Props.thy ===== *)
theory Service_Props
  imports Service_Laws
begin

text \<open>
  The properties of the session service. The four ways to a session are one datatype, so that a
  property of all of them is one theorem; the witnesses run a small scripted agent.
\<close>

datatype how_opened =
    By_Create start_session_options
  | By_Load load_session_options
  | By_Resume load_session_options
  | By_Fork load_session_options

fun open_session ::
  "service_env \<Rightarrow> runtime_options \<Rightarrow> authority_handlers \<Rightarrow> string list \<Rightarrow> how_opened \<Rightarrow>
   ((go_error + acp_driver) \<times> event list) outcome" where
  "open_session E opts h order (By_Create input) = Create E opts h order input"
| "open_session E opts h order (By_Load input) = Value (Load E opts h input)"
| "open_session E opts h order (By_Resume input) = Resume E opts h order input"
| "open_session E opts h order (By_Fork input) = Value (Fork E opts h input)"

section \<open>Results of the parts\<close>

lemma bind_outcome_Value: "bind_outcome x f = Value y \<longleftrightarrow> (\<exists>a. x = Value a \<and> f a = Value y)"
  by (cases x) (simp_all add: bind_outcome_def)

lemma config_trace:
  assumes "applyInitialConfig E order config profile \<lparr>cg_driver = d, cg_log = trace, cg_tick = 0\<rparr> = (r, c)"
  obtains es where "cg_log c = trace @ es" "list_all is_config_call es" "d_sessionID (cg_driver c) = d_sessionID d"
  using asking.result [OF assms] keeping.result [OF assms]
  by (auto simp: asks_def keeps_def same_frame_def)

lemma config_calls_quiet:
  "list_all is_config_call es \<Longrightarrow> live es \<and> filter is_delete es = []"
  by (induction es) (auto elim: is_config_call.elims)

lemma cleanup_delete_trace:
  "cleanup_delete E opts d trace = (err, t) \<Longrightarrow>
   t = hook opts ''deleted'' (d_sessionID d) (ag_Type (d_agent d)) err (dispose E (trace @ [Ev_Delete (d_sessionID d)]))"
  by (auto simp: cleanup_delete_def Let_def)

lemma cleanup_close_trace:
  "cleanup_close E opts d trace = (err, t) \<Longrightarrow>
   t = hook opts ''closed'' (d_sessionID d) (ag_Type (d_agent d)) err (dispose E (trace @ [Ev_Close (d_sessionID d)]))"
  by (auto simp: cleanup_close_def Let_def)

lemma quiet_live: "quiet_prefix t \<Longrightarrow> live t"
  by (simp add: quiet_prefix_def)

lemma new_driver_session: "d_sessionID (newACPSessionDriver b) = nr_SessionID (bs_SessionResponse b)"
  by (simp add: newACPSessionDriver_def Let_def split: prod.split)

text \<open>The exits of the two functions that configure the session.\<close>

lemma open_connection_cases:
  assumes "open_connection E (bootstrap E opts ag cwd mcp h p) req f g q = (r, trace)"
    and "\<not> is_dispose req" "\<not> is_delete req"
  obtains (unconnected) e where "r = Inl e" "quiet_prefix trace" "\<not> has_connection E trace"
  | (given_up) e t where "r = Inl e" "trace = dispose E t" "quiet_prefix t" "has_connection E t"
  | (refused) e e' t where "r = Inl e" "quiet_prefix t" "has_connection E t"
      "se_session E (t @ [req]) = Inl e'" "trace = dispose E (t @ [req])"
  | (opened) b t where "r = Inr b" "quiet_prefix t" "has_connection E t"
      "se_session E (t @ [req]) = Inr (bs_SessionResponse b)" "trace = t @ [req]"
  using open_connection_exits [OF assms] by blast

lemma create_prepared_cases:
  assumes "create_prepared E opts h order input profile ag m = (r, trace)"
  defines "req \<equiv> Ev_New (new_request input m)"
  obtains (unconnected) e where "r = Inl e" "quiet_prefix trace" "\<not> has_connection E trace"
  | (given_up) e t where "r = Inl e" "trace = dispose E t" "quiet_prefix t" "has_connection E t"
  | (refused) e e' t where "r = Inl e" "quiet_prefix t" "has_connection E t"
      "se_session E (t @ [req]) = Inl e'" "trace = dispose E (t @ [req])"
  | (unconfigured) t resp es cause err ty e where "quiet_prefix t" "has_connection E t"
      "se_session E (t @ [req]) = Inr resp" "list_all is_config_call es"
      "e = config_error cause (nr_SessionID resp) (if err = None then CleanupSucceeded else CleanupFailed) err"
      "r = Inl e"
      "trace = hook opts ''cleanup_failed'' (nr_SessionID resp) (ag_Type ag) (Some e)
         (hook opts ''deleted'' (nr_SessionID resp) ty err
           (dispose E (t @ req # es @ [Ev_Delete (nr_SessionID resp)])))"
  | (created) t resp es d where "quiet_prefix t" "has_connection E t"
      "se_session E (t @ [req]) = Inr resp" "list_all is_config_call es" "r = Inr d"
      "d_sessionID d = nr_SessionID resp"
      "trace = hook opts ''created'' (nr_SessionID resp) (ag_Type ag) None (t @ req # es)"
proof -
  obtain r0 t0 where o0: "open_connection E
      (bootstrap E opts ag (st_CWD input) (or_empty (st_MCPServers input)) h profile) req
      (\<lambda>err. wrapError ErrorCreate ''session.start'' ''failed to bootstrap ACP session'' (Some err))
      (\<lambda>err. wrapError ErrorCreate ''session.new'' ''failed to create ACP session'' (Some err))
      (resolveQueuePolicy (st_Queue input)) = (r0, t0)" by fastforce
  note run = assms(1) [unfolded create_prepared_def req_def [symmetric] o0]
  have req: "\<not> is_dispose req" "\<not> is_delete req" by (simp_all add: req_def)
  from o0 req show ?thesis
  proof (cases rule: open_connection_cases)
    case (unconnected e)
    then show ?thesis using run by (auto intro: that(1))
  next
    case (given_up e t)
    then show ?thesis using run by (auto intro: that(2))
  next
    case (refused e e' t)
    then show ?thesis using run by (auto intro: that(3))
  next
    case (opened b t)
    let ?sid = "nr_SessionID (bs_SessionResponse b)"
    obtain rc c where c: "applyInitialConfig E order (st_InitialConfig input) profile
        \<lparr>cg_driver = newACPSessionDriver b, cg_log = t0, cg_tick = 0\<rparr> = (rc, c)" by fastforce
    obtain es where es: "cg_log c = t0 @ es" "list_all is_config_call es" "d_sessionID (cg_driver c) = ?sid"
      using config_trace [OF c] by (metis new_driver_session)
    show ?thesis
    proof (cases rc)
      case (Inr report)
      have "r = Inr (cg_driver c)" "trace = hook opts ''created'' ?sid (ag_Type ag) None (t @ req # es)"
        using run opened(1,5) c es(1) Inr by simp_all
      then show ?thesis using that(5) [OF opened(2-4) es(2) _ es(3)] by blast
    next
      case (Inl cause)
      obtain err t' where cl: "cleanup_delete E opts (cg_driver (sync E c)) (cg_log c) = (err, t')"
        by fastforce
      let ?e = "config_error cause ?sid (if err = None then CleanupSucceeded else CleanupFailed) err"
      have "r = Inl ?e" "trace = hook opts ''cleanup_failed'' ?sid (ag_Type ag) (Some ?e) t'"
        using run opened(1) c Inl cl by (simp_all add: Let_def)
      moreover have "t' = hook opts ''deleted'' ?sid (ag_Type (d_agent (cg_driver c))) err
          (dispose E (t @ req # es @ [Ev_Delete ?sid]))"
        using cleanup_delete_trace [OF cl] es opened(5) by simp
      ultimately show ?thesis using that(4) [OF opened(2-4) es(2) refl] by blast
    qed
  qed
qed

lemma resume_prepared_cases:
  assumes "resume_prepared E opts h order input profile ag m = (r, trace)"
  defines "req \<equiv> Ev_Resume (open_request input m)"
  obtains (unconnected) e where "r = Inl e" "quiet_prefix trace" "\<not> has_connection E trace"
  | (given_up) e t where "r = Inl e" "trace = dispose E t" "quiet_prefix t" "has_connection E t"
  | (refused) e e' t where "r = Inl e" "quiet_prefix t" "has_connection E t"
      "se_session E (t @ [req]) = Inl e'" "trace = dispose E (t @ [req])"
  | (unconfigured) t es sid ty err e where "quiet_prefix t" "has_connection E t"
      "list_all is_config_call es" "r = Inl e"
      "trace = hook opts ''closed'' sid ty err (dispose E (t @ req # es @ [Ev_Close sid]))"
  | (resumed) t sid es d where "quiet_prefix t" "has_connection E t" "list_all is_config_call es"
      "r = Inr d" "trace = hook opts ''resumed'' sid (ag_Type ag) None (t @ req # es)"
proof -
  obtain r0 t0 where o0: "open_connection E
      (bootstrap E opts ag (st_CWD input) (or_empty (st_MCPServers input)) h profile) req
      (\<lambda>err. wrapError ErrorResume ''session.resume'' ''failed to bootstrap ACP session'' (Some err))
      (\<lambda>err. wrapError ErrorResume ''session.resume'' ''failed to resume ACP session'' (Some err))
      (resolveQueuePolicy (st_Queue input)) = (r0, t0)" by fastforce
  note run = assms(1) [unfolded resume_prepared_def req_def [symmetric] o0]
  have req: "\<not> is_dispose req" "\<not> is_delete req" by (simp_all add: req_def)
  from o0 req show ?thesis
  proof (cases rule: open_connection_cases)
    case (unconnected e)
    then show ?thesis using run by (auto intro: that(1))
  next
    case (given_up e t)
    then show ?thesis using run by (auto intro: that(2))
  next
    case (refused e e' t)
    then show ?thesis using run by (auto intro: that(3))
  next
    case (opened b t)
    let ?sid = "nr_SessionID (bs_SessionResponse b)"
    obtain rc c where c: "applyInitialConfig E order (st_InitialConfig input) (bs_Profile b)
        \<lparr>cg_driver = newACPSessionDriver b, cg_log = t0, cg_tick = 0\<rparr> = (rc, c)" by fastforce
    obtain es where es: "cg_log c = t0 @ es" "list_all is_config_call es" "d_sessionID (cg_driver c) = ?sid"
      using config_trace [OF c] by (metis new_driver_session)
    show ?thesis
    proof (cases rc)
      case (Inr report)
      have "r = Inr (cg_driver c)" "trace = hook opts ''resumed'' ?sid (ag_Type ag) None (t @ req # es)"
        using run opened(1,5) c es(1) Inr by simp_all
      then show ?thesis using that(5) [OF opened(2,3) es(2)] by blast
    next
      case (Inl cause)
      obtain err t' where cl: "cleanup_close E opts (cg_driver (sync E c)) (cg_log c) = (err, t')"
        by fastforce
      have "\<exists>e. r = Inl e" "trace = t'"
        using run opened(1) c Inl cl by (auto simp: Let_def)
      moreover have "t' = hook opts ''closed'' ?sid (ag_Type (d_agent (cg_driver c))) err
          (dispose E (t @ req # es @ [Ev_Close ?sid]))"
        using cleanup_close_trace [OF cl] es opened(5) by simp
      ultimately show ?thesis using that(4) [OF opened(2,3) es(2)] by blast
    qed
  qed
qed

lemma open_existing_cases:
  assumes "open_existing E opts h input mk k op' msg = (r, trace)"
    and "\<not> is_dispose (mk (open_request input []))" "\<not> is_delete (mk (open_request input []))"
  obtains (unconnected) e where "r = Inl e" "quiet_prefix trace" "\<not> has_connection E trace"
  | (given_up) e t where "r = Inl e" "trace = dispose E t" "quiet_prefix t" "has_connection E t"
  | (refused) e t where "r = Inl e" "quiet_prefix t" "has_connection E t"
      "trace = dispose E (t @ [mk (open_request input [])])"
  | (opened) b t where "r = Inr (newACPSessionDriver b)" "quiet_prefix t" "has_connection E t"
      "se_session E (t @ [mk (open_request input [])]) = Inr (bs_SessionResponse b)"
      "bs_QueuePolicy b = []" "trace = t @ [mk (open_request input [])]"
proof -
  let ?req = "mk (open_request input [])"
  obtain r0 t0 where o0: "open_connection E
      (bootstrap E opts (st_Agent input) (st_CWD input) (or_empty (st_MCPServers input)) h
        (ResolveAgentProfile (se_dec E) (se_enc E) (st_Agent input))) ?req
      (\<lambda>err. wrapError k op' ''failed to bootstrap ACP session'' (Some err))
      (\<lambda>err. wrapError k op' msg (Some err)) [] = (r0, t0)" by fastforce
  have run: "(r, trace) = (case (r0, t0) of (Inl err, trace) \<Rightarrow> (Inl err, trace)
      | (Inr b, trace) \<Rightarrow> (Inr (newACPSessionDriver b), trace))"
    using assms(1) unfolding open_existing_def o0 by simp
  from open_connection_exits [OF o0 assms(2,3)] run show ?thesis
    by (elim disjE exE conjE) (auto intro: that)
qed

section \<open>No connection leaks\<close>

lemma settled_hooked:
  assumes "live t" "has_connection E t"
  shows "settled E True (hook opts a b c d (dispose E t))"
    "settled E True (hook opts a b c d (hook opts a' b' c' d' (dispose E t)))"
  using settled_hook [OF settled_dispose [OF assms]] settled_hook by blast+

lemma settled_unconnected: "quiet_prefix t \<Longrightarrow> \<not> has_connection E t \<Longrightarrow> settled E failed t"
  by (simp add: settled_def quiet_prefix_def)

lemma request_prefix:
  assumes "quiet_prefix t" "has_connection E t" "\<not> is_dispose req" "list_all is_config_call es"
  shows "live (t @ req # es)" "has_connection E (t @ req # es)"
  using assms config_calls_quiet [OF assms(4)] has_connection_nonempty [OF assms(2)]
  by (auto simp: quiet_prefix_def)

lemma create_settled:
  assumes "create_prepared E opts h order input profile ag m = (r, trace)"
  shows "settled E (isl r) trace"
  using assms
proof (cases rule: create_prepared_cases)
  case (unconnected e)
  then show ?thesis by (simp add: settled_unconnected)
next
  case (given_up e t)
  then show ?thesis using settled_dispose [OF quiet_live] by simp
next
  case (refused e e' t)
  then show ?thesis
    using settled_dispose [OF request_prefix [OF refused(2,3), where req = "Ev_New (new_request input m)" and es = "[]"]]
    by simp
next
  case (unconfigured t resp es cause err ty e)
  let ?es = "es @ [Ev_Delete (nr_SessionID resp)]"
  have "live (t @ Ev_New (new_request input m) # ?es)"
    using request_prefix(1) [OF unconfigured(1,2) _ unconfigured(4), of "Ev_New (new_request input m)"] by simp
  moreover have "has_connection E (t @ Ev_New (new_request input m) # ?es)"
    using unconfigured(2) has_connection_nonempty has_connection_append by blast
  ultimately show ?thesis using unconfigured(6,7) settled_hooked(2) by simp
next
  case (created t resp es d)
  then show ?thesis
    using request_prefix(1) [OF created(1,2) _ created(4), of "Ev_New (new_request input m)"] settled_hook [OF settled_ok]
    by simp
qed

lemma resume_settled:
  assumes "resume_prepared E opts h order input profile ag m = (r, trace)"
  shows "settled E (isl r) trace \<and> filter is_delete trace = []"
proof -
  let ?req = "Ev_Resume (open_request input m)"
  have del: "filter is_delete (dispose E t) = filter is_delete t"
    "filter is_delete (hook opts a b c d t) = filter is_delete t" for t a b c d
    by (simp_all add: dispose_def hook_def)
  from assms show ?thesis
  proof (cases rule: resume_prepared_cases)
    case (unconnected e)
    then show ?thesis by (simp add: settled_unconnected) (simp add: quiet_prefix_def)
  next
    case (given_up e t)
    then show ?thesis using settled_dispose [OF quiet_live] by (simp add: del) (simp add: quiet_prefix_def)
  next
    case (refused e e' t)
    then show ?thesis
      using settled_dispose [OF request_prefix [OF refused(2,3), where req = ?req and es = "[]"]]
      by (simp add: del) (simp add: quiet_prefix_def)
  next
    case (unconfigured t es sid ty err e)
    let ?es = "es @ [Ev_Close sid]"
    have "live (t @ ?req # ?es)"
      using request_prefix(1) [OF unconfigured(1,2) _ unconfigured(3), of ?req] by simp
    moreover have "has_connection E (t @ ?req # ?es)"
      using unconfigured(2) has_connection_nonempty has_connection_append by blast
    ultimately have "settled E (isl r) trace"
      using unconfigured(4,5) settled_hooked(1) by simp
    then show ?thesis
      using unconfigured(1,5) config_calls_quiet [OF unconfigured(3)] by (simp add: del quiet_prefix_def)
  next
    case (resumed t sid es d)
    then have "settled E (isl r) trace"
      using request_prefix(1) [OF resumed(1,2) _ resumed(3), of ?req] settled_hook [OF settled_ok]
      by simp
    then show ?thesis
      using resumed(1,5) config_calls_quiet [OF resumed(3)] by (simp add: del quiet_prefix_def)
  qed
qed

lemma existing_settled:
  assumes "open_existing E opts h input mk k op' msg = (r, trace)"
    and "\<not> is_dispose (mk (open_request input []))" "\<not> is_delete (mk (open_request input []))"
  shows "settled E (isl r) trace \<and> filter is_delete trace = []"
proof -
  let ?req = "mk (open_request input [])"
  have del: "filter is_delete (dispose E t) = filter is_delete t" for t by (simp add: dispose_def)
  from assms show ?thesis
  proof (cases rule: open_existing_cases)
    case (unconnected e)
    then show ?thesis by (simp add: settled_unconnected) (simp add: quiet_prefix_def)
  next
    case (given_up e t)
    then show ?thesis using settled_dispose [OF quiet_live] by (simp add: del) (simp add: quiet_prefix_def)
  next
    case (refused e t)
    then show ?thesis
      using settled_dispose [OF request_prefix [OF refused(2,3), where req = ?req and es = "[]"]] assms(2,3)
      by (simp add: del) (simp add: quiet_prefix_def)
  next
    case (opened b t)
    then show ?thesis
      using request_prefix(1) [OF opened(2,3) assms(2), of "[]"] settled_ok assms(3)
      by (simp add: quiet_prefix_def)
  qed
qed

lemma Create_cases:
  assumes "Create E opts h order input = Value (r, trace)"
  obtains (unprepared) "trace = []" "isl r"
  | (prepared) profile ag m where "create_prepared E opts h order input profile ag m = (r, trace)"
proof -
  obtain x where "(case x of Inl err \<Rightarrow> (Inl err, [])
      | Inr (ag, m) \<Rightarrow> create_prepared E opts h order input
          (ResolveAgentProfile (se_dec E) (se_enc E) (st_Agent input)) ag m) = (r, trace)"
    using assms by (auto simp: Create_def Let_def bind_outcome_Value)
  then show ?thesis using that by (cases x) auto
qed

lemma Resume_cases:
  assumes "Resume E opts h order input = Value (r, trace)"
  obtains (unprepared) "trace = []" "isl r"
  | (prepared) profile ag m where "resume_prepared E opts h order input profile ag m = (r, trace)"
proof -
  obtain x where "(case x of Inl err \<Rightarrow> (Inl err, [])
      | Inr (ag, m) \<Rightarrow> resume_prepared E opts h order input
          (ResolveAgentProfile (se_dec E) (se_enc E) (st_Agent input)) ag m) = (r, trace)"
    using assms by (auto simp: Resume_def Let_def bind_outcome_Value)
  then show ?thesis using that by (cases x) auto
qed

lemma nothing_settled: "settled E failed []"
  by (simp add: settled_def)

lemma open_session_settled:
  assumes "open_session E opts h order which = Value (r, trace)"
  shows "settled E (isl r) trace"
proof (cases which)
  case (By_Create input)
  then show ?thesis
    using assms nothing_settled create_settled by (auto elim!: Create_cases)
next
  case (By_Load input)
  then show ?thesis using assms existing_settled [of E opts h input Ev_Load] by (simp add: Load_def)
next
  case (By_Resume input)
  then show ?thesis
    using assms nothing_settled resume_settled by (auto elim!: Resume_cases)
next
  case (By_Fork input)
  then show ?thesis using assms existing_settled [of E opts h input Ev_Fork] by (simp add: Fork_def)
qed

text \<open>C3. Connections do not leak: once the factory has given a connection, an operation that fails
(opening a session in any of the four ways) disposes of it exactly once, with nothing but hooks
after that, and one that succeeds does not dispose of it; listing sessions always disposes of it
once.\<close>

theorem connection_released:
  assumes "open_session E opts h order which = Value (r, trace)"
  shows "(if has_connection E trace \<and> se_has_dispose E \<and> isl r
      then \<exists>pre hooks. trace = pre @ Ev_Dispose # hooks \<and> filter is_dispose pre = [] \<and> list_all is_hook hooks
      else filter is_dispose trace = [])
   \<and> (case ListAgentSessions E opts h query of (_, t) \<Rightarrow>
        filter is_dispose t = (if has_connection E t \<and> se_has_dispose E then [Ev_Dispose] else []))"
proof (intro conjI)
  show "if has_connection E trace \<and> se_has_dispose E \<and> isl r
      then \<exists>pre hooks. trace = pre @ Ev_Dispose # hooks \<and> filter is_dispose pre = [] \<and> list_all is_hook hooks
      else filter is_dispose trace = []"
    using open_session_settled [OF assms] by (auto simp: settled_def released_def live_def split: if_splits)
  let ?p = "ResolveAgentProfile (se_dec E) (se_enc E) (ls_Agent query)"
  obtain r0 t0 where b: "bootstrap E opts (ls_Agent query) (ls_CWD query) [] h ?p = (r0, t0)" by fastforce
  show "case ListAgentSessions E opts h query of (_, t) \<Rightarrow>
        filter is_dispose t = (if has_connection E t \<and> se_has_dispose E then [Ev_Dispose] else [])"
    using bootstrap_exits [OF b] has_connection_nonempty
    by (auto simp: ListAgentSessions_def b Let_def quiet_prefix_def live_def dispose_def split: sum.split)
qed

section \<open>No orphan sessions\<close>

text \<open>The session the agent has created in answer to \<open>session/new\<close>.\<close>

fun session_made :: "service_env \<Rightarrow> event list \<Rightarrow> event list \<Rightarrow> new_session_response option" where
  "session_made E pre [] = None"
| "session_made E pre (Ev_New q # es) =
     (case se_session E (pre @ [Ev_New q]) of Inl _ \<Rightarrow> None | Inr resp \<Rightarrow> Some resp)"
| "session_made E pre (e # es) = session_made E (pre @ [e]) es"





definition deleted_sessions :: "event list \<Rightarrow> event list" where
  "deleted_sessions trace = filter is_delete trace"

lemma deleted_hook [simp]: "deleted_sessions (hook opts a b c d t) = deleted_sessions t"
  "deleted_sessions (dispose E t) = deleted_sessions t"
  by (simp_all add: deleted_sessions_def hook_def dispose_def)




section \<open>The initial mode\<close>

text \<open>The names among the aliases, and the agent refusing names one after the other.\<close>

definition mode_names :: "any list \<Rightarrow> string list" where
  "mode_names aliases = filter (\<lambda>m. trim_space m \<noteq> []) (List.map_filter as_string aliases)"

fun refusals :: "service_env \<Rightarrow> event list \<Rightarrow> string \<Rightarrow> string list \<Rightarrow> bool" where
  "refusals E trace sid [] \<longleftrightarrow> True"
| "refusals E trace sid (m # ms) \<longleftrightarrow>
     se_error E (trace @ [Ev_Set_Mode sid m]) \<noteq> None \<and> refusals E (trace @ [Ev_Set_Mode sid m]) sid ms"

definition undisturbed :: "service_env \<Rightarrow> bool" where
  "undisturbed E \<longleftrightarrow> (\<forall>trace k. se_interference E trace k = [])"

lemma SetAgentMode_result:
  assumes "SetAgentMode E m c = (r, c')"
  shows "r = se_error E (cg_log c')"
    and "cg_log c' = cg_log c @ [Ev_Set_Mode (d_sessionID (cg_driver c)) m]"
    and "d_sessionID (cg_driver c') = d_sessionID (cg_driver c)"
    and "r = None \<Longrightarrow> undisturbed E \<Longrightarrow> md_CurrentModeID (d_metadata (cg_driver c')) = m"
proof -
  show t: "cg_log c' = cg_log c @ [Ev_Set_Mode (d_sessionID (cg_driver c)) m]"
    using SetAgentMode_log [of E m c] assms by simp
  have b: "cg_log (begun E (\<lambda>d. Ev_Set_Mode (d_sessionID d) m) c)
      = cg_log c @ [Ev_Set_Mode (d_sessionID (cg_driver c)) m]"
    by (simp add: begun_def Let_def beginConfigChange_def)
  show "r = se_error E (cg_log c')"
    using assms unfolding t SetAgentMode_state Let_def b by (auto split: option.splits)
  show "d_sessionID (cg_driver c') = d_sessionID (cg_driver c)"
    using keeping.after_mode [OF assms] by (simp add: keeps_def same_frame_def)
  show "md_CurrentModeID (d_metadata (cg_driver c')) = m" if "r = None" "undisturbed E"
    using assms that unfolding SetAgentMode_state Let_def undisturbed_def
    by (auto simp: end_change_def endConfigChange_def mode_applied_def sync_def Let_def split: option.splits)
qed

lemma try_modes_accepted:
  assumes "try_modes E mode aliases lastErr c = (Inr m, c')" "m \<noteq> []"
  shows "\<exists>xs ys. aliases = xs @ Str m # ys
    \<and> (let sid = d_sessionID (cg_driver c); tried = mode_names xs in
        refusals E (cg_log c) sid tried
      \<and> (if cg_log c' = cg_log c
         then lastErr = None \<and> tried = [] \<and> md_CurrentModeID (d_metadata (cg_driver c')) = m
         else cg_log c' = cg_log c @ map (Ev_Set_Mode sid) (tried @ [m])
            \<and> se_error E (cg_log c') = None
            \<and> (undisturbed E \<longrightarrow> md_CurrentModeID (d_metadata (cg_driver c')) = m)))"
  using assms(1)
proof (induction aliases arbitrary: lastErr c)
  case Nil
  then show ?case using assms(2) by (auto split: option.splits prod.splits)
next
  case (Cons a rest)
  let ?sid = "d_sessionID (cg_driver c)"
  show ?case
  proof (cases "\<exists>s. as_string a = Some s \<and> trim_space s \<noteq> []")
    case False
    then have "try_modes E mode rest lastErr c = (Inr m, c')"
      using Cons.prems by (auto split: option.splits if_splits)
    from Cons.IH [OF this] obtain xs ys where xs: "rest = xs @ Str m # ys"
      "let sid = ?sid; tried = mode_names xs in
        refusals E (cg_log c) sid tried
      \<and> (if cg_log c' = cg_log c
         then lastErr = None \<and> tried = [] \<and> md_CurrentModeID (d_metadata (cg_driver c')) = m
         else cg_log c' = cg_log c @ map (Ev_Set_Mode sid) (tried @ [m])
            \<and> se_error E (cg_log c') = None
            \<and> (undisturbed E \<longrightarrow> md_CurrentModeID (d_metadata (cg_driver c')) = m))" by blast
    moreover have "mode_names (a # xs) = mode_names xs"
      using False by (auto simp: mode_names_def List.map_filter_def split: option.split)
    ultimately show ?thesis by (intro exI [of _ "a # xs"] exI [of _ ys]) simp
  next
    case True
    then obtain s where s: "a = Str s" "trim_space s \<noteq> []" by (cases a) auto
    obtain r1 c1 where call: "SetAgentMode E s (sync E c) = (r1, c1)" by fastforce
    note R = SetAgentMode_result [OF call]
    show ?thesis
    proof (cases "lastErr = None \<and> d_configChangesPending (cg_driver (sync E c)) = 0
        \<and> md_CurrentModeID (d_metadata (cg_driver (sync E c))) = s")
      case True
      then have "s = m" "c' = sync E c" using Cons.prems s by (simp_all add: Let_def)
      with True show ?thesis
        by (intro exI [of _ "[]"] exI [of _ rest]) (simp add: s mode_names_def List.map_filter_def)
    next
      case False
      show ?thesis
      proof (cases r1)
        case None
        then have "s = m" "c' = c1" using Cons.prems s False call by (auto simp: Let_def)
        with None R show ?thesis
          by (intro exI [of _ "[]"] exI [of _ rest]) (simp add: s mode_names_def List.map_filter_def)
      next
        case (Some err)
        then have "try_modes E mode rest (Some err) c1 = (Inr m, c')"
          using Cons.prems s False call by (auto simp: Let_def)
        from Cons.IH [OF this] R(3) obtain xs ys where xs: "rest = xs @ Str m # ys"
          "let sid = ?sid; tried = mode_names xs in
            refusals E (cg_log c1) sid tried
          \<and> cg_log c' = cg_log c1 @ map (Ev_Set_Mode sid) (tried @ [m])
          \<and> se_error E (cg_log c') = None
          \<and> (undisturbed E \<longrightarrow> md_CurrentModeID (d_metadata (cg_driver c')) = m)"
          by (auto simp: Let_def split: if_splits)
        moreover have "mode_names (a # xs) = s # mode_names xs"
          using s by (simp add: mode_names_def List.map_filter_def)
        moreover have "se_error E (cg_log c @ [Ev_Set_Mode ?sid s]) = Some err"
          using R(1,2) Some by simp
        ultimately show ?thesis
          using R(2)
          by - (rule exI [of _ "a # xs"], rule exI [of _ ys], auto simp: Let_def)
      qed
    qed
  qed
qed

text \<open>The initial mode is the first alias the agent accepts: when \<open>applyInitialConfigMode\<close>
reports a mode, every earlier name among the profile's aliases was requested, in order, and
refused; the mode itself was then requested and accepted, unless it was already current and
nothing had been refused; and with no concurrent update it is the driver's current mode.\<close>

theorem initial_mode_first_accepted:
  assumes "applyInitialConfigMode E mode profile c = (Inr m, c')" "m \<noteq> []"
  shows "\<exists>xs ys. initialConfigAliases profile ''mode'' (Str mode) = xs @ Str m # ys
    \<and> (let sid = d_sessionID (cg_driver c); tried = mode_names xs in
        refusals E (cg_log c) sid tried
      \<and> (if cg_log c' = cg_log c
         then tried = [] \<and> md_CurrentModeID (d_metadata (cg_driver c')) = m
         else cg_log c' = cg_log c @ map (Ev_Set_Mode sid) (tried @ [m])
            \<and> se_error E (cg_log c') = None
            \<and> (undisturbed E \<longrightarrow> md_CurrentModeID (d_metadata (cg_driver c')) = m)))"
proof -
  have "try_modes E mode (initialConfigAliases profile ''mode'' (Str mode)) None c = (Inr m, c')"
    using assms(1) by (simp add: applyInitialConfigMode_def)
  from try_modes_accepted [OF this assms(2)] show ?thesis by (simp only: refl simp_thms)
qed

section \<open>Sessions without an id\<close>

text \<open>A loaded session can be deaf: the driver of a loaded or forked session has the id of the
agent's response and not the id that was asked for, so when the response carries none, as in the
protocol's response to \<open>session/load\<close>, the driver's id is empty, it ignores every update that
names a session, and its configuration requests name none; the requested queue policy and
initial configuration are not applied either.\<close>

theorem loaded_session_without_id:
  assumes "Load E opts h input = (Inr d, trace)" "se_session E trace = Inr resp" "nr_SessionID resp = []"
  shows "d_sessionID d = [] \<and> d_delivery d = [] \<and> filter is_config_call trace = []
    \<and> last trace = Ev_Load (open_request input [])
    \<and> (sn_SessionID n \<noteq> [] \<longrightarrow> interfere dec (Got_Update env n) d = d)
    \<and> cg_log (snd (SetAgentMode E m \<lparr>cg_driver = d, cg_log = trace, cg_tick = k\<rparr>)) = trace @ [Ev_Set_Mode [] m]"
proof -
  have "open_existing E opts h input Ev_Load ErrorLoad ''session.load'' ''failed to load ACP session'' = (Inr d, trace)"
    using assms(1) by (simp add: Load_def)
  moreover have "\<not> is_dispose (Ev_Load (open_request input []))" "\<not> is_delete (Ev_Load (open_request input []))"
    by simp_all
  ultimately show ?thesis
  proof (cases rule: open_existing_cases)
    case (opened b t)
    have sid: "d_sessionID d = []" "d_delivery d = []"
      using opened assms(2,3) by (auto simp: newACPSessionDriver_def Let_def split: prod.split)
    have q: "filter is_config_call t = []" using opened(2) by (simp add: quiet_prefix_def)
    show ?thesis
      using sid q opened(6) by (simp add: SetAgentMode_log)
  qed simp_all
qed

section \<open>A scripted agent\<close>

text \<open>It creates the session \<open>s\<close>, refuses the mode \<open>bypassPermissions\<close> and accepts every other; \<open>refuse_all\<close>
makes it refuse them all.\<close>

definition no_capabilities :: agent_capabilities where
  "no_capabilities = \<lparr>ac_LoadSession = True, ac_Auth = [],
     ac_PromptCapabilities = \<lparr>pc_Audio = False, pc_Image = False, pc_EmbeddedContext = False\<rparr>,
     ac_MCPCapabilities = \<lparr>mc_HTTP = False, mc_SSE = False\<rparr>,
     ac_SessionCapabilities = \<lparr>sc_Close = None, sc_Fork = None, sc_List = None, sc_Resume = None,
       sc_AdditionalDirectories = None\<rparr>, ac_Meta = [], ac_Raw = []\<rparr>"

definition scripted :: "bool \<Rightarrow> string \<Rightarrow> service_env" where
  "scripted refuse_all sid = \<lparr>se_dec = (\<lambda>_. None), se_enc = (\<lambda>_. Inl []), se_rpc_text = (\<lambda>_. []),
     se_has_dispose = True,
     se_error = (\<lambda>trace. case last trace of
        Ev_Set_Mode _ m \<Rightarrow> if refuse_all \<or> m = ''bypassPermissions'' then Some (Other_Error ''no'') else None
      | _ \<Rightarrow> None),
     se_initialize = (\<lambda>_. Inr \<lparr>ir_ProtocolVersion = 1, ir_AgentInfo = None,
       ir_AgentCapabilities = no_capabilities, ir_AuthMethods = [], ir_Meta = []\<rparr>),
     se_decision = (\<lambda>_. Inr []),
     se_session = (\<lambda>_. Inr (no_response\<lparr>nr_SessionID := sid\<rparr>)),
     se_option = (\<lambda>_. Inr None),
     se_sessions = (\<lambda>_. Inr \<lparr>lr_Sessions = [], lr_NextCursor = None\<rparr>),
     se_interference = (\<lambda>_ _. [])\<rparr>"

definition plain_options :: runtime_options where
  "plain_options = \<lparr>opt_ClientInfo = \<lparr>im_Name = [], im_Version = []\<rparr>, opt_HomeDir = [], opt_CacheDir = [],
     opt_StoredSessionsEnabled = False, opt_AuthenticationHandler = False,
     opt_AuthorityHandlers = no_handlers, opt_OnSessionEvent = True,
     opt_ReadModelLimits = \<lparr>lim_MaxThreadEntries = 0, lim_MaxToolCallEntries = 0,
       lim_MaxPermissionEntries = 0\<rparr>\<rparr>"

definition yolo_start :: start_session_options where
  "yolo_start = \<lparr>st_Agent = empty_agent\<lparr>ag_Type := ''claude-acp''\<rparr>, st_AgentID = [], st_CWD = ''/w'',
     st_MCPServers = None, st_AdditionalDirectories = [],
     st_InitialConfig = \<lparr>ic_Mode = Str ''yolo'', ic_Model = Nil_Value, ic_Effort = Nil_Value, ic_Raw = []\<rparr>,
     st_Queue = ''drop'', st_Meta = [], st_AgentConfig = None\<rparr>"

definition plain_load :: load_session_options where
  "plain_load = start_session_options.extend yolo_start \<lparr>st_SessionID = ''old''\<rparr>"

definition failed_start :: "((go_error + acp_driver) \<times> event list) outcome" where
  "failed_start = open_session (scripted True ''s'') plain_options no_handlers [] (By_Create yolo_start)"

lemma failed_start_result:
  obtains e trace where "failed_start = Value (Inl e, trace)"
    "map_option nr_SessionID (session_made (scripted True ''s'') [] trace) = Some ''s''"
    "has_connection (scripted True ''s'') trace"
proof -
  have run: "case failed_start of
      Value (Inl e, trace) \<Rightarrow> map_option nr_SessionID (session_made (scripted True ''s'') [] trace) = Some ''s''
        \<and> has_connection (scripted True ''s'') trace
    | _ \<Rightarrow> False"
    by code_simp
  then obtain p where p: "failed_start = Value p" by (cases failed_start) auto
  obtain r trace where "p = (r, trace)" by fastforce
  with p have v: "failed_start = Value (r, trace)" by simp
  show ?thesis
  proof (cases r)
    case (Inl e)
    with v have "failed_start = Value (Inl e, trace)" by simp
    then show ?thesis using run unfolding v Inl by (intro that [of e trace]) (simp_all add: v Inl)
  next
    case (Inr d)
    then show ?thesis using run unfolding v by simp
  qed
qed

theorem connection_released_witness:
  "\<exists>e trace pre hooks. failed_start = Value (Inl e, trace) \<and> trace = pre @ Ev_Dispose # hooks
    \<and> filter is_dispose pre = [] \<and> list_all is_hook hooks"
proof -
  obtain e trace where t: "failed_start = Value (Inl e, trace)" "has_connection (scripted True ''s'') trace"
    using failed_start_result by blast
  have d: "se_has_dispose (scripted True ''s'')" by (simp add: scripted_def)
  have "\<exists>pre hooks. trace = pre @ Ev_Dispose # hooks \<and> filter is_dispose pre = [] \<and> list_all is_hook hooks"
    using connection_released [OF t(1) [unfolded failed_start_def]] by (simp add: t(2) d)
  then show ?thesis using t(1) by blast
qed


text \<open>The second alias of \<open>yolo\<close> is accepted.\<close>

definition yolo_profile :: agent_profile where
  "yolo_profile = defaultAgentProfile\<lparr>CreateInitialConfigAliases := yolo_aliases\<rparr>"

definition yolo_run :: "(go_error + string) \<times> configuring" where
  "yolo_run = applyInitialConfigMode (scripted False ''s'') ''yolo'' yolo_profile
     \<lparr>cg_driver = newACPSessionDriver \<lparr>bs_Agent = empty_agent, bs_CWD = [], bs_MCPServers = [],
        bs_InitializeResponse = \<lparr>ir_ProtocolVersion = 1, ir_AgentInfo = None,
          ir_AgentCapabilities = no_capabilities, ir_AuthMethods = [], ir_Meta = []\<rparr>,
        bs_SessionResponse = no_response, bs_Profile = yolo_profile, bs_QueuePolicy = [],
        bs_ReadModelLimits = opt_ReadModelLimits plain_options\<rparr>, cg_log = [], cg_tick = 0\<rparr>"

theorem initial_mode_first_accepted_witness:
  "\<exists>c'. yolo_run = (Inr ''yolo'', c') \<and> md_CurrentModeID (d_metadata (cg_driver c')) = ''yolo''
    \<and> cg_log c' = [Ev_Set_Mode [] ''bypassPermissions'', Ev_Set_Mode [] ''yolo'']"
proof -
  have "case yolo_run of (Inr m, c') \<Rightarrow> m = ''yolo''
      \<and> cg_log c' = [Ev_Set_Mode [] ''bypassPermissions'', Ev_Set_Mode [] ''yolo''] | _ \<Rightarrow> False"
    by code_simp
  then obtain c' where c: "yolo_run = (Inr ''yolo'', c')"
    "cg_log c' = [Ev_Set_Mode [] ''bypassPermissions'', Ev_Set_Mode [] ''yolo'']"
    by (auto split: prod.splits sum.splits)
  have u: "undisturbed (scripted False ''s'')" by (simp add: undisturbed_def scripted_def)
  have "md_CurrentModeID (d_metadata (cg_driver c')) = ''yolo''"
    using initial_mode_first_accepted [OF c(1) [unfolded yolo_run_def]] c(2) u by (auto simp: Let_def)
  then show ?thesis using c by blast
qed

theorem loaded_session_without_id_witness:
  "\<exists>d trace. Load (scripted False []) plain_options no_handlers plain_load = (Inr d, trace)
    \<and> d_sessionID d = [] \<and> last trace = Ev_Load (open_request plain_load [])"
proof -
  have "case Load (scripted False []) plain_options no_handlers plain_load of
      (Inr d, trace) \<Rightarrow> (case se_session (scripted False []) trace of
         Inr resp \<Rightarrow> nr_SessionID resp = [] | _ \<Rightarrow> False)
    | _ \<Rightarrow> False"
    by code_simp
  then obtain d trace resp where l: "Load (scripted False []) plain_options no_handlers plain_load = (Inr d, trace)"
    "se_session (scripted False []) trace = Inr resp" "nr_SessionID resp = []"
    by (auto split: prod.splits sum.splits)
  show ?thesis using loaded_session_without_id [OF l] l(1) by blast
qed

end
