(* ===== verification/Runtime_Registry.thy ===== *)
theory Runtime_Registry
  imports Session_Service Session_Driver
begin

text \<open>
  \<open>runtime.go\<close> and \<open>session.go\<close>: the registry of managed sessions, the handles given to the host,
  and closing. A driver is known by its number, and so is its handle: \<open>register\<close> makes one of each.

  \<^item> Every method of a handle that calls the driver holds the read lock of the handle during the
    whole call (\<open>Call_Begin\<close> to \<open>Call_End\<close>); \<open>Close\<close> and \<open>Delete\<close> need the write lock. As in Go, a
    waiting writer keeps new readers out.
  \<^item> A goroutine that closes is the list of operations it still has to do.
\<close>

section \<open>Starting options\<close>

fun firstNonEmpty :: "string list \<Rightarrow> string" where
  "firstNonEmpty [] = []"
| "firstNonEmpty (v # vs) = (if v \<noteq> [] then v else firstNonEmpty vs)"

abbreviation LocalSimulatorAgentACPRegistryID :: string where
  "LocalSimulatorAgentACPRegistryID \<equiv> ''local-simulator-agent-acp''"

text \<open>\<open>resolve\<close> is \<open>ResolveRuntimeAgentFromRegistry\<close>, \<open>getwd\<close> what \<open>os.Getwd\<close> returns.\<close>

definition resolveStartOptions ::
  "(string \<Rightarrow> go_error + agent) \<Rightarrow> string \<Rightarrow> 'a start_session_options_scheme \<Rightarrow>
   go_error + 'a start_session_options_scheme" where
  "resolveStartOptions resolve getwd options =
     bind_result
       (if ag_Command (st_Agent options) = []
        then
          let agentID = firstNonEmpty [st_AgentID options, ag_Type (st_Agent options)];
              agentID = (if agentID = [] then LocalSimulatorAgentACPRegistryID else agentID)
          in bind_result (resolve agentID) (\<lambda>agent. Inr (options\<lparr>st_Agent := agent\<rparr>))
        else Inr options) (\<lambda>options.
     let agent = st_Agent options;
         options = (if ag_Type agent = [] then options\<lparr>st_Agent := agent\<lparr>ag_Type := ag_Command agent\<rparr>\<rparr>
                    else options)
     in Inr (if st_CWD options = [] then options\<lparr>st_CWD := getwd\<rparr> else options))"

text \<open>\<open>closedTurnHandle\<close>: both channels closed, the error in the completion.\<close>

definition closedTurnHandle :: "go_error \<Rightarrow> active_turn" where
  "closedTurnHandle err = (new_turn [] False)
     \<lparr>at_eventsClosed := True,
      at_completion := [\<lparr>tr_Completion = empty_completion, tr_Err = Some err\<rparr>],
      at_completionClosed := True\<rparr>"

section \<open>State\<close>

record handle =
  hd_closed :: bool
  hd_readers :: nat
  hd_writers :: nat

datatype close_kind = By_Close | By_Delete

datatype rt_op =
    Lock_Session nat close_kind
  | Unregister nat
  | Close_Driver nat close_kind

text \<open>\<open>rt_ids ! d\<close> is \<open>driver.Snapshot().Session.ID\<close>, which never changes; \<open>rt_closings\<close> are the
drivers whose \<open>Close\<close> or \<open>Delete\<close> has been called.\<close>

record runtime =
  rt_sessions :: "nat gomap"
  rt_ids :: "string list"
  rt_handles :: "handle list"
  rt_threads :: "rt_op list list"
  rt_closings :: "(nat \<times> close_kind) list"

definition NewRuntime :: runtime where
  "NewRuntime = \<lparr>rt_sessions = [], rt_ids = [], rt_handles = [], rt_threads = [], rt_closings = []\<rparr>"

section \<open>Operations\<close>

definition register :: "string \<Rightarrow> runtime \<Rightarrow> runtime" where
  "register sid r =
     r\<lparr>rt_sessions := mput sid (length (rt_ids r)) (rt_sessions r),
       rt_ids := rt_ids r @ [sid],
       rt_handles := rt_handles r @ [\<lparr>hd_closed = False, hd_readers = 0, hd_writers = 0\<rparr>]\<rparr>"

definition unregister :: "nat \<Rightarrow> runtime \<Rightarrow> runtime" where
  "unregister d r = r\<lparr>rt_sessions := mdel (rt_ids r ! d) (rt_sessions r)\<rparr>"

definition set_handle :: "nat \<Rightarrow> handle \<Rightarrow> runtime \<Rightarrow> runtime" where
  "set_handle h x r = r\<lparr>rt_handles := (rt_handles r)[h := x]\<rparr>"

text \<open>\<open>Runtime.Close\<close>: the registry is emptied under the lock, then every driver of it is closed.\<close>

definition shutdown :: "string list \<Rightarrow> runtime \<Rightarrow> runtime" where
  "shutdown order r =
     r\<lparr>rt_sessions := [],
       rt_threads := rt_threads r @ [concat (map (\<lambda>k. case mget (rt_sessions r) k of
           Some d \<Rightarrow> [Close_Driver d By_Close] | None \<Rightarrow> [])
         (range_order order (rt_sessions r)))]\<rparr>"

text \<open>Its result: the first error of the drivers it closed.\<close>

definition shutdown_result :: "go_error option list \<Rightarrow> go_error option" where
  "shutdown_result errs = first_some (\<lambda>e. e) errs"

datatype rt_action =
    Register string
  | Call_Begin nat
  | Call_End nat
  | Call_Session_Close nat close_kind
  | Shutdown "string list"
  | Rt_Step nat

text \<open>One operation of a closing goroutine: what it still has to do, and the new state.\<close>

definition rt_op_step :: "rt_op \<Rightarrow> runtime \<Rightarrow> (rt_op list \<times> runtime) option" where
  "rt_op_step o' r = (case o' of
     Lock_Session h kind \<Rightarrow>
       (let x = rt_handles r ! h in
        if hd_readers x > 0 then None
        else if hd_closed x then Some ([], set_handle h (x\<lparr>hd_writers := hd_writers x - 1\<rparr>) r)
        else Some ([Unregister h, Close_Driver h kind],
                   set_handle h (x\<lparr>hd_writers := hd_writers x - 1, hd_closed := True\<rparr>) r))
   | Unregister d \<Rightarrow> Some ([], unregister d r)
   | Close_Driver d kind \<Rightarrow> Some ([], r\<lparr>rt_closings := rt_closings r @ [(d, kind)]\<rparr>))"

fun rt_exec :: "rt_action \<Rightarrow> runtime \<Rightarrow> runtime option" where
  "rt_exec (Register sid) r = Some (register sid r)"
| "rt_exec (Call_Begin h) r =
     (if h < length (rt_handles r) \<and> hd_writers (rt_handles r ! h) = 0
      then let x = rt_handles r ! h in
           Some (if hd_closed x then r else set_handle h (x\<lparr>hd_readers := Suc (hd_readers x)\<rparr>) r)
      else None)"
| "rt_exec (Call_End h) r =
     (if h < length (rt_handles r) \<and> hd_readers (rt_handles r ! h) > 0
      then let x = rt_handles r ! h in Some (set_handle h (x\<lparr>hd_readers := hd_readers x - 1\<rparr>) r)
      else None)"
| "rt_exec (Call_Session_Close h kind) r =
     (if h < length (rt_handles r)
      then let x = rt_handles r ! h; r = set_handle h (x\<lparr>hd_writers := Suc (hd_writers x)\<rparr>) r in
           Some (r\<lparr>rt_threads := rt_threads r @ [[Lock_Session h kind]]\<rparr>)
      else None)"
| "rt_exec (Shutdown order) r = Some (shutdown order r)"
| "rt_exec (Rt_Step i) r =
     (if length (rt_threads r) \<le> i then None
      else case rt_threads r ! i of
        [] \<Rightarrow> None
      | o' # ops \<Rightarrow> map_option (\<lambda>(next_ops, r'). r'\<lparr>rt_threads := (rt_threads r')[i := next_ops @ ops]\<rparr>)
                     (rt_op_step o' r))"

text \<open>The error a method of a closed handle returns without calling the driver.\<close>

definition session_call :: "handle \<Rightarrow> string \<Rightarrow> go_error option" where
  "session_call x op' = (if hd_closed x then Some (sessionClosedError op') else None)"

definition session_status :: "handle \<Rightarrow> string \<Rightarrow> string" where
  "session_status x driver_status = (if hd_closed x then ''closed'' else driver_status)"

section \<open>Sessions of the runtime\<close>

text \<open>The driver of a result is registered under its session id.\<close>

definition register_result ::
  "((go_error + acp_driver) \<times> event list) outcome \<Rightarrow> runtime \<Rightarrow> ((go_error + nat) \<times> runtime) outcome" where
  "register_result res r = bind_outcome res (\<lambda>(x, trace). Value (case x of
       Inl e \<Rightarrow> (Inl e, r)
     | Inr d \<Rightarrow> (Inr (length (rt_ids r)), register (sh_SessionID (driver_snapshot d)) r)))"

definition StartSession ::
  "service_env \<Rightarrow> runtime_options \<Rightarrow> (string \<Rightarrow> go_error + agent) \<Rightarrow> string \<Rightarrow> authority_handlers \<Rightarrow>
   string list \<Rightarrow> start_session_options \<Rightarrow> runtime \<Rightarrow> ((go_error + nat) \<times> runtime) outcome" where
  "StartSession E opts resolve getwd h order options r =
     (case resolveStartOptions resolve getwd options of
        Inl e \<Rightarrow> Value (Inl e, r)
      | Inr input \<Rightarrow> register_result (Create E opts h order input) r)"

definition LoadSession ::
  "service_env \<Rightarrow> runtime_options \<Rightarrow> (string \<Rightarrow> go_error + agent) \<Rightarrow> string \<Rightarrow> authority_handlers \<Rightarrow>
   load_session_options \<Rightarrow> runtime \<Rightarrow> ((go_error + nat) \<times> runtime) outcome" where
  "LoadSession E opts resolve getwd h options r =
     (case resolveStartOptions resolve getwd options of
        Inl e \<Rightarrow> Value (Inl e, r)
      | Inr input \<Rightarrow> register_result (Value (Load E opts h input)) r)"

definition ResumeSession ::
  "service_env \<Rightarrow> runtime_options \<Rightarrow> (string \<Rightarrow> go_error + agent) \<Rightarrow> string \<Rightarrow> authority_handlers \<Rightarrow>
   string list \<Rightarrow> load_session_options \<Rightarrow> runtime \<Rightarrow> ((go_error + nat) \<times> runtime) outcome" where
  "ResumeSession E opts resolve getwd h order options r =
     (case resolveStartOptions resolve getwd options of
        Inl e \<Rightarrow> Value (Inl e, r)
      | Inr input \<Rightarrow> register_result (Resume E opts h order input) r)"

definition ForkSession ::
  "service_env \<Rightarrow> runtime_options \<Rightarrow> (string \<Rightarrow> go_error + agent) \<Rightarrow> string \<Rightarrow> authority_handlers \<Rightarrow>
   load_session_options \<Rightarrow> runtime \<Rightarrow> ((go_error + nat) \<times> runtime) outcome" where
  "ForkSession E opts resolve getwd h options r =
     (case resolveStartOptions resolve getwd options of
        Inl e \<Rightarrow> Value (Inl e, r)
      | Inr input \<Rightarrow> register_result (Value (Fork E opts h input)) r)"

definition ListSessions ::
  "service_env \<Rightarrow> runtime_options \<Rightarrow> (string \<Rightarrow> go_error + agent) \<Rightarrow> string \<Rightarrow> authority_handlers \<Rightarrow>
   string \<Rightarrow> list_sessions_options \<Rightarrow> (go_error + session_list) \<times> event list" where
  "ListSessions E opts resolve getwd h agentID options =
     (case (if ag_Command (ls_Agent options) = []
            then bind_result (resolve (firstNonEmpty [agentID, ag_Type (ls_Agent options)]))
                   (\<lambda>agent. Inr (options\<lparr>ls_Agent := agent\<rparr>))
            else Inr options) of
        Inl e \<Rightarrow> (Inl e, [])
      | Inr options \<Rightarrow> ListAgentSessions E opts h
          (if ls_CWD options = [] then options\<lparr>ls_CWD := getwd\<rparr> else options))"

end
