(* ===== verification/Runtime_Props.thy ===== *)
theory Runtime_Props
  imports Runtime_Registry Read_Model_Laws
begin

text \<open>
  The registry invariant: what a goroutine that closes still has to do has one of three shapes,
  the registry maps ids to drivers with that id, and with distinct ids a driver that is not in
  the registry has been closed or is being closed.
\<close>

section \<open>Invariant\<close>

fun is_close :: "rt_op \<Rightarrow> bool" where
  "is_close (Close_Driver _ _) = True"
| "is_close _ = False"

definition closing :: "nat \<Rightarrow> runtime \<Rightarrow> bool" where
  "closing d r \<longleftrightarrow> (\<exists>k. (d, k) \<in> set (rt_closings r))
     \<or> (\<exists>i k. i < length (rt_threads r) \<and> Close_Driver d k \<in> set (rt_threads r ! i))"

definition closer_shape :: "nat \<Rightarrow> rt_op list \<Rightarrow> bool" where
  "closer_shape n ops \<longleftrightarrow> (\<exists>h k. ops = [Lock_Session h k] \<and> h < n)
     \<or> (\<exists>h k. ops = [Unregister h, Close_Driver h k] \<and> h < n) \<or> list_all is_close ops"

definition registry_inv :: "runtime \<Rightarrow> bool" where
  "registry_inv r \<longleftrightarrow> length (rt_handles r) = length (rt_ids r) \<and> mwf (rt_sessions r)
     \<and> (\<forall>k d. mget (rt_sessions r) k = Some d \<longrightarrow> d < length (rt_ids r) \<and> rt_ids r ! d = k)
     \<and> (\<forall>i < length (rt_threads r). closer_shape (length (rt_ids r)) (rt_threads r ! i))
     \<and> (distinct (rt_ids r) \<longrightarrow> (\<forall>d < length (rt_ids r). mget (rt_sessions r) (rt_ids r ! d) = Some d \<or> closing d r))"

lemma closer_shape_mono: "closer_shape n ops \<Longrightarrow> n \<le> m \<Longrightarrow> closer_shape m ops"
  by (auto simp: closer_shape_def)

lemma closing_threads:
  assumes "closing d r" "set (rt_closings r) \<subseteq> set (rt_closings r')"
    and "length (rt_threads r) \<le> length (rt_threads r')"
    and "\<And>i k. i < length (rt_threads r) \<Longrightarrow> Close_Driver d k \<in> set (rt_threads r ! i)
      \<Longrightarrow> Close_Driver d k \<in> set (rt_threads r' ! i) \<or> (d, k) \<in> set (rt_closings r')"
  shows "closing d r'"
  using assms unfolding closing_def by (meson less_le_trans subsetD)

text \<open>A step that leaves the registry alone.\<close>

lemma registry_frame:
  assumes "registry_inv r" "length (rt_handles r') = length (rt_handles r)" "rt_ids r' = rt_ids r"
    and "rt_sessions r' = rt_sessions r" "\<And>d. closing d r \<Longrightarrow> closing d r'"
    and "\<forall>i < length (rt_threads r'). closer_shape (length (rt_ids r)) (rt_threads r' ! i)"
  shows "registry_inv r'"
  using assms(1) assms(5) unfolding registry_inv_def assms(2-4) by (intro conjI assms(6)) blast+

lemma registered_inv: "registry_inv r \<Longrightarrow> registry_inv (register sid r)"
  by (auto simp: registry_inv_def register_def nth_append closing_def less_Suc_eq
      intro: closer_shape_mono)

lemma shutdown_entries:
  assumes "mwf (rt_sessions r)" "mget (rt_sessions r) k = Some d"
  shows "Close_Driver d By_Close \<in> set (concat (map (\<lambda>k. case mget (rt_sessions r) k of
           Some d \<Rightarrow> [Close_Driver d By_Close] | None \<Rightarrow> []) (range_order order (rt_sessions r))))"
proof -
  have "k \<in> set (range_order order (rt_sessions r))"
    using assms(2) range_order_perm [OF assms(1)] mget_eq_None [of "rt_sessions r" k] by simp
  then show ?thesis using assms by (auto intro!: bexI [of _ k])
qed

lemma shutdown_inv:
  assumes "registry_inv r"
  shows "registry_inv (shutdown order r)"
proof -
  let ?ops = "concat (map (\<lambda>k. case mget (rt_sessions r) k of
           Some d \<Rightarrow> [Close_Driver d By_Close] | None \<Rightarrow> []) (range_order order (rt_sessions r)))"
  have shape: "closer_shape n ?ops" for n
    by (auto simp: closer_shape_def list_all_iff split: option.splits)
  have "closing d (shutdown order r)" if "mget (rt_sessions r) (rt_ids r ! d) = Some d \<or> closing d r" for d
    using that
  proof
    assume "mget (rt_sessions r) (rt_ids r ! d) = Some d"
    then show ?thesis
      using shutdown_entries [of r _ d order] assms unfolding registry_inv_def closing_def shutdown_def
      by (intro disjI2 exI [of _ "length (rt_threads r)"] exI [of _ By_Close]) simp
  next
    assume "closing d r"
    then show ?thesis by (rule closing_threads) (auto simp: shutdown_def nth_append)
  qed
  then show ?thesis
    using assms shape by (auto simp: registry_inv_def shutdown_def nth_append less_Suc_eq)
qed

lemma handle_inv:
  "registry_inv r \<Longrightarrow> registry_inv (set_handle h x r)"
  by (auto simp: registry_inv_def set_handle_def closing_def)

text \<open>A step of a goroutine: the operation runs, and its list is replaced.\<close>

lemma step_inv:
  assumes inv: "registry_inv r" and i: "i < length (rt_threads r)"
    and ops: "rt_threads r ! i = o' # ops" and s: "rt_op_step o' r = Some (next_ops, r1)"
  shows "registry_inv (r1\<lparr>rt_threads := (rt_threads r1)[i := next_ops @ ops]\<rparr>)"
proof -
  let ?n = "length (rt_ids r)" and ?r' = "r1\<lparr>rt_threads := (rt_threads r1)[i := next_ops @ ops]\<rparr>"
  have sh: "closer_shape ?n (o' # ops)" using inv i ops unfolding registry_inv_def by metis
  have keep: "closing d ?r'" if "closing d r" "rt_threads r1 = rt_threads r"
      "set (rt_closings r) \<subseteq> set (rt_closings r1)"
      "\<And>k. Close_Driver d k \<in> set (o' # ops) \<Longrightarrow> Close_Driver d k \<in> set (next_ops @ ops) \<or> (d, k) \<in> set (rt_closings r1)"
    for d
    using that(1)
  proof (rule closing_threads)
    fix j k assume "j < length (rt_threads r)" "Close_Driver d k \<in> set (rt_threads r ! j)"
    then show "Close_Driver d k \<in> set (rt_threads ?r' ! j) \<or> (d, k) \<in> set (rt_closings ?r')"
      using that(2) that(4) [of k] ops i by (cases "j = i") auto
  qed (use that in auto)
  have shapes: "\<forall>j < length (rt_threads ?r'). closer_shape ?n (rt_threads ?r' ! j)"
    if "rt_threads r1 = rt_threads r" "closer_shape ?n (next_ops @ ops)"
    using that inv i by (simp add: registry_inv_def nth_list_update)
  show ?thesis
  proof (cases o')
    case (Lock_Session h k)
    then have h: "ops = []" "h < ?n" using sh by (auto simp: closer_shape_def)
    have r1: "\<exists>x. r1 = set_handle h x r" and no: "next_ops = [] \<or> next_ops = [Unregister h, Close_Driver h k]"
      using s Lock_Session by (auto simp: rt_op_step_def Let_def split: if_splits)
    then have same: "rt_threads r1 = rt_threads r" "rt_closings r1 = rt_closings r" "rt_ids r1 = rt_ids r"
      "rt_sessions r1 = rt_sessions r" "length (rt_handles r1) = length (rt_handles r)"
      by (auto simp: set_handle_def)
    have "closer_shape ?n (next_ops @ ops)" using no h by (auto simp: closer_shape_def)
    moreover have "closing d ?r'" if "closing d r" for d
      by (rule keep [OF that]) (use same Lock_Session h in auto)
    ultimately show ?thesis
      using shapes [OF same(1)] by (intro registry_frame [OF inv]) (simp_all add: same)
  next
    case (Unregister d0)
    then obtain k where h: "ops = [Close_Driver d0 k]" "d0 < ?n" using sh by (auto simp: closer_shape_def)
    have r1: "r1 = unregister d0 r" "next_ops = []" using s Unregister by (auto simp: rt_op_step_def)
    have "closer_shape ?n (next_ops @ ops)" using h r1 by (simp add: closer_shape_def)
    then have sh': "\<forall>j < length (rt_threads ?r'). closer_shape ?n (rt_threads ?r' ! j)"
      using shapes r1 by (simp add: unregister_def)
    have kept: "closing d ?r'" if "closing d r" for d
      by (rule keep [OF that]) (use r1 Unregister in \<open>auto simp: unregister_def\<close>)
    have d0: "closing d0 ?r'"
      unfolding closing_def using i r1 h by (auto simp: unregister_def intro!: exI [of _ i])
    have fields: "rt_ids ?r' = rt_ids r" "rt_sessions ?r' = mdel (rt_ids r ! d0) (rt_sessions r)"
      "rt_handles ?r' = rt_handles r" using r1 by (simp_all add: unregister_def)
    have old: "mwf (rt_sessions r)"
      "\<And>k d. mget (rt_sessions r) k = Some d \<Longrightarrow> d < ?n \<and> rt_ids r ! d = k"
      "\<And>d. distinct (rt_ids r) \<Longrightarrow> d < ?n \<Longrightarrow> mget (rt_sessions r) (rt_ids r ! d) = Some d \<or> closing d r"
      using inv unfolding registry_inv_def by blast+
    have a1: "mget (rt_sessions ?r') (rt_ids r ! d) = Some d \<or> closing d ?r'"
      if "distinct (rt_ids r)" "d < ?n" for d
    proof (cases "d = d0")
      case False
      then have "rt_ids r ! d \<noteq> rt_ids r ! d0" using that h(2) by (simp add: nth_eq_iff_index_eq)
      then show ?thesis using old(3) [OF that] kept unfolding fields by auto
    qed (simp add: d0)
    have a2: "d < ?n \<and> rt_ids r ! d = k" if "mget (rt_sessions ?r') k = Some d" for k d
      using that old(2) unfolding fields mget_mdel by (simp split: if_splits)
    have a3: "length (rt_handles r) = ?n" "mwf (rt_sessions ?r')"
      using inv old(1) unfolding fields registry_inv_def by simp_all
    show ?thesis
      unfolding registry_inv_def fields(1,3) by (intro conjI allI impI a1 a2 a3 sh' [rule_format])
  next
    case (Close_Driver d0 k)
    then have r1: "r1 = r\<lparr>rt_closings := rt_closings r @ [(d0, k)]\<rparr>" "next_ops = []"
      using s by (auto simp: rt_op_step_def)
    have "list_all is_close ops" using sh Close_Driver by (auto simp: closer_shape_def)
    then have "closer_shape ?n (next_ops @ ops)" using r1 by (simp add: closer_shape_def)
    moreover have "closing d ?r'" if "closing d r" for d
      by (rule keep [OF that]) (use r1 Close_Driver in auto)
    ultimately show ?thesis
      using shapes by (intro registry_frame [OF inv]) (simp_all add: r1)
  qed
qed

interpretation registry: step_invariant rt_exec registry_inv
proof
  fix r a r' assume inv: "registry_inv r" and e: "rt_exec a r = Some r'"
  show "registry_inv r'"
  proof (cases a)
    case (Register sid)
    then show ?thesis using inv e registered_inv by auto
  next
    case (Call_Begin h)
    then show ?thesis using inv e handle_inv by (auto simp: Let_def split: if_splits)
  next
    case (Call_End h)
    then show ?thesis using inv e handle_inv by (auto simp: Let_def split: if_splits)
  next
    case (Call_Session_Close h k)
    let ?x = "(rt_handles r ! h)\<lparr>hd_writers := Suc (hd_writers (rt_handles r ! h))\<rparr>"
    let ?r1 = "set_handle h ?x r"
    have h: "h < length (rt_handles r)" and r': "r' = ?r1\<lparr>rt_threads := rt_threads r @ [[Lock_Session h k]]\<rparr>"
      using e Call_Session_Close by (auto simp: Let_def set_handle_def split: if_splits)
    have "closing d r'" if "closing d r" for d
      using that by (rule closing_threads) (auto simp: r' set_handle_def nth_append)
    moreover have "closer_shape (length (rt_ids r)) [Lock_Session h k]"
      using h inv by (simp add: closer_shape_def registry_inv_def)
    moreover have "\<forall>i < length (rt_threads r'). closer_shape (length (rt_ids r)) (rt_threads r' ! i)"
      using inv \<open>closer_shape _ [Lock_Session h k]\<close>
      by (simp add: registry_inv_def r' set_handle_def nth_append less_Suc_eq)
    ultimately show ?thesis
      by (intro registry_frame [OF inv]) (simp_all add: r' set_handle_def)
  next
    case (Shutdown order)
    then show ?thesis using inv e shutdown_inv by auto
  next
    case (Rt_Step i)
    have i: "i < length (rt_threads r)" using e Rt_Step by (simp split: if_splits)
    obtain o' ops where ops: "rt_threads r ! i = o' # ops"
      using e Rt_Step i by (cases "rt_threads r ! i") auto
    obtain next_ops r1 where s: "rt_op_step o' r = Some (next_ops, r1)"
      "r' = r1\<lparr>rt_threads := (rt_threads r1)[i := next_ops @ ops]\<rparr>"
      using e Rt_Step i ops by auto
    show ?thesis using step_inv [OF inv i ops s(1)] s(2) by simp
  qed
qed

lemma NewRuntime_inv: "registry_inv NewRuntime"
  by (simp add: registry_inv_def NewRuntime_def)

section \<open>No session is lost\<close>

lemma reach_registry: "reach rt_exec NewRuntime r \<Longrightarrow> registry_inv r"
  using registry.reachable NewRuntime_inv by blast

text \<open>The goroutine of a shutdown runs to its end.\<close>

lemma closes_run:
  assumes "i < length (rt_threads r)" "rt_threads r ! i = ops" "list_all is_close ops"
  shows "\<exists>r'. run rt_exec (replicate (length ops) (Rt_Step i)) r = Some r' \<and> rt_sessions r' = rt_sessions r
    \<and> (\<forall>d k. Close_Driver d k \<in> set ops \<longrightarrow> (d, k) \<in> set (rt_closings r'))
    \<and> set (rt_closings r) \<subseteq> set (rt_closings r')"
  using assms
proof (induction ops arbitrary: r)
  case (Cons o' ops)
  obtain d k where o': "o' = Close_Driver d k" using Cons.prems(3) by (cases o') auto
  let ?r1 = "r\<lparr>rt_closings := rt_closings r @ [(d, k)], rt_threads := (rt_threads r)[i := ops]\<rparr>"
  have step: "rt_exec (Rt_Step i) r = Some ?r1"
    using Cons.prems o' by (simp add: rt_op_step_def)
  obtain r' where r': "run rt_exec (replicate (length ops) (Rt_Step i)) ?r1 = Some r'"
    "rt_sessions r' = rt_sessions r" "\<forall>d k. Close_Driver d k \<in> set ops \<longrightarrow> (d, k) \<in> set (rt_closings r')"
    "set (rt_closings ?r1) \<subseteq> set (rt_closings r')"
    using Cons.IH [of ?r1] Cons.prems by auto
  have "run rt_exec (replicate (length (o' # ops)) (Rt_Step i)) r = Some r'"
    using step r'(1) by (simp del: rt_exec.simps)
  then show ?case using r'(2-4) o' by (intro exI [of _ r']) auto
qed simp

text \<open>C13. No session is lost as long as the ids of the sessions are distinct: every session ever
registered is in the registry under its id, or its driver has been closed, or a goroutine is
about to close it; and from any such state \<open>Runtime.Close\<close> closes, by its own steps, every driver
that is in the registry, and leaves it empty.\<close>

theorem no_session_lost:
  assumes "reach rt_exec NewRuntime r" "distinct (rt_ids r)" "d < length (rt_ids r)"
  shows "(mget (rt_sessions r) (rt_ids r ! d) = Some d \<or> closing d r)
    \<and> (\<exists>n r'. run rt_exec (Shutdown order # replicate n (Rt_Step (length (rt_threads r)))) r = Some r'
         \<and> rt_sessions r' = [] \<and> closing d r'
         \<and> (mget (rt_sessions r) (rt_ids r ! d) = Some d \<longrightarrow> (d, By_Close) \<in> set (rt_closings r')))"
proof -
  have inv: "registry_inv r" using reach_registry [OF assms(1)] .
  have in_or: "mget (rt_sessions r) (rt_ids r ! d) = Some d \<or> closing d r"
    using inv assms(2,3) unfolding registry_inv_def by blast
  have wf: "mwf (rt_sessions r)" using inv by (simp add: registry_inv_def)
  let ?i = "length (rt_threads r)" and ?r1 = "shutdown order r"
  let ?ops = "rt_threads ?r1 ! ?i"
  have ops: "?ops = concat (map (\<lambda>k. case mget (rt_sessions r) k of
           Some d \<Rightarrow> [Close_Driver d By_Close] | None \<Rightarrow> []) (range_order order (rt_sessions r)))"
    by (simp add: shutdown_def)
  have "list_all is_close ?ops" unfolding ops by (auto simp: list_all_iff split: option.splits)
  then obtain r' where r': "run rt_exec (replicate (length ?ops) (Rt_Step ?i)) ?r1 = Some r'"
    "rt_sessions r' = rt_sessions ?r1"
    "\<forall>d k. Close_Driver d k \<in> set ?ops \<longrightarrow> (d, k) \<in> set (rt_closings r')"
    using closes_run [of ?i ?r1 ?ops] by (auto simp: shutdown_def)
  have run: "run rt_exec (Shutdown order # replicate (length ?ops) (Rt_Step ?i)) r = Some r'"
    using r'(1) by (simp del: rt_exec.simps add: rt_exec.simps(5))
  have inv': "registry_inv r'" using registry.after_run [OF run inv] .
  have empty: "rt_sessions r' = []" using r'(2) by (simp add: shutdown_def)
  have closed: "(d, By_Close) \<in> set (rt_closings r')" if "mget (rt_sessions r) (rt_ids r ! d) = Some d"
    using r'(3) shutdown_entries [OF wf that] unfolding ops by blast
  have "rt_ids r' = rt_ids r"
  proof -
    have "rt_ids u = rt_ids t" if "run rt_exec (replicate n (Rt_Step ?i)) t = Some u" for n t u
      using that
    proof (induction n arbitrary: t)
      case (Suc n)
      then show ?case
        by (auto simp: rt_op_step_def unregister_def set_handle_def Let_def split: if_splits list.splits
            rt_op.splits Option.bind_splits)
    qed simp
    from this [OF r'(1)] show ?thesis by (simp add: shutdown_def)
  qed
  then have "mget (rt_sessions r') (rt_ids r ! d) = Some d \<or> closing d r'"
    using inv' assms(2,3) unfolding registry_inv_def by metis
  then have "closing d r'" using empty by simp
  with in_or run empty closed show ?thesis by blast
qed

definition two_sessions :: "rt_action list" where
  "two_sessions = [Register ''a'', Register ''b'', Call_Session_Close 0 By_Delete, Rt_Step 0]"

theorem no_session_lost_witness:
  "\<exists>r. run rt_exec two_sessions NewRuntime = Some r \<and> (mget (rt_sessions r) ''a'' = Some 0 \<or> closing 0 r)"
proof -
  have "map_option rt_ids (run rt_exec two_sessions NewRuntime) = Some [''a'', ''b'']" by code_simp
  then obtain r where r: "run rt_exec two_sessions NewRuntime = Some r" "rt_ids r = [''a'', ''b'']"
    unfolding map_option_eq_Some by (elim exE conjE)
  show ?thesis using no_session_lost [OF reach_run [OF r(1)], of 0] r by auto
qed

section \<open>Sessions with one id\<close>

text \<open>Two sessions with one id lose one of them (the same session resumed twice, or two loaded
sessions whose responses carry no id): the second takes the first's place in the registry, and
closing the first's handle removes the second from it, so that \<open>Runtime.Close\<close> never closes the
second's driver.\<close>

theorem same_id_session_leaks:
  "\<exists>r. run rt_exec [Register ''s'', Register ''s'', Call_Session_Close 0 By_Close, Rt_Step 0, Rt_Step 0, Rt_Step 0,
        Shutdown []] NewRuntime = Some r
    \<and> rt_sessions r = [] \<and> concat (rt_threads r) = [] \<and> map hd_closed (rt_handles r) = [True, False]
    \<and> closing 0 r \<and> \<not> closing 1 r"
proof -
  have "map_option (\<lambda>r. (rt_sessions r, concat (rt_threads r), map hd_closed (rt_handles r), rt_closings r, length (rt_threads r)))
      (run rt_exec [Register ''s'', Register ''s'', Call_Session_Close 0 By_Close, Rt_Step 0, Rt_Step 0, Rt_Step 0,
        Shutdown []] NewRuntime) = Some ([], [], [True, False], [(0, By_Close)], 2)"
    by code_simp
  then obtain r where r: "run rt_exec [Register ''s'', Register ''s'', Call_Session_Close 0 By_Close, Rt_Step 0, Rt_Step 0,
      Rt_Step 0, Shutdown []] NewRuntime = Some r"
    "(rt_sessions r, concat (rt_threads r), map hd_closed (rt_handles r), rt_closings r, length (rt_threads r))
       = ([], [], [True, False], [(0, By_Close)], 2)"
    unfolding map_option_eq_Some by (elim exE conjE)
  have none: "rt_threads r ! i = []" if "i < 2" for i
    using r(2) that nth_mem [of i "rt_threads r"] by (simp add: concat_eq_Nil_conv)
  have "\<not> closing 1 r" "closing 0 r"
    unfolding closing_def using r(2) by (auto simp: none)
  then show ?thesis using r by auto
qed

section \<open>Closing waits\<close>

text \<open>The goroutine of a close waits for the lock, and a call holds it.\<close>

definition close_waits :: "nat \<Rightarrow> nat \<Rightarrow> close_kind \<Rightarrow> runtime \<Rightarrow> bool" where
  "close_waits h i k r \<longleftrightarrow> i < length (rt_threads r) \<and> rt_threads r ! i = [Lock_Session h k]
     \<and> h < length (rt_handles r) \<and> hd_readers (rt_handles r ! h) > 0 \<and> hd_writers (rt_handles r ! h) > 0
     \<and> \<not> hd_closed (rt_handles r ! h)"

lemma close_waits_step:
  assumes w: "close_waits h i k r" and inv: "registry_inv r" and e: "rt_exec a r = Some r'" and a: "a \<noteq> Call_End h"
  shows "close_waits h i k r'"
proof (cases a)
  case (Rt_Step j)
  have j: "j < length (rt_threads r)" using e Rt_Step by (simp split: if_splits)
  obtain o' ops where ops: "rt_threads r ! j = o' # ops" using e Rt_Step j by (cases "rt_threads r ! j") auto
  obtain next_ops r1 where s: "rt_op_step o' r = Some (next_ops, r1)"
    "r' = r1\<lparr>rt_threads := (rt_threads r1)[j := next_ops @ ops]\<rparr>"
    using e Rt_Step j ops by auto
  show ?thesis
  proof (cases "j = i")
    case True
    then have "o' = Lock_Session h k" using w ops by (simp add: close_waits_def)
    then show ?thesis using s(1) w by (simp add: rt_op_step_def close_waits_def Let_def)
  next
    case False
    have h: "hd_readers (rt_handles r ! h) > 0" "h < length (rt_handles r)" using w by (simp_all add: close_waits_def)
    have "rt_threads r1 = rt_threads r \<and> length (rt_handles r1) = length (rt_handles r)
        \<and> rt_handles r1 ! h = rt_handles r ! h"
    proof (cases o')
      case (Lock_Session h' k')
      then have "h' \<noteq> h" using s(1) h by (auto simp: rt_op_step_def Let_def)
      then show ?thesis
        using s(1) Lock_Session by (auto simp: rt_op_step_def set_handle_def Let_def split: if_splits)
    qed (use s(1) in \<open>auto simp: rt_op_step_def unregister_def\<close>)
    then show ?thesis using w s(2) False by (simp add: close_waits_def)
  qed
next
  case (Call_Begin j)
  then show ?thesis using w e
    by (cases "j = h") (auto simp: close_waits_def set_handle_def Let_def split: if_splits)
next
  case (Call_End j)
  then show ?thesis using w e a
    by (auto simp: close_waits_def set_handle_def Let_def nth_list_update split: if_splits)
next
  case (Call_Session_Close j kind)
  then show ?thesis using w e
    by (auto simp: close_waits_def set_handle_def Let_def nth_append nth_list_update split: if_splits)
qed (use w e in \<open>auto simp: close_waits_def register_def shutdown_def nth_append\<close>)

text \<open>Closing a session can wait for ever: while a call of the session (setting a mode or an
option, cancelling a turn, logging out) is waiting for the agent, \<open>Session.Close\<close> and
\<open>Session.Delete\<close> do not go past the handle's lock, the handle stays open and no new call gets in,
whatever anyone does, until the agent answers that call.\<close>

theorem close_waits_for_call:
  assumes "reach rt_exec NewRuntime r" "close_waits h i k r" "run rt_exec acts r = Some r'" "Call_End h \<notin> set acts"
  shows "rt_threads r' ! i = [Lock_Session h k] \<and> rt_exec (Rt_Step i) r' = None
    \<and> \<not> hd_closed (rt_handles r' ! h) \<and> rt_exec (Call_Begin h) r' = None"
proof -
  have "close_waits h i k r'"
    using assms(3,4,2) reach_registry [OF assms(1)]
  proof (induction acts arbitrary: r)
    case (Cons a acts)
    then obtain r1 where "rt_exec a r = Some r1" "run rt_exec acts r1 = Some r'"
      by (auto simp: bind_eq_Some_conv)
    then show ?case
      using Cons close_waits_step [of h i k r a r1] registry.preserved by auto
  qed simp
  then show ?thesis by (auto simp: close_waits_def rt_op_step_def Let_def)
qed

theorem close_waits_for_call_witness:
  "\<exists>r. run rt_exec [Register ''s'', Call_Begin 0, Call_Session_Close 0 By_Close] NewRuntime = Some r
    \<and> rt_exec (Rt_Step 0) r = None \<and> \<not> hd_closed (rt_handles r ! 0)"
proof -
  have "map_option (close_waits 0 0 By_Close)
      (run rt_exec [Register ''s'', Call_Begin 0, Call_Session_Close 0 By_Close] NewRuntime) = Some True"
    by code_simp
  then obtain r where r: "run rt_exec [Register ''s'', Call_Begin 0, Call_Session_Close 0 By_Close] NewRuntime = Some r"
    "close_waits 0 0 By_Close r"
    unfolding map_option_eq_Some by (elim exE conjE) simp
  show ?thesis using close_waits_for_call [OF reach_run [OF r(1)] r(2), of "[]" r] r(1) by auto
qed

end
