(* ===== verification/Gateway_Routing.thy ===== *)
theory Gateway_Routing
  imports Runtime_Registry
begin

text \<open>
  The OpenAI gateway (\<open>openai/server.go\<close>), first part: its configuration, the models it lists and
  the way a requested model name is routed to an agent and a model.

  \<^item> An internal model id is \<open>agent/model\<close>; the list endpoint shows public ids.
  \<^item> The cache of discovered models is threaded through; the clock is an argument. What the
    discovery of an agent finds (\<open>resolveAgent\<close>, then a session that is started and closed again)
    is a function of the agent id: the answers are the agents'.
  \<^item> \<open>firstNonEmpty\<close> is written a second time in \<open>openai/server.go\<close>, word for word; the model has it
    once.
\<close>

section \<open>Lists of strings\<close>

fun uniqueStrings_from :: "string list \<Rightarrow> string list \<Rightarrow> string list" where
  "uniqueStrings_from seen [] = []"
| "uniqueStrings_from seen (v # vs) =
     (let v' = trim_space v
      in if v' = [] \<or> v' \<in> set seen then uniqueStrings_from seen vs
         else v' # uniqueStrings_from (v' # seen) vs)"

definition uniqueStrings :: "string list \<Rightarrow> string list" where
  "uniqueStrings vs = uniqueStrings_from [] vs"

abbreviation containsString :: "string list \<Rightarrow> string \<Rightarrow> bool" where
  "containsString vs want \<equiv> want \<in> set vs"

section \<open>Configuration\<close>

text \<open>The members of \<open>Config\<close> that decide what the server does; durations in nanoseconds.\<close>

record server_config =
  cf_DefaultAgentID :: string
  cf_CWD :: string
  cf_SessionTTL :: int
  cf_MaxSessions :: int
  cf_APIKey :: string
  cf_AllowHeaderCWD :: bool
  cf_Models :: "string list"
  cf_Agents :: "string list"
  cf_DiscoverModels :: bool
  cf_ModelDiscoveryTTL :: int

record server =
  sv_defaultAgentID :: string
  sv_cwd :: string
  sv_sessionTTL :: int
  sv_maxSessions :: int
  sv_apiKey :: string
  sv_allowHeaderCWD :: bool
  sv_models :: "string list"
  sv_agents :: "string list"
  sv_discoverModels :: bool
  sv_discoveryTTL :: int

abbreviation defaultSessionTTL :: int where
  "defaultSessionTTL \<equiv> 30 * 60 * 1000000000"
abbreviation defaultMaxSessions :: int where
  "defaultMaxSessions \<equiv> 256"

definition NewServer :: "string \<Rightarrow> server_config \<Rightarrow> server" where
  "NewServer getwd config =
     (let ttl = (if cf_SessionTTL config \<le> 0 then defaultSessionTTL else cf_SessionTTL config);
          maxSessions = (if cf_MaxSessions config = 0 then defaultMaxSessions else cf_MaxSessions config);
          cwd = (if cf_CWD config = [] then getwd else cf_CWD config);
          defaultAgentID = (if cf_DefaultAgentID config = [] then LocalSimulatorAgentACPRegistryID
                            else cf_DefaultAgentID config);
          models = (if cf_Models config = [] \<and> \<not> cf_DiscoverModels config then [defaultAgentID]
                    else cf_Models config);
          agents = (if cf_Agents config = [] then [defaultAgentID] else cf_Agents config);
          discoveryTTL = (if cf_ModelDiscoveryTTL config \<le> 0 then 10 * 60 * 1000000000
                          else cf_ModelDiscoveryTTL config)
      in \<lparr>sv_defaultAgentID = defaultAgentID, sv_cwd = cwd, sv_sessionTTL = ttl,
          sv_maxSessions = maxSessions, sv_apiKey = cf_APIKey config,
          sv_allowHeaderCWD = cf_AllowHeaderCWD config, sv_models = uniqueStrings models,
          sv_agents = uniqueStrings agents, sv_discoverModels = cf_DiscoverModels config,
          sv_discoveryTTL = discoveryTTL\<rparr>)"

section \<open>Internal and public model ids\<close>

definition splitInternalModelID :: "string \<Rightarrow> string \<times> string \<times> bool" where
  "splitInternalModelID model =
     (let model = trim_space model
      in if \<not> str_contains model ''/'' then ([], [], False)
         else (case split_n2 model ''/'' of
                 a # m # _ \<Rightarrow> (let agentID = trim_space a; modelID = trim_space m
                              in (agentID, modelID, agentID \<noteq> [] \<and> modelID \<noteq> []))
               | _ \<Rightarrow> ([], [], False)))"

definition cleanInternalModelName :: "string \<Rightarrow> string" where
  "cleanInternalModelName model =
     (let model = trim_space model
      in case str_index model ''['' of None \<Rightarrow> model | Some i \<Rightarrow> trim_space (take i model))"

definition claudePublicModelID :: "string \<Rightarrow> string \<times> bool" where
  "claudePublicModelID modelID =
     (let name = to_lower (cleanInternalModelName modelID)
      in if name \<in> {''opus'', ''opus-4'', ''opus-4-8'', ''claude-opus-4-8''} then (''claude-opus-4-8'', True)
         else if name \<in> {''sonnet'', ''sonnet-4'', ''sonnet-4-6'', ''claude-sonnet-4-6''}
              then (''claude-sonnet-4-6'', True)
         else if name \<in> {''haiku'', ''haiku-4-5'', ''haiku-4-5-20251001'', ''claude-haiku-4-5'',
                         ''claude-haiku-4-5-20251001''} then (''claude-haiku-4-5-20251001'', True)
         else if has_prefix (to_lower modelID) ''claude-'' then (cleanInternalModelName modelID, True)
         else ([], False))"

definition publicModelID :: "string \<Rightarrow> string \<times> bool" where
  "publicModelID internal =
     (case splitInternalModelID internal of (agentID, modelID, ok) \<Rightarrow>
        if \<not> ok
        then (let modelID = cleanInternalModelName internal
              in if modelID = [] \<or> equal_fold modelID ''default'' then ([], False) else (modelID, True))
        else (let modelID = cleanInternalModelName modelID
              in if modelID = [] \<or> equal_fold modelID ''default'' then ([], False)
                 else if to_lower agentID = ''claude'' then claudePublicModelID modelID
                 else (modelID, True)))"

definition publicModelIDs :: "string list \<Rightarrow> string list" where
  "publicModelIDs internal = uniqueStrings (map (fst \<circ> publicModelID) (filter (snd \<circ> publicModelID) internal))"

definition publicModelMatches :: "string \<Rightarrow> string \<Rightarrow> bool" where
  "publicModelMatches public requested \<longleftrightarrow>
     public = requested \<or> public = ''claude-haiku-4-5-20251001'' \<and> requested = ''claude-haiku-4-5''"

definition internalModelAvailable :: "string list \<Rightarrow> string \<Rightarrow> bool" where
  "internalModelAvailable available canonical =
     (case splitInternalModelID canonical of (canonicalAgent, canonicalModel, ok) \<Rightarrow>
        if \<not> ok then containsString available canonical
        else list_ex (\<lambda>model. case splitInternalModelID model of (agentID, modelID, ok) \<Rightarrow>
               ok \<and> agentID = canonicalAgent
               \<and> cleanInternalModelName modelID = cleanInternalModelName canonicalModel) available)"

definition hasModelInventory :: "string list \<Rightarrow> bool" where
  "hasModelInventory models = list_ex (\<lambda>m. str_contains (trim_space m) ''/'') models"

section \<open>Discovery\<close>

definition isModelConfigOption :: "runtime_config_option \<Rightarrow> bool" where
  "isModelConfigOption option \<longleftrightarrow> equal_fold (ro_ID option) ''model'' \<or> equal_fold (ro_Category option) ''model''"

definition nonblank :: "string \<Rightarrow> string option" where
  "nonblank v = (if trim_space v \<noteq> [] then Some (trim_space v) else None)"

definition modelIDsFromMetadata :: "runtime_metadata \<Rightarrow> string list" where
  "modelIDsFromMetadata metadata =
     (let out = List.map_filter (nonblank \<circ> rl_ID) (md_AgentModels metadata)
      in if out \<noteq> [] then uniqueStrings out
         else uniqueStrings (concat (map (\<lambda>option.
                List.map_filter (\<lambda>choice. Option.bind (as_string (co_Value choice)) nonblank) (ro_Options option))
                (filter isModelConfigOption (md_AgentConfigOptions metadata)))))"

definition plain_start :: "agent \<Rightarrow> string \<Rightarrow> start_session_options" where
  "plain_start agent cwd =
     \<lparr>st_Agent = agent, st_AgentID = [], st_CWD = cwd, st_MCPServers = None, st_AdditionalDirectories = [],
      st_InitialConfig = \<lparr>ic_Mode = Nil_Value, ic_Model = Nil_Value, ic_Effort = Nil_Value, ic_Raw = []\<rparr>,
      st_Queue = [], st_Meta = [], st_AgentConfig = None\<rparr>"

text \<open>
  \<open>resolve\<close> is \<open>s.resolveAgent\<close>, \<open>start\<close> the metadata of the session that \<open>StartSession\<close> of the
  discovery runtime yields, both under the discovery timeout.
\<close>

definition discoverAgentModels ::
  "(string \<Rightarrow> go_error + agent) \<Rightarrow> (start_session_options \<Rightarrow> go_error + runtime_metadata) \<Rightarrow> server \<Rightarrow>
   string \<Rightarrow> go_error + string list" where
  "discoverAgentModels resolve start s agentID =
     bind_result (resolve agentID) (\<lambda>agent.
     bind_result (start (plain_start agent (sv_cwd s))) (\<lambda>metadata.
     Inr (modelIDsFromMetadata metadata)))"

definition discoverModelIDs :: "(string \<Rightarrow> go_error + string list) \<Rightarrow> server \<Rightarrow> string list" where
  "discoverModelIDs discover s =
     uniqueStrings (concat (map (\<lambda>agentID. case discover agentID of
         Inl _ \<Rightarrow> []
       | Inr models \<Rightarrow> map (\<lambda>m. agentID @ ''/'' @ m) (List.map_filter nonblank models)) (sv_agents s)))"

record model_cache =
  mc_modelCache :: "string list"
  mc_modelCacheExpiry :: int

definition modelsForList ::
  "(string \<Rightarrow> go_error + string list) \<Rightarrow> server \<Rightarrow> int \<Rightarrow> model_cache \<Rightarrow> string list \<times> model_cache" where
  "modelsForList discover s now c =
     (if \<not> sv_discoverModels s then (uniqueStrings (sv_models s), c)
      else if now < mc_modelCacheExpiry c then (uniqueStrings (sv_models s @ mc_modelCache c), c)
      else let discovered = discoverModelIDs discover s;
               c' = \<lparr>mc_modelCache = discovered, mc_modelCacheExpiry = now + sv_discoveryTTL s\<rparr>;
               out = uniqueStrings (sv_models s @ discovered)
           in (if out = [] then [sv_defaultAgentID s] else out, c'))"

definition prewarmModelCache ::
  "(string \<Rightarrow> go_error + string list) \<Rightarrow> server \<Rightarrow> int \<Rightarrow> model_cache \<Rightarrow> model_cache" where
  "prewarmModelCache discover s now c =
     (if \<not> sv_discoverModels s then c else snd (modelsForList discover s now c))"

section \<open>Routing\<close>

text \<open>
  The functions that call \<open>modelsForList\<close> take it as \<open>list\<close>, a function from the cache to the
  models and the cache: \<open>modelsForList\<close> with its clock and answers.
\<close>

type_synonym model_list = "model_cache \<Rightarrow> string list \<times> model_cache"

fun match_public :: "string list \<Rightarrow> string \<Rightarrow> (string \<times> string) option" where
  "match_public [] model = None"
| "match_public (internal # rest) model =
     (if \<not> str_contains internal ''/'' then match_public rest model
      else case publicModelID internal of (public, ok) \<Rightarrow>
        if \<not> ok \<or> \<not> publicModelMatches public model then match_public rest model
        else case splitInternalModelID internal of (agentID, modelID, ok) \<Rightarrow>
          if \<not> ok then match_public rest model
          else Some (agentID, cleanInternalModelName modelID))"

definition resolvePublicModel ::
  "model_list \<Rightarrow> server \<Rightarrow> string \<Rightarrow> model_cache \<Rightarrow> (string \<times> string) option \<times> model_cache" where
  "resolvePublicModel list s model c =
     (let model = trim_space model
      in if model = [] then (None, c)
         else case list c of (models, c) \<Rightarrow>
           (case match_public models model of
              Some r \<Rightarrow> (Some r, c)
            | None \<Rightarrow> (if containsString (sv_models s) model then Some (sv_defaultAgentID s, model) else None, c)))"

definition modelRouteExists :: "server \<Rightarrow> model_cache \<Rightarrow> string \<Rightarrow> string \<Rightarrow> bool" where
  "modelRouteExists s c agentID model =
     (let route = agentID @ ''/'' @ model
      in containsString (sv_models s) route \<or> containsString (mc_modelCache c) route)"

definition inferAgentForBareModel :: "server \<Rightarrow> model_cache \<Rightarrow> string \<Rightarrow> string" where
  "inferAgentForBareModel s c model =
     (let model = trim_space model; lower = to_lower model;
          preferred = (if has_prefix lower ''claude'' then ''claude''
                       else if has_prefix lower ''gpt'' \<or> has_prefix lower ''o1'' \<or> has_prefix lower ''o3''
                               \<or> has_prefix lower ''o4'' \<or> has_prefix lower ''o5'' then ''codex''
                       else [])
      in if model = [] \<or> preferred = [] then []
         else if modelRouteExists s c preferred model \<or> containsString (sv_agents s) preferred then preferred
         else [])"

definition resolveModelRoute ::
  "model_list \<Rightarrow> server \<Rightarrow> string \<Rightarrow> model_cache \<Rightarrow> (string \<times> string) \<times> model_cache" where
  "resolveModelRoute list s model c =
     (let modelID = trim_space model
      in if str_contains modelID ''/''
         then (case split_n2 modelID ''/'' of
                 a # m # _ \<Rightarrow> ((trim_space a, trim_space m), c)
               | _ \<Rightarrow> ((sv_defaultAgentID s, modelID), c))
         else (case resolvePublicModel list s modelID c of
                 (Some r, c) \<Rightarrow> (r, c)
               | (None, c) \<Rightarrow>
                   (let inferred = inferAgentForBareModel s c modelID
                    in ((if inferred \<noteq> [] then inferred else sv_defaultAgentID s, modelID), c))))"

record http_error =
  he_status :: nat
  he_code :: string
  he_message :: string

text \<open>\<open>quote\<close> is the rendering of \<open>%q\<close>.\<close>

definition validateModelRoute ::
  "(string \<Rightarrow> string) \<Rightarrow> model_list \<Rightarrow> string \<Rightarrow> string \<times> string \<Rightarrow> model_cache \<Rightarrow> http_error option \<times> model_cache" where
  "validateModelRoute quote list requestedModel route c =
     (if trim_space requestedModel = [] then (None, c)
      else case list c of (available, c) \<Rightarrow>
        if \<not> hasModelInventory available then (None, c)
        else let canonical = (if str_contains (trim_space requestedModel) ''/'' then trim_space requestedModel
                              else fst route @ ''/'' @ snd route)
             in if containsString available requestedModel \<or> internalModelAvailable available canonical
                then (None, c)
                else (Some \<lparr>he_status = 404, he_code = ''model_not_found'',
                        he_message = ''model '' @ quote requestedModel @ '' is not available for agent ''
                                     @ quote (fst route)\<rparr>, c))"

text \<open>The public ids of \<open>GET /v1/models\<close>.\<close>

definition listed_models :: "model_list \<Rightarrow> model_cache \<Rightarrow> string list \<times> model_cache" where
  "listed_models list c = (case list c of (models, c) \<Rightarrow> (publicModelIDs models, c))"

end
