(* ===== verification/Gateway_Sessions.thy ===== *)
theory Gateway_Sessions
  imports Gateway_Routing
begin

text \<open>
  \<open>openai/server.go\<close>, second part: the persistent sessions of the gateway. HTTP handlers, the cleanup
  loop and \<open>Close\<close> run concurrently; each is a thread that stands at one of the points between
  two critical sections, calls and waits of its code (\<open>phase\<close>), and a step takes one thread to its
  next point.

  \<^item> A \<open>sessionRecord\<close> is shared by pointer: threads and the session table hold its number.
  \<^item> What the agents do arrives with the actions: whether \<open>StartSession\<close> succeeds and with which
    session id, how a turn ends, how \<open>Session.Close\<close> ends. So do the clock and the id that
    \<open>newID\<close> draws; the model assumes that its 96 random bits do not repeat an id.
  \<^item> Errors that come from outside the gateway are known by their text.
  \<^item> \<open>gw_started\<close> counts the agent sessions that \<open>StartSession\<close> has yielded, \<open>gw_closed\<close> lists those
    whose \<open>Close\<close> has returned.
\<close>

section \<open>State\<close>

record session_record =
  sr_id :: string
  sr_acpID :: string
  sr_session :: nat
  sr_managed :: bool
  sr_agentID :: string
  sr_modelID :: string
  sr_cwd :: string
  sr_ownerHash :: string
  sr_fingerprint :: string
  sr_systemHash :: string
  sr_createdAt :: int
  sr_lastSeenAt :: int
  sr_expiresAt :: int
  sr_busy :: bool
  sr_tainted :: bool

record request_context =
  rc_ownerHash :: string
  rc_agentID :: string
  rc_modelID :: string
  rc_effort :: string
  rc_cwd :: string
  rc_fingerprint :: string
  rc_systemHash :: string

text \<open>
  An admitted chat or responses request: its context, the session it names, whether it wants a
  persistent session, the response id to remember for it, whether the answer is streamed.
\<close>

record gw_request =
  rq_context :: request_context
  rq_sessionID :: string
  rq_persistent :: bool
  rq_alias :: "string option"
  rq_stream :: bool

record session_list_entry =
  le_ID :: string
  le_ACPSessionID :: string
  le_Object :: string
  le_Agent :: string
  le_Model :: string
  le_CWD :: string
  le_Busy :: bool
  le_Tainted :: bool
  le_CreatedAt :: int
  le_LastSeenAt :: int
  le_ExpiresAt :: int
  le_Fingerprint :: string

datatype gw_reply =
    Http_Error http_error
  | Turn_Done
  | No_Content
  | Session_List "session_list_entry list"
  | Swept
  | Shut_Down "string option"

datatype phase =
    Ask_Limit gw_request
  | Starting gw_request
  | Insert_Record gw_request nat string
  | Close_Rejected nat
  | Find_Session gw_request
  | Check_Session gw_request nat
  | Remove_Expired string nat
  | Close_Expired nat
  | Chosen gw_request nat
  | Begin_Turn gw_request nat
  | In_Turn gw_request nat
  | Start_Temporary gw_request
  | Temporary_Turn gw_request nat
  | Close_Temporary nat gw_reply
  | Delete_Find string string
  | Delete_Remove string nat string
  | Delete_Close nat
  | Scan_Expired "string option"
  | Close_Swept "nat list" "string option"
  | List_Sessions string
  | Drain
  | Close_Drained "nat list" "string option"
  | Close_Runtimes "string option"
  | Replied gw_reply

record gateway =
  gw_server :: server
  gw_ownsRuntime :: bool
  gw_ownsDiscovery :: bool
  gw_sessions :: "nat gomap"
  gw_responses :: "string gomap"
  gw_records :: "session_record list"
  gw_ids :: "string list"
  gw_started :: nat
  gw_closed :: "nat list"
  gw_shut :: bool
  gw_shutDone :: bool
  gw_runtimeClosed :: bool
  gw_discoveryClosed :: bool
  gw_threads :: "phase list"

definition new_gateway :: "server \<Rightarrow> bool \<Rightarrow> bool \<Rightarrow> gateway" where
  "new_gateway server owns owns_discovery =
     \<lparr>gw_server = server, gw_ownsRuntime = owns, gw_ownsDiscovery = owns_discovery, gw_sessions = [],
      gw_responses = [], gw_records = [], gw_ids = [], gw_started = 0, gw_closed = [], gw_shut = False,
      gw_shutDone = False, gw_runtimeClosed = False, gw_discoveryClosed = False, gw_threads = []\<rparr>"

section \<open>One record\<close>

definition tryBegin :: "int \<Rightarrow> int \<Rightarrow> session_record \<Rightarrow> session_record option" where
  "tryBegin ttl now r =
     (if sr_busy r \<or> sr_tainted r then None
      else let r = r\<lparr>sr_busy := True, sr_lastSeenAt := now\<rparr>
           in Some (if ttl > 0 then r\<lparr>sr_expiresAt := now + ttl\<rparr> else r))"

definition end_turn :: "bool \<Rightarrow> int \<Rightarrow> int \<Rightarrow> session_record \<Rightarrow> session_record" where
  "end_turn tainted ttl now r =
     (let r = r\<lparr>sr_busy := False\<rparr>;
          r = (if tainted then r\<lparr>sr_tainted := True\<rparr> else r)
      in r\<lparr>sr_lastSeenAt := now, sr_expiresAt := now + ttl\<rparr>)"

definition isBusy :: "session_record \<Rightarrow> bool" where
  "isBusy r = sr_busy r"

definition new_record :: "server \<Rightarrow> request_context \<Rightarrow> string \<Rightarrow> nat \<Rightarrow> string \<Rightarrow> int \<Rightarrow> session_record" where
  "new_record sv rc sid n acpID now =
     \<lparr>sr_id = sid, sr_acpID = acpID, sr_session = n, sr_managed = True, sr_agentID = rc_agentID rc,
      sr_modelID = rc_modelID rc, sr_cwd = rc_cwd rc, sr_ownerHash = rc_ownerHash rc,
      sr_fingerprint = rc_fingerprint rc, sr_systemHash = rc_systemHash rc, sr_createdAt = now,
      sr_lastSeenAt = now, sr_expiresAt = now + sv_sessionTTL sv, sr_busy = False, sr_tainted = False\<rparr>"

definition list_entry :: "session_record \<Rightarrow> session_list_entry" where
  "list_entry r =
     \<lparr>le_ID = sr_id r, le_ACPSessionID = sr_acpID r, le_Object = ''acp.session'', le_Agent = sr_agentID r,
      le_Model = sr_modelID r, le_CWD = sr_cwd r, le_Busy = sr_busy r, le_Tainted = sr_tainted r,
      le_CreatedAt = sr_createdAt r, le_LastSeenAt = sr_lastSeenAt r, le_ExpiresAt = sr_expiresAt r,
      le_Fingerprint = sr_fingerprint r\<rparr>"

section \<open>The tables\<close>

definition removeResponseAliasesLocked :: "string \<Rightarrow> gateway \<Rightarrow> gateway" where
  "removeResponseAliasesLocked sid s = s\<lparr>gw_responses := filter (\<lambda>p. snd p \<noteq> sid) (gw_responses s)\<rparr>"

definition getSession :: "string \<Rightarrow> gateway \<Rightarrow> nat option" where
  "getSession sid s = mget (gw_sessions s) sid"

definition removeSession :: "string \<Rightarrow> gateway \<Rightarrow> gateway" where
  "removeSession sid s = removeResponseAliasesLocked sid (s\<lparr>gw_sessions := mdel sid (gw_sessions s)\<rparr>)"

definition registerResponseSession :: "string \<Rightarrow> string \<Rightarrow> gateway \<Rightarrow> gateway" where
  "registerResponseSession rid sid s = s\<lparr>gw_responses := mput rid sid (gw_responses s)\<rparr>"

definition sessionIDForResponse :: "string \<Rightarrow> gateway \<Rightarrow> string option" where
  "sessionIDForResponse rid s = mget (gw_responses s) rid"

definition at_limit :: "gateway \<Rightarrow> bool" where
  "at_limit s \<longleftrightarrow> 0 < sv_maxSessions (gw_server s) \<and>
     sv_maxSessions (gw_server s) \<le> int (length (gw_sessions s))"

definition expired_sessions :: "int \<Rightarrow> gateway \<Rightarrow> (string \<times> nat) list" where
  "expired_sessions now s =
     filter (\<lambda>(sid, r). sr_expiresAt (gw_records s ! r) < now \<and> \<not> isBusy (gw_records s ! r)) (gw_sessions s)"

text \<open>The locked part of \<open>cleanupExpired\<close>.\<close>

definition take_expired :: "int \<Rightarrow> gateway \<Rightarrow> nat list \<times> gateway" where
  "take_expired now s =
     (let gone = expired_sessions now s
      in (map snd gone, fold (removeSession \<circ> fst) gone s))"

definition drainSessions :: "gateway \<Rightarrow> nat list \<times> gateway" where
  "drainSessions s = (map snd (gw_sessions s), s\<lparr>gw_sessions := [], gw_responses := []\<rparr>)"

definition sessionStats :: "gateway \<Rightarrow> nat \<times> nat" where
  "sessionStats s = (length (gw_sessions s),
     length (filter (\<lambda>p. isBusy (gw_records s ! snd p)) (gw_sessions s)))"

definition sessions_of :: "string \<Rightarrow> gateway \<Rightarrow> session_list_entry list" where
  "sessions_of owner s =
     map (\<lambda>p. list_entry (gw_records s ! snd p))
       (filter (\<lambda>p. sr_ownerHash (gw_records s ! snd p) = owner) (gw_sessions s))"

section \<open>Replies\<close>

abbreviation error_reply :: "nat \<Rightarrow> string \<Rightarrow> string \<Rightarrow> gw_reply" where
  "error_reply status code message \<equiv>
     Http_Error \<lparr>he_status = status, he_code = code, he_message = message\<rparr>"

definition limit_error :: "gateway \<Rightarrow> gw_reply" where
  "limit_error s = error_reply 429 ''session_limit''
     (''maximum concurrent sessions reached ('' @ int_decimal (sv_maxSessions (gw_server s)) @ '')'')"

text \<open>
  A busy session: the streaming handlers write 409 themselves; the others return the error, and
  their caller writes it as the failure of a turn.
\<close>

definition busy_error :: "bool \<Rightarrow> gw_reply" where
  "busy_error stream =
     (if stream then error_reply 409 ''session_busy'' ''ACP session is busy''
      else error_reply 502 ''acp_turn_error'' ''ACP session is busy'')"

text \<open>\<open>validatePersistentSession\<close> once it has the record: the reply that refuses it, if any.\<close>

datatype verdict = Refuse gw_reply | Expired | Accept

definition validate_record :: "request_context \<Rightarrow> int \<Rightarrow> session_record \<Rightarrow> verdict" where
  "validate_record rc now r =
     (if sr_ownerHash r \<noteq> rc_ownerHash rc then Refuse (error_reply 404 ''session_not_found'' ''ACP session not found'')
      else if sr_expiresAt r < now then Expired
      else if sr_fingerprint r \<noteq> rc_fingerprint rc
        then Refuse (error_reply 409 ''session_conflict'' ''ACP session fingerprint does not match request'')
      else if rc_systemHash rc \<noteq> [] \<and> sr_systemHash r \<noteq> [] \<and> rc_systemHash rc \<noteq> sr_systemHash r
        then Refuse (error_reply 409 ''session_conflict'' ''ACP session system prompt does not match'')
      else if sr_tainted r
        then Refuse (error_reply 409 ''session_tainted'' ''ACP session is tainted; create a new session'')
      else Accept)"

section \<open>Starting an agent session\<close>

text \<open>\<open>start\<close> is \<open>StartSession\<close> of the runtime of the server.\<close>

definition startSession ::
  "(string \<Rightarrow> go_error + agent) \<Rightarrow> (start_session_options \<Rightarrow> go_error + 'a) \<Rightarrow> request_context \<Rightarrow> go_error + 'a" where
  "startSession resolve start rc =
     bind_result (resolve (rc_agentID rc)) (\<lambda>agent.
     let options = plain_start agent (rc_cwd rc);
         config = st_InitialConfig options;
         config = (if rc_modelID rc \<noteq> [] then config\<lparr>ic_Model := Str (rc_modelID rc)\<rparr> else config);
         config = (if rc_effort rc \<noteq> [] then config\<lparr>ic_Effort := Str (rc_effort rc)\<rparr> else config)
     in start (options\<lparr>st_InitialConfig := config\<rparr>))"

section \<open>Steps\<close>

datatype gw_action =
    Arrive phase
  | Advance nat int
  | Session_Started nat "string + string"
  | Record_Made nat int string
  | Turn_Ended nat int "string option"
  | Session_Closed nat "string option"
  | Runtimes_Closed nat "string option" "string option"

text \<open>The points at which the goroutines of the server begin.\<close>

fun entry_point :: "phase \<Rightarrow> bool" where
  "entry_point (Ask_Limit q) = (rq_persistent q \<and> rq_sessionID q = [])"
| "entry_point (Find_Session q) = (rq_persistent q \<and> rq_sessionID q \<noteq> [])"
| "entry_point (Start_Temporary q) = (\<not> rq_persistent q)"
| "entry_point (Delete_Find sid owner) = (sid \<noteq> [] \<and> \<not> str_contains sid ''/'')"
| "entry_point (Scan_Expired owner) = True"
| "entry_point Drain = True"
| "entry_point _ = False"

definition gw_set_phase :: "nat \<Rightarrow> phase \<Rightarrow> gateway \<Rightarrow> gateway" where
  "gw_set_phase p ph s = s\<lparr>gw_threads := (gw_threads s)[p := ph]\<rparr>"

definition set_record :: "nat \<Rightarrow> session_record \<Rightarrow> gateway \<Rightarrow> gateway" where
  "set_record r x s = s\<lparr>gw_records := (gw_records s)[r := x]\<rparr>"

abbreviation gw_ttl :: "gateway \<Rightarrow> int" where
  "gw_ttl s \<equiv> sv_sessionTTL (gw_server s)"

text \<open>Steps that only touch the state of the server.\<close>

fun advance_phase :: "phase \<Rightarrow> int \<Rightarrow> gateway \<Rightarrow> (phase \<times> gateway) option" where
  "advance_phase (Ask_Limit q) now s = Some (if at_limit s then Replied (limit_error s) else Starting q, s)"
| "advance_phase (Find_Session q) now s =
     Some (case getSession (rq_sessionID q) s of
         None \<Rightarrow> Replied (error_reply 404 ''session_not_found'' ''ACP session not found'')
       | Some r \<Rightarrow> Check_Session q r, s)"
| "advance_phase (Check_Session q r) now s =
     Some (case validate_record (rq_context q) now (gw_records s ! r) of
         Refuse e \<Rightarrow> Replied e
       | Expired \<Rightarrow> Remove_Expired (rq_sessionID q) r
       | Accept \<Rightarrow> Chosen q r, s)"
| "advance_phase (Remove_Expired sid r) now s = Some (Close_Expired r, removeSession sid s)"
| "advance_phase (Chosen q r) now s =
     Some (Begin_Turn q r,
       case rq_alias q of None \<Rightarrow> s | Some rid \<Rightarrow> registerResponseSession rid (sr_id (gw_records s ! r)) s)"
| "advance_phase (Begin_Turn q r) now s =
     Some (case tryBegin (gw_ttl s) now (gw_records s ! r) of
         None \<Rightarrow> (Replied (busy_error (rq_stream q)), s)
       | Some x \<Rightarrow> (In_Turn q r, set_record r x s))"
| "advance_phase (Delete_Find sid owner) now s =
     Some (case getSession sid s of
         None \<Rightarrow> Replied (error_reply 404 ''not_found'' ''session not found'')
       | Some r \<Rightarrow> if sr_ownerHash (gw_records s ! r) \<noteq> owner
                  then Replied (error_reply 404 ''not_found'' ''session not found'')
                  else Delete_Remove sid r owner, s)"
| "advance_phase (Delete_Remove sid r owner) now s = Some (Delete_Close r, removeSession sid s)"
| "advance_phase (Scan_Expired owner) now s =
     (case take_expired now s of (rs, s') \<Rightarrow> Some (Close_Swept rs owner, s'))"
| "advance_phase (Close_Swept [] owner) now s =
     Some (case owner of None \<Rightarrow> Replied Swept | Some o' \<Rightarrow> List_Sessions o', s)"
| "advance_phase (List_Sessions owner) now s = Some (Replied (Session_List (sessions_of owner s)), s)"
| "advance_phase Drain now s =
     (if gw_shut s then (if gw_shutDone s then Some (Replied (Shut_Down None), s) else None)
      else case drainSessions s of (rs, s') \<Rightarrow> Some (Close_Drained rs None, s'\<lparr>gw_shut := True\<rparr>))"
| "advance_phase (Close_Drained [] err) now s = Some (Close_Runtimes err, s)"
| "advance_phase _ now s = None"

fun started_phase :: "phase \<Rightarrow> string + string \<Rightarrow> gateway \<Rightarrow> (phase \<times> gateway) option" where
  "started_phase (Starting q) (Inr acp) s =
     Some (Insert_Record q (gw_started s) acp, s\<lparr>gw_started := Suc (gw_started s)\<rparr>)"
| "started_phase (Start_Temporary q) (Inr acp) s =
     Some (Temporary_Turn q (gw_started s), s\<lparr>gw_started := Suc (gw_started s)\<rparr>)"
| "started_phase (Starting q) (Inl e) s =
     Some (Replied (error_reply 502 ''acp_session_error'' e), s)"
| "started_phase (Start_Temporary q) (Inl e) s =
     Some (Replied (error_reply 502 ''acp_session_error'' e), s)"
| "started_phase _ r s = None"

text \<open>The second half of \<open>createPersistentSession\<close>: the limit is checked again as the record is stored.\<close>

fun made_phase :: "phase \<Rightarrow> int \<Rightarrow> string \<Rightarrow> gateway \<Rightarrow> (phase \<times> gateway) option" where
  "made_phase (Insert_Record q n acp) now sid s =
     (if sid = [] \<or> sid \<in> set (gw_ids s) then None
      else let s = s\<lparr>gw_ids := sid # gw_ids s\<rparr>
           in if at_limit s then Some (Close_Rejected n, s)
              else Some (Chosen q (length (gw_records s)),
                s\<lparr>gw_records := gw_records s @ [new_record (gw_server s) (rq_context q) sid n acp now],
                  gw_sessions := mput sid (length (gw_records s)) (gw_sessions s)\<rparr>))"
| "made_phase _ now sid s = None"

text \<open>A stream has its status and reports the failure itself.\<close>

definition turn_reply :: "bool \<Rightarrow> string option \<Rightarrow> gw_reply" where
  "turn_reply stream err = (case err of None \<Rightarrow> Turn_Done
     | Some e \<Rightarrow> if stream then Turn_Done else error_reply 502 ''acp_turn_error'' e)"

fun ended_phase :: "phase \<Rightarrow> int \<Rightarrow> string option \<Rightarrow> gateway \<Rightarrow> (phase \<times> gateway) option" where
  "ended_phase (In_Turn q r) now err s =
     Some (Replied (turn_reply (rq_stream q) err),
       set_record r (end_turn False (gw_ttl s) now (gw_records s ! r)) s)"
| "ended_phase (Temporary_Turn q n) now err s =
     Some (Close_Temporary n (turn_reply (rq_stream q) err), s)"
| "ended_phase _ now err s = None"

text \<open>\<open>closeManagedSession\<close>, and the plain \<open>session.Close\<close> of a session without a record.\<close>

definition closeManagedSession :: "nat \<Rightarrow> gateway \<Rightarrow> gateway" where
  "closeManagedSession r s =
     (if sr_managed (gw_records s ! r)
      then s\<lparr>gw_closed := gw_closed s @ [sr_session (gw_records s ! r)]\<rparr> else s)"

definition close_session :: "nat \<Rightarrow> gateway \<Rightarrow> gateway" where
  "close_session n s = s\<lparr>gw_closed := gw_closed s @ [n]\<rparr>"

definition first_error :: "string option \<Rightarrow> string option \<Rightarrow> string option" where
  "first_error old new = (case old of None \<Rightarrow> new | Some e \<Rightarrow> Some e)"

fun closed_phase :: "phase \<Rightarrow> string option \<Rightarrow> gateway \<Rightarrow> (phase \<times> gateway) option" where
  "closed_phase (Close_Rejected n) err s = Some (Replied (limit_error s), close_session n s)"
| "closed_phase (Close_Expired r) err s =
     Some (Replied (error_reply 410 ''session_expired'' ''ACP session expired''), closeManagedSession r s)"
| "closed_phase (Close_Temporary n reply) err s = Some (Replied reply, close_session n s)"
| "closed_phase (Delete_Close r) err s = Some (Replied No_Content, closeManagedSession r s)"
| "closed_phase (Close_Swept (r # rs) owner) err s = Some (Close_Swept rs owner, closeManagedSession r s)"
| "closed_phase (Close_Drained (r # rs) old) err s =
     Some (Close_Drained rs (first_error old err), closeManagedSession r s)"
| "closed_phase _ err s = None"

fun runtimes_phase :: "phase \<Rightarrow> string option \<Rightarrow> string option \<Rightarrow> gateway \<Rightarrow> (phase \<times> gateway) option" where
  "runtimes_phase (Close_Runtimes old) err err' s =
     (let old = (if gw_ownsRuntime s then first_error old err else old);
          old = (if gw_ownsDiscovery s then first_error old err' else old)
      in Some (Replied (Shut_Down old),
           s\<lparr>gw_runtimeClosed := gw_runtimeClosed s \<or> gw_ownsRuntime s,
             gw_discoveryClosed := gw_discoveryClosed s \<or> gw_ownsDiscovery s, gw_shutDone := True\<rparr>))"
| "runtimes_phase _ err err' s = None"

text \<open>Which thread an action moves, and what it does there.\<close>

fun actor :: "gw_action \<Rightarrow> nat" where
  "actor (Arrive ph) = 0"
| "actor (Advance p now) = p"
| "actor (Session_Started p r) = p"
| "actor (Record_Made p now sid) = p"
| "actor (Turn_Ended p now err) = p"
| "actor (Session_Closed p err) = p"
| "actor (Runtimes_Closed p err err') = p"

fun phase_step :: "gw_action \<Rightarrow> phase \<Rightarrow> gateway \<Rightarrow> (phase \<times> gateway) option" where
  "phase_step (Arrive ph') ph s = None"
| "phase_step (Advance p now) ph s = advance_phase ph now s"
| "phase_step (Session_Started p r) ph s = started_phase ph r s"
| "phase_step (Record_Made p now sid) ph s = made_phase ph now sid s"
| "phase_step (Turn_Ended p now err) ph s = ended_phase ph now err s"
| "phase_step (Session_Closed p err) ph s = closed_phase ph err s"
| "phase_step (Runtimes_Closed p err err') ph s = runtimes_phase ph err err' s"

definition gw_step :: "gw_action \<Rightarrow> gateway \<Rightarrow> gateway option" where
  "gw_step a s =
     (case a of
        Arrive ph \<Rightarrow> if entry_point ph then Some (s\<lparr>gw_threads := gw_threads s @ [ph]\<rparr>) else None
      | _ \<Rightarrow> if actor a < length (gw_threads s)
             then map_option (\<lambda>(ph, s'). gw_set_phase (actor a) ph s') (phase_step a (gw_threads s ! actor a) s)
             else None)"

end
