(* ===== verification/Gateway_Types.thy ===== *)
theory Gateway_Types
  imports Gateway_Sessions
begin

text \<open>
  \<open>openai/types.go\<close> and the part of \<open>openai/server.go\<close> that turns requests into prompts: the request
  bodies, what decoding makes of a content that is text or a list of parts, the validation of
  requests, and the prompt text. The generation options that the gateway reads and drops
  (temperature, token limits, stop words, user) are not in the records.
\<close>

section \<open>Chat requests\<close>

record message_part =
  mp_Type :: string
  mp_Text :: string

record message_content =
  mc_Text :: string
  mc_Parts :: "message_part list"

record chat_message =
  cm_Role :: string
  cm_Content :: message_content
  cm_Name :: string

record chat_completion_request =
  cq_Model :: string
  cq_Messages :: "chat_message list"
  cq_Stream :: bool
  cq_Metadata :: "meta option"
  cq_Tools :: "bytes list"
  cq_ToolChoice :: any
  cq_ResponseFormat :: "string option"
  cq_IncludeUsage :: "bool option"
  cq_Modalities :: "string list"
  cq_N :: "int option"

text \<open>
  \<open>UnmarshalJSON\<close>: \<open>as_text\<close> and \<open>as_parts\<close> are what \<open>json.Unmarshal\<close> makes of the data as a
  string and as a list. The result is the error text or the decoded value.
\<close>

definition content_unmarshal ::
  "string option \<Rightarrow> message_part list option \<Rightarrow> bytes \<Rightarrow> string + message_content" where
  "content_unmarshal as_text as_parts data =
     (case as_text of
        Some t \<Rightarrow> Inr \<lparr>mc_Text = t, mc_Parts = []\<rparr>
      | None \<Rightarrow> (case as_parts of
          Some ps \<Rightarrow> Inr \<lparr>mc_Text = [], mc_Parts = ps\<rparr>
        | None \<Rightarrow> if data = ''null'' then Inr \<lparr>mc_Text = [], mc_Parts = []\<rparr>
                  else Inl ''unsupported message content''))"

text \<open>What one part adds to the text of its content; \<open>texts\<close> are the types that carry text.\<close>

definition part_text :: "string list \<Rightarrow> message_part \<Rightarrow> string option" where
  "part_text texts part =
     (if mp_Type part \<in> set texts then (if mp_Text part \<noteq> [] then Some (mp_Text part) else None)
      else if mp_Type part \<in> {''image_url'', ''input_image''} then Some ''[image]''
      else None)"

definition content_text :: "message_content \<Rightarrow> string" where
  "content_text c =
     (if mc_Text c \<noteq> [] then mc_Text c
      else str_join (List.map_filter (part_text [''text'', ''input_text'']) (mc_Parts c)) [CHR 0x0A])"

section \<open>Responses requests\<close>

record response_input_item =
  ri_Type :: string
  ri_Role :: string
  ri_Content :: message_content

record response_input =
  in_Text :: string
  in_Items :: "response_input_item list"
  in_Set :: bool

record response_request =
  rs_Model :: string
  rs_Input :: response_input
  rs_Instructions :: string
  rs_Stream :: bool
  rs_PreviousResponseID :: string
  rs_Store :: "bool option"
  rs_Metadata :: "meta option"
  rs_Tools :: "bytes list"
  rs_ToolChoice :: any
  rs_TextFormat :: "string option"
  rs_Reasoning :: "string option"

definition input_unmarshal ::
  "string option \<Rightarrow> response_input_item list option \<Rightarrow> bytes \<Rightarrow> string + response_input" where
  "input_unmarshal as_text as_items data =
     (case as_text of
        Some t \<Rightarrow> Inr \<lparr>in_Text = t, in_Items = [], in_Set = True\<rparr>
      | None \<Rightarrow> (case as_items of
          Some is \<Rightarrow> Inr \<lparr>in_Text = [], in_Items = is, in_Set = True\<rparr>
        | None \<Rightarrow> if data = ''null'' then Inr \<lparr>in_Text = [], in_Items = [], in_Set = True\<rparr>
                  else Inl ''unsupported response input''))"

definition input_content_unmarshal ::
  "string option \<Rightarrow> message_part list option \<Rightarrow> bytes \<Rightarrow> string + message_content" where
  "input_content_unmarshal as_text as_parts data =
     (case as_text of
        Some t \<Rightarrow> Inr \<lparr>mc_Text = t, mc_Parts = []\<rparr>
      | None \<Rightarrow> (case as_parts of
          Some ps \<Rightarrow> Inr \<lparr>mc_Text = [], mc_Parts = ps\<rparr>
        | None \<Rightarrow> if data = ''null'' then Inr \<lparr>mc_Text = [], mc_Parts = []\<rparr>
                  else Inl ''unsupported response input content''))"

definition input_empty :: "response_input \<Rightarrow> bool" where
  "input_empty i \<longleftrightarrow> trim_space (in_Text i) = [] \<and> in_Items i = []"

definition input_content_text :: "message_content \<Rightarrow> string" where
  "input_content_text c =
     (if mc_Text c \<noteq> [] then mc_Text c
      else str_join (List.map_filter (part_text [''text'', ''input_text'', ''output_text'']) (mc_Parts c)) [CHR 0x0A])"

text \<open>The label a role puts before its text; both prompt builders have this switch.\<close>

definition labelled :: "string \<Rightarrow> string \<Rightarrow> string" where
  "labelled role text =
     (if role = ''system'' then ''[System]'' @ [CHR 0x0A] @ text
      else if role = ''developer'' then ''[Developer]'' @ [CHR 0x0A] @ text
      else if role = ''assistant'' then ''[Previous assistant response]'' @ [CHR 0x0A] @ text
      else if role = ''tool'' then ''[Tool result]'' @ [CHR 0x0A] @ text
      else text)"

definition input_text :: "response_input \<Rightarrow> string" where
  "input_text i =
     (if in_Text i \<noteq> [] then in_Text i
      else str_join (List.map_filter (\<lambda>item.
             map_option (labelled (ri_Role item)) (nonblank (input_content_text (ri_Content item)))) (in_Items i))
             [CHR 0x0A, CHR 0x0A])"

section \<open>Prompts\<close>

definition last_user :: "chat_message list \<Rightarrow> chat_message option" where
  "last_user ms = List.find (\<lambda>m. cm_Role m = ''user'') (rev ms)"

text \<open>An incremental prompt of no messages at all indexes before the first one.\<close>

definition buildPrompt :: "chat_completion_request \<Rightarrow> bool \<Rightarrow> string outcome" where
  "buildPrompt req incremental =
     (if incremental
      then (case last_user (cq_Messages req) of
              Some m \<Rightarrow> Value (content_text (cm_Content m))
            | None \<Rightarrow> if cq_Messages req = [] then Panic
                      else Value (content_text (cm_Content (last (cq_Messages req)))))
      else Value (str_join (List.map_filter (\<lambda>m.
             map_option (labelled (cm_Role m)) (nonblank (content_text (cm_Content m)))) (cq_Messages req))
             [CHR 0x0A, CHR 0x0A]))"

definition buildResponsePrompt :: "response_request \<Rightarrow> bool \<Rightarrow> string" where
  "buildResponsePrompt req incremental =
     (let out = (case nonblank (rs_Instructions req) of None \<Rightarrow> []
                 | Some t \<Rightarrow> [''[Instructions]'' @ [CHR 0x0A] @ t]);
          out = (case nonblank (input_text (rs_Input req)) of None \<Rightarrow> out | Some t \<Rightarrow> out @ [t])
      in str_join out [CHR 0x0A, CHR 0x0A])"

definition systemMessages :: "chat_message list \<Rightarrow> string list" where
  "systemMessages ms =
     List.map_filter (\<lambda>m. if cm_Role m = ''system'' then nonblank (content_text (cm_Content m)) else None) ms"

section \<open>Validation\<close>

record validation_error =
  ve_param :: string
  ve_message :: string

text \<open>
  \<open>tool_choice\<close> is decoded into an interface value, so it is never a \<open>json.RawMessage\<close>.
\<close>

definition toolChoiceIsNone :: "any \<Rightarrow> bool" where
  "toolChoiceIsNone v = (case as_string v of Some t \<Rightarrow> t = ''none'' | None \<Rightarrow> False)"

definition invalid :: "string \<Rightarrow> string \<Rightarrow> validation_error option" where
  "invalid param message = Some \<lparr>ve_param = param, ve_message = message\<rparr>"

definition tools_refused :: "bytes list \<Rightarrow> any \<Rightarrow> bool" where
  "tools_refused tools choice \<longleftrightarrow> tools \<noteq> [] \<and> \<not> toolChoiceIsNone choice"

definition validateChatCompletionRequest :: "chat_completion_request \<Rightarrow> validation_error option" where
  "validateChatCompletionRequest req =
     (if cq_N req \<noteq> None \<and> cq_N req \<noteq> Some 1 then invalid ''n'' ''only n=1 is supported''
      else if \<not> list_all (\<lambda>m. m = ''text'') (cq_Modalities req)
        then invalid ''modalities'' ''only text modality is supported''
      else if cq_ResponseFormat req \<notin> {None, Some [], Some ''text''}
        then invalid ''response_format'' ''only response_format.type=text is supported''
      else if tools_refused (cq_Tools req) (cq_ToolChoice req)
        then invalid ''tools'' ''OpenAI tool calling is not supported by this gateway yet''
      else None)"

definition responseReasoningEffort :: "string option \<Rightarrow> string" where
  "responseReasoningEffort r = (case r of None \<Rightarrow> [] | Some e \<Rightarrow> trim_space e)"

definition validReasoningEffort :: "string \<Rightarrow> bool" where
  "validReasoningEffort e \<longleftrightarrow> e \<in> {''none'', ''low'', ''medium'', ''high'', ''xhigh'', ''max''}"

definition validateResponseRequest :: "response_request \<Rightarrow> validation_error option" where
  "validateResponseRequest req =
     (if rs_TextFormat req \<notin> {None, Some [], Some ''text''}
        then invalid ''text.format'' ''only text.format.type=text is supported''
      else if tools_refused (rs_Tools req) (rs_ToolChoice req)
        then invalid ''tools'' ''OpenAI tool calling is not supported by this gateway yet''
      else if rs_Store req = Some False \<and> trim_space (rs_PreviousResponseID req) \<noteq> []
        then invalid ''store'' ''store=false cannot be used with previous_response_id''
      else let effort = responseReasoningEffort (rs_Reasoning req)
           in if effort \<noteq> [] \<and> \<not> validReasoningEffort effort
              then invalid ''reasoning.effort'' ''unsupported reasoning.effort'' else None)"

end
