(* ===== verification/Gateway_Handlers.thy ===== *)
theory Gateway_Handlers
  imports Gateway_Types
begin

text \<open>
  \<open>openai/server.go\<close>: the front of the HTTP handlers, up to the point where a handler becomes a
  thread of \<open>Gateway_Sessions\<close>. Requests carry their method, path and headers (\<open>Header.Get\<close> as a
  function of the canonical name); the decoded body, or the error text of the decoder, is an
  argument. \<open>digest\<close> is hexadecimal SHA-256, \<open>absolute\<close> is \<open>filepath.Abs\<close>, \<open>quote\<close> is \<open>%q\<close>.
\<close>

record http_request =
  hr_Method :: string
  hr_Path :: string
  hr_Header :: "string \<Rightarrow> string"

abbreviation headerSessionID :: string where "headerSessionID \<equiv> ''X-ACP-Session-ID''"
abbreviation headerSessionMode :: string where "headerSessionMode \<equiv> ''X-ACP-Session-Mode''"
abbreviation headerInputMode :: string where "headerInputMode \<equiv> ''X-ACP-Input-Mode''"
abbreviation headerCWD :: string where "headerCWD \<equiv> ''X-ACP-CWD''"

section \<open>Who asks\<close>

definition bearerToken :: "string \<Rightarrow> string" where
  "bearerToken header =
     (if has_prefix header ''Bearer '' then trim_space (trim_prefix header ''Bearer '') else [])"

definition request_token :: "http_request \<Rightarrow> string" where
  "request_token r = (let token = bearerToken (hr_Header r ''Authorization'')
     in if token = [] then hr_Header r ''X-API-Key'' else token)"

definition ownerHashFromRequest :: "(string \<Rightarrow> string) \<Rightarrow> http_request \<Rightarrow> string" where
  "ownerHashFromRequest digest r =
     (let token = request_token r in digest (if token = [] then ''anonymous'' else token))"

definition fingerprint :: "(string \<Rightarrow> string) \<Rightarrow> string list \<Rightarrow> string" where
  "fingerprint digest values = digest (str_join values [CHR 0x00])"

datatype 'a http_reply =
    Reply_Error http_error string
  | Preflight
  | Handled 'a

definition method_not_allowed :: "'a http_reply" where
  "method_not_allowed =
     Reply_Error \<lparr>he_status = 405, he_code = ''method_not_allowed'', he_message = ''method not allowed''\<rparr> []"

definition withAuth :: "server \<Rightarrow> (http_request \<Rightarrow> 'a http_reply) \<Rightarrow> http_request \<Rightarrow> 'a http_reply" where
  "withAuth sv handler r =
     (if hr_Method r = ''OPTIONS'' then Preflight
      else if sv_apiKey sv \<noteq> [] \<and> request_token r \<noteq> sv_apiKey sv
        then Reply_Error \<lparr>he_status = 401, he_code = ''invalid_api_key'', he_message = ''invalid API key''\<rparr> []
      else handler r)"

section \<open>Metadata\<close>

definition metadataValue :: "meta option \<Rightarrow> string \<Rightarrow> string" where
  "metadataValue m k = (case m of None \<Rightarrow> []
     | Some m \<Rightarrow> (case Option.bind (mget m k) as_string of None \<Rightarrow> [] | Some v \<Rightarrow> trim_space v))"

definition metadataString :: "meta option \<Rightarrow> string \<Rightarrow> string" where
  "metadataString m k = to_lower (metadataValue m k)"

section \<open>Request contexts\<close>

definition request_cwd :: "(string \<Rightarrow> string option) \<Rightarrow> server \<Rightarrow> http_request \<Rightarrow> string" where
  "request_cwd absolute sv r =
     (let header = trim_space (hr_Header r headerCWD);
          cwd = (if sv_allowHeaderCWD sv \<and> header \<noteq> [] then header else sv_cwd sv)
      in if has_prefix cwd ''/'' then cwd else (case absolute cwd of None \<Rightarrow> cwd | Some p \<Rightarrow> p))"

definition buildRequestContext ::
  "(string \<Rightarrow> string) \<Rightarrow> (string \<Rightarrow> string option) \<Rightarrow> model_list \<Rightarrow> server \<Rightarrow> http_request \<Rightarrow>
   chat_completion_request \<Rightarrow> model_cache \<Rightarrow> request_context \<times> model_cache" where
  "buildRequestContext digest absolute list sv r req c =
     (case resolveModelRoute list sv (cq_Model req) c of ((agentID, modelID), c) \<Rightarrow>
        let cwd = request_cwd absolute sv r;
            system = str_join (systemMessages (cq_Messages req)) [CHR 0x0A, CHR 0x0A]
        in (\<lparr>rc_ownerHash = ownerHashFromRequest digest r, rc_agentID = agentID, rc_modelID = modelID,
             rc_effort = [], rc_cwd = cwd, rc_fingerprint = fingerprint digest [agentID, modelID, cwd],
             rc_systemHash = (if system \<noteq> [] then fingerprint digest [system] else [])\<rparr>, c))"

definition buildResponseRequestContext ::
  "(string \<Rightarrow> string) \<Rightarrow> (string \<Rightarrow> string option) \<Rightarrow> model_list \<Rightarrow> server \<Rightarrow> http_request \<Rightarrow>
   response_request \<Rightarrow> model_cache \<Rightarrow> request_context \<times> model_cache" where
  "buildResponseRequestContext digest absolute list sv r req c =
     (case resolveModelRoute list sv (rs_Model req) c of ((agentID, modelID), c) \<Rightarrow>
        let cwd = request_cwd absolute sv r;
            instructions = trim_space (rs_Instructions req);
            effort = responseReasoningEffort (rs_Reasoning req)
        in (\<lparr>rc_ownerHash = ownerHashFromRequest digest r, rc_agentID = agentID, rc_modelID = modelID,
             rc_effort = effort, rc_cwd = cwd, rc_fingerprint = fingerprint digest [agentID, modelID, effort, cwd],
             rc_systemHash = (if instructions \<noteq> [] then fingerprint digest [instructions] else [])\<rparr>, c))"

definition responseModel :: "request_context \<Rightarrow> string" where
  "responseModel rc = firstNonEmpty [rc_modelID rc, rc_agentID rc]"

section \<open>Handlers\<close>

definition bad_request :: "string \<Rightarrow> string \<Rightarrow> 'a http_reply" where
  "bad_request message param =
     Reply_Error \<lparr>he_status = 400, he_code = ''invalid_request_error'', he_message = message\<rparr> param"

text \<open>
  A chat request that is let in: the request for the session, whether its prompt is only the last
  user message, and the model named in the answer (a persistent stream names the requested one).
\<close>

record admitted =
  ad_request :: gw_request
  ad_incremental :: bool
  ad_model :: string

definition handleChatCompletions ::
  "(string \<Rightarrow> string) \<Rightarrow> (string \<Rightarrow> string option) \<Rightarrow> (string \<Rightarrow> string) \<Rightarrow> model_list \<Rightarrow> server \<Rightarrow> http_request \<Rightarrow>
   string + chat_completion_request \<Rightarrow> model_cache \<Rightarrow> admitted http_reply \<times> model_cache" where
  "handleChatCompletions digest absolute quote list sv r decoded c =
     (if hr_Method r \<noteq> ''POST'' then (method_not_allowed, c)
      else case decoded of
        Inl e \<Rightarrow> (bad_request (''invalid JSON request: '' @ e) [], c)
      | Inr req \<Rightarrow>
        (case validateChatCompletionRequest req of
           Some e \<Rightarrow> (bad_request (ve_message e) (ve_param e), c)
         | None \<Rightarrow>
           if cq_Messages req = [] then (bad_request ''messages must not be empty'' ''messages'', c)
           else case buildRequestContext digest absolute list sv r req c of (rc, c) \<Rightarrow>
             (case validateModelRoute quote list (cq_Model req) (rc_agentID rc, rc_modelID rc) c of
                (Some e, c) \<Rightarrow> (Reply_Error e ''model'', c)
              | (None, c) \<Rightarrow>
                  (let mode = to_lower (trim_space (hr_Header r headerSessionMode));
                       sessionID = trim_space (hr_Header r headerSessionID);
                       persistent = (sessionID \<noteq> [] \<or> mode = ''persistent''
                         \<or> metadataString (cq_Metadata req) ''acp_session_mode'' = ''persistent'');
                       incremental = (sessionID \<noteq> []
                         \<and> to_lower (trim_space (hr_Header r headerInputMode)) \<noteq> ''replay'')
                   in (Handled \<lparr>ad_request = \<lparr>rq_context = rc, rq_sessionID = sessionID,
                            rq_persistent = persistent, rq_alias = None, rq_stream = cq_Stream req\<rparr>,
                          ad_incremental = persistent \<and> incremental,
                          ad_model = (if persistent \<and> cq_Stream req then cq_Model req
                                      else firstNonEmpty [cq_Model req, responseModel rc])\<rparr>, c)))))"

text \<open>
  \<open>lookup\<close> is \<open>sessionIDForResponse\<close> at the time of the request, \<open>new_id\<close> the response id drawn for
  it. A temporary session is prompted from the start.
\<close>

definition handleResponses ::
  "(string \<Rightarrow> string) \<Rightarrow> (string \<Rightarrow> string option) \<Rightarrow> (string \<Rightarrow> string) \<Rightarrow> model_list \<Rightarrow>
   (string \<Rightarrow> string option) \<Rightarrow> string \<Rightarrow> server \<Rightarrow> http_request \<Rightarrow>
   string + response_request \<Rightarrow> model_cache \<Rightarrow> admitted http_reply \<times> model_cache" where
  "handleResponses digest absolute quote list lookup new_id sv r decoded c =
     (if hr_Method r \<noteq> ''POST'' then (method_not_allowed, c)
      else case decoded of
        Inl e \<Rightarrow> (bad_request (''invalid JSON request: '' @ e) [], c)
      | Inr req \<Rightarrow>
        (case validateResponseRequest req of
           Some e \<Rightarrow> (bad_request (ve_message e) (ve_param e), c)
         | None \<Rightarrow>
           if input_empty (rs_Input req) then (bad_request ''input must not be empty'' ''input'', c)
           else case buildResponseRequestContext digest absolute list sv r req c of (rc, c) \<Rightarrow>
             (case validateModelRoute quote list (rs_Model req) (rc_agentID rc, rc_modelID rc) c of
                (Some e, c) \<Rightarrow> (Reply_Error e ''model'', c)
              | (None, c) \<Rightarrow>
                  (let previous = rs_PreviousResponseID req;
                       found = (if previous \<noteq> [] then lookup previous
                                else Some (trim_space (hr_Header r headerSessionID)))
                   in case found of
                        None \<Rightarrow> (Reply_Error \<lparr>he_status = 404, he_code = ''response_not_found'',
                            he_message = ''previous response not found''\<rparr> ''previous_response_id'', c)
                      | Some sessionID \<Rightarrow>
                          (let store = (rs_Store req = None \<or> rs_Store req = Some True);
                               persistent = (store \<or> sessionID \<noteq> [])
                           in (Handled \<lparr>ad_request = \<lparr>rq_context = rc, rq_sessionID = sessionID,
                                    rq_persistent = persistent,
                                    rq_alias = (if persistent \<and> store then Some new_id else None),
                                    rq_stream = rs_Stream req\<rparr>,
                                  ad_incremental = persistent \<and> (previous \<noteq> [] \<or> sessionID \<noteq> []),
                                  ad_model = firstNonEmpty [rs_Model req, responseModel rc]\<rparr>, c))))))"

text \<open>\<open>/v1/acp/sessions/\<close>\<open>id\<close>: the session to delete and its owner.\<close>

definition handleSessionByID :: "(string \<Rightarrow> string) \<Rightarrow> http_request \<Rightarrow> (string \<times> string) http_reply" where
  "handleSessionByID digest r =
     (let sid = trim_prefix (hr_Path r) ''/v1/acp/sessions/''
      in if sid = [] \<or> str_contains sid ''/''
         then Reply_Error \<lparr>he_status = 404, he_code = ''not_found'', he_message = ''session not found''\<rparr> []
         else if hr_Method r = ''DELETE'' then Handled (sid, ownerHashFromRequest digest r)
         else method_not_allowed)"

definition handleSessions :: "(string \<Rightarrow> string) \<Rightarrow> http_request \<Rightarrow> string http_reply" where
  "handleSessions digest r =
     (if hr_Method r = ''GET'' then Handled (ownerHashFromRequest digest r) else method_not_allowed)"

record model_object =
  mo_ID :: string
  mo_Object :: string
  mo_Created :: int
  mo_OwnedBy :: string

definition handleModels :: "model_list \<Rightarrow> int \<Rightarrow> http_request \<Rightarrow> model_cache \<Rightarrow> model_object list http_reply \<times> model_cache" where
  "handleModels list now r c =
     (if hr_Method r \<noteq> ''GET'' then (method_not_allowed, c)
      else case listed_models list c of (models, c) \<Rightarrow>
        (Handled (map (\<lambda>m. \<lparr>mo_ID = m, mo_Object = ''model'', mo_Created = now, mo_OwnedBy = ''acp''\<rparr>) models), c))"

text \<open>The thread an admitted request becomes.\<close>

definition entry_phase :: "gw_request \<Rightarrow> phase" where
  "entry_phase q =
     (if \<not> rq_persistent q then Start_Temporary q
      else if rq_sessionID q = [] then Ask_Limit q else Find_Session q)"

lemma entry_phase_enters: "entry_point (entry_phase q)"
  by (simp add: entry_phase_def)

end
