(* ===== verification/Gateway_Laws.thy ===== *)
theory Gateway_Laws
  imports Gateway_Sessions
begin

text \<open>
  What every step of the gateway keeps: the identity of records, the well-formedness of the tables
  and of what the threads hold, one turn per record, and the account of started agent sessions.
\<close>

section \<open>A step moves one thread\<close>

lemma gw_step_cases:
  assumes "gw_step a s = Some t"
  obtains (arrive) ph where "entry_point ph" "t = s\<lparr>gw_threads := gw_threads s @ [ph]\<rparr>"
  | (move) p ph ph' s' where "p < length (gw_threads s)" "gw_threads s ! p = ph" "p = actor a"
      "phase_step a ph s = Some (ph', s')" "t = gw_set_phase p ph' s'"
  using assms by (cases a) (auto simp: gw_step_def split: if_splits)

text \<open>The transitions of one thread, as one relation.\<close>

lemma records_simps [simp]:
  "gw_records (removeSession sid s) = gw_records s" "gw_threads (removeSession sid s) = gw_threads s"
  "gw_started (removeSession sid s) = gw_started s" "gw_ids (removeSession sid s) = gw_ids s"
  "gw_closed (removeSession sid s) = gw_closed s" "gw_server (removeSession sid s) = gw_server s"
  "gw_sessions (removeSession sid s) = mdel sid (gw_sessions s)"
  "gw_responses (removeSession sid s) = filter (\<lambda>p. snd p \<noteq> sid) (gw_responses s)"
  "gw_records (registerResponseSession rid sid s) = gw_records s"
  "gw_threads (registerResponseSession rid sid s) = gw_threads s"
  "gw_started (registerResponseSession rid sid s) = gw_started s"
  "gw_ids (registerResponseSession rid sid s) = gw_ids s"
  "gw_closed (registerResponseSession rid sid s) = gw_closed s"
  "gw_server (registerResponseSession rid sid s) = gw_server s"
  "gw_sessions (registerResponseSession rid sid s) = gw_sessions s"
  "gw_responses (registerResponseSession rid sid s) = mput rid sid (gw_responses s)"
  by (simp_all add: removeSession_def removeResponseAliasesLocked_def registerResponseSession_def)

lemma set_record_simps [simp]:
  "gw_threads (set_record r x s) = gw_threads s" "gw_started (set_record r x s) = gw_started s"
  "gw_ids (set_record r x s) = gw_ids s" "gw_closed (set_record r x s) = gw_closed s"
  "gw_server (set_record r x s) = gw_server s" "gw_sessions (set_record r x s) = gw_sessions s"
  "gw_responses (set_record r x s) = gw_responses s"
  "gw_records (set_record r x s) = (gw_records s)[r := x]"
  by (simp_all add: set_record_def)

lemma set_phase_simps [simp]:
  "gw_records (gw_set_phase p ph s) = gw_records s" "gw_started (gw_set_phase p ph s) = gw_started s"
  "gw_ids (gw_set_phase p ph s) = gw_ids s" "gw_closed (gw_set_phase p ph s) = gw_closed s"
  "gw_server (gw_set_phase p ph s) = gw_server s" "gw_sessions (gw_set_phase p ph s) = gw_sessions s"
  "gw_responses (gw_set_phase p ph s) = gw_responses s"
  "gw_threads (gw_set_phase p ph s) = (gw_threads s)[p := ph]"
  by (simp_all add: gw_set_phase_def)

lemma close_simps [simp]:
  "gw_records (close_session n s) = gw_records s" "gw_started (close_session n s) = gw_started s"
  "gw_ids (close_session n s) = gw_ids s" "gw_threads (close_session n s) = gw_threads s"
  "gw_server (close_session n s) = gw_server s" "gw_sessions (close_session n s) = gw_sessions s"
  "gw_responses (close_session n s) = gw_responses s" "gw_closed (close_session n s) = gw_closed s @ [n]"
  "gw_records (closeManagedSession r s) = gw_records s" "gw_started (closeManagedSession r s) = gw_started s"
  "gw_ids (closeManagedSession r s) = gw_ids s" "gw_threads (closeManagedSession r s) = gw_threads s"
  "gw_server (closeManagedSession r s) = gw_server s" "gw_sessions (closeManagedSession r s) = gw_sessions s"
  "gw_responses (closeManagedSession r s) = gw_responses s"
  by (simp_all add: close_session_def closeManagedSession_def)

lemma fold_remove [simp]:
  fixes gone :: "(string \<times> nat) list" and s :: gateway
  defines "t \<equiv> fold (removeSession \<circ> fst) gone s"
  shows "gw_records t = gw_records s" "gw_threads t = gw_threads s" "gw_started t = gw_started s"
    "gw_ids t = gw_ids s" "gw_closed t = gw_closed s" "gw_server t = gw_server s"
    "gw_sessions t = filter (\<lambda>p. fst p \<notin> fst ` set gone) (gw_sessions s)"
    "gw_responses t = filter (\<lambda>p. snd p \<notin> fst ` set gone) (gw_responses s)"
  unfolding t_def by (induction gone arbitrary: s) (auto simp: mdel_def intro: filter_cong)

text \<open>The transitions of one thread and what each does to the shared state.\<close>

fun idle :: "phase \<Rightarrow> bool" where
  "idle (Insert_Record q n acp) = False"
| "idle (Close_Rejected n) = False"
| "idle (In_Turn q r) = False"
| "idle (Temporary_Turn q n) = False"
| "idle (Close_Temporary n x) = False"
| "idle (Close_Expired r) = False"
| "idle (Delete_Close r) = False"
| "idle (Replied x) = False"
| "idle (Close_Swept rs owner) = (rs = [])"
| "idle (Close_Drained rs e) = (rs = [])"
| "idle _ = True"

inductive thread_effect :: "gateway \<Rightarrow> phase \<Rightarrow> phase \<Rightarrow> gateway \<Rightarrow> bool" where
  reply: "idle ph \<Longrightarrow> thread_effect s ph (Replied x) s"
| ask: "thread_effect s (Ask_Limit q) (Starting q) s"
| find: "mget (gw_sessions s) (rq_sessionID q) = Some r \<Longrightarrow> thread_effect s (Find_Session q) (Check_Session q r) s"
| expire: "thread_effect s (Check_Session q r) (Remove_Expired (rq_sessionID q) r) s"
| choose: "validate_record (rq_context q) now (gw_records s ! r) = Accept \<Longrightarrow>
    thread_effect s (Check_Session q r) (Chosen q r) s"
| remove_expired: "thread_effect s (Remove_Expired sid r) (Close_Expired r) (removeSession sid s)"
| no_alias: "thread_effect s (Chosen q r) (Begin_Turn q r) s"
| with_alias: "thread_effect s (Chosen q r) (Begin_Turn q r) (registerResponseSession rid (sr_id (gw_records s ! r)) s)"
| begin_turn: "tryBegin ttl now (gw_records s ! r) = Some x \<Longrightarrow>
    thread_effect s (Begin_Turn q r) (In_Turn q r) (set_record r x s)"
| delete_find: "mget (gw_sessions s) sid = Some r \<Longrightarrow> sr_ownerHash (gw_records s ! r) = owner \<Longrightarrow>
    thread_effect s (Delete_Find sid owner) (Delete_Remove sid r owner) s"
| delete_remove: "thread_effect s (Delete_Remove sid r owner) (Delete_Close r) (removeSession sid s)"
| scan: "thread_effect s (Scan_Expired owner) (Close_Swept (map snd (expired_sessions now s)) owner)
    (fold (removeSession \<circ> fst) (expired_sessions now s) s)"
| list: "thread_effect s (Close_Swept [] (Some owner)) (List_Sessions owner) s"
| drain: "thread_effect s Drain (Close_Drained (map snd (gw_sessions s)) None)
    (s\<lparr>gw_sessions := [], gw_responses := [], gw_shut := True\<rparr>)"
| drained: "thread_effect s (Close_Drained [] e) (Close_Runtimes e) s"
| started: "thread_effect s (Starting q) (Insert_Record q (gw_started s) acp) (s\<lparr>gw_started := Suc (gw_started s)\<rparr>)"
| started_temporary: "thread_effect s (Start_Temporary q) (Temporary_Turn q (gw_started s))
    (s\<lparr>gw_started := Suc (gw_started s)\<rparr>)"
| rejected: "thread_effect s (Insert_Record q n acp) (Close_Rejected n) (s\<lparr>gw_ids := sid # gw_ids s\<rparr>)"
| made: "sid \<notin> set (gw_ids s) \<Longrightarrow> \<not> at_limit s \<Longrightarrow>
    thread_effect s (Insert_Record q n acp) (Chosen q (length (gw_records s)))
      (s\<lparr>gw_ids := sid # gw_ids s,
         gw_records := gw_records s @ [new_record (gw_server s) (rq_context q) sid n acp now],
         gw_sessions := mput sid (length (gw_records s)) (gw_sessions s)\<rparr>)"
| turn_ended: "thread_effect s (In_Turn q r) (Replied x) (set_record r (end_turn False ttl now (gw_records s ! r)) s)"
| temporary_ended: "thread_effect s (Temporary_Turn q n) (Close_Temporary n x) s"
| closed_rejected: "thread_effect s (Close_Rejected n) (Replied x) (close_session n s)"
| closed_temporary: "thread_effect s (Close_Temporary n x) (Replied x) (close_session n s)"
| closed_expired: "thread_effect s (Close_Expired r) (Replied x) (closeManagedSession r s)"
| closed_deleted: "thread_effect s (Delete_Close r) (Replied x) (closeManagedSession r s)"
| closed_swept: "thread_effect s (Close_Swept (r # rs) owner) (Close_Swept rs owner) (closeManagedSession r s)"
| closed_drained: "thread_effect s (Close_Drained (r # rs) e) (Close_Drained rs e') (closeManagedSession r s)"
| runtimes: "thread_effect s (Close_Runtimes e) (Replied x)
    (s\<lparr>gw_runtimeClosed := c, gw_discoveryClosed := d, gw_shutDone := True\<rparr>)"

lemma effect_if: "(b \<Longrightarrow> thread_effect s ph x s') \<Longrightarrow> (\<not> b \<Longrightarrow> thread_effect s ph y s') \<Longrightarrow> thread_effect s ph (if b then x else y) s'"
  by simp

lemma advance_effect: "advance_phase ph now s = Some (ph', s') \<Longrightarrow> thread_effect s ph ph' s'"
  by (induction ph now s rule: advance_phase.induct)
    (auto simp: getSession_def take_expired_def drainSessions_def Let_def split: option.splits verdict.splits if_splits
      intro: thread_effect.intros)

lemma started_effect: "started_phase ph r s = Some (ph', s') \<Longrightarrow> thread_effect s ph ph' s'"
  by (induction ph r s rule: started_phase.induct) (auto intro: thread_effect.intros)

lemma made_effect: "made_phase ph now sid s = Some (ph', s') \<Longrightarrow> thread_effect s ph ph' s'"
proof (induction ph now sid s rule: made_phase.induct)
  case (1 q n acp now sid s)
  have "at_limit (s\<lparr>gw_ids := sid # gw_ids s\<rparr>) = at_limit s" by (simp add: at_limit_def)
  with 1 show ?case
    using rejected [of s q n acp sid] made [of sid s q n acp now]
    by (auto simp: Let_def split: if_splits)
qed simp_all

lemma ended_effect: "ended_phase ph now err s = Some (ph', s') \<Longrightarrow> thread_effect s ph ph' s'"
  by (induction ph now err s rule: ended_phase.induct) (auto intro: thread_effect.intros)

lemma closed_effect: "closed_phase ph err s = Some (ph', s') \<Longrightarrow> thread_effect s ph ph' s'"
  by (induction ph err s rule: closed_phase.induct) (auto intro: thread_effect.intros)

lemma runtimes_effect: "runtimes_phase ph err err' s = Some (ph', s') \<Longrightarrow> thread_effect s ph ph' s'"
  by (induction ph err err' s rule: runtimes_phase.induct) (auto simp: Let_def intro: thread_effect.intros)

lemma phase_step_effect: "phase_step a ph s = Some (ph', s') \<Longrightarrow> thread_effect s ph ph' s'"
  by (cases a) (auto dest: advance_effect started_effect made_effect ended_effect closed_effect runtimes_effect)

lemma gw_step_effect:
  assumes "gw_step a s = Some t"
  obtains (arrive) ph where "entry_point ph" "t = s\<lparr>gw_threads := gw_threads s @ [ph]\<rparr>"
  | (move) p ph' s' where "p < length (gw_threads s)" "thread_effect s (gw_threads s ! p) ph' s'" "t = gw_set_phase p ph' s'"
  using assms
proof (cases rule: gw_step_cases)
  case (move p ph ph' s')
  show ?thesis
    by (rule that(2) [of p ph' s']) (use move phase_step_effect in blast)+
qed (rule that(1))

section \<open>What threads hold\<close>

fun held :: "phase \<Rightarrow> nat set" where
  "held (Check_Session q r) = {r}"
| "held (Remove_Expired sid r) = {r}"
| "held (Close_Expired r) = {r}"
| "held (Chosen q r) = {r}"
| "held (Begin_Turn q r) = {r}"
| "held (In_Turn q r) = {r}"
| "held (Delete_Remove sid r owner) = {r}"
| "held (Delete_Close r) = {r}"
| "held (Close_Swept rs owner) = set rs"
| "held (Close_Drained rs e) = set rs"
| "held _ = {}"

text \<open>Agent sessions without a record, and records that are about to be closed.\<close>

fun loose :: "phase \<Rightarrow> nat set" where
  "loose (Insert_Record q n acp) = {n}"
| "loose (Close_Rejected n) = {n}"
| "loose (Temporary_Turn q n) = {n}"
| "loose (Close_Temporary n x) = {n}"
| "loose _ = {}"

fun doomed :: "phase \<Rightarrow> nat set" where
  "doomed (Close_Expired r) = {r}"
| "doomed (Delete_Close r) = {r}"
| "doomed (Close_Swept rs owner) = set rs"
| "doomed (Close_Drained rs e) = set rs"
| "doomed _ = {}"

text \<open>What a thread that holds a record knows about it.\<close>

fun knows :: "gateway \<Rightarrow> phase \<Rightarrow> bool" where
  "knows s (Check_Session q r) = (sr_id (gw_records s ! r) = rq_sessionID q)"
| "knows s (Remove_Expired sid r) = (sr_id (gw_records s ! r) = sid)"
| "knows s (Delete_Remove sid r owner) =
     (sr_id (gw_records s ! r) = sid \<and> sr_ownerHash (gw_records s ! r) = owner)"
| "knows s (Chosen q r) = (sr_ownerHash (gw_records s ! r) = rc_ownerHash (rq_context q))"
| "knows s (Begin_Turn q r) = (sr_ownerHash (gw_records s ! r) = rc_ownerHash (rq_context q))"
| "knows s (In_Turn q r) = (sr_ownerHash (gw_records s ! r) = rc_ownerHash (rq_context q))"
| "knows s _ = True"

definition gw_phase_ok :: "gateway \<Rightarrow> phase \<Rightarrow> bool" where
  "gw_phase_ok s ph \<longleftrightarrow> held ph \<subseteq> {..<length (gw_records s)} \<and> loose ph \<subseteq> {..<gw_started s} \<and> knows s ph"

section \<open>Records keep their identity\<close>

definition same_identity :: "session_record \<Rightarrow> session_record \<Rightarrow> bool" where
  "same_identity x y \<longleftrightarrow> sr_id y = sr_id x \<and> sr_session y = sr_session x \<and> sr_ownerHash y = sr_ownerHash x
     \<and> sr_managed y = sr_managed x \<and> sr_tainted y = sr_tainted x"

definition grows :: "gateway \<Rightarrow> gateway \<Rightarrow> bool" where
  "grows s t \<longleftrightarrow> length (gw_records s) \<le> length (gw_records t) \<and> gw_started s \<le> gw_started t
     \<and> set (gw_closed s) \<subseteq> set (gw_closed t)
     \<and> gw_server t = gw_server s
     \<and> (\<forall>r<length (gw_records s). same_identity (gw_records s ! r) (gw_records t ! r))"

lemma same_identity_refl [simp]: "same_identity x x"
  by (simp add: same_identity_def)

lemma begin_identity: "tryBegin ttl now x = Some y \<Longrightarrow> same_identity x y"
  by (auto simp: tryBegin_def same_identity_def Let_def split: if_splits)

lemma end_identity [simp]: "same_identity x (end_turn False ttl now x)"
  by (simp add: end_turn_def same_identity_def)

lemma grows_set_record:
  assumes "same_identity (gw_records s ! r) x"
  shows "grows s (set_record r x s)"
  unfolding grows_def
proof (intro conjI allI impI)
  fix j
  assume "j < length (gw_records s)"
  with assms show "same_identity (gw_records s ! j) (gw_records (set_record r x s) ! j)"
    by (cases "j = r") simp_all
qed simp_all

lemma effect_grows:
  assumes "thread_effect s ph ph' s'"
  shows "grows s s'"
  using assms
proof cases
  case (begin_turn ttl now r x q)
  then show ?thesis by (simp add: grows_set_record begin_identity)
next
  case (turn_ended q r ttl now x)
  then show ?thesis by (simp add: grows_set_record)
qed (auto simp: grows_def nth_append closeManagedSession_def)

lemma gw_phase_ok_grows: "grows s t \<Longrightarrow> gw_phase_ok s ph \<Longrightarrow> gw_phase_ok t ph"
  by (cases ph) (auto simp: gw_phase_ok_def grows_def same_identity_def)

section \<open>Well-formedness\<close>

definition stored_ok :: "gateway \<Rightarrow> bool" where
  "stored_ok s \<longleftrightarrow> mwf (gw_sessions s)
     \<and> (\<forall>(sid, r)\<in>set (gw_sessions s). r < length (gw_records s) \<and> sr_id (gw_records s ! r) = sid)
     \<and> distinct (map sr_id (gw_records s))
     \<and> (\<forall>x\<in>set (gw_records s). sr_id x \<in> set (gw_ids s) \<and> sr_session x < gw_started s \<and> sr_managed x \<and> \<not> sr_tainted x)"

definition gateway_ok :: "gateway \<Rightarrow> bool" where
  "gateway_ok s \<longleftrightarrow> stored_ok s \<and> (\<forall>ph\<in>set (gw_threads s). gw_phase_ok s ph)"

definition record_ok :: "gateway \<Rightarrow> session_record \<Rightarrow> bool" where
  "record_ok s x \<longleftrightarrow> sr_id x \<in> set (gw_ids s) \<and> sr_session x < gw_started s \<and> sr_managed x \<and> \<not> sr_tainted x"

lemma stored_okI:
  assumes "mwf (gw_sessions s)"
    and "\<And>sid r. (sid, r) \<in> set (gw_sessions s) \<Longrightarrow> r < length (gw_records s) \<and> sr_id (gw_records s ! r) = sid"
    and "distinct (map sr_id (gw_records s))" "\<And>x. x \<in> set (gw_records s) \<Longrightarrow> record_ok s x"
  shows "stored_ok s"
  using assms unfolding stored_ok_def record_ok_def by blast

lemma stored_okD:
  assumes "stored_ok s"
  shows "mwf (gw_sessions s)" "distinct (map sr_id (gw_records s))"
    and "(sid, r) \<in> set (gw_sessions s) \<Longrightarrow> r < length (gw_records s)"
    and "(sid, r) \<in> set (gw_sessions s) \<Longrightarrow> sr_id (gw_records s ! r) = sid"
    and "x \<in> set (gw_records s) \<Longrightarrow> record_ok s x"
  using assms unfolding stored_ok_def record_ok_def by blast+

text \<open>A step that shrinks the session table and leaves the records.\<close>

lemma stored_ok_shrink:
  assumes "stored_ok s" "mwf (gw_sessions t)" "set (gw_sessions t) \<subseteq> set (gw_sessions s)"
    "gw_records t = gw_records s" "set (gw_ids s) \<subseteq> set (gw_ids t)" "gw_started s \<le> gw_started t"
  shows "stored_ok t"
proof (rule stored_okI)
  note d = stored_okD [OF assms(1)]
  show "r < length (gw_records t) \<and> sr_id (gw_records t ! r) = sid" if "(sid, r) \<in> set (gw_sessions t)" for sid r
  proof -
    from that assms(3) have m: "(sid, r) \<in> set (gw_sessions s)" by blast
    show ?thesis using d(3) [OF m] d(4) [OF m] assms(4) by simp
  qed
  show "record_ok t x" if "x \<in> set (gw_records t)" for x
    using d(5) [of x] that assms(4-6) by (auto simp: record_ok_def)
qed (use assms stored_okD(2) [OF assms(1)] in simp_all)

lemma stored_ok_set_record:
  assumes "stored_ok s" "same_identity (gw_records s ! r) x" "r < length (gw_records s)"
  shows "stored_ok (set_record r x s)"
proof (rule stored_okI)
  note d = stored_okD [OF assms(1)]
  have ids: "map sr_id ((gw_records s)[r := x]) = map sr_id (gw_records s)"
    using assms(2) by (simp add: map_update same_identity_def list_update_same_conv assms(3))
  show "distinct (map sr_id (gw_records (set_record r x s)))" using d(2) ids by simp
  have "record_ok s (gw_records s ! r)" using d(5) assms(3) by simp
  then have x: "record_ok s x" using assms(2) by (simp add: record_ok_def same_identity_def)
  show "record_ok (set_record r x s) y" if "y \<in> set (gw_records (set_record r x s))" for y
    using that x d(5) set_update_subset_insert [of "gw_records s" r x] by (auto simp: record_ok_def)
  show "j < length (gw_records (set_record r x s)) \<and> sr_id (gw_records (set_record r x s) ! j) = sid"
    if "(sid, j) \<in> set (gw_sessions (set_record r x s))" for sid j
    using that d(3,4) assms(2,3) by (cases "j = r") (auto simp: same_identity_def)
qed (simp add: stored_okD(1) [OF assms(1)])

lemma stored_ok_made:
  assumes "stored_ok s" "sid \<notin> set (gw_ids s)" "n < gw_started s"
  shows "stored_ok (s\<lparr>gw_ids := sid # gw_ids s,
         gw_records := gw_records s @ [new_record sv rc sid n acp now],
         gw_sessions := mput sid (length (gw_records s)) (gw_sessions s)\<rparr>)" (is "stored_ok ?t")
proof (rule stored_okI)
  note d = stored_okD [OF assms(1)]
  show "mwf (gw_sessions ?t)" using d(1) by simp
  have fresh: "sr_id x \<noteq> sid" if "x \<in> set (gw_records s)" for x
    using d(5) [OF that] assms(2) by (auto simp: record_ok_def)
  then show "distinct (map sr_id (gw_records ?t))"
    using d(2) by (auto simp: new_record_def)
  show "record_ok ?t x" if "x \<in> set (gw_records ?t)" for x
    using that d(5) assms(3) by (auto simp: record_ok_def new_record_def)
  show "r < length (gw_records ?t) \<and> sr_id (gw_records ?t ! r) = k" if "(k, r) \<in> set (gw_sessions ?t)" for k r
  proof -
    from that d(1) have "(if k = sid then r = length (gw_records s) else (k, r) \<in> set (gw_sessions s))"
      using mget_mput [of sid "length (gw_records s)" "gw_sessions s" k] map_of_is_SomeI [of "gw_sessions ?t" k r]
      by (auto dest: map_of_SomeD split: if_splits)
    then show ?thesis using d(3,4) by (auto simp: new_record_def nth_append split: if_splits)
  qed
qed

lemma effect_tables:
  assumes "thread_effect s ph ph' s'" "stored_ok s" "gw_phase_ok s ph"
  shows "stored_ok s'"
  using assms(1)
proof cases
  case (begin_turn ttl now r x q)
  with assms show ?thesis by (auto simp: gw_phase_ok_def intro!: stored_ok_set_record begin_identity)
next
  case (turn_ended q r ttl now x)
  with assms show ?thesis by (auto simp: gw_phase_ok_def intro!: stored_ok_set_record)
next
  case (made sid q n acp now)
  with assms show ?thesis by (auto simp: gw_phase_ok_def intro!: stored_ok_made)
qed (use assms(2) stored_okD(1) [OF assms(2)] in
      \<open>auto simp: mdel_def distinct_map_filter intro!: stored_ok_shrink [OF assms(2)]\<close>)

lemma effect_phase_ok:
  assumes "thread_effect s ph ph' s'" "stored_ok s" "gw_phase_ok s ph"
  shows "gw_phase_ok s' ph'"
  using assms(1)
proof cases
  case (begin_turn ttl now r x q)
  with assms show ?thesis by (auto simp: gw_phase_ok_def dest: begin_identity simp: same_identity_def)
next
  case (choose q now r)
  with assms show ?thesis by (auto simp: gw_phase_ok_def validate_record_def split: if_splits)
next
  case (find q r)
  with stored_okD [OF assms(2)] show ?thesis by (auto simp: gw_phase_ok_def dest!: map_of_SomeD)
next
  case (delete_find sid r owner)
  with stored_okD [OF assms(2)] show ?thesis by (auto simp: gw_phase_ok_def dest!: map_of_SomeD)
next
  case (scan owner now)
  with stored_okD(3) [OF assms(2)] show ?thesis by (auto simp: gw_phase_ok_def expired_sessions_def)
next
  case drain
  with stored_okD(3) [OF assms(2)] show ?thesis by (auto simp: gw_phase_ok_def)
next
  case (made sid q n acp now)
  then show ?thesis by (simp add: gw_phase_ok_def new_record_def)
qed (use assms(3) in \<open>auto simp: gw_phase_ok_def closeManagedSession_def\<close>)

lemma gateway_ok_step:
  assumes "gateway_ok s" "gw_step a s = Some t"
  shows "gateway_ok t"
  using assms(2)
proof (cases rule: gw_step_effect)
  case (arrive ph)
  have "gw_phase_ok t ph" using arrive by (cases ph) (auto simp: gw_phase_ok_def)
  moreover have "gw_phase_ok t x \<longleftrightarrow> gw_phase_ok s x" for x using arrive by (cases x) (auto simp: gw_phase_ok_def)
  moreover have "stored_ok t" using assms(1) arrive by (simp add: gateway_ok_def stored_ok_def)
  ultimately show ?thesis using assms(1) arrive by (auto simp: gateway_ok_def)
next
  case (move p ph' s')
  have ph: "gw_phase_ok s (gw_threads s ! p)" using assms(1) move(1) by (simp add: gateway_ok_def)
  have tab: "stored_ok s" using assms(1) by (simp add: gateway_ok_def)
  have same: "gw_phase_ok t x \<longleftrightarrow> gw_phase_ok s' x" for x using move(3) by (cases x) (auto simp: gw_phase_ok_def)
  have "stored_ok t" using effect_tables [OF move(2) tab ph] move(3) by (simp add: stored_ok_def)
  moreover have "gw_phase_ok t ph'" using effect_phase_ok [OF move(2) tab ph] same by simp
  moreover have "gw_phase_ok t x" if "x \<in> set (gw_threads s)" for x
    using that assms(1) same gw_phase_ok_grows [OF effect_grows [OF move(2)]] by (simp add: gateway_ok_def)
  moreover have "gw_threads s' = gw_threads s" using move(2) by cases simp_all
  ultimately show ?thesis
    using move(3) set_update_subset_insert [of "gw_threads s" p ph'] by (auto simp: gateway_ok_def)
qed

interpretation gateway: step_invariant gw_step gateway_ok
  by unfold_locales (rule gateway_ok_step)

end
