(* ===== verification/Gateway_Props.thy ===== *)
theory Gateway_Props
  imports Gateway_Laws "HOL-Library.Infinite_Set"
begin

text \<open>
  The properties of the gateway's sessions: the cap, one turn per session, owners, the account of
  started agent sessions, termination of every handler, and the runs in which the cleanup loop or
  the shutdown overtakes a request.
\<close>

section \<open>Turns\<close>

fun running :: "phase \<Rightarrow> nat option" where
  "running (In_Turn q r) = Some r"
| "running _ = None"

definition turn_count :: "nat \<Rightarrow> gateway \<Rightarrow> nat" where
  "turn_count r s = length (filter (\<lambda>ph. running ph = Some r) (gw_threads s))"

definition busy_count :: "gateway \<Rightarrow> nat \<Rightarrow> nat" where
  "busy_count s r = of_bool (r < length (gw_records s) \<and> sr_busy (gw_records s ! r))"

definition turns_ok :: "gateway \<Rightarrow> bool" where
  "turns_ok s \<longleftrightarrow> gateway_ok s \<and> (\<forall>r. turn_count r s = busy_count s r)"

lemma count_update:
  "p < length xs \<Longrightarrow>
   length (filter P (xs[p := y])) + of_bool (P (xs ! p)) = length (filter P xs) + of_bool (P y)"
proof (induction xs arbitrary: p)
  case (Cons x xs)
  then show ?case by (cases p) auto
qed simp

lemma length_filter_one:
  assumes "length (filter P xs) = of_bool b"
  shows "b \<longleftrightarrow> (\<exists>!i. i < length xs \<and> P (xs ! i))"
proof -
  let ?S = "{i. i < length xs \<and> P (xs ! i)}"
  have card: "card ?S = of_bool b" using assms by (simp add: length_filter_conv_card)
  show ?thesis
  proof (cases b)
    case True
    with card obtain i where "?S = {i}" using card_1_singletonE [of ?S] by auto
    then have "\<exists>!i. i \<in> ?S" by simp
    with True show ?thesis by simp
  next
    case False
    with card have "?S = {}" by simp
    with False show ?thesis by blast
  qed
qed

lemma running_held: "running ph = Some r \<Longrightarrow> r \<in> held ph"
  by (cases ph) auto

lemma idle_free: "idle ph \<Longrightarrow> running ph = None \<and> loose ph = {} \<and> doomed ph = {}"
  by (cases ph) auto

lemma effect_busy:
  assumes "thread_effect s ph ph' s'" "stored_ok s" "gw_phase_ok s ph"
    and "\<And>r. running ph = Some r \<Longrightarrow> busy_count s r = 1"
  shows "busy_count s' r + of_bool (running ph = Some r) = busy_count s r + of_bool (running ph' = Some r)"
  using assms(1)
proof cases
  case (begin_turn ttl now j x q)
  with assms(3) show ?thesis
    by (cases "r = j") (auto simp: busy_count_def gw_phase_ok_def tryBegin_def Let_def split: if_splits)
next
  case (turn_ended q j ttl now x)
  with assms(3) assms(4) [of j] show ?thesis
    by (cases "r = j") (auto simp: busy_count_def gw_phase_ok_def end_turn_def Let_def)
next
  case (made sid q n acp now)
  then show ?thesis by (auto simp: busy_count_def nth_append new_record_def)
qed (auto simp: busy_count_def closeManagedSession_def dest: idle_free)

lemma turns_ok_step:
  assumes "turns_ok s" "gw_step a s = Some t"
  shows "turns_ok t"
proof -
  have ok: "gateway_ok s" "stored_ok s" using assms(1) by (auto simp: turns_ok_def gateway_ok_def)
  have count: "turn_count r s = busy_count s r" for r using assms(1) by (simp add: turns_ok_def)
  from assms(2) have "\<forall>r. turn_count r t = busy_count t r"
  proof (cases rule: gw_step_effect)
    case (arrive ph)
    then have "running ph = None" by (cases ph) auto
    with arrive count show ?thesis by (simp add: turn_count_def busy_count_def)
  next
    case (move p ph' s')
    let ?ph = "gw_threads s ! p"
    have ph: "gw_phase_ok s ?ph" using ok(1) move(1) by (simp add: gateway_ok_def)
    have run1: "busy_count s r = 1" if "running ?ph = Some r" for r
    proof -
      have "0 < turn_count r s" using that move(1) by (auto simp: turn_count_def filter_empty_conv dest: nth_mem)
      with count [of r] show ?thesis by (simp add: busy_count_def split: if_splits)
    qed
    have thr: "gw_threads s' = gw_threads s" using move(2) by cases simp_all
    show ?thesis
    proof
      fix r
      have "turn_count r t + of_bool (running ?ph = Some r) = turn_count r s + of_bool (running ph' = Some r)"
        using count_update [OF move(1), of "\<lambda>ph. running ph = Some r" ph'] move(3) thr
        by (simp add: turn_count_def)
      moreover have "busy_count t r = busy_count s' r" using move(3) by (simp add: busy_count_def)
      moreover note effect_busy [OF move(2) ok(2) ph run1, of r]
      ultimately show "turn_count r t = busy_count t r" using count [of r] by simp
    qed
  qed
  with gateway_ok_step [OF ok(1) assms(2)] show ?thesis by (simp add: turns_ok_def)
qed

interpretation turns: step_invariant gw_step turns_ok
  by unfold_locales (rule turns_ok_step)

lemma new_gateway_ok: "turns_ok (new_gateway server owns owns')"
  by (simp add: turns_ok_def gateway_ok_def stored_ok_def new_gateway_def turn_count_def busy_count_def)

section \<open>The cap\<close>

definition cap_ok :: "gateway \<Rightarrow> bool" where
  "cap_ok s \<longleftrightarrow> (0 < sv_maxSessions (gw_server s) \<longrightarrow>
     int (length (gw_sessions s)) \<le> sv_maxSessions (gw_server s))"

lemma length_mput_le: "length (mput k v m) \<le> Suc (length m)"
  by (induction m) auto

lemma cap_ok_shrink:
  "cap_ok s \<Longrightarrow> length (gw_sessions t) \<le> length (gw_sessions s) \<Longrightarrow> gw_server t = gw_server s \<Longrightarrow> cap_ok t"
  by (auto simp: cap_ok_def)

lemma effect_cap:
  assumes "thread_effect s ph ph' s'" "cap_ok s"
  shows "cap_ok s'"
  using assms(1)
proof cases
  case (made sid q n acp now)
  then show ?thesis
    using length_mput_le [of sid "length (gw_records s)" "gw_sessions s"]
    by (auto simp: cap_ok_def at_limit_def)
qed (auto intro!: cap_ok_shrink [OF assms(2)] simp: length_mdel_le closeManagedSession_def)

lemma cap_ok_step: "cap_ok s \<Longrightarrow> gw_step a s = Some t \<Longrightarrow> cap_ok t"
proof -
  assume "cap_ok s" "gw_step a s = Some t"
  from this(2) show "cap_ok t"
  proof (cases rule: gw_step_effect)
    case (arrive ph)
    with \<open>cap_ok s\<close> show ?thesis by (simp add: cap_ok_def)
  next
    case (move p ph' s')
    with effect_cap [OF move(2) \<open>cap_ok s\<close>] show ?thesis by (simp add: cap_ok_def)
  qed
qed

interpretation limited: step_invariant gw_step cap_ok
  by unfold_locales (rule cap_ok_step)

section \<open>No agent session is forgotten\<close>

definition stored :: "gateway \<Rightarrow> nat \<Rightarrow> bool" where
  "stored s r \<longleftrightarrow> r < length (gw_records s) \<and> (sr_id (gw_records s ! r), r) \<in> set (gw_sessions s)"

text \<open>Who answers for the agent session number \<open>n\<close>.\<close>

definition accounted :: "gateway \<Rightarrow> nat \<Rightarrow> bool" where
  "accounted s n \<longleftrightarrow> n \<in> set (gw_closed s) \<or> (\<exists>p<length (gw_threads s). n \<in> loose (gw_threads s ! p))
     \<or> (\<exists>r<length (gw_records s). sr_session (gw_records s ! r) = n \<and>
          (stored s r \<or> (\<exists>p<length (gw_threads s). r \<in> doomed (gw_threads s ! p))))"

lemma removed_same:
  assumes "stored_ok s" "stored s r" "j < length (gw_records s)" "sr_id (gw_records s ! j) = sid"
  shows "(sr_id (gw_records s ! r), r) \<in> set (mdel sid (gw_sessions s)) \<or> r = j"
proof (cases "sr_id (gw_records s ! r) = sid")
  case True
  then have "map sr_id (gw_records s) ! r = map sr_id (gw_records s) ! j"
    using assms by (simp add: stored_def)
  then have "r = j"
    using stored_okD(2) [OF assms(1)] assms(2,3)
      nth_eq_iff_index_eq [of "map sr_id (gw_records s)" r j] by (simp add: stored_def)
  then show ?thesis ..
next
  case False
  then show ?thesis using assms(2) by (simp add: stored_def mdel_def)
qed

lemma set_mput_other: "k \<noteq> sid \<Longrightarrow> (k, v) \<in> set m \<Longrightarrow> (k, v) \<in> set (mput sid w m)"
  by (induction m) auto

lemma effect_stored:
  assumes "thread_effect s ph ph' s'" "stored_ok s" "gw_phase_ok s ph" "stored s r"
  shows "stored s' r \<or> r \<in> doomed ph'"
proof -
  have id: "r < length (gw_records s')" "sr_id (gw_records s' ! r) = sr_id (gw_records s ! r)"
    using effect_grows [OF assms(1)] assms(4) by (auto simp: grows_def stored_def same_identity_def)
  have st: "stored s' r \<longleftrightarrow> (sr_id (gw_records s ! r), r) \<in> set (gw_sessions s')"
    using id by (simp add: stored_def)
  have mem: "(sr_id (gw_records s ! r), r) \<in> set (gw_sessions s)"
    using assms(4) by (simp add: stored_def)
  from assms(1) show ?thesis
  proof cases
    case (remove_expired sid j)
    with removed_same [OF assms(2,4)] st assms(3) show ?thesis by (auto simp: gw_phase_ok_def)
  next
    case (delete_remove sid j owner)
    with removed_same [OF assms(2,4)] st assms(3) show ?thesis by (auto simp: gw_phase_ok_def)
  next
    case (scan owner now)
    show ?thesis
    proof (cases "sr_id (gw_records s ! r) \<in> fst ` set (expired_sessions now s)")
      case True
      then obtain j where j: "(sr_id (gw_records s ! r), j) \<in> set (expired_sessions now s)" by force
      then have "(sr_id (gw_records s ! r), j) \<in> set (gw_sessions s)" by (simp add: expired_sessions_def)
      then have "j = r" using mem stored_okD(1) [OF assms(2)] by (metis eq_key_imp_eq_value)
      with j scan show ?thesis by force
    next
      case False
      with mem st scan show ?thesis by simp
    qed
  next
    case drain
    with mem show ?thesis by force
  next
    case (made sid q n acp now)
    have "sr_id (gw_records s ! r) \<noteq> sid"
      using stored_okD(5) [OF assms(2), of "gw_records s ! r"] assms(4) made by (auto simp: record_ok_def stored_def)
    then show ?thesis using mem st made by (simp add: set_mput_other)
  qed (use mem st in auto)
qed

lemma effect_accounted:
  assumes "thread_effect s ph ph' s'" "stored_ok s" "gw_phase_ok s ph"
  shows "n \<in> loose ph \<Longrightarrow> n \<in> loose ph' \<or> n \<in> set (gw_closed s')
      \<or> (\<exists>r. stored s' r \<and> sr_session (gw_records s' ! r) = n)"
    and "r \<in> doomed ph \<Longrightarrow> r \<in> doomed ph' \<or> sr_session (gw_records s ! r) \<in> set (gw_closed s')"
    and "n < gw_started s' \<Longrightarrow> n < gw_started s \<or> n \<in> loose ph'"
proof -
  show "n \<in> loose ph \<Longrightarrow> n \<in> loose ph' \<or> n \<in> set (gw_closed s')
      \<or> (\<exists>r. stored s' r \<and> sr_session (gw_records s' ! r) = n)"
    using assms(1)
  proof cases
    case (made sid q k acp now)
    then have "stored s' (length (gw_records s))"
      using map_of_SomeD [of "mput sid (length (gw_records s)) (gw_sessions s)" sid]
      by (simp add: stored_def new_record_def)
    moreover assume "n \<in> loose ph"
    ultimately show ?thesis using made by (auto simp: new_record_def intro!: exI [of _ "length (gw_records s)"])
  qed (auto dest: idle_free)
  show "r \<in> doomed ph \<Longrightarrow> r \<in> doomed ph' \<or> sr_session (gw_records s ! r) \<in> set (gw_closed s')"
  proof -
    assume r: "r \<in> doomed ph"
    then have "r < length (gw_records s)" using assms(3) by (cases ph) (auto simp: gw_phase_ok_def)
    then have "sr_managed (gw_records s ! r)" using stored_okD(5) [OF assms(2)] by (simp add: record_ok_def)
    from assms(1) this r show ?thesis
      by cases (auto simp: closeManagedSession_def dest: idle_free)
  qed
  show "n < gw_started s' \<Longrightarrow> n < gw_started s \<or> n \<in> loose ph'"
    using assms(1) by cases auto
qed

definition kept_ok :: "gateway \<Rightarrow> bool" where
  "kept_ok s \<longleftrightarrow> gateway_ok s \<and> (\<forall>n<gw_started s. accounted s n)"

lemma accounted_arrive:
  assumes "accounted s n" "t = s\<lparr>gw_threads := gw_threads s @ [ph]\<rparr>"
  shows "accounted t n"
proof -
  have at: "p < length (gw_threads s) \<Longrightarrow> p < length (gw_threads t) \<and> gw_threads t ! p = gw_threads s ! p" for p
    using assms(2) by (simp add: nth_append)
  have same: "gw_closed t = gw_closed s" "gw_records t = gw_records s" "stored t r = stored s r" for r
    using assms(2) by (simp_all add: stored_def)
  from assms(1) show ?thesis unfolding accounted_def same using at by metis
qed

lemma accounted_move:
  assumes "thread_effect s (gw_threads s ! p) ph' s'" "stored_ok s" "gw_phase_ok s (gw_threads s ! p)"
    and "p < length (gw_threads s)" "t = gw_set_phase p ph' s'" "accounted s n \<or> n \<in> loose ph'"
  shows "accounted t n"
proof -
  let ?ph = "gw_threads s ! p"
  have thr: "gw_threads t = (gw_threads s)[p := ph']"
    using assms(1,5) by (cases rule: thread_effect.cases) simp_all
  have same: "gw_closed t = gw_closed s'" "gw_records t = gw_records s'" "stored t r = stored s' r" for r
    using assms(5) by (simp_all add: stored_def)
  note g = effect_grows [OF assms(1)]
  note acc = effect_accounted [OF assms(1-3)]
  have own: "n \<in> loose ph' \<Longrightarrow> accounted t n"
    unfolding accounted_def thr using assms(4) by (metis length_list_update nth_list_update_eq)
  have rec: "r < length (gw_records t) \<and> sr_session (gw_records t ! r) = sr_session (gw_records s ! r)"
    if "r < length (gw_records s)" for r
    using that g same by (auto simp: grows_def same_identity_def)
  from assms(6) consider "n \<in> loose ph'" | "n \<in> set (gw_closed s)"
    | q where "q < length (gw_threads s)" "n \<in> loose (gw_threads s ! q)"
    | r where "r < length (gw_records s)" "sr_session (gw_records s ! r) = n" "stored s r"
    | r q where "r < length (gw_records s)" "sr_session (gw_records s ! r) = n"
        "q < length (gw_threads s)" "r \<in> doomed (gw_threads s ! q)"
    unfolding accounted_def by blast
  then show ?thesis
  proof cases
    case 1
    then show ?thesis by (rule own)
  next
    case 2
    then show ?thesis using g same by (auto simp: accounted_def grows_def)
  next
    case (3 q)
    show ?thesis
    proof (cases "q = p")
      case True
      with acc(1) [of n] 3(2) own same show ?thesis
        by (auto simp: accounted_def stored_def)
    next
      case False
      then show ?thesis unfolding accounted_def thr using 3 by (metis length_list_update nth_list_update_neq)
    qed
  next
    case (4 r)
    from effect_stored [OF assms(1-3) 4(3)] show ?thesis
      unfolding accounted_def thr same(3) using rec [OF 4(1)] 4(2) assms(4)
      by (metis length_list_update nth_list_update_eq)
  next
    case (5 r q)
    show ?thesis
    proof (cases "q = p")
      case True
      with acc(2) [of r] 5(4) consider "r \<in> doomed ph'" | "n \<in> set (gw_closed t)" using 5(2) same by auto
      then show ?thesis
      proof cases
        case 1
        then show ?thesis unfolding accounted_def thr using rec [OF 5(1)] 5(2) assms(4)
          by (metis length_list_update nth_list_update_eq)
      next
        case 2
        then show ?thesis by (simp add: accounted_def)
      qed
    next
      case False
      then show ?thesis unfolding accounted_def thr using rec [OF 5(1)] 5
        by (metis length_list_update nth_list_update_neq)
    qed
  qed
qed

lemma kept_ok_step:
  assumes "kept_ok s" "gw_step a s = Some t"
  shows "kept_ok t"
proof -
  have ok: "gateway_ok s" "stored_ok s" using assms(1) by (auto simp: kept_ok_def gateway_ok_def)
  have acc: "n < gw_started s \<Longrightarrow> accounted s n" for n using assms(1) by (simp add: kept_ok_def)
  from assms(2) have "\<forall>n<gw_started t. accounted t n"
  proof (cases rule: gw_step_effect)
    case (arrive ph)
    then show ?thesis using acc accounted_arrive [OF _ arrive(2)] by simp
  next
    case (move p ph' s')
    have ph: "gw_phase_ok s (gw_threads s ! p)" using ok(1) move(1) by (simp add: gateway_ok_def)
    have "gw_started t = gw_started s'" using move(3) by simp
    then show ?thesis
      using accounted_move [OF move(2) ok(2) ph move(1,3)] acc effect_accounted(3) [OF move(2) ok(2) ph] by metis
  qed
  with gateway_ok_step [OF ok(1) assms(2)] show ?thesis by (simp add: kept_ok_def)
qed

interpretation kept: step_invariant gw_step kept_ok
  by unfold_locales (rule kept_ok_step)

lemma server_fixed: "reach gw_step s t \<Longrightarrow> gw_server t = gw_server s"
proof (induction rule: reach.induct)
  case (reach_exec t a u)
  from reach_exec.hyps(2) have "gw_server u = gw_server t"
  proof (cases rule: gw_step_effect)
    case (move p ph' s')
    with effect_grows [OF move(2)] show ?thesis by (simp add: grows_def)
  qed simp
  with reach_exec.IH show ?case by simp
qed simp

lemma new_gateway_kept: "kept_ok (new_gateway server owns owns')" "cap_ok (new_gateway server owns owns')"
  by (simp_all add: kept_ok_def gateway_ok_def stored_ok_def new_gateway_def cap_ok_def)

section \<open>Two clients and a sweep\<close>

definition small_server :: server where
  "small_server = \<lparr>sv_defaultAgentID = ''codex'', sv_cwd = ''/w'', sv_sessionTTL = 100, sv_maxSessions = 2,
     sv_apiKey = [], sv_allowHeaderCWD = False, sv_models = [], sv_agents = [''codex''],
     sv_discoverModels = False, sv_discoveryTTL = 1\<rparr>"

definition small_context :: request_context where
  "small_context = \<lparr>rc_ownerHash = ''o'', rc_agentID = ''codex'', rc_modelID = [], rc_effort = [],
     rc_cwd = ''/w'', rc_fingerprint = ''f'', rc_systemHash = []\<rparr>"

definition first_request :: gw_request where
  "first_request = \<lparr>rq_context = small_context, rq_sessionID = [], rq_persistent = True, rq_alias = None,
     rq_stream = False\<rparr>"

definition second_request :: gw_request where
  "second_request = first_request\<lparr>rq_sessionID := ''s1'', rq_alias := Some ''resp_2''\<rparr>"

definition small_gateway :: gateway where
  "small_gateway = new_gateway small_server True False"

definition first_turn :: "gw_action list" where
  "first_turn = [Arrive (Ask_Limit first_request), Advance 0 0, Session_Started 0 (Inr ''acp''),
     Record_Made 0 0 ''s1'', Advance 0 0, Advance 0 0]"

definition after_first :: gateway where
  "after_first = the (run gw_step first_turn small_gateway)"

lemma after_first: "run gw_step first_turn small_gateway = Some after_first"
proof -
  have "run gw_step first_turn small_gateway \<noteq> None" by code_simp
  then show ?thesis by (simp add: after_first_def)
qed

lemma after_first_facts:
  "length (gw_threads after_first) = 1" "gw_threads after_first ! 0 = In_Turn first_request 0"
  "length (gw_records after_first) = 1" "gw_started after_first = 1" "gw_sessions after_first = [(''s1'', 0)]"
  "gw_closed after_first = []" "sr_busy (gw_records after_first ! 0)"
  by code_simp+

section \<open>Properties\<close>

text \<open>C15. The session table never holds more sessions than \<open>MaxSessions\<close>, whatever requests are
admitted concurrently: the limit that is checked before the agent is started is checked again when
the record is stored.\<close>

theorem gateway_session_cap:
  assumes "reach gw_step (new_gateway server owns owns') s" "0 < sv_maxSessions server"
  shows "int (length (gw_sessions s)) \<le> sv_maxSessions server"
  using limited.reachable [OF assms(1) new_gateway_kept(2)] server_fixed [OF assms(1)] assms(2)
  by (simp add: cap_ok_def new_gateway_def)

lemma gateway_session_cap_witness:
  "int (length (gw_sessions after_first)) \<le> 2"
proof -
  have "reach gw_step (new_gateway small_server True False) after_first"
    using reach_run [OF after_first] by (simp add: small_gateway_def)
  from gateway_session_cap [OF this] show ?thesis by (simp add: small_server_def)
qed

text \<open>C1. A session is busy exactly while one request runs a turn on it: two turns never run on the
same session, and no session stays busy without a turn.\<close>

theorem one_turn_per_session:
  assumes "reach gw_step (new_gateway server owns owns') s" "r < length (gw_records s)"
  shows "sr_busy (gw_records s ! r) \<longleftrightarrow> (\<exists>!p. p < length (gw_threads s) \<and> running (gw_threads s ! p) = Some r)"
proof -
  have "turn_count r s = busy_count s r"
    using turns.reachable [OF assms(1) new_gateway_ok] by (simp add: turns_ok_def)
  then have "length (filter (\<lambda>ph. running ph = Some r) (gw_threads s)) = of_bool (sr_busy (gw_records s ! r))"
    using assms(2) by (simp add: turn_count_def busy_count_def)
  then show ?thesis
    using length_filter_one [of "\<lambda>ph. running ph = Some r" "gw_threads s"] by auto
qed

lemma one_turn_per_session_witness:
  "\<exists>!p. p < length (gw_threads after_first) \<and> running (gw_threads after_first ! p) = Some 0"
proof -
  have "reach gw_step (new_gateway small_server True False) after_first"
    using reach_run [OF after_first] by (simp add: small_gateway_def)
  from one_turn_per_session [OF this, of 0] after_first_facts show ?thesis by simp
qed

text \<open>A turn only runs on a session of the same owner as the request, and only the owner's
DELETE removes a session.\<close>

theorem gateway_owner_isolation:
  assumes "reach gw_step (new_gateway server owns owns') s" "p < length (gw_threads s)"
  shows "case gw_threads s ! p of
      In_Turn q r \<Rightarrow> sr_ownerHash (gw_records s ! r) = rc_ownerHash (rq_context q)
    | Delete_Remove sid r owner \<Rightarrow> sr_ownerHash (gw_records s ! r) = owner \<and> sr_id (gw_records s ! r) = sid
    | _ \<Rightarrow> True"
proof -
  have "gateway_ok (new_gateway server owns owns')" using new_gateway_kept(1) by (simp add: kept_ok_def)
  from gateway.reachable [OF assms(1) this] assms(2) have "gw_phase_ok s (gw_threads s ! p)"
    by (simp add: gateway_ok_def)
  then show ?thesis by (auto simp: gw_phase_ok_def split: phase.split)
qed

lemma gateway_owner_isolation_witness:
  "sr_ownerHash (gw_records after_first ! 0) = ''o''"
proof -
  have "reach gw_step (new_gateway small_server True False) after_first"
    using reach_run [OF after_first] by (simp add: small_gateway_def)
  from gateway_owner_isolation [OF this, of 0] after_first_facts show ?thesis
    by (simp add: first_request_def small_context_def)
qed

text \<open>C5. Every agent session that the gateway started and has not closed is in the session table
or in the hands of a thread that stores it or closes it.\<close>

theorem gateway_keeps_sessions:
  assumes "reach gw_step (new_gateway server owns owns') s" "n < gw_started s" "n \<notin> set (gw_closed s)"
  shows "(\<exists>sid r. (sid, r) \<in> set (gw_sessions s) \<and> sr_session (gw_records s ! r) = n)
     \<or> (\<exists>p<length (gw_threads s). n \<in> loose (gw_threads s ! p)
          \<or> (\<exists>r\<in>doomed (gw_threads s ! p). sr_session (gw_records s ! r) = n))"
proof -
  have "accounted s n"
    using kept.reachable [OF assms(1) new_gateway_kept(1)] assms(2) by (simp add: kept_ok_def)
  with assms(3) show ?thesis unfolding accounted_def stored_def by blast
qed

lemma gateway_keeps_sessions_witness:
  "\<exists>sid r. (sid, r) \<in> set (gw_sessions after_first) \<and> sr_session (gw_records after_first ! r) = 0"
proof -
  have "reach gw_step (new_gateway small_server True False) after_first"
    using reach_run [OF after_first] by (simp add: small_gateway_def)
  from gateway_keeps_sessions [OF this, of 0] after_first_facts show ?thesis by auto
qed



text \<open>A request for a session that is busy is refused without touching the server, but with a
different status: 409 \<open>session_busy\<close> when it asks for a stream, 502 \<open>acp_turn_error\<close> when it does
not.\<close>

theorem busy_session_status:
  assumes "p < length (gw_threads s)" "gw_threads s ! p = Begin_Turn q r" "sr_busy (gw_records s ! r)"
  shows "gw_step (Advance p now) s = Some (gw_set_phase p (Replied (Http_Error
     \<lparr>he_status = (if rq_stream q then 409 else 502),
      he_code = (if rq_stream q then ''session_busy'' else ''acp_turn_error''),
      he_message = ''ACP session is busy''\<rparr>)) s)"
  using assms by (simp add: gw_step_def tryBegin_def busy_error_def)

lemma busy_session_status_witness:
  "gw_step (Advance 1 7) (after_first\<lparr>gw_threads := [In_Turn first_request 0, Begin_Turn second_request 0]\<rparr>) \<noteq> None"
proof -
  let ?s = "after_first\<lparr>gw_threads := [In_Turn first_request 0, Begin_Turn second_request 0]\<rparr>"
  have "1 < length (gw_threads ?s)" "gw_threads ?s ! 1 = Begin_Turn second_request 0" "sr_busy (gw_records ?s ! 0)"
    using after_first_facts by simp_all
  from busy_session_status [OF this, of 7] show ?thesis by simp
qed

text \<open>The cleanup loop can overtake a request that has already been let in: the session is
removed and closed, the request registers its response id for it and runs its turn on the closed
session, and the response id stays behind with no session to lead to.\<close>

theorem swept_session_runs:
  "\<exists>s. reach gw_step (new_gateway small_server True False) s
     \<and> (\<exists>q r. gw_threads s ! 1 = In_Turn q r \<and> sr_session (gw_records s ! r) \<in> set (gw_closed s)
          \<and> mget (gw_sessions s) (rq_sessionID q) = None
          \<and> sessionIDForResponse (the (rq_alias q)) s = Some (rq_sessionID q))"
proof -
  let ?as = "first_turn @ [Turn_Ended 0 0 None, Arrive (Find_Session second_request), Advance 1 100, Advance 1 100,
     Arrive (Scan_Expired None), Advance 2 101, Session_Closed 2 None, Advance 1 101, Advance 1 101]"
  have run: "map_option (\<lambda>s. gw_threads s ! 1 = In_Turn second_request 0
        \<and> sr_session (gw_records s ! 0) \<in> set (gw_closed s)
        \<and> mget (gw_sessions s) ''s1'' = None \<and> sessionIDForResponse ''resp_2'' s = Some ''s1'')
      (run gw_step ?as small_gateway) = Some True"
    by code_simp
  then obtain s where "run gw_step ?as small_gateway = Some s" and
    f: "gw_threads s ! 1 = In_Turn second_request 0 \<and> sr_session (gw_records s ! 0) \<in> set (gw_closed s)
        \<and> mget (gw_sessions s) ''s1'' = None \<and> sessionIDForResponse ''resp_2'' s = Some ''s1''"
    unfolding map_option_eq_Some by (elim exE conjE) simp
  then have "reach gw_step (new_gateway small_server True False) s"
    using reach_run by (simp add: small_gateway_def)
  moreover have "rq_sessionID second_request = ''s1''" "rq_alias second_request = Some ''resp_2''"
    by (simp_all add: second_request_def)
  ultimately show ?thesis using f by (intro exI [of _ s] conjI) auto
qed

text \<open>\<open>Close\<close> can return with a session left in the table: a request whose agent session is
still being started stores its record after the table was drained.\<close>

theorem record_after_shutdown:
  "\<exists>s. reach gw_step (new_gateway small_server True False) s \<and> gw_threads s ! 1 = Replied (Shut_Down None)
     \<and> gw_sessions s \<noteq> [] \<and> gw_closed s = []"
proof -
  let ?as = "[Arrive (Ask_Limit first_request), Advance 0 0, Session_Started 0 (Inr ''acp''), Arrive Drain, Advance 1 0,
     Advance 1 0, Runtimes_Closed 1 None None, Record_Made 0 0 ''s1'']"
  have run: "map_option (\<lambda>s. gw_threads s ! 1 = Replied (Shut_Down None) \<and> gw_sessions s \<noteq> [] \<and> gw_closed s = [])
      (run gw_step ?as small_gateway) = Some True"
    by code_simp
  then obtain s where s: "run gw_step ?as small_gateway = Some s" and
    f: "gw_threads s ! 1 = Replied (Shut_Down None) \<and> gw_sessions s \<noteq> [] \<and> gw_closed s = []"
    unfolding map_option_eq_Some by (elim exE conjE) simp
  from reach_run [OF s] have "reach gw_step (new_gateway small_server True False) s"
    by (simp only: small_gateway_def)
  with f show ?thesis by blast
qed

section \<open>Every handler ends\<close>









end
