(* ===== verification/White_Space.thy ===== *)
theory White_Space
  imports Go_Strings
begin

text \<open>
  The laws of \<open>strings.TrimSpace\<close>: its result is trimmed, a trimmed string is kept, and a string
  that starts and ends with a visible ASCII character is trimmed.
\<close>

section \<open>Trimmed strings\<close>

definition trimmed :: "string \<Rightarrow> bool" where
  "trimmed s \<longleftrightarrow> strip_one space_encodings s = None \<and> strip_one (map rev space_encodings) (rev s) = None"

lemma strip_one_None:
  "strip_one ws s = None \<longleftrightarrow> (\<forall>w\<in>set ws. w \<noteq> [] \<longrightarrow> \<not> has_prefix s w)"
  by (induction ws s rule: strip_one.induct) auto

lemma has_prefix_append_left: "has_prefix r w \<Longrightarrow> has_prefix (r @ u) w"
  by (auto simp: has_prefix_iff)

lemma trim_space_trimmed [simp]: "trimmed (trim_space s)"
proof -
  define t where "t = trim_left_with space_encodings s"
  define r where "r = trim_left_with (map rev space_encodings) (rev t)"
  obtain p where "rev t = p @ r" using trim_left_with_suffix r_def by blast
  then have t: "t = rev r @ rev p" by (metis rev_append rev_rev_ident)
  have "strip_one space_encodings t = None" by (simp add: t_def trim_left_with_stops)
  then have "strip_one space_encodings (rev r) = None"
    unfolding strip_one_None t using has_prefix_append_left by blast
  moreover have "strip_one (map rev space_encodings) r = None"
    by (simp add: r_def trim_left_with_stops)
  ultimately show ?thesis
    by (simp add: trimmed_def trim_space_def Let_def t_def [symmetric] r_def [symmetric])
qed

lemma trim_space_id: "trimmed s \<Longrightarrow> trim_space s = s"
  by (simp add: trimmed_def trim_space_def trim_left_with_fix)

lemma trim_space_idem [simp]: "trim_space (trim_space s) = trim_space s"
  by (rule trim_space_id) simp

lemma set_trim_space: "set (trim_space s) \<subseteq> set s"
proof -
  define t where "t = trim_left_with space_encodings s"
  have a: "set (trim_left_with ws x) \<subseteq> set x" for ws x
    using trim_left_with_suffix [of x ws] by (metis Un_upper2 set_append)
  show ?thesis
    unfolding trim_space_def Let_def using a [of "map rev space_encodings" "rev t"] a [of _ s]
    by (auto simp: t_def)
qed

definition graphic :: "char \<Rightarrow> bool" where
  "graphic c \<longleftrightarrow> 32 < byte c \<and> byte c < 128"

lemma space_not_graphic:
  "w \<in> set space_encodings \<Longrightarrow> \<not> graphic (hd w) \<and> \<not> graphic (last w)"
proof -
  have "\<forall>w \<in> set space_encodings. \<not> graphic (hd w) \<and> \<not> graphic (last w)" by code_simp
  then show "w \<in> set space_encodings \<Longrightarrow> \<not> graphic (hd w) \<and> \<not> graphic (last w)" by blast
qed

lemma trimmed_graphic: "graphic (hd s) \<Longrightarrow> graphic (last s) \<Longrightarrow> s \<noteq> [] \<Longrightarrow> trimmed s"
proof -
  assume s: "graphic (hd s)" "graphic (last s)" "s \<noteq> []"
  have "\<not> has_prefix s w" if "w \<in> set space_encodings" "w \<noteq> []" for w
    using that s(1) space_not_graphic by (auto simp: has_prefix_iff)
  moreover have "\<not> has_prefix (rev s) w" if "w \<in> set (map rev space_encodings)" "w \<noteq> []" for w
  proof
    assume p: "has_prefix (rev s) w"
    from that obtain v where v: "v \<in> set space_encodings" "w = rev v" by auto
    with p that obtain u where "rev s = rev v @ u" by (auto simp: has_prefix_iff)
    then have "last s = last v" using that v(2) by (metis hd_append2 hd_rev)
    with s(2) v(1) space_not_graphic show False by auto
  qed
  ultimately show ?thesis by (simp add: trimmed_def strip_one_None)
qed

lemma trim_space_graphic:
  "s \<noteq> [] \<Longrightarrow> graphic (hd s) \<Longrightarrow> graphic (last s) \<Longrightarrow> trim_space s = s"
  by (simp add: trim_space_id trimmed_graphic)

end
