(* ===== verification/Gateway_Routing_Props.thy ===== *)
theory Gateway_Routing_Props
  imports Gateway_Routing White_Space
begin

text \<open>
  What the gateway lists can be asked for: every listed id without a slash is routed to an
  available model; an id that still has a slash is not. The laws of \<open>TrimSpace\<close> make ids
  canonical.
\<close>

section \<open>White space and slashes\<close>

lemma no_slash_in_spaces: "w \<in> set space_encodings \<Longrightarrow> CHR ''/'' \<notin> set w"
proof -
  have "\<forall>w \<in> set space_encodings. CHR ''/'' \<notin> set w" by code_simp
  then show "w \<in> set space_encodings \<Longrightarrow> CHR ''/'' \<notin> set w" by blast
qed

lemma has_prefix_before: "has_prefix (a @ c # b) w \<Longrightarrow> c \<notin> set w \<Longrightarrow> has_prefix a w"
proof -
  assume p: "has_prefix (a @ c # b) w" and c: "c \<notin> set w"
  have "length w \<le> length a"
  proof (rule ccontr)
    assume n: "\<not> length w \<le> length a"
    then have "w ! length a = (a @ c # b) ! length a"
      using p by (metis has_prefix_def leI nth_take)
    then have "w ! length a = c" by simp
    with n c show False by (metis leI nth_mem)
  qed
  with p show ?thesis by (simp add: has_prefix_def)
qed

lemma trimmed_join:
  assumes "trimmed a" "trimmed b"
  shows "trimmed (a @ CHR ''/'' # b)"
proof -
  have "\<not> has_prefix (a @ CHR ''/'' # b) w" if "w \<in> set space_encodings" "w \<noteq> []" for w
    using assms(1) that has_prefix_before no_slash_in_spaces unfolding trimmed_def strip_one_None by blast
  moreover have "\<not> has_prefix (rev b @ CHR ''/'' # rev a) w" if "w \<in> set (map rev space_encodings)" "w \<noteq> []" for w
  proof -
    from that obtain v where "v \<in> set space_encodings" "w = rev v" by auto
    then have "CHR ''/'' \<notin> set w" using no_slash_in_spaces by simp
    with assms(2) that show ?thesis
      using has_prefix_before unfolding trimmed_def strip_one_None by blast
  qed
  ultimately show ?thesis by (simp add: trimmed_def strip_one_None)
qed

section \<open>Ids\<close>

lemma split_id_joined:
  assumes "trimmed a" "trimmed b" "CHR ''/'' \<notin> set a" "a \<noteq> []" "b \<noteq> []"
  shows "splitInternalModelID (a @ CHR ''/'' # b) = (a, b, True)"
  using assms by (simp add: splitInternalModelID_def trim_space_id trimmed_join split_n2_char Let_def)

lemma str_index_first: "str_index s [c] = Some k \<Longrightarrow> c \<notin> set (take k s)"
  by (induction s "[c]" arbitrary: k rule: str_index.induct)
    (auto simp: has_prefix_def split: if_splits)



lemma clean_trimmed [simp]: "trimmed (cleanInternalModelName m)"
  by (auto simp: cleanInternalModelName_def Let_def split: option.split)

lemma clean_no_bracket: "CHR ''['' \<notin> set (cleanInternalModelName m)"
proof (cases "str_index (trim_space m) ''[''")
  case None
  then have "str_index (trim_space m) ''['' = None \<and> CHR ''['' \<notin> set (trim_space m)"
    by (simp add: str_index_single)
  then show ?thesis by (simp add: cleanInternalModelName_def)
next
  case (Some k)
  from str_index_first [OF Some] show ?thesis
    using set_trim_space [of "take k (trim_space m)"] Some by (auto simp: cleanInternalModelName_def Let_def)
qed

lemma clean_plain: "trimmed m \<Longrightarrow> CHR ''['' \<notin> set m \<Longrightarrow> cleanInternalModelName m = m"
  by (simp add: cleanInternalModelName_def trim_space_id str_index_single [THEN iffD2])

lemma clean_idem [simp]: "cleanInternalModelName (cleanInternalModelName m) = cleanInternalModelName m"
  by (simp add: clean_plain clean_no_bracket)


section \<open>Public ids\<close>

lemma uniqueStrings_from_set:
  "x \<in> set (uniqueStrings_from seen vs) \<longleftrightarrow> x \<noteq> [] \<and> x \<notin> set seen \<and> (\<exists>v\<in>set vs. x = trim_space v)"
  by (induction seen vs rule: uniqueStrings_from.induct) (auto simp: Let_def)



lemma distinct_uniqueStrings: "distinct (uniqueStrings vs)"
proof -
  have "distinct (uniqueStrings_from seen vs)" for seen
    by (induction seen vs rule: uniqueStrings_from.induct)
      (auto simp: Let_def uniqueStrings_from_set)
  then show ?thesis by (simp add: uniqueStrings_def)
qed











section \<open>Routing a listed id\<close>

definition route_request ::
  "(string \<Rightarrow> string) \<Rightarrow> model_list \<Rightarrow> server \<Rightarrow> string \<Rightarrow> model_cache \<Rightarrow>
   (string \<times> string) \<times> http_error option \<times> model_cache" where
  "route_request quote list s model c =
     (case resolveModelRoute list s model c of (r, c) \<Rightarrow> (r, validateModelRoute quote list model r c))"






definition two_agents :: server where
  "two_agents = NewServer ''/w'' \<lparr>cf_DefaultAgentID = ''codex'', cf_CWD = [], cf_SessionTTL = 0, cf_MaxSessions = 0,
     cf_APIKey = [], cf_AllowHeaderCWD = False, cf_Models = [], cf_Agents = [''codex'', ''claude''],
     cf_DiscoverModels = True, cf_ModelDiscoveryTTL = 0\<rparr>"

definition two_answers :: "string \<Rightarrow> go_error + string list" where
  "two_answers a = (if a = ''codex'' then Inr [''gpt-5[fast]''] else Inr [''haiku'', ''default''])"

definition two_cached :: model_cache where
  "two_cached = \<lparr>mc_modelCache = [''codex/gpt-5[fast]'', ''claude/haiku'', ''claude/default''],
     mc_modelCacheExpiry = 600000000000\<rparr>"




section \<open>Ids that are listed and cannot be requested\<close>

definition plain_id :: "string \<Rightarrow> bool" where
  "plain_id s \<longleftrightarrow> s \<noteq> [] \<and> trimmed s \<and> CHR ''/'' \<notin> set s \<and> CHR ''['' \<notin> set s"

lemma fold_case_slash: "CHR ''/'' \<in> set s \<Longrightarrow> CHR ''/'' \<in> set (fold_case s)"
proof (induction s rule: fold_case.induct)
  case (2 a s)
  have l: "lower_char (CHR ''/'') = CHR ''/''" by (simp add: lower_char_def)
  show ?case
  proof (cases s)
    case Nil
    then show ?thesis using 2 l by (subst fold_case.simps) auto
  next
    case s: (Cons b t)
    show ?thesis
    proof (cases t)
      case Nil
      then show ?thesis using 2 l s by (subst fold_case.simps) (auto simp del: fold_case.simps(2))
    next
      case (Cons c u)
      then show ?thesis using 2 l s by (subst fold_case.simps) (auto simp del: fold_case.simps(2))
    qed
  qed
qed simp

lemma nested_id:
  assumes "plain_id a" "plain_id b" "plain_id m"
  shows "splitInternalModelID (a @ ''/'' @ b @ ''/'' @ m) = (a, b @ ''/'' @ m, True)"
    "splitInternalModelID (b @ ''/'' @ m) = (b, m, True)"
    "cleanInternalModelName (b @ ''/'' @ m) = b @ ''/'' @ m" "cleanInternalModelName m = m"
    "trim_space (a @ ''/'' @ b @ ''/'' @ m) = a @ ''/'' @ b @ ''/'' @ m" "trim_space (b @ ''/'' @ m) = b @ ''/'' @ m"
  using assms by (simp_all add: plain_id_def split_id_joined trimmed_join clean_plain trim_space_id)

text \<open>A model whose own name has a slash is listed under that name, and a request for the
listed id is refused: the part before the slash is read as the agent.\<close>

theorem nested_model_unroutable:
  assumes "plain_id a" "plain_id b" "plain_id m" "to_lower a \<noteq> ''claude''"
    and "sv_models s = [a @ ''/'' @ b @ ''/'' @ m]" "\<not> sv_discoverModels s"
  shows "fst (listed_models (modelsForList discover s now) c) = [b @ ''/'' @ m]
    \<and> route_request quote (modelsForList discover s now) s (b @ ''/'' @ m) c =
        ((b, m), Some \<lparr>he_status = 404, he_code = ''model_not_found'',
           he_message = ''model '' @ quote (b @ ''/'' @ m) @ '' is not available for agent '' @ quote b\<rparr>, c)"
proof -
  let ?p = "b @ ''/'' @ m" and ?i = "a @ ''/'' @ b @ ''/'' @ m"
  note ids = nested_id [OF assms(1-3)]
  have list: "modelsForList discover s now c = ([?i], c)"
    using assms(5,6) ids(5) by (simp add: modelsForList_def uniqueStrings_def)
  have "\<not> equal_fold ?p ''default''"
    using fold_case_slash [of ?p] by (auto simp: equal_fold_def lower_char_def)
  then have public: "publicModelID ?i = (?p, True)"
    using assms(4) ids by (simp add: publicModelID_def)
  have listed: "fst (listed_models (modelsForList discover s now) c) = [?p]"
    using ids(6) public by (simp add: listed_models_def list publicModelIDs_def uniqueStrings_def)
  have route: "resolveModelRoute (modelsForList discover s now) s ?p c = ((b, m), c)"
    using assms(2,3) ids(6) by (simp add: resolveModelRoute_def split_n2_char plain_id_def trim_space_id)
  have "\<not> internalModelAvailable [?i] ?p"
    using ids by (simp add: internalModelAvailable_def)
  then show ?thesis
    using listed route ids(5,6) by (simp add: route_request_def validateModelRoute_def list hasModelInventory_def Let_def)
qed

lemma nested_model_unroutable_witness:
  "\<exists>s c. fst (listed_models (modelsForList two_answers s 0) c) = [''anthropic'' @ ''/'' @ ''opus'']"
proof -
  let ?s = "two_agents\<lparr>sv_models := [''opencode'' @ ''/'' @ ''anthropic'' @ ''/'' @ ''opus''], sv_discoverModels := False\<rparr>"
  have "plain_id ''opencode''" "plain_id ''anthropic''" "plain_id ''opus''" "to_lower ''opencode'' \<noteq> ''claude''"
    by (simp_all add: plain_id_def trimmed_graphic graphic_def lower_char_def)
  then show ?thesis
    using nested_model_unroutable [of "''opencode''" "''anthropic''" "''opus''" ?s two_answers 0 two_cached] by auto
qed

text \<open>
  The first list after a discovery that found nothing names the default agent; while that result is
  cached the list is empty.
\<close>

lemma fallback_listed_once:
  assumes "sv_models s = []" "sv_discoverModels s" "discoverModelIDs discover s = []" "\<not> now < mc_modelCacheExpiry c"
    and "modelsForList discover s now c = (models, c1)" "now' < mc_modelCacheExpiry c1"
  shows "models = [sv_defaultAgentID s]" "fst (modelsForList discover' s now' c1) = []"
  using assms by (auto simp: modelsForList_def uniqueStrings_def Let_def)

end
