(* ===== verification/Gateway_Handler_Props.thy ===== *)
theory Gateway_Handler_Props
  imports Gateway_Handlers Gateway_Props Gateway_Routing_Props
begin

text \<open>
  The handlers and the session threads together: what a request that is let in can rely on, and
  which requests can meet on one session.
\<close>

section \<open>Prompts\<close>

lemma find_SomeD: "List.find P zs = Some m \<Longrightarrow> m \<in> set zs \<and> P m"
  by (induction zs) (auto split: if_splits)

lemma last_user_in: "last_user ms = Some m \<Longrightarrow> m \<in> set ms \<and> cm_Role m = ''user''"
  using find_SomeD [of "\<lambda>m. cm_Role m = ''user''" "rev ms" m] by (simp add: last_user_def)

lemma last_user_None: "last_user ms = None \<Longrightarrow> m \<in> set ms \<Longrightarrow> cm_Role m \<noteq> ''user''"
  by (auto simp: last_user_def find_None_iff)

lemma find_split: "List.find P zs = Some m \<Longrightarrow> \<exists>xs ys. zs = xs @ m # ys \<and> (\<forall>x\<in>set xs. \<not> P x)"
proof (induction zs)
  case (Cons z zs)
  show ?case
  proof (cases "P z")
    case True
    with Cons.prems show ?thesis by (intro exI [of _ "[]"] exI [of _ zs]) simp
  next
    case False
    with Cons obtain xs ys where "zs = xs @ m # ys" "\<forall>x\<in>set xs. \<not> P x" by auto
    with False show ?thesis by (intro exI [of _ "z # xs"] exI [of _ ys]) simp
  qed
qed simp

lemma last_user_last:
  assumes "last_user ms = Some m"
  obtains xs ys where "ms = xs @ m # ys" "\<forall>y\<in>set ys. cm_Role y \<noteq> ''user''"
proof -
  obtain xs ys where f: "rev ms = xs @ m # ys" "\<forall>x\<in>set xs. cm_Role x \<noteq> ''user''"
    using assms find_split [of "\<lambda>m. cm_Role m = ''user''" "rev ms" m] by (auto simp: last_user_def)
  from arg_cong [OF f(1), of rev] have "ms = rev ys @ m # rev xs" by simp
  with f(2) that [of "rev ys" "rev xs"] show thesis by simp
qed

lemma admitted_messages:
  assumes "handleChatCompletions digest absolute quote list sv r (Inr req) c = (Handled a, c')"
  shows "cq_Messages req \<noteq> []" "rc_ownerHash (rq_context (ad_request a)) = ownerHashFromRequest digest r"
    "ad_incremental a \<Longrightarrow> rq_sessionID (ad_request a) \<noteq> []" "rq_stream (ad_request a) = cq_Stream req"
  using assms
  by (auto simp: handleChatCompletions_def buildRequestContext_def method_not_allowed_def bad_request_def Let_def
      split: if_splits option.splits prod.splits)

text \<open>C39. The prompt of a chat request that is let in never panics; when the client continues a
session it is the text of the last user message, or of the last message when no user speaks.\<close>

theorem admitted_prompt_defined:
  assumes "handleChatCompletions digest absolute quote list sv r (Inr req) c = (Handled a, c')"
  shows "\<exists>text. buildPrompt req (ad_incremental a) = Value text
    \<and> (ad_incremental a \<longrightarrow>
        (\<exists>xs m ys. cq_Messages req = xs @ m # ys \<and> text = content_text (cm_Content m)
           \<and> (\<forall>y\<in>set ys. cm_Role y \<noteq> ''user'')
           \<and> (cm_Role m = ''user'' \<or> ys = [] \<and> (\<forall>x\<in>set xs. cm_Role x \<noteq> ''user''))))"
proof (cases "last_user (cq_Messages req)")
  case None
  define xs where "xs = butlast (cq_Messages req)"
  have split: "cq_Messages req = xs @ last (cq_Messages req) # []"
    using admitted_messages(1) [OF assms] by (simp add: xs_def)
  have "\<forall>x\<in>set xs. cm_Role x \<noteq> ''user''"
    using last_user_None [OF None] in_set_butlastD by (fastforce simp: xs_def)
  with split have "cq_Messages req = xs @ last (cq_Messages req) # []
      \<and> (\<forall>x\<in>set xs. cm_Role x \<noteq> ''user'')" by simp
  moreover have "buildPrompt req True = Value (content_text (cm_Content (last (cq_Messages req))))"
    using None admitted_messages(1) [OF assms] by (simp add: buildPrompt_def)
  moreover have "\<exists>t. buildPrompt req False = Value t" by (simp add: buildPrompt_def)
  ultimately show ?thesis by (cases "ad_incremental a") fastforce+
next
  case (Some m)
  then obtain xs ys where "cq_Messages req = xs @ m # ys" "\<forall>y\<in>set ys. cm_Role y \<noteq> ''user''"
    by (rule last_user_last)
  with Some last_user_in [OF Some] show ?thesis by (auto simp: buildPrompt_def intro!: exI)
qed

section \<open>Clients\<close>





text \<open>With an API key configured every client that gets past \<open>withAuth\<close> is the same owner, so
the sessions of all of them are open to each.\<close>

theorem api_key_single_owner:
  assumes "sv_apiKey sv \<noteq> []" "withAuth sv handler r = Handled x"
  shows "ownerHashFromRequest digest r = digest (sv_apiKey sv) \<and> handler r = Handled x"
  using assms by (auto simp: withAuth_def ownerHashFromRequest_def Let_def split: if_splits)

section \<open>Witnesses\<close>

definition hello :: chat_completion_request where
  "hello = \<lparr>cq_Model = [], cq_Messages = [\<lparr>cm_Role = ''user'', cm_Content = \<lparr>mc_Text = ''hi'', mc_Parts = []\<rparr>,
     cm_Name = []\<rparr>, \<lparr>cm_Role = ''assistant'', cm_Content = \<lparr>mc_Text = ''yes'', mc_Parts = []\<rparr>, cm_Name = []\<rparr>],
     cq_Stream = False, cq_Metadata = None, cq_Tools = [], cq_ToolChoice = Nil_Value, cq_ResponseFormat = None,
     cq_IncludeUsage = None, cq_Modalities = [], cq_N = None\<rparr>"

definition continue_s1 :: http_request where
  "continue_s1 = \<lparr>hr_Method = ''POST'', hr_Path = ''/v1/chat/completions'',
     hr_Header = (\<lambda>h. if h = ''X-ACP-Session-ID'' then ''s1'' else [])\<rparr>"

definition no_models :: model_list where
  "no_models c = ([], c)"

definition hello_context :: request_context where
  "hello_context = \<lparr>rc_ownerHash = ''anonymous'', rc_agentID = ''codex'', rc_modelID = [], rc_effort = [],
     rc_cwd = ''/w'', rc_fingerprint = ''codex'' @ [CHR 0x00, CHR 0x00] @ ''/w'', rc_systemHash = []\<rparr>"

definition hello_request :: gw_request where
  "hello_request = \<lparr>rq_context = hello_context, rq_sessionID = ''s1'', rq_persistent = True, rq_alias = None,
     rq_stream = False\<rparr>"

definition hello_admission :: admitted where
  "hello_admission = \<lparr>ad_request = hello_request, ad_incremental = True, ad_model = ''codex''\<rparr>"

lemma hello_admitted:
  "handleChatCompletions (\<lambda>t. t) (\<lambda>_. None) (\<lambda>m. m) no_models small_server (continue_s1\<lparr>hr_Path := path\<rparr>) (Inr hello)
      two_cached = (Handled hello_admission, two_cached)"
  by (simp add: handleChatCompletions_def hello_def continue_s1_def no_models_def small_server_def
      validateChatCompletionRequest_def tools_refused_def buildRequestContext_def resolveModelRoute_def
      resolvePublicModel_def inferAgentForBareModel_def validateModelRoute_def request_cwd_def systemMessages_def
      map_filter_simps fingerprint_def ownerHashFromRequest_def request_token_def bearerToken_def has_prefix_def
      trim_space_graphic graphic_def Let_def hello_admission_def hello_request_def hello_context_def
      responseModel_def)

lemma hello_last:
  "cq_Messages hello = xs @ m # ys \<Longrightarrow> \<forall>y\<in>set ys. cm_Role y \<noteq> ''user'' \<Longrightarrow>
   cm_Role m = ''user'' \<or> ys = [] \<and> (\<forall>x\<in>set xs. cm_Role x \<noteq> ''user'') \<Longrightarrow> content_text (cm_Content m) = ''hi''"
  by (auto simp: hello_def content_text_def Cons_eq_append_conv)

lemma admitted_prompt_defined_witness: "buildPrompt hello True = Value ''hi''"
proof -
  have inc: "ad_incremental hello_admission = True" by (simp add: hello_admission_def)
  show ?thesis
    using admitted_prompt_defined [OF hello_admitted [of "[]"], unfolded inc simp_thms]
    by (elim exE conjE) (frule (2) hello_last, simp only:)
qed



lemma api_key_single_owner_witness:
  "ownerHashFromRequest (\<lambda>t. t) (continue_s1\<lparr>hr_Header := (\<lambda>h. if h = ''X-API-Key'' then ''k'' else [])\<rparr>) = ''k''"
proof -
  let ?r = "continue_s1\<lparr>hr_Header := (\<lambda>h. if h = ''X-API-Key'' then ''k'' else [])\<rparr>"
  let ?sv = "small_server\<lparr>sv_apiKey := ''k''\<rparr>"
  have "withAuth ?sv (\<lambda>_. Handled ()) ?r = Handled ()"
    by (simp add: withAuth_def request_token_def bearerToken_def has_prefix_def continue_s1_def)
  from api_key_single_owner [OF _ this, of "\<lambda>t. t"] show ?thesis by simp
qed

end
