(* ===== verification/Gateway_Streams.thy ===== *)
theory Gateway_Streams
  imports Gateway_Types
begin

text \<open>
  \<open>openai/server.go\<close>: answers. What a turn's completion becomes as a chat completion or a response
  object, and what a streamed turn writes: a function from the events the host receives and the
  result of the turn to the frames. A failed event without an error panics (its \<open>Error\<close> method is
  called on nil). Clocks and drawn ids are arguments; \<open>text_of\<close> is the \<open>Error\<close> method.
\<close>

section \<open>Answer objects\<close>

record choice_message =
  gm_Role :: string
  gm_Content :: string

record choice_delta =
  dl_Role :: string
  dl_Content :: string

record openai_usage =
  ou_PromptTokens :: nat
  ou_CompletionTokens :: nat
  ou_TotalTokens :: nat

record chat_completion_choice =
  ch_Index :: int
  ch_Message :: "choice_message option"
  ch_Delta :: "choice_delta option"
  ch_FinishReason :: "string option"

record chat_completion_response =
  cr_ID :: string
  cr_Object :: string
  cr_Created :: int
  cr_Model :: string
  cr_Choices :: "chat_completion_choice list"
  cr_Usage :: "openai_usage option"
  cr_SystemFingerprint :: string

record response_output_content =
  oc_Type :: string
  oc_Text :: string
  oc_Annotations :: "any list"

record response_output_item =
  oi_ID :: string
  oi_Type :: string
  oi_Status :: string
  oi_Role :: string
  oi_Content :: "response_output_content list"

record response_usage =
  ru_InputTokens :: nat
  ru_OutputTokens :: nat
  ru_TotalTokens :: nat

record response_object =
  rb_ID :: string
  rb_Object :: string
  rb_CreatedAt :: int
  rb_Status :: string
  rb_Model :: string
  rb_Output :: "response_output_item list"
  rb_OutputText :: string
  rb_Usage :: "response_usage option"
  rb_Metadata :: "meta option"

definition usageFromACP :: "usage option \<Rightarrow> openai_usage option" where
  "usageFromACP u = map_option (\<lambda>u. \<lparr>ou_PromptTokens = us_InputTokens u,
     ou_CompletionTokens = us_OutputTokens u, ou_TotalTokens = us_TotalTokens u\<rparr>) u"

definition responseUsageFromACP :: "usage option \<Rightarrow> response_usage option" where
  "responseUsageFromACP u = map_option (\<lambda>u. \<lparr>ru_InputTokens = us_InputTokens u,
     ru_OutputTokens = us_OutputTokens u, ru_TotalTokens = us_TotalTokens u\<rparr>) u"

definition finishReason :: "string \<Rightarrow> string" where
  "finishReason r =
     (if r = ''max_tokens'' then ''length'' else if r = ''tool_use'' then ''tool_calls'' else ''stop'')"

definition formatOperation :: "operation option \<Rightarrow> string" where
  "formatOperation op' = (case op' of None \<Rightarrow> []
     | Some p \<Rightarrow> if op_Title p = [] then []
                else [CHR 0x0A, CHR 0x0A] @ ''['' @ op_Phase p @ ''] '' @ op_Title p @ [CHR 0x0A])"

definition formatPlan :: "plan_entry list \<Rightarrow> string" where
  "formatPlan entries =
     (if entries = [] then []
      else [CHR 0x0A, CHR 0x0A] @ ''Plan:'' @ [CHR 0x0A] @
        concat (map (\<lambda>e. ''- '' @ (if pe_Status e \<noteq> [] then pe_Status e @ '': '' else [])
                         @ pe_Content e @ [CHR 0x0A]) entries))"

definition completionResponse ::
  "string \<Rightarrow> int \<Rightarrow> chat_completion_request \<Rightarrow> string \<Rightarrow> turn_completion \<Rightarrow> chat_completion_response" where
  "completionResponse new_id now req model completion =
     \<lparr>cr_ID = new_id, cr_Object = ''chat.completion'', cr_Created = now,
      cr_Model = firstNonEmpty [cq_Model req, model],
      cr_Choices = [\<lparr>ch_Index = 0,
        ch_Message = Some \<lparr>gm_Role = ''assistant'', gm_Content = tn_OutputText completion\<rparr>,
        ch_Delta = None, ch_FinishReason = Some (finishReason (tn_StopReason completion))\<rparr>],
      cr_Usage = usageFromACP (tn_Usage completion), cr_SystemFingerprint = []\<rparr>"

definition responseFromCompletion ::
  "string \<Rightarrow> int \<Rightarrow> string \<Rightarrow> string \<Rightarrow> turn_completion \<Rightarrow> meta option \<Rightarrow> response_object" where
  "responseFromCompletion msg_id now sid model completion metadata =
     (let text = tn_OutputText completion
      in \<lparr>rb_ID = sid, rb_Object = ''response'', rb_CreatedAt = now, rb_Status = ''completed'', rb_Model = model,
          rb_Output = [\<lparr>oi_ID = msg_id, oi_Type = ''message'', oi_Status = ''completed'',
            oi_Role = ''assistant'',
            oi_Content = [\<lparr>oc_Type = ''output_text'', oc_Text = text, oc_Annotations = []\<rparr>]\<rparr>],
          rb_OutputText = text, rb_Usage = responseUsageFromACP (tn_Usage completion),
          rb_Metadata = metadata\<rparr>)"

definition responseSkeleton ::
  "string \<Rightarrow> string \<Rightarrow> int \<Rightarrow> string \<Rightarrow> meta option \<Rightarrow> response_object" where
  "responseSkeleton sid model created status metadata =
     \<lparr>rb_ID = sid, rb_Object = ''response'', rb_CreatedAt = created, rb_Status = status, rb_Model = model,
      rb_Output = [], rb_OutputText = [], rb_Usage = None, rb_Metadata = metadata\<rparr>"

definition streamChunk ::
  "int \<Rightarrow> string \<Rightarrow> string \<Rightarrow> choice_delta \<Rightarrow> string option \<Rightarrow> openai_usage option \<Rightarrow> chat_completion_response" where
  "streamChunk now sid model delta finish usage =
     \<lparr>cr_ID = sid, cr_Object = ''chat.completion.chunk'', cr_Created = now, cr_Model = model,
      cr_Choices = [\<lparr>ch_Index = 0, ch_Message = None, ch_Delta = Some delta, ch_FinishReason = finish\<rparr>],
      cr_Usage = usage, cr_SystemFingerprint = []\<rparr>"

section \<open>Events\<close>

text \<open>What both streams show of an event: a text, and the error of a failed turn.\<close>

definition event_text :: "turn_event \<Rightarrow> string" where
  "event_text ev =
     (if tv_Type ev = ''text'' then tv_Text ev
      else if tv_Type ev = ''operation_updated'' then formatOperation (tv_Operation ev)
      else if tv_Type ev = ''plan_updated'' then formatPlan (tv_Plan ev)
      else [])"

definition event_failure :: "turn_event \<Rightarrow> go_error option outcome" where
  "event_failure ev =
     (if tv_Type ev = ''failed''
      then (case tv_Error ev of None \<Rightarrow> Panic | Some e \<Rightarrow> Value (Some e))
      else Value None)"

section \<open>Chat completions\<close>

datatype chat_frame =
    Chunk chat_completion_response
  | Error_Frame string
  | Done_Frame

text \<open>The loop over the events; \<open>n\<close> counts the frames; a chunk reads the clock.\<close>

fun chat_events ::
  "(go_error \<Rightarrow> string) \<Rightarrow> (nat \<Rightarrow> int) \<Rightarrow> string \<Rightarrow> string \<Rightarrow> nat \<Rightarrow> turn_event list \<Rightarrow> chat_frame list outcome" where
  "chat_events text_of clock sid model n [] = Value []"
| "chat_events text_of clock sid model n (ev # evs) =
     bind_outcome (event_failure ev) (\<lambda>failure.
     let frames = (if event_text ev \<noteq> []
           then [Chunk (streamChunk (clock n) sid model \<lparr>dl_Role = [], dl_Content = event_text ev\<rparr> None None)]
           else []) @ (case failure of None \<Rightarrow> [] | Some e \<Rightarrow> [Error_Frame (text_of e)])
     in bind_outcome (chat_events text_of clock sid model (n + length frames) evs) (\<lambda>rest.
        Value (frames @ rest)))"

definition chat_end ::
  "(go_error \<Rightarrow> string) \<Rightarrow> int \<Rightarrow> int \<Rightarrow> string \<Rightarrow> string \<Rightarrow> bool option \<Rightarrow> turn_result \<Rightarrow> chat_frame list" where
  "chat_end text_of now now' sid model include_usage result =
     (case tr_Err result of
        Some e \<Rightarrow> [Error_Frame (text_of e)]
      | None \<Rightarrow>
          (let usage = usageFromACP (tn_Usage (tr_Completion result))
           in [Chunk (streamChunk now sid model \<lparr>dl_Role = [], dl_Content = []\<rparr>
                 (Some (finishReason (tn_StopReason (tr_Completion result)))) usage)] @
              (if include_usage = Some True
               then [Chunk \<lparr>cr_ID = sid, cr_Object = ''chat.completion.chunk'', cr_Created = now', cr_Model = model,
                       cr_Choices = [], cr_Usage = usage, cr_SystemFingerprint = []\<rparr>]
               else []) @ [Done_Frame]))"

text \<open>\<open>flushable\<close>: whether the response writer supports streaming.\<close>

definition streamTurn ::
  "bool \<Rightarrow> (go_error \<Rightarrow> string) \<Rightarrow> (nat \<Rightarrow> int) \<Rightarrow> string \<Rightarrow> string \<Rightarrow> bool option \<Rightarrow> turn_event list \<Rightarrow> turn_result \<Rightarrow>
   (http_error + chat_frame list) outcome" where
  "streamTurn flushable text_of clock sid model include_usage events result =
     (if \<not> flushable
      then Value (Inl \<lparr>he_status = 500, he_code = ''streaming_not_supported'',
             he_message = ''response writer does not support streaming''\<rparr>)
      else bind_outcome (chat_events text_of clock sid model 1 events) (\<lambda>frames.
        Value (Inr ([Chunk (streamChunk (clock 0) sid model \<lparr>dl_Role = ''assistant'', dl_Content = []\<rparr> None None)]
          @ frames @ chat_end text_of (clock (length frames + 1)) (clock (length frames + 2)) sid model include_usage result))))"

section \<open>Responses\<close>

datatype response_frame =
    Response_Created response_object
  | Item_Added nat string
  | Text_Delta nat string string
  | Response_Failed string
  | Response_Completed response_object
  | Response_Done

fun response_events ::
  "(go_error \<Rightarrow> string) \<Rightarrow> string \<Rightarrow> nat \<Rightarrow> string \<Rightarrow> turn_event list \<Rightarrow> (response_frame list \<times> string) outcome" where
  "response_events text_of item sequence output [] = Value ([], output)"
| "response_events text_of item sequence output (ev # evs) =
     bind_outcome (event_failure ev) (\<lambda>failure.
     let failed = (case failure of None \<Rightarrow> [] | Some e \<Rightarrow> [Response_Failed (text_of e)]);
         text = event_text ev
     in if text = []
        then bind_outcome (response_events text_of item sequence output evs) (\<lambda>(rest, out).
             Value (failed @ rest, out))
        else bind_outcome (response_events text_of item (Suc sequence) (output @ text) evs) (\<lambda>(rest, out).
             Value (failed @ [Text_Delta sequence item text] @ rest, out)))"

definition set_response_text :: "string \<Rightarrow> string \<Rightarrow> int \<Rightarrow> response_object \<Rightarrow> response_object" where
  "set_response_text item text created r =
     (let r = r\<lparr>rb_CreatedAt := created, rb_OutputText := text\<rparr>
      in case rb_Output r of
           o' # os \<Rightarrow> (case oi_Content o' of
               c # cs \<Rightarrow> r\<lparr>rb_Output := o'\<lparr>oi_ID := item, oi_Content := c\<lparr>oc_Text := text\<rparr> # cs\<rparr> # os\<rparr>
             | [] \<Rightarrow> r)
         | [] \<Rightarrow> r)"

definition response_end ::
  "(go_error \<Rightarrow> string) \<Rightarrow> string \<Rightarrow> string \<Rightarrow> int \<Rightarrow> string \<Rightarrow> string \<Rightarrow> meta option \<Rightarrow> string \<Rightarrow> turn_result \<Rightarrow>
   response_frame list" where
  "response_end text_of item msg_id created rid model metadata output result =
     (case tr_Err result of
        Some e \<Rightarrow> [Response_Failed (text_of e)]
      | None \<Rightarrow>
          (let text = firstNonEmpty [tn_OutputText (tr_Completion result), output];
               response = responseFromCompletion msg_id created rid model (tr_Completion result) metadata
           in [Response_Completed (set_response_text item text created response), Response_Done]))"

definition streamResponseTurn ::
  "bool \<Rightarrow> (go_error \<Rightarrow> string) \<Rightarrow> int \<Rightarrow> string \<Rightarrow> string \<Rightarrow> string \<Rightarrow> string \<Rightarrow> meta option \<Rightarrow>
   turn_event list \<Rightarrow> turn_result \<Rightarrow> (http_error + response_frame list) outcome" where
  "streamResponseTurn flushable text_of created item msg_id rid model metadata events result =
     (if \<not> flushable
      then Value (Inl \<lparr>he_status = 500, he_code = ''streaming_not_supported'',
             he_message = ''response writer does not support streaming''\<rparr>)
      else bind_outcome (response_events text_of item 1 [] events) (\<lambda>(frames, output).
        Value (Inr ([Response_Created (responseSkeleton rid model created ''in_progress'' metadata),
                     Item_Added 0 item] @ frames
          @ response_end text_of item msg_id created rid model metadata output result))))"

section \<open>Bytes\<close>

text \<open>\<open>json\<close> is \<open>json.Marshal\<close>.\<close>

definition newline :: string where
  "newline = [CHR 0x0A]"

definition writeSSE :: "('v \<Rightarrow> bytes) \<Rightarrow> 'v \<Rightarrow> bytes" where
  "writeSSE json v = ''data: '' @ json v @ newline @ newline"

definition writeResponseSSE :: "('v \<Rightarrow> bytes) \<Rightarrow> string \<Rightarrow> 'v \<Rightarrow> bytes" where
  "writeResponseSSE json event v = ''event: '' @ event @ newline @ ''data: '' @ json v @ newline @ newline"

definition chat_frame_bytes ::
  "(chat_completion_response \<Rightarrow> bytes) \<Rightarrow> (string \<Rightarrow> bytes) \<Rightarrow> chat_frame \<Rightarrow> bytes" where
  "chat_frame_bytes json json_error f = (case f of
     Chunk c \<Rightarrow> writeSSE json c
   | Error_Frame t \<Rightarrow> writeSSE json_error t
   | Done_Frame \<Rightarrow> ''data: [DONE]'' @ newline @ newline)"

end
