(* ===== verification/Gateway_Stream_Props.thy ===== *)
theory Gateway_Stream_Props
  imports Gateway_Streams
begin

text \<open>
  What a client can rely on in a streamed answer: the deltas spell out the events in order, the
  numbering has no gap, the end tells success from failure.
\<close>

section \<open>Reading a stream\<close>

fun chat_delta :: "chat_frame \<Rightarrow> string" where
  "chat_delta (Chunk c) = concat (map (\<lambda>x. case ch_Delta x of None \<Rightarrow> [] | Some d \<Rightarrow> dl_Content d) (cr_Choices c))"
| "chat_delta _ = []"

fun response_delta :: "response_frame \<Rightarrow> string" where
  "response_delta (Text_Delta n item text) = text"
| "response_delta _ = []"

fun frame_number :: "response_frame \<Rightarrow> nat list" where
  "frame_number (Item_Added n item) = [n]"
| "frame_number (Text_Delta n item text) = [n]"
| "frame_number _ = []"

fun failure_text :: "response_frame \<Rightarrow> string list" where
  "failure_text (Response_Failed t) = [t]"
| "failure_text _ = []"

definition spelled :: "turn_event list \<Rightarrow> string" where
  "spelled events = concat (map event_text events)"

lemma bind_Value_iff: "bind_outcome m f = Value y \<longleftrightarrow> (\<exists>x. m = Value x \<and> f x = Value y)"
  by (cases m) auto

lemma chat_events_spelled:
  "chat_events text_of clock sid model n events = Value frames \<Longrightarrow>
   concat (map chat_delta frames) = spelled events \<and> Done_Frame \<notin> set frames"
proof (induction events arbitrary: n frames)
  case (Cons ev evs)
  then show ?case
    by (auto simp: bind_Value_iff spelled_def streamChunk_def Let_def split: option.splits if_splits)
qed (simp add: spelled_def)

lemma response_events_spelled:
  "response_events text_of item k sofar events = Value (frames, out) \<Longrightarrow>
   concat (map response_delta frames) = spelled events \<and> out = sofar @ spelled events
   \<and> concat (map frame_number frames) = [k..<k + length (filter (\<lambda>ev. event_text ev \<noteq> []) events)]
   \<and> Response_Done \<notin> set frames"
proof (induction events arbitrary: k sofar frames out)
  case (Cons ev evs)
  from Cons.prems obtain failure where f: "event_failure ev = Value failure"
    by (auto simp: bind_Value_iff)
  let ?failed = "case failure of None \<Rightarrow> [] | Some e \<Rightarrow> [Response_Failed (text_of e)]"
  have failed: "concat (map response_delta ?failed) = []" "concat (map frame_number ?failed) = []"
    "Response_Done \<notin> set ?failed"
    by (auto split: option.split)
  show ?case
  proof (cases "event_text ev = []")
    case True
    with Cons.prems f obtain rest where "response_events text_of item k sofar evs = Value (rest, out)"
      "frames = ?failed @ rest"
      by (auto simp: bind_Value_iff Let_def)
    with Cons.IH [of k sofar rest out] failed True show ?thesis by (simp add: spelled_def)
  next
    case False
    with Cons.prems f obtain rest where
      "response_events text_of item (Suc k) (sofar @ event_text ev) evs = Value (rest, out)"
      "frames = ?failed @ [Text_Delta k item (event_text ev)] @ rest"
      by (auto simp: bind_Value_iff Let_def)
    with Cons.IH [of "Suc k" "sofar @ event_text ev" rest out] failed False show ?thesis
      by (simp add: spelled_def upt_rec)
  qed
qed (simp add: spelled_def)

section \<open>Properties\<close>

text \<open>C35. A streamed chat completion spells out the turn: the deltas, put together, are the texts of
the events in order, and the stream ends with \<open>[DONE]\<close> exactly when the turn succeeded.\<close>

theorem chat_stream_exact:
  assumes "streamTurn True text_of clock sid model include_usage events result = Value (Inr frames)"
  shows "concat (map chat_delta frames) = spelled events
    \<and> (Done_Frame \<in> set frames \<longleftrightarrow> tr_Err result = None)
    \<and> (tr_Err result = None \<longrightarrow> last frames = Done_Frame)"
proof -
  from assms obtain body where "chat_events text_of clock sid model 1 events = Value body"
    "frames = Chunk (streamChunk (clock 0) sid model \<lparr>dl_Role = ''assistant'', dl_Content = []\<rparr> None None) # body
       @ chat_end text_of (clock (length body + 1)) (clock (length body + 2)) sid model include_usage result"
    by (auto simp: streamTurn_def bind_Value_iff)
  with chat_events_spelled [OF this(1)] show ?thesis
    by (cases "tr_Err result") (simp_all add: chat_end_def streamChunk_def Let_def)
qed

text \<open>C34. A streamed response spells out the turn: the deltas are the texts of the events, the
sequence numbers count up from 0 without a gap, and a successful stream ends with the completed
response, whose text is the turn's output or, when that is empty, the text that was streamed.\<close>

theorem response_stream_exact:
  assumes "streamResponseTurn True text_of created item msg_id rid model metadata events result
      = Value (Inr frames)"
  shows "concat (map response_delta frames) = spelled events
    \<and> concat (map frame_number frames) = [0..<Suc (length (filter (\<lambda>ev. event_text ev \<noteq> []) events))]
    \<and> (if tr_Err result = None
       then \<exists>r pre. frames = pre @ [Response_Completed r, Response_Done] \<and> rb_Status r = ''completed''
         \<and> rb_OutputText r = (if tn_OutputText (tr_Completion result) \<noteq> []
                              then tn_OutputText (tr_Completion result) else spelled events)
       else Response_Done \<notin> set frames)"
proof -
  let ?head = "[Response_Created (responseSkeleton rid model created ''in_progress'' metadata), Item_Added 0 item]"
  from assms obtain body out where b: "response_events text_of item 1 [] events = Value (body, out)"
    "frames = ?head @ body @ response_end text_of item msg_id created rid model metadata out result"
    by (auto simp: streamResponseTurn_def bind_Value_iff)
  note body = response_events_spelled [OF b(1)]
  have nums: "[0..<Suc k] = 0 # [1..<1 + k]" for k by (simp add: upt_rec)
  show ?thesis
  proof (cases "tr_Err result")
    case (Some e)
    then show ?thesis using b(2) body nums by (simp add: response_end_def)
  next
    case None
    let ?r = "set_response_text item (firstNonEmpty [tn_OutputText (tr_Completion result), out]) created
      (responseFromCompletion msg_id created rid model (tr_Completion result) metadata)"
    have frames: "frames = (?head @ body) @ [Response_Completed ?r, Response_Done]"
      using b(2) None by (simp add: response_end_def Let_def)
    have "rb_Status ?r = ''completed''"
      "rb_OutputText ?r = (if tn_OutputText (tr_Completion result) \<noteq> []
         then tn_OutputText (tr_Completion result) else spelled events)"
      using body by (simp_all add: set_response_text_def responseFromCompletion_def Let_def)
    then show ?thesis using frames body nums None by auto
  qed
qed

text \<open>A turn that fails is reported twice in a streamed response: once for the failed event and
once more for the result, with the same text.\<close>

theorem failed_turn_reported_twice:
  assumes "streamResponseTurn True text_of created item msg_id rid model metadata (events @ [ev]) result
      = Value (Inr frames)"
    and "tv_Type ev = ''failed''" "tv_Error ev = Some e" "tr_Err result = Some e"
  shows "\<exists>pre. frames = pre @ [Response_Failed (text_of e), Response_Failed (text_of e)]"
proof -
  have end_ev: "response_events text_of item k sofar (evs @ [ev]) = Value (body, out) \<Longrightarrow>
      \<exists>pre. body = pre @ [Response_Failed (text_of e)]" for k sofar evs body out
  proof (induction evs arbitrary: k sofar body out)
    case Nil
    have "event_text ev = []" using assms(2) by (simp add: event_text_def)
    with Nil assms(2,3) show ?case by (simp add: event_failure_def)
  next
    case (Cons a evs)
    then show ?case
      by (fastforce simp: bind_Value_iff Let_def split: if_splits)
  qed
  from assms(1) obtain body out where b: "response_events text_of item 1 [] (events @ [ev]) = Value (body, out)"
    "frames = [Response_Created (responseSkeleton rid model created ''in_progress'' metadata), Item_Added 0 item]
      @ body @ response_end text_of item msg_id created rid model metadata out result"
    by (auto simp: streamResponseTurn_def bind_Value_iff)
  with end_ev [OF b(1)] assms(4) show ?thesis by (auto simp: response_end_def)
qed

section \<open>Witnesses\<close>

definition two_texts :: "turn_event list" where
  "two_texts = [(turn_event ''text'' ''t'')\<lparr>tv_Text := ''ab''\<rparr>, turn_event ''completed'' ''t'',
     (turn_event ''text'' ''t'')\<lparr>tv_Text := ''c''\<rparr>]"

definition broken :: turn_event where
  "broken = (turn_event ''failed'' ''t'')\<lparr>tv_Error := Some Closed_Pipe\<rparr>"

definition good_result :: turn_result where
  "good_result = \<lparr>tr_Completion = empty_completion, tr_Err = None\<rparr>"

lemma chat_stream_exact_witness:
  "\<exists>frames. streamTurn True (\<lambda>_. []) (\<lambda>_. 0) ''c'' ''m'' None two_texts good_result = Value (Inr frames)
     \<and> concat (map chat_delta frames) = ''abc'' \<and> last frames = Done_Frame"
proof -
  obtain frames where f: "streamTurn True (\<lambda>_. []) (\<lambda>_. 0) ''c'' ''m'' None two_texts good_result = Value (Inr frames)"
    by (simp add: streamTurn_def two_texts_def event_failure_def event_text_def turn_event_def Let_def)
  have "spelled two_texts = ''abc''" by code_simp
  with chat_stream_exact [OF f] f show ?thesis by (simp add: good_result_def)
qed

lemma response_stream_exact_witness:
  "\<exists>frames. streamResponseTurn True (\<lambda>_. []) 0 ''i'' ''g'' ''r'' ''m'' None two_texts good_result = Value (Inr frames)
     \<and> concat (map frame_number frames) = [0, 1, 2]"
proof -
  obtain frames where f: "streamResponseTurn True (\<lambda>_. []) 0 ''i'' ''g'' ''r'' ''m'' None two_texts good_result
      = Value (Inr frames)"
    by (simp add: streamResponseTurn_def two_texts_def event_failure_def event_text_def turn_event_def Let_def)
  have "[0..<Suc (length (filter (\<lambda>ev. event_text ev \<noteq> []) two_texts))] = [0, 1, 2]" by code_simp
  with response_stream_exact [OF f] have "concat (map frame_number frames) = [0, 1, 2]" by metis
  with f show ?thesis by blast
qed

lemma failed_turn_reported_twice_witness:
  "\<exists>frames pre. streamResponseTurn True (\<lambda>_. ''x'') 0 ''i'' ''g'' ''r'' ''m'' None (two_texts @ [broken])
       (good_result\<lparr>tr_Err := Some Closed_Pipe\<rparr>) = Value (Inr frames)
     \<and> frames = pre @ [Response_Failed ''x'', Response_Failed ''x'']"
proof -
  obtain frames where f: "streamResponseTurn True (\<lambda>_. ''x'') 0 ''i'' ''g'' ''r'' ''m'' None (two_texts @ [broken])
       (good_result\<lparr>tr_Err := Some Closed_Pipe\<rparr>) = Value (Inr frames)"
    by (simp add: streamResponseTurn_def two_texts_def broken_def event_failure_def event_text_def turn_event_def Let_def)
  from failed_turn_reported_twice [OF f, of Closed_Pipe] f show ?thesis
    by (auto simp: broken_def good_result_def turn_event_def)
qed

end
