(* ===== verification/Native_Config.thy ===== *)
theory Native_Config
  imports Client_Side Profiles Go_Strconv "HOL-Library.List_Lexorder" "HOL-Library.Char_ord"
begin

text \<open>
  What the native engines (\<open>native_codex.go\<close>, \<open>native_claude.go\<close>, \<open>native.go\<close>) translate without
  state: the configuration of a codex daemon as command line overrides, MCP servers, prompt blocks,
  models, token usage and version numbers.

  \<^item> \<open>json.Marshal\<close> is the argument \<open>marshal\<close>, \<open>strconv.FormatFloat\<close> is \<open>fmt\<close>, the table of
    \<open>strconv.IsPrint\<close> beyond ASCII is \<open>pr\<close>, SHA-256 in hexadecimal is \<open>sha\<close>; what
    \<open>json.Unmarshal\<close> makes of bytes is an argument of the operation that decodes them.
  \<^item> A \<open>map[string]any\<close> the code writes out is an \<open>Obj\<close> with its members in the order of the source.
\<close>

section \<open>Values of metadata\<close>

definition metaString :: "meta \<Rightarrow> string \<Rightarrow> string" where
  "metaString m k = or_blank (lookup_as as_string m k)"

definition stringSliceFromAny :: "any option \<Rightarrow> string list" where
  "stringSliceFromAny v = (case v of
     Some (Seq xs) \<Rightarrow> List.map_filter as_string xs
   | _ \<Rightarrow> [])"

definition agent_var :: "agent \<Rightarrow> string \<Rightarrow> string" where
  "agent_var a k = or_blank (mget (ag_env a) k)"

text \<open>\<open>model_of\<close> reads the member \<open>model\<close> of a JSON document, as \<open>json.Unmarshal\<close> leaves it.\<close>

definition nativeCodexModel :: "(bytes \<Rightarrow> string) \<Rightarrow> agent \<Rightarrow> meta \<Rightarrow> string" where
  "nativeCodexModel model_of a m =
     (if metaString m ''model'' \<noteq> [] then metaString m ''model''
      else model_of (agent_var a ''CODEX_CONFIG''))"

definition nativeModelOption :: "string \<Rightarrow> session_config_option" where
  "nativeModelOption model =
     \<lparr>so_Type = ''string'', so_ID = ''model'', so_Name = ''Model'', so_Description = None,
      so_Category = Some ''model'', so_Value = Str model, so_Options = [], so_Groups = [], so_Meta = []\<rparr>"

section \<open>Codex configuration\<close>

definition tomlValueOf :: "(nat \<Rightarrow> bool) \<Rightarrow> (rat \<Rightarrow> string) \<Rightarrow> (any \<Rightarrow> bytes) \<Rightarrow> any \<Rightarrow> string" where
  "tomlValueOf pr fmt marshal v = (case v of
     Str s \<Rightarrow> AppendQuote pr s
   | Bool_Value b \<Rightarrow> (if b then ''true'' else ''false'')
   | Float_Value r \<Rightarrow> fmt r
   | _ \<Rightarrow> marshal v)"

definition dotted :: "string \<Rightarrow> string \<Rightarrow> string" where
  "dotted pre key = (if pre \<noteq> [] then pre @ ''.'' @ key else key)"

lemma size_snd_mem: "p \<in> set m \<Longrightarrow> size (snd p) < Suc (size_list (size_prod (\<lambda>_. 0) size) m)"
  using size_list_estimation' [of p m "size (snd p)" "size_prod (\<lambda>_. 0) size"]
  by (cases p) (simp add: less_Suc_eq_le)

text \<open>\<open>sort.Strings(keys)\<close> and the loop over the keys: the members in the order of their keys.\<close>

function flattenCodexConfig :: "(any \<Rightarrow> string) \<Rightarrow> string \<Rightarrow> any \<Rightarrow> string list" where
  "flattenCodexConfig toml pre v = (case v of
     Obj m \<Rightarrow> concat (map (\<lambda>p. flattenCodexConfig toml (dotted pre (fst p)) (snd p)) (sort_key fst m))
   | _ \<Rightarrow> if pre = [] then [] else [''-c'', pre @ ''='' @ toml v])"
  by pat_completeness auto
termination
  by (relation "measure (\<lambda>(toml, pre, v). size v)") (auto simp: size_snd_mem)

declare flattenCodexConfig.simps [simp del]

text \<open>\<open>config_of\<close>: the map \<open>json.Unmarshal\<close> makes of CODEX_CONFIG; \<open>None\<close> when it is an error.\<close>

definition codexConfigOverrideArgs ::
  "(any \<Rightarrow> string) \<Rightarrow> (bytes \<Rightarrow> meta option) \<Rightarrow> string gomap \<Rightarrow> string list" where
  "codexConfigOverrideArgs toml config_of env =
     (let json = or_blank (mget env ''CODEX_CONFIG'') in
      if trim_space json = [] then []
      else case config_of json of
             None \<Rightarrow> []
           | Some cfg \<Rightarrow> flattenCodexConfig toml [] (Obj cfg))"

definition env_map :: "env_variable list \<Rightarrow> string gomap" where
  "env_map items = fold (\<lambda>i m. mput (ev_Name i) (ev_Value i) m) items []"

definition str_map :: "string gomap \<Rightarrow> any" where
  "str_map m = Obj (map (\<lambda>(k, v). (k, Str v)) m)"

definition codex_server_args ::
  "(nat \<Rightarrow> bool) \<Rightarrow> (any \<Rightarrow> bytes) \<Rightarrow> mcp_server \<Rightarrow> string list" where
  "codex_server_args pr marshal s =
     (let base = ''mcp_servers.'' @ ms_Name s;
          args = or_empty (ms_Args s); env = or_empty (ms_Env s) in
      if ms_Name s = [] then []
      else if ms_Command s \<noteq> [] then
        [''-c'', base @ ''.command='' @ AppendQuote pr (ms_Command s)] @
        (if args \<noteq> [] then [''-c'', base @ ''.args='' @ marshal (Strs args)] else []) @
        (if env \<noteq> [] then [''-c'', base @ ''.env='' @ marshal (str_map (env_map env))] else [])
      else if ms_URL s \<noteq> [] then
        [''-c'', base @ ''.url='' @ AppendQuote pr (ms_URL s)] @
        concat (map (\<lambda>h. [''-c'', base @ ''.http_headers.'' @ hh_Name h @ ''='' @ AppendQuote pr (hh_Value h)])
                    (or_empty (ms_Headers s)))
      else [])"

definition codexMCPOverrideArgs ::
  "(nat \<Rightarrow> bool) \<Rightarrow> (any \<Rightarrow> bytes) \<Rightarrow> mcp_server list \<Rightarrow> string list" where
  "codexMCPOverrideArgs pr marshal servers = concat (map (codex_server_args pr marshal) servers)"

definition codexSpawnExtras ::
  "(nat \<Rightarrow> bool) \<Rightarrow> (any \<Rightarrow> bytes) \<Rightarrow> (any \<Rightarrow> string) \<Rightarrow> (bytes \<Rightarrow> meta option) \<Rightarrow>
   agent \<Rightarrow> mcp_server list \<Rightarrow> string list" where
  "codexSpawnExtras pr marshal toml config_of a servers =
     codexConfigOverrideArgs toml config_of (ag_env a) @ codexMCPOverrideArgs pr marshal servers"

text \<open>
  \<open>daemonKey\<close>: what is hashed, and the key. A nil argument list is marshalled as null, which is
  what \<open>marshal (Strs [])\<close> stands for (the list is never empty and not nil).
\<close>

definition daemon_fingerprint ::
  "(nat \<Rightarrow> bool) \<Rightarrow> (any \<Rightarrow> bytes) \<Rightarrow> agent \<Rightarrow> meta \<Rightarrow> mcp_server list \<Rightarrow> bytes" where
  "daemon_fingerprint pr marshal a m servers =
     agent_var a ''CODEX_CONFIG'' @ marshal (Strs (codexMCPOverrideArgs pr marshal servers)) @
     (case lookup_as as_string m ''model'' of None \<Rightarrow> [] | Some x \<Rightarrow> ''|model='' @ x)"

definition daemonKey ::
  "(bytes \<Rightarrow> string) \<Rightarrow> (nat \<Rightarrow> bool) \<Rightarrow> (any \<Rightarrow> bytes) \<Rightarrow> agent \<Rightarrow> meta \<Rightarrow> mcp_server list \<Rightarrow> string" where
  "daemonKey sha pr marshal a m servers = take 16 (sha (daemon_fingerprint pr marshal a m servers))"

section \<open>Prompt blocks\<close>

record resource_text =
  rt_Text :: string
  rt_URI :: string
  rt_Name :: string

text \<open>The text a resource degrades to; \<open>None\<close>: the block is dropped.\<close>

definition resource_block_text :: "(bytes \<Rightarrow> resource_text option) \<Rightarrow> content_block \<Rightarrow> string option" where
  "resource_block_text decode b = (case decode (cb_Resource b) of
     None \<Rightarrow> None
   | Some r \<Rightarrow> if rt_Text r \<noteq> [] then Some (rt_Text r)
              else if rt_URI r \<noteq> [] then Some (trim_space (rt_Name r @ '': '' @ rt_URI r))
              else None)"

definition text_item :: "string \<Rightarrow> any" where
  "text_item t = Obj [(''type'', Str ''text''), (''text'', Str t)]"

definition image_mime :: "content_block \<Rightarrow> string" where
  "image_mime b = (if cb_MimeType b = [] then ''image/png'' else cb_MimeType b)"

definition codex_item :: "(bytes \<Rightarrow> resource_text option) \<Rightarrow> content_block \<Rightarrow> any option" where
  "codex_item decode b =
     (if cb_Type b = ''text'' then (if cb_Text b \<noteq> [] then Some (text_item (cb_Text b)) else None)
      else if cb_Type b = ''image'' then
        (if cb_Data b \<noteq> [] then
           Some (Obj [(''type'', Str ''input_image''),
             (''image_url'', Str (''data:'' @ image_mime b @ '';base64,'' @ cb_Data b))])
         else if cb_URI b \<noteq> [] then
           Some (Obj [(''type'', Str ''input_image''), (''image_url'', Str (cb_URI b))])
         else None)
      else if cb_Type b = ''resource_link'' then
        Some (text_item (trim_space (cb_Name b @ '': '' @ cb_URI b)))
      else if cb_Type b = ''resource'' then map_option text_item (resource_block_text decode b)
      else None)"

definition codexInputFromBlocks :: "(bytes \<Rightarrow> resource_text option) \<Rightarrow> content_block list \<Rightarrow> any list" where
  "codexInputFromBlocks decode bs = List.map_filter (codex_item decode) bs"

definition claude_item :: "(bytes \<Rightarrow> resource_text option) \<Rightarrow> content_block \<Rightarrow> any option" where
  "claude_item decode b =
     (if cb_Type b = ''text'' then (if cb_Text b \<noteq> [] then Some (text_item (cb_Text b)) else None)
      else if cb_Type b = ''image'' then
        (if cb_Data b \<noteq> [] then
           Some (Obj [(''type'', Str ''image''), (''source'', Obj [(''type'', Str ''base64''),
             (''media_type'', Str (image_mime b)), (''data'', Str (cb_Data b))])])
         else if cb_URI b \<noteq> [] then
           Some (Obj [(''type'', Str ''image''), (''source'', Obj [(''type'', Str ''url''),
             (''url'', Str (cb_URI b))])])
         else None)
      else if cb_Type b = ''resource_link'' then
        Some (text_item (trim_space (cb_Name b @ '': '' @ cb_URI b)))
      else if cb_Type b = ''resource'' then map_option text_item (resource_block_text decode b)
      else None)"

definition claudeContentFromBlocks :: "(bytes \<Rightarrow> resource_text option) \<Rightarrow> content_block list \<Rightarrow> any list" where
  "claudeContentFromBlocks decode bs = List.map_filter (claude_item decode) bs"

definition promptBlocksText :: "content_block list \<Rightarrow> string" where
  "promptBlocksText bs = concat (map cb_Text (filter (\<lambda>b. cb_Type b = ''text'') bs))"

section \<open>Errors, tools and usage\<close>

definition codexTransientError :: "string \<Rightarrow> bool" where
  "codexTransientError msg =
     list_ex (str_contains (to_lower msg)) [''reconnecting'', ''retrying'', ''retry '', ''stream disconnected'']"

definition claudeToolKind :: "string \<Rightarrow> string" where
  "claudeToolKind name =
     (if name = ''Bash'' \<or> name = ''Task'' then ''execute_command''
      else if name = ''Read'' then ''read_file''
      else if name = ''Write'' \<or> name = ''Edit'' \<or> name = ''NotebookEdit'' then ''write_file''
      else if name = ''WebFetch'' then ''network_request''
      else if name = ''WebSearch'' \<or> name = ''Grep'' \<or> name = ''Glob'' then ''search''
      else ''other'')"

record claude_usage =
  cu_InputTokens :: nat
  cu_CacheCreationInputTokens :: nat
  cu_CacheReadInputTokens :: nat
  cu_OutputTokens :: nat

text \<open>The sum is of type \<open>uint64\<close> and wraps.\<close>

definition claudeUsageFromRaw :: "(bytes \<Rightarrow> claude_usage option) \<Rightarrow> bytes \<Rightarrow> usage option" where
  "claudeUsageFromRaw decode raw =
     (if raw = [] then None
      else case decode raw of
        None \<Rightarrow> None
      | Some u \<Rightarrow> Some
          \<lparr>us_TotalTokens = (cu_InputTokens u + cu_CacheReadInputTokens u + cu_CacheCreationInputTokens u
              + cu_OutputTokens u) mod 2 ^ 64,
           us_InputTokens = cu_InputTokens u, us_OutputTokens = cu_OutputTokens u,
           us_ThoughtTokens = None, us_CachedReadTokens = Some (cu_CacheReadInputTokens u),
           us_CachedWriteTokens = Some (cu_CacheCreationInputTokens u)\<rparr>)"

section \<open>Versions\<close>

text \<open>
  \<open>strconv.Atoi\<close> on a field: an optional sign and decimal digits, in the range of \<open>int\<close>.
\<close>

definition ascii_digit :: "char \<Rightarrow> bool" where
  "ascii_digit c \<longleftrightarrow> 48 \<le> byte c \<and> byte c \<le> 57"

definition digits_value :: "string \<Rightarrow> int" where
  "digits_value s = fold (\<lambda>c n. 10 * n + (int (byte c) - 48)) s 0"

definition Atoi :: "string \<Rightarrow> int option" where
  "Atoi s =
     (let neg = (s \<noteq> [] \<and> hd s = CHR ''-'');
          body = (if s \<noteq> [] \<and> (hd s = CHR ''-'' \<or> hd s = CHR ''+'') then tl s else s);
          n = digits_value body
      in if body = [] \<or> \<not> list_all ascii_digit body then None
         else if neg then (if n \<le> 2 ^ 63 then Some (- n) else None)
         else if n \<le> max_int64 then Some n else None)"

text \<open>The numbers of a version, up to the first field that is not one.\<close>

fun numeric_prefix :: "string list \<Rightarrow> int list" where
  "numeric_prefix [] = []"
| "numeric_prefix (f # fs) = (case Atoi f of None \<Rightarrow> [] | Some n \<Rightarrow> n # numeric_prefix fs)"

definition version_parts :: "string \<Rightarrow> int list" where
  "version_parts v = numeric_prefix (split_char v (CHR ''.''))"

text \<open>The loop over \<open>i\<close>: missing numbers are 0.\<close>

fun compare_parts :: "int list \<Rightarrow> int list \<Rightarrow> int" where
  "compare_parts [] [] = 0"
| "compare_parts as bs =
     (let av = (case as of [] \<Rightarrow> 0 | a # _ \<Rightarrow> a); bv = (case bs of [] \<Rightarrow> 0 | b # _ \<Rightarrow> b) in
      if av \<noteq> bv then (if av < bv then -1 else 1)
      else compare_parts (drop 1 as) (drop 1 bs))"

definition compareVersions :: "string \<Rightarrow> string \<Rightarrow> int" where
  "compareVersions a b = compare_parts (version_parts a) (version_parts b)"

definition NativeEngineVerifiedVersions :: "string gomap" where
  "NativeEngineVerifiedVersions = [(''codex'', ''0.153.4''), (''claude'', ''2.1.215'')]"

end
