(* ===== verification/Native_Codex.thy ===== *)
theory Native_Codex
  imports Native_Config
begin

text \<open>
  The codex engine (\<open>native_codex.go\<close>, and its part of \<open>native_session_state.go\<close>): app-server
  processes shared by sessions of one configuration, threads, turns, notifications, approvals.

  \<^item> A daemon and a turn are cells of \<open>x_daemons\<close> and \<open>x_turns\<close>; an address is an index.
  \<^item> A call of the engine is a thread (\<open>codex_call\<close>) that stands before its next critical section,
    or waits for a reply of the process. \<open>codex_thread_step\<close> is one such step; what the
    environment contributes is the choice. \<open>codex_exec\<close> interleaves the threads with the
    notifications of the daemons (each handled by the read loop of its peer, one after another).
  \<^item> \<open>ensureDaemon\<close> is one step: it holds the engine's mutex throughout, and the daemon it starts is
    in no table before it ends.
  \<^item> Closing a closed channel sets \<open>x_panic\<close>. Two fields are history: \<open>cs_key\<close>, the key the session's
    own request was hashed to, and \<open>cd_ready\<close>: the handshake with the process succeeded.
\<close>

section \<open>State\<close>

record codex_env =
  ce_agent :: agent
  ce_CWD :: string
  ce_sha :: "bytes \<Rightarrow> string"
  ce_pr :: "nat \<Rightarrow> bool"
  ce_marshal :: "any \<Rightarrow> bytes"
  ce_fmt :: "rat \<Rightarrow> string"
  ce_config :: "bytes \<Rightarrow> meta option"
  ce_model :: "bytes \<Rightarrow> string"
  ce_resource :: "bytes \<Rightarrow> resource_text option"

definition codex_key :: "codex_env \<Rightarrow> meta \<Rightarrow> mcp_server list \<Rightarrow> string" where
  "codex_key E = daemonKey (ce_sha E) (ce_pr E) (ce_marshal E) (ce_agent E)"

definition codex_extras :: "codex_env \<Rightarrow> mcp_server list \<Rightarrow> string list" where
  "codex_extras E = codexSpawnExtras (ce_pr E) (ce_marshal E)
     (tomlValueOf (ce_pr E) (ce_fmt E) (ce_marshal E)) (ce_config E) (ce_agent E)"

record codex_turn =
  ct_done :: bool
  ct_stop :: string
  ct_usage :: "usage option"
  ct_err :: "string option"
  ct_deltas :: "string list"
  ct_finished :: bool

definition new_codex_turn :: codex_turn where
  "new_codex_turn = \<lparr>ct_done = False, ct_stop = ''end_turn'', ct_usage = None, ct_err = None,
     ct_deltas = [], ct_finished = False\<rparr>"

record codex_daemon =
  cd_key :: string
  cd_args :: "string list"
  cd_cmd :: bool
  cd_turns :: "nat gomap"
  cd_peerDone :: bool
  cd_stopped :: bool
  cd_ready :: bool

record codex_session =
  cs_daemon :: nat
  cs_threadID :: string
  cs_model :: string
  cs_key :: string

datatype codex_result =
    Cx_Opened string
  | Cx_Turn string "usage option"
  | Cx_Refused go_error
  | Cx_Done
  | Cx_Closed

datatype codex_call =
    Cx_New meta "mcp_server list"
  | Cx_New_Thread nat string string
  | Cx_Load string meta "mcp_server list"
  | Cx_Load_Daemon string meta "mcp_server list"
  | Cx_Load_Thread nat string string
  | Cx_Prompt string "content_block list"
  | Cx_Prompt_Lock nat string "content_block list"
  | Cx_Prompt_Call nat string nat
  | Cx_Prompt_Watch nat string nat
  | Cx_Prompt_Select nat nat "nat option"
  | Cx_Prompt_Read nat
  | Cx_Cancel string
  | Cx_Interrupt nat string
  | Cx_Close "string list"
  | Cx_Close_Next "(string \<times> nat) list" "go_error option list"
  | Cx_Close_Kill string nat "(string \<times> nat) list" "go_error option list"
  | Cx_Ended codex_result

record codex_world =
  x_closed :: bool
  x_table :: "nat gomap"
  x_sessions :: "codex_session gomap"
  x_daemons :: "codex_daemon list"
  x_turns :: "codex_turn list"
  x_calls :: "codex_call list"
  x_sent :: "(nat \<times> string \<times> any) list"
  x_emitted :: "(string \<times> session_update) list"
  x_panic :: bool

text \<open>The state after \<open>Start\<close>.\<close>

definition codex_init :: codex_world where
  "codex_init = \<lparr>x_closed = False, x_table = [], x_sessions = [], x_daemons = [], x_turns = [],
     x_calls = [], x_sent = [], x_emitted = [], x_panic = False\<rparr>"

definition set_daemon :: "nat \<Rightarrow> codex_daemon \<Rightarrow> codex_world \<Rightarrow> codex_world" where
  "set_daemon d v w = w\<lparr>x_daemons := (x_daemons w)[d := v]\<rparr>"

definition set_codex_turn :: "nat \<Rightarrow> codex_turn \<Rightarrow> codex_world \<Rightarrow> codex_world" where
  "set_codex_turn t v w = w\<lparr>x_turns := (x_turns w)[t := v]\<rparr>"

definition codex_send :: "nat \<Rightarrow> string \<Rightarrow> any \<Rightarrow> codex_world \<Rightarrow> codex_world" where
  "codex_send d method params w = w\<lparr>x_sent := x_sent w @ [(d, method, params)]\<rparr>"

definition codex_emit :: "string \<Rightarrow> session_update \<Rightarrow> codex_world \<Rightarrow> codex_world" where
  "codex_emit th u w = w\<lparr>x_emitted := x_emitted w @ [(th, u)]\<rparr>"

text \<open>\<open>d.turns[threadID]\<close>.\<close>

definition turn_at :: "nat \<Rightarrow> string \<Rightarrow> codex_world \<Rightarrow> nat option" where
  "turn_at d th w = mget (cd_turns (x_daemons w ! d)) th"

section \<open>Daemons\<close>

datatype spawn_fault =
    No_Fault
  | Stdin_Fault go_error
  | Stdout_Fault go_error
  | Start_Fault go_error
  | Handshake_Fault go_error
  | Notify_Fault go_error

fun codex_spawn :: "spawn_fault \<Rightarrow> go_error option" where
  "codex_spawn No_Fault = None"
| "codex_spawn (Stdin_Fault e) = Some (wrapError ErrorProcess ''native.codex.spawn'' ''stdin pipe'' (Some e))"
| "codex_spawn (Stdout_Fault e) = Some (wrapError ErrorProcess ''native.codex.spawn'' ''stdout pipe'' (Some e))"
| "codex_spawn (Start_Fault e) = Some (wrapError ErrorProcess ''native.codex.spawn''
     ''failed to spawn codex app-server'' (Some e))"
| "codex_spawn (Handshake_Fault e) = Some (wrapError ErrorProcess ''native.codex.initialize''
     ''app-server handshake failed'' (Some e))"
| "codex_spawn (Notify_Fault e) = Some (wrapError ErrorProcess ''native.codex.initialize''
     ''initialized notify failed'' (Some e))"

definition process_started :: "spawn_fault \<Rightarrow> bool" where
  "process_started f = (case f of No_Fault \<Rightarrow> True | Handshake_Fault _ \<Rightarrow> True | Notify_Fault _ \<Rightarrow> True
     | _ \<Rightarrow> False)"

definition new_daemon :: "codex_env \<Rightarrow> string \<Rightarrow> mcp_server list \<Rightarrow> codex_daemon" where
  "new_daemon E key servers = \<lparr>cd_key = key, cd_args = ag_args (ce_agent E) @ codex_extras E servers,
     cd_cmd = True, cd_turns = [], cd_peerDone = False, cd_stopped = False, cd_ready = True\<rparr>"

text \<open>A daemon whose start failed is killed (\<open>stop\<close> is what came of that) and dropped.\<close>

definition ensureDaemon ::
  "codex_env \<Rightarrow> string \<Rightarrow> mcp_server list \<Rightarrow> spawn_fault \<Rightarrow> go_error option \<Rightarrow> codex_world \<Rightarrow>
   (go_error + nat) \<times> codex_world" where
  "ensureDaemon E key servers fault stop w =
     (if x_closed w then
        (Inl (wrapError ErrorSessionClosed ''native.codex.spawn'' ''native connection is closed'' None), w)
      else case mget (x_table w) key of
        Some d \<Rightarrow> (Inr d, w)
      | None \<Rightarrow>
          (case codex_spawn fault of
             Some e \<Rightarrow> (Inl e, w\<lparr>x_daemons := x_daemons w @
               [(new_daemon E key servers)\<lparr>cd_cmd := process_started fault, cd_peerDone := True,
                  cd_stopped := (stop = None), cd_ready := False\<rparr>]\<rparr>)
           | None \<Rightarrow> (Inr (length (x_daemons w)),
               w\<lparr>x_daemons := x_daemons w @ [new_daemon E key servers],
                 x_table := mput key (length (x_daemons w)) (x_table w)\<rparr>)))"

text \<open>\<open>alive\<close>: \<open>cmd.Process\<close> stays set after the process has ended.\<close>

definition codex_alive :: "nat \<Rightarrow> codex_world \<Rightarrow> bool" where
  "codex_alive d w = cd_cmd (x_daemons w ! d)"

section \<open>Notifications\<close>

datatype codex_event =
    Agent_Delta string string string
  | Reasoning_Delta string string
  | Item_Started string string string string
  | Item_Completed string string string string
  | Raw_Completed string nat nat nat nat nat nat
  | Turn_Completed string string "string option"
  | Error_Event string string "string option"

text \<open>
  The events after \<open>json.Unmarshal\<close>; one that does not decode is ignored. Arguments in the order
  of the code's struct: thread, item or type, text; for \<open>Raw_Completed\<close> the tokens in total, input,
  cached input, cache write, output, reasoning.
\<close>

definition settleTurn :: "nat \<Rightarrow> string \<Rightarrow> string \<Rightarrow> string option \<Rightarrow> codex_world \<Rightarrow> codex_world" where
  "settleTurn d th stop err w = (case turn_at d th w of
     None \<Rightarrow> w
   | Some t \<Rightarrow>
      (let v = x_turns w ! t in
       if ct_finished v then w
       else (let v' = (case err of Some m \<Rightarrow> v\<lparr>ct_finished := True, ct_err := Some m\<rparr>
                       | None \<Rightarrow> v\<lparr>ct_finished := True, ct_stop := stop\<rparr>)
             in (set_codex_turn t (v'\<lparr>ct_done := True\<rparr>) w)\<lparr>x_panic := x_panic w \<or> ct_done v\<rparr>)))"

definition chunk :: "string \<Rightarrow> string \<Rightarrow> string \<Rightarrow> session_update" where
  "chunk kind mid t = empty_update\<lparr>su_SessionUpdate := kind, su_MessageID := mid, su_Text := t\<rparr>"

definition on_agent_delta :: "nat \<Rightarrow> string \<Rightarrow> string \<Rightarrow> string \<Rightarrow> codex_world \<Rightarrow> codex_world" where
  "on_agent_delta d th item delta w =
     (if delta = [] then w
      else case turn_at d th w of
        None \<Rightarrow> w
      | Some t \<Rightarrow> codex_emit th (chunk ''agent_message_chunk'' item delta)
          (set_codex_turn t ((x_turns w ! t)\<lparr>ct_deltas := List.insert item (ct_deltas (x_turns w ! t))\<rparr>) w))"

definition on_item_started :: "string \<Rightarrow> string \<Rightarrow> string \<Rightarrow> string \<Rightarrow> codex_world \<Rightarrow> codex_world" where
  "on_item_started th ty item command w =
     (if ty \<noteq> ''commandExecution'' then w
      else codex_emit th (empty_update\<lparr>su_SessionUpdate := ''tool_call'', su_ToolCallID := item,
        su_Title := Some (if length command > 200 then take 200 command else command),
        su_Kind := Some ''execute_command'', su_Status := Some ''pending''\<rparr>) w)"

definition delta_seen :: "nat \<Rightarrow> string \<Rightarrow> string \<Rightarrow> codex_world \<Rightarrow> bool" where
  "delta_seen d th item w = (case turn_at d th w of
     None \<Rightarrow> False
   | Some t \<Rightarrow> item \<in> set (ct_deltas (x_turns w ! t)))"

definition on_item_completed ::
  "nat \<Rightarrow> string \<Rightarrow> string \<Rightarrow> string \<Rightarrow> string \<Rightarrow> codex_world \<Rightarrow> codex_world" where
  "on_item_completed d th ty item body w =
     (if ty = ''commandExecution'' then
        codex_emit th (empty_update\<lparr>su_SessionUpdate := ''tool_call_update'', su_ToolCallID := item,
          su_Status := Some ''completed''\<rparr>) w
      else if ty = ''agentMessage'' then
        (if \<not> delta_seen d th item w \<and> trim_space body \<noteq> []
         then codex_emit th (chunk ''agent_message_chunk'' item body) w else w)
      else w)"

definition on_raw_completed ::
  "nat \<Rightarrow> string \<Rightarrow> nat \<Rightarrow> nat \<Rightarrow> nat \<Rightarrow> nat \<Rightarrow> nat \<Rightarrow> nat \<Rightarrow> codex_world \<Rightarrow> codex_world" where
  "on_raw_completed d th tot inp cached cache_write outp thought w = (case turn_at d th w of
     None \<Rightarrow> w
   | Some t \<Rightarrow> set_codex_turn t ((x_turns w ! t)\<lparr>ct_usage := Some
       \<lparr>us_TotalTokens = tot, us_InputTokens = inp, us_OutputTokens = outp,
        us_ThoughtTokens = Some thought, us_CachedReadTokens = Some cached,
        us_CachedWriteTokens = Some cache_write\<rparr>\<rparr>) w)"

definition on_turn_completed :: "nat \<Rightarrow> string \<Rightarrow> string \<Rightarrow> string option \<Rightarrow> codex_world \<Rightarrow> codex_world" where
  "on_turn_completed d th status message w =
     (let w = settleTurn d th ''end_turn'' None w in
      if status = ''failed''
      then settleTurn d th ''end_turn''
             (Some (if or_blank message \<noteq> [] then or_blank message else ''codex turn failed'')) w
      else w)"

definition on_error :: "nat \<Rightarrow> string \<Rightarrow> string \<Rightarrow> string option \<Rightarrow> codex_world \<Rightarrow> codex_world" where
  "on_error d th message err w =
     (let msg = (if message = [] then or_blank err else message) in
      if msg = [] \<or> codexTransientError msg then w
      else case turn_at d th w of
        None \<Rightarrow> w
      | Some t \<Rightarrow>
         (let v = x_turns w ! t in
          if ct_finished v then w
          else (set_codex_turn t (v\<lparr>ct_finished := True, ct_err := Some msg, ct_done := True\<rparr>) w)
                 \<lparr>x_panic := x_panic w \<or> ct_done v\<rparr>))"

fun codex_notify :: "nat \<Rightarrow> codex_event \<Rightarrow> codex_world \<Rightarrow> codex_world" where
  "codex_notify d (Agent_Delta th item delta) w = on_agent_delta d th item delta w"
| "codex_notify d (Reasoning_Delta th delta) w =
     (if delta = [] then w else codex_emit th (chunk ''agent_thought_chunk'' [] delta) w)"
| "codex_notify d (Item_Started th ty item command) w = on_item_started th ty item command w"
| "codex_notify d (Item_Completed th ty item body) w = on_item_completed d th ty item body w"
| "codex_notify d (Raw_Completed th tot inp cached cache_write outp thought) w =
     on_raw_completed d th tot inp cached cache_write outp thought w"
| "codex_notify d (Turn_Completed th status message) w = on_turn_completed d th status message w"
| "codex_notify d (Error_Event th message err) w = on_error d th message err w"

section \<open>Calls of the engine\<close>

datatype codex_choice =
    Cx_Go
  | Cx_Spawned spawn_fault "go_error option"
  | Cx_Reply "go_error + string \<times> string"
  | Cx_Gone
  | Cx_Expired go_error
  | Cx_Killed "go_error option"

text \<open>\<open>NewSession\<close>, up to the request \<open>thread/start\<close>, and from its reply (thread id and model).\<close>

definition thread_params :: "codex_env \<Rightarrow> string \<Rightarrow> (string \<times> any) list" where
  "thread_params E model =
     [(''cwd'', Str (ce_CWD E)), (''model'', Str model), (''experimentalRawEvents'', Bool_Value True)]"

definition codex_new ::
  "codex_env \<Rightarrow> meta \<Rightarrow> mcp_server list \<Rightarrow> spawn_fault \<Rightarrow> go_error option \<Rightarrow> codex_world \<Rightarrow>
   codex_call \<times> codex_world" where
  "codex_new E m servers fault stop w =
     (let key = codex_key E m servers in
      case ensureDaemon E key servers fault stop w of
        (Inl e, w) \<Rightarrow> (Cx_Ended (Cx_Refused e), w)
      | (Inr d, w) \<Rightarrow>
          (let model = nativeCodexModel (ce_model E) (ce_agent E) m in
           (Cx_New_Thread d model key, codex_send d ''thread/start'' (Obj (thread_params E model)) w)))"

definition put_session :: "string \<Rightarrow> nat \<Rightarrow> string \<Rightarrow> string \<Rightarrow> codex_world \<Rightarrow> codex_world" where
  "put_session th d model key w = w\<lparr>x_sessions := mput th
     \<lparr>cs_daemon = d, cs_threadID = th, cs_model = model, cs_key = key\<rparr> (x_sessions w)\<rparr>"

definition codex_new_reply ::
  "nat \<Rightarrow> string \<Rightarrow> string \<Rightarrow> go_error + string \<times> string \<Rightarrow> codex_world \<Rightarrow>
   codex_call \<times> codex_world" where
  "codex_new_reply d model key reply w = (case reply of
     Inl e \<Rightarrow> (Cx_Ended (Cx_Refused (wrapError ErrorProcess ''native.codex.thread'' ''thread/start failed'' (Some e))), w)
   | Inr (th, used) \<Rightarrow>
       if th = [] then
         (Cx_Ended (Cx_Refused (runtime_error ErrorProcess ''native.codex.thread'' ''thread/start returned no thread id'')), w)
       else if model \<noteq> [] \<and> used = [] then
         (Cx_Ended (Cx_Refused (wrapError ErrorProtocol ''native.codex.thread''
            ''thread/start did not report the selected model'' None)), w)
       else (Cx_Ended (Cx_Opened th), put_session th d used key w))"

text \<open>\<open>LoadSession\<close>: a session of this connection is kept; else the daemon of the bare key.\<close>

definition codex_load :: "string \<Rightarrow> meta \<Rightarrow> mcp_server list \<Rightarrow> codex_world \<Rightarrow> codex_call \<times> codex_world" where
  "codex_load sid m servers w = (case mget (x_sessions w) sid of
     Some s \<Rightarrow> if codex_alive (cs_daemon s) w then (Cx_Ended (Cx_Opened sid), w)
              else (Cx_Load_Daemon sid m servers, w)
   | None \<Rightarrow> (Cx_Load_Daemon sid m servers, w))"

definition codex_load_daemon ::
  "codex_env \<Rightarrow> string \<Rightarrow> meta \<Rightarrow> mcp_server list \<Rightarrow> spawn_fault \<Rightarrow> go_error option \<Rightarrow> codex_world \<Rightarrow>
   codex_call \<times> codex_world" where
  "codex_load_daemon E sid m servers fault stop w =
     (let key = codex_key E [] servers in
      case ensureDaemon E key servers fault stop w of
        (Inl e, w) \<Rightarrow> (Cx_Ended (Cx_Refused e), w)
      | (Inr d, w) \<Rightarrow>
          (Cx_Load_Thread d sid key,
           codex_send d ''thread/resume'' (Obj ((''threadId'', Str sid) #
             thread_params E (nativeCodexModel (ce_model E) (ce_agent E) m))) w))"

definition codex_load_reply ::
  "nat \<Rightarrow> string \<Rightarrow> string \<Rightarrow> go_error + string \<times> string \<Rightarrow> codex_world \<Rightarrow>
   codex_call \<times> codex_world" where
  "codex_load_reply d sid key reply w = (case reply of
     Inl e \<Rightarrow> (Cx_Ended (Cx_Refused (wrapError ErrorProcess ''native.codex.resume'' ''thread/resume failed'' (Some e))), w)
   | Inr (th, used) \<Rightarrow> (Cx_Ended (Cx_Opened sid), put_session sid d used key w))"

text \<open>\<open>Prompt\<close>: the lookup, the critical section that installs the turn, the reply to \<open>turn/start\<close>.\<close>

definition codex_prompt :: "string \<Rightarrow> content_block list \<Rightarrow> codex_world \<Rightarrow> codex_call \<times> codex_world" where
  "codex_prompt sid blocks w = (case mget (x_sessions w) sid of
     None \<Rightarrow> (Cx_Ended (Cx_Refused (runtime_error ErrorProcess ''native.codex.turn''
               (''no session '' @ sid @ '' on this connection''))), w)
   | Some s \<Rightarrow> (Cx_Prompt_Lock (cs_daemon s) (cs_threadID s) blocks, w))"

definition codex_busy :: "nat \<Rightarrow> string \<Rightarrow> codex_world \<Rightarrow> bool" where
  "codex_busy d th w = (case turn_at d th w of None \<Rightarrow> False | Some t \<Rightarrow> \<not> ct_finished (x_turns w ! t))"

definition turn_error :: "string \<Rightarrow> codex_result" where
  "turn_error msg = Cx_Refused (runtime_error ErrorProcess ''native.codex.turn'' msg)"

definition install_turn :: "nat \<Rightarrow> string \<Rightarrow> codex_world \<Rightarrow> codex_world" where
  "install_turn d th w =
     (set_daemon d ((x_daemons w ! d)\<lparr>cd_turns := mput th (length (x_turns w)) (cd_turns (x_daemons w ! d))\<rparr>) w)
       \<lparr>x_turns := x_turns w @ [new_codex_turn]\<rparr>"

definition codex_prompt_lock ::
  "codex_env \<Rightarrow> nat \<Rightarrow> string \<Rightarrow> content_block list \<Rightarrow> codex_world \<Rightarrow> codex_call \<times> codex_world" where
  "codex_prompt_lock E d th blocks w =
     (if codex_busy d th w then (Cx_Ended (turn_error ''a turn is already in flight''), w)
      else (Cx_Prompt_Call d th (length (x_turns w)),
            codex_send d ''turn/start'' (Obj [(''threadId'', Str th),
              (''input'', Seq (codexInputFromBlocks (ce_resource E) blocks))]) (install_turn d th w)))"

definition codex_prompt_reply ::
  "nat \<Rightarrow> string \<Rightarrow> nat \<Rightarrow> go_error + string \<times> string \<Rightarrow> codex_world \<Rightarrow> codex_call \<times> codex_world" where
  "codex_prompt_reply d th t reply w = (case reply of
     Inl e \<Rightarrow> (Cx_Ended (Cx_Refused (wrapError ErrorProcess ''native.codex.turn'' ''turn/start failed'' (Some e))),
              set_daemon d ((x_daemons w ! d)\<lparr>cd_turns := mdel th (cd_turns (x_daemons w ! d))\<rparr>) w)
   | Inr _ \<Rightarrow> (Cx_Prompt_Watch d th t, w))"

text \<open>
  \<open>turnDone\<close> looks the thread's turn up again, and waits on that one's channel: \<open>None\<close> is the
  closed channel. The select takes any case that is ready.
\<close>

definition channel_ready :: "nat option \<Rightarrow> codex_world \<Rightarrow> bool" where
  "channel_ready ch w = (case ch of None \<Rightarrow> True | Some t \<Rightarrow> ct_done (x_turns w ! t))"

definition codex_select :: "nat \<Rightarrow> nat \<Rightarrow> nat option \<Rightarrow> codex_choice \<Rightarrow> codex_world \<Rightarrow> codex_call option" where
  "codex_select d t ch choice w = (case choice of
     Cx_Go \<Rightarrow> if channel_ready ch w then Some (Cx_Prompt_Read t) else None
   | Cx_Gone \<Rightarrow>
       if \<not> cd_peerDone (x_daemons w ! d) then None
       else if ct_done (x_turns w ! t) then Some (Cx_Prompt_Read t)
       else Some (Cx_Ended (Cx_Refused (wrapError ErrorProcess ''native.codex.turn''
              ''Codex app-server closed before a terminal result'' (Some Closed_Pipe))))
   | Cx_Expired e \<Rightarrow> Some (Cx_Ended (Cx_Refused e))
   | _ \<Rightarrow> None)"

definition codex_prompt_read :: "nat \<Rightarrow> codex_world \<Rightarrow> codex_call" where
  "codex_prompt_read t w = (let v = x_turns w ! t in
     Cx_Ended (case ct_err v of Some m \<Rightarrow> turn_error m | None \<Rightarrow> Cx_Turn (ct_stop v) (ct_usage v)))"

text \<open>\<open>Cancel\<close>. The turn's id is never set.\<close>

definition codex_cancel :: "string \<Rightarrow> codex_world \<Rightarrow> codex_call \<times> codex_world" where
  "codex_cancel sid w = (case mget (x_sessions w) sid of
     None \<Rightarrow> (Cx_Ended Cx_Done, w)
   | Some s \<Rightarrow> (Cx_Interrupt (cs_daemon s) (cs_threadID s), w))"

definition codex_interrupt :: "nat \<Rightarrow> string \<Rightarrow> codex_world \<Rightarrow> codex_call \<times> codex_world" where
  "codex_interrupt d th w =
     (Cx_Ended Cx_Done,
      if codex_busy d th w
      then codex_send d ''turn/interrupt'' (Obj [(''threadId'', Str th), (''turnId'', Str [])]) w else w)"

text \<open>\<open>Close\<close>: \<open>order\<close> is the order in which the loop visits the copied table.\<close>

definition codex_close :: "string list \<Rightarrow> codex_world \<Rightarrow> codex_call \<times> codex_world" where
  "codex_close order w =
     (Cx_Close_Next (map (\<lambda>k. (k, the (mget (x_table w) k))) (range_order order (x_table w))) [],
      w\<lparr>x_closed := True\<rparr>)"

definition close_result :: "go_error option list \<Rightarrow> codex_result" where
  "close_result errs = (case errors_join errs of None \<Rightarrow> Cx_Closed | Some e \<Rightarrow> Cx_Refused e)"

definition codex_close_next ::
  "(string \<times> nat) list \<Rightarrow> go_error option list \<Rightarrow> codex_world \<Rightarrow> codex_call \<times> codex_world" where
  "codex_close_next rest errs w = (case rest of
     [] \<Rightarrow> (Cx_Ended (close_result errs), w)
   | (k, d) # rest \<Rightarrow>
       (Cx_Close_Kill k d rest errs, set_daemon d ((x_daemons w ! d)\<lparr>cd_peerDone := True\<rparr>) w))"

definition codex_close_killed ::
  "string \<Rightarrow> nat \<Rightarrow> (string \<times> nat) list \<Rightarrow> go_error option list \<Rightarrow> go_error option \<Rightarrow> codex_world \<Rightarrow>
   codex_call \<times> codex_world" where
  "codex_close_killed k d rest errs res w = (case res of
     Some e \<Rightarrow> (Cx_Close_Next rest (errs @ [Some e]), w)
   | None \<Rightarrow> (Cx_Close_Next rest errs,
       (set_daemon d ((x_daemons w ! d)\<lparr>cd_stopped := True\<rparr>) w)
         \<lparr>x_table := mdel k (x_table w),
          x_sessions := filter (\<lambda>p. cs_daemon (snd p) \<noteq> d) (x_sessions w)\<rparr>))"

section \<open>Steps\<close>

definition codex_thread_step ::
  "codex_env \<Rightarrow> codex_choice \<Rightarrow> codex_call \<Rightarrow> codex_world \<Rightarrow> (codex_call \<times> codex_world) option" where
  "codex_thread_step E ch c w = (case c of
     Cx_New m servers \<Rightarrow> (case ch of Cx_Spawned f k \<Rightarrow> Some (codex_new E m servers f k w) | _ \<Rightarrow> None)
   | Cx_New_Thread d model key \<Rightarrow>
       (case ch of Cx_Reply r \<Rightarrow> Some (codex_new_reply d model key r w) | _ \<Rightarrow> None)
   | Cx_Load sid m servers \<Rightarrow> (if ch = Cx_Go then Some (codex_load sid m servers w) else None)
   | Cx_Load_Daemon sid m servers \<Rightarrow>
       (case ch of Cx_Spawned f k \<Rightarrow> Some (codex_load_daemon E sid m servers f k w) | _ \<Rightarrow> None)
   | Cx_Load_Thread d sid key \<Rightarrow>
       (case ch of Cx_Reply r \<Rightarrow> Some (codex_load_reply d sid key r w) | _ \<Rightarrow> None)
   | Cx_Prompt sid blocks \<Rightarrow> (if ch = Cx_Go then Some (codex_prompt sid blocks w) else None)
   | Cx_Prompt_Lock d th blocks \<Rightarrow> (if ch = Cx_Go then Some (codex_prompt_lock E d th blocks w) else None)
   | Cx_Prompt_Call d th t \<Rightarrow> (case ch of Cx_Reply r \<Rightarrow> Some (codex_prompt_reply d th t r w) | _ \<Rightarrow> None)
   | Cx_Prompt_Watch d th t \<Rightarrow>
       (if ch = Cx_Go then Some (Cx_Prompt_Select d t (turn_at d th w), w) else None)
   | Cx_Prompt_Select d t chan \<Rightarrow> map_option (\<lambda>c. (c, w)) (codex_select d t chan ch w)
   | Cx_Prompt_Read t \<Rightarrow> (if ch = Cx_Go then Some (codex_prompt_read t w, w) else None)
   | Cx_Cancel sid \<Rightarrow> (if ch = Cx_Go then Some (codex_cancel sid w) else None)
   | Cx_Interrupt d th \<Rightarrow> (if ch = Cx_Go then Some (codex_interrupt d th w) else None)
   | Cx_Close order \<Rightarrow> (if ch = Cx_Go then Some (codex_close order w) else None)
   | Cx_Close_Next rest errs \<Rightarrow> (if ch = Cx_Go then Some (codex_close_next rest errs w) else None)
   | Cx_Close_Kill k d rest errs \<Rightarrow>
       (case ch of Cx_Killed r \<Rightarrow> Some (codex_close_killed k d rest errs r w) | _ \<Rightarrow> None)
   | Cx_Ended r \<Rightarrow> None)"

text \<open>
  A call enters; a thread takes a step; a daemon's read loop handles an event; a daemon's peer ends
  (the process died or its output closed).
\<close>

datatype codex_action =
    Cx_Enter codex_call
  | Cx_Step nat codex_choice
  | Cx_Event nat codex_event
  | Cx_Exit nat

fun is_entry :: "codex_call \<Rightarrow> bool" where
  "is_entry (Cx_New _ _) = True"
| "is_entry (Cx_Load _ _ _) = True"
| "is_entry (Cx_Prompt _ _) = True"
| "is_entry (Cx_Cancel _) = True"
| "is_entry (Cx_Close _) = True"
| "is_entry _ = False"

fun codex_exec :: "codex_env \<Rightarrow> codex_action \<Rightarrow> codex_world \<Rightarrow> codex_world option" where
  "codex_exec E (Cx_Enter c) w = (if is_entry c then Some (w\<lparr>x_calls := x_calls w @ [c]\<rparr>) else None)"
| "codex_exec E (Cx_Step i ch) w =
     (if i < length (x_calls w) then
        map_option (\<lambda>(c, w'). w'\<lparr>x_calls := (x_calls w')[i := c]\<rparr>) (codex_thread_step E ch (x_calls w ! i) w)
      else None)"
| "codex_exec E (Cx_Event d ev) w = (if d < length (x_daemons w) then Some (codex_notify d ev w) else None)"
| "codex_exec E (Cx_Exit d) w =
     (if d < length (x_daemons w)
      then Some (set_daemon d ((x_daemons w ! d)\<lparr>cd_peerDone := True\<rparr>) w) else None)"

section \<open>Approvals and session state\<close>

record approval_request =
  ar_ThreadID :: string
  ar_CallID :: string
  ar_Command :: "string list"
  ar_Reason :: string
  ar_Title :: string

definition approval_options :: "permission_option list" where
  "approval_options =
     [\<lparr>po_ID = ''approve'', po_Name = ''Approve'', po_Kind = ''allow_once''\<rparr>,
      \<lparr>po_ID = ''deny'', po_Name = ''Deny'', po_Kind = ''reject_once''\<rparr>]"

definition approval_title :: "approval_request \<Rightarrow> string" where
  "approval_title r =
     (let title = str_join (ar_Command r) '' '' in
      if title \<noteq> [] then title else if ar_Title r \<noteq> [] then ar_Title r else ar_Reason r)"

definition approval_permission :: "approval_request \<Rightarrow> permission_request" where
  "approval_permission r =
     \<lparr>pr_SessionID = ar_ThreadID r, pr_ToolCallID = ar_CallID r, pr_Title = approval_title r,
      pr_Kind = ''execute_command'', pr_Target = [], pr_Options = approval_options\<rparr>"

text \<open>\<open>requestPermission\<close> is the authority the bridge gives the engine, or nil.\<close>

definition handleApproval ::
  "(permission_request \<Rightarrow> go_error + permission_decision) option \<Rightarrow> approval_request \<Rightarrow> string" where
  "handleApproval requestPermission r = (case requestPermission of
     None \<Rightarrow> ''denied''
   | Some f \<Rightarrow> (case f (approval_permission r) of
       Inl _ \<Rightarrow> ''denied''
     | Inr dec \<Rightarrow> if pd_Outcome dec = ''selected'' \<and> pd_OptionID dec = ''approve''
                then ''approved'' else ''denied''))"

definition bare_response :: "string \<Rightarrow> new_session_response" where
  "bare_response sid = \<lparr>nr_SessionID = sid, nr_Modes = None, nr_Models = None, nr_ConfigOptions = None,
     nr_AvailableCommands = [], nr_Meta = []\<rparr>"

definition one_model :: "string \<Rightarrow> session_model_state" where
  "one_model model = \<lparr>sml_CurrentModelID = model, sml_AvailableModels =
     (if model \<noteq> [] then [\<lparr>mi_ID = model, mi_Name = model, mi_Description = []\<rparr>] else [])\<rparr>"

definition codex_session_state :: "string \<Rightarrow> codex_world \<Rightarrow> new_session_response" where
  "codex_session_state sid w = (case mget (x_sessions w) sid of
     None \<Rightarrow> bare_response sid
   | Some s \<Rightarrow> (bare_response sid)\<lparr>nr_ConfigOptions := Some [nativeModelOption (cs_model s)],
       nr_Models := Some (one_model (cs_model s))\<rparr>)"

definition codex_set_option :: "string \<Rightarrow> string \<Rightarrow> any \<Rightarrow> codex_world \<Rightarrow> go_error option" where
  "codex_set_option sid key v w =
     (if (case mget (x_sessions w) sid of None \<Rightarrow> False
          | Some s \<Rightarrow> key = ''model'' \<and> v = Str (cs_model s)) then None
      else Some (wrapError ErrorProtocol ''native.codex.config''
             (key @ '' is fixed at session start; create a new session to change it'') None))"

end
