(* ===== verification/Native_Claude.thy ===== *)
theory Native_Claude
  imports Native_Codex
begin

text \<open>
  The claude engine (\<open>native_claude.go\<close>, and its part of \<open>native_session_state.go\<close>): one headless
  CLI process per session, started by the first prompt.

  \<^item> A \<open>claudeProc\<close> is a cell of \<open>y_heap\<close>, a turn a cell of \<open>y_turns\<close>; \<open>y_procs\<close> maps session ids
    to cells.
  \<^item> A call of the engine is a thread (\<open>claude_call\<close>). \<open>ensureSpawned\<close> holds the engine's mutex while
    it writes files and starts the process: \<open>y_lock\<close> says so, and other threads that need the mutex
    wait. It is three steps, because a thread that already has its \<open>claudeProc\<close> can set a spawn
    option in between.
  \<^item> The read loop of a process handles one line after another (\<open>claude_line\<close>); a permission request
    blocks it until the host has answered (\<open>cp_asking\<close>).
  \<^item> \<open>cp_eof\<close>: the read loop has ended; \<open>cp_exited\<close>: the channel \<open>exitDone\<close> is closed, by the end of
    the loop or by \<open>kill\<close>.
  \<^item> \<open>cp_argv\<close>, \<open>cp_lines\<close> and \<open>cp_documents\<close> are history: the arguments of the started process, the
    documents written to it, and the files written for it.
\<close>

section \<open>State\<close>

record claude_env =
  le_agent :: agent
  le_authority :: bool
  le_pr :: "nat \<Rightarrow> bool"
  le_show :: "any \<Rightarrow> string"
  le_todos :: "bytes \<Rightarrow> plan_entry list option"
  le_usage :: "bytes \<Rightarrow> claude_usage option"
  le_input :: "bytes \<Rightarrow> meta option"
  le_resource :: "bytes \<Rightarrow> resource_text option"

record claude_turn =
  lt_done :: bool
  lt_stop :: string
  lt_usage :: "usage option"
  lt_err :: "string option"
  lt_finished :: bool

definition new_claude_turn :: claude_turn where
  "new_claude_turn = \<lparr>lt_done = False, lt_stop = ''end_turn'', lt_usage = None, lt_err = None, lt_finished = False\<rparr>"

record claude_proc =
  cp_id :: string
  cp_realID :: string
  cp_model :: string
  cp_mode :: string
  cp_resume :: string
  cp_fork :: bool
  cp_pending :: new_session_request
  cp_spawned :: bool
  cp_cmd :: bool
  cp_eof :: bool
  cp_exited :: bool
  cp_killed :: bool
  cp_turn :: "nat option"
  cp_plans :: "string list"
  cp_mcpFile :: string
  cp_settingsFile :: string
  cp_asking :: "(any \<times> bytes) option"
  cp_argv :: "string list"
  cp_lines :: "any list"
  cp_documents :: "(string \<times> any) list"

definition new_proc :: "string \<Rightarrow> string \<Rightarrow> bool \<Rightarrow> new_session_request \<Rightarrow> claude_proc" where
  "new_proc sid resume fork req = \<lparr>cp_id = sid, cp_realID = [], cp_model = [], cp_mode = [],
     cp_resume = resume, cp_fork = fork, cp_pending = req, cp_spawned = False, cp_cmd = False,
     cp_eof = False, cp_exited = False, cp_killed = False, cp_turn = None, cp_plans = [], cp_mcpFile = [],
     cp_settingsFile = [], cp_asking = None, cp_argv = [], cp_lines = [], cp_documents = []\<rparr>"

section \<open>Session ids\<close>

text \<open>\<open>newClaudeNativeSessionID\<close> on the sixteen random bytes; \<open>%x\<close> writes two digits for a byte.\<close>

definition stamp_version :: "nat list \<Rightarrow> nat list" where
  "stamp_version b = (let b = b[6 := 0x40 + b ! 6 mod 16] in b[8 := 0x80 + b ! 8 mod 64])"

definition hex_bytes :: "nat list \<Rightarrow> string" where
  "hex_bytes b = concat (map (hex_digits 2) b)"

definition newClaudeNativeSessionID :: "nat list \<Rightarrow> string" where
  "newClaudeNativeSessionID b = (let b = stamp_version b in
     hex_bytes (slice b 0 4) @ ''-'' @ hex_bytes (slice b 4 6) @ ''-'' @ hex_bytes (slice b 6 8) @ ''-'' @
     hex_bytes (slice b 8 10) @ ''-'' @ hex_bytes (slice b 10 16))"

section \<open>Arguments of the process\<close>

definition claude_base_args :: "string list" where
  "claude_base_args = [''-p'', ''--input-format'', ''stream-json'', ''--output-format'', ''stream-json'', ''--verbose'']"

definition or_meta :: "string \<Rightarrow> meta \<Rightarrow> string \<Rightarrow> string" where
  "or_meta s m k = (if s = [] then metaString m k else s)"

definition value_flag :: "string \<Rightarrow> string \<Rightarrow> string list" where
  "value_flag flag v = (if v \<noteq> [] then [flag, v] else [])"

definition permission_args :: "string \<Rightarrow> string list" where
  "permission_args mode = value_flag ''--permission-mode'' mode @
     (if mode = ''bypassPermissions'' then [''--allow-dangerously-skip-permissions''] else [])"

definition identity_args :: "claude_proc \<Rightarrow> string list" where
  "identity_args p =
     (if cp_resume p = [] \<or> cp_fork p then [''--session-id'', cp_id p] else []) @
     (if cp_resume p \<noteq> [] then [''--resume'', cp_resume p] @ (if cp_fork p then [''--fork-session''] else []) else [])"

text \<open>\<open>options["tools"]\<close> and \<open>options["settingSources"]\<close>: present and not nil.\<close>

definition present_list :: "string \<Rightarrow> meta \<Rightarrow> string \<Rightarrow> string list" where
  "present_list flag options k = (case mget options k of
     None \<Rightarrow> []
   | Some v \<Rightarrow> if v = Nil_Value then [] else [flag, str_join (stringSliceFromAny (Some v)) '','']) "

definition nonempty_list :: "string \<Rightarrow> meta \<Rightarrow> string \<Rightarrow> string list" where
  "nonempty_list flag options k =
     (let v = stringSliceFromAny (mget options k) in if v \<noteq> [] then [flag, str_join v '',''] else [])"

definition plugin_dir :: "any \<Rightarrow> string list" where
  "plugin_dir entry = (case as_map entry of
     None \<Rightarrow> []
   | Some plugin \<Rightarrow> if mget plugin ''type'' = Some (Str ''local'')
                   then value_flag ''--plugin-dir'' (metaString plugin ''path'') else [])"

definition plugin_args :: "meta \<Rightarrow> string list" where
  "plugin_args options = (case mget options ''plugins'' of
     Some (Seq entries) \<Rightarrow> concat (map plugin_dir entries)
   | _ \<Rightarrow> [])"

definition claude_options :: "meta \<Rightarrow> meta" where
  "claude_options m = (case lookup_as as_map m ''claudeCode'' of
     None \<Rightarrow> []
   | Some cc \<Rightarrow> (case lookup_as as_map cc ''options'' of None \<Rightarrow> [] | Some options \<Rightarrow> options))"

definition option_args :: "meta \<Rightarrow> string list" where
  "option_args options =
     present_list ''--tools'' options ''tools'' @
     present_list ''--setting-sources'' options ''settingSources'' @
     plugin_args options @
     nonempty_list ''--allowedTools'' options ''allowedTools'' @
     nonempty_list ''--disallowedTools'' options ''disallowedTools''"

definition claude_settings :: "meta \<Rightarrow> meta" where
  "claude_settings options = (case lookup_as as_map options ''settings'' of None \<Rightarrow> [] | Some s \<Rightarrow> s)"

text \<open>\<open>writeMCPConfig\<close>: the document; a server with neither command nor URL is left out.\<close>

definition mcp_stdio_entry :: "mcp_server \<Rightarrow> any" where
  "mcp_stdio_entry s = Obj ([(''command'', Str (ms_Command s))] @
     (if or_empty (ms_Args s) \<noteq> [] then [(''args'', Strs (or_empty (ms_Args s)))] else []) @
     (if or_empty (ms_Env s) \<noteq> [] then [(''env'', str_map (env_map (or_empty (ms_Env s))))] else []) @
     (if ms_CWD s \<noteq> [] then [(''cwd'', Str (ms_CWD s))] else []))"

definition mcp_http_entry :: "mcp_server \<Rightarrow> any" where
  "mcp_http_entry s = Obj ([(''type'', Str ''http''), (''url'', Str (ms_URL s))] @
     (if or_empty (ms_Headers s) \<noteq> []
      then [(''headers'', str_map (fold (\<lambda>h m. mput (hh_Name h) (hh_Value h) m) (or_empty (ms_Headers s)) []))] else []))"

definition mcp_named :: "mcp_server list \<Rightarrow> meta" where
  "mcp_named servers = fold (\<lambda>s m.
     if ms_Command s \<noteq> [] then mput (ms_Name s) (mcp_stdio_entry s) m
     else if ms_URL s \<noteq> [] then mput (ms_Name s) (mcp_http_entry s) m else m) servers []"

text \<open>
  \<open>buildArgs\<close>: \<open>settings\<close> and \<open>mcp\<close> are what writing the two files gives (an error, or the file's
  name). The result is the arguments, and the proc with the files recorded.
\<close>

definition flag_args :: "claude_proc \<Rightarrow> string list" where
  "flag_args p =
     (let req = cp_pending p; m = nq_Meta req in
      claude_base_args @
      concat (map (\<lambda>d. [''--add-dir'', d]) (nq_AdditionalDirectories req)) @
      value_flag ''--model'' (or_meta (cp_model p) m ''model'') @
      permission_args (or_meta (cp_mode p) m ''mode'') @
      identity_args p @
      value_flag ''--system-prompt'' (metaString m SystemPromptMetaKey) @
      value_flag ''--append-system-prompt'' (metaString m AppendSystemPromptMetaKey) @
      option_args (claude_options m))"

definition settings_step :: "go_error + string \<Rightarrow> claude_proc \<Rightarrow> (go_error + string list) \<times> claude_proc" where
  "settings_step res p =
     (let doc = claude_settings (claude_options (nq_Meta (cp_pending p))) in
      if doc = [] then (Inr [], p)
      else case res of
        Inl e \<Rightarrow> (Inl (wrapError ErrorProcess ''native.claude.config'' ''write acp-claude-settings'' (Some e)), p)
      | Inr file \<Rightarrow> (Inr [''--settings'', file],
          p\<lparr>cp_settingsFile := file, cp_documents := cp_documents p @ [(file, Obj doc)]\<rparr>))"

definition mcp_step :: "go_error + string \<Rightarrow> claude_proc \<Rightarrow> (go_error + string list) \<times> claude_proc" where
  "mcp_step res p =
     (let servers = nq_MCPServers (cp_pending p); named = mcp_named servers in
      if servers = [] then (Inr [], p)
      else if named = [] then
        (Inl (runtime_error ErrorProcess ''native.claude.mcp''
           ''no supported MCP servers (stdio command or http url) in request''), p)
      else case res of
        Inl e \<Rightarrow> (Inl (wrapError ErrorProcess ''native.claude.config'' ''write acp-claude-mcp'' (Some e)), p)
      | Inr file \<Rightarrow> (Inr [''--mcp-config'', file, ''--strict-mcp-config''],
          p\<lparr>cp_mcpFile := file, cp_documents := cp_documents p @ [(file, Obj [(''mcpServers'', Obj named)])]\<rparr>))"

definition buildArgs ::
  "go_error + string \<Rightarrow> go_error + string \<Rightarrow> claude_proc \<Rightarrow> (go_error + string list) \<times> claude_proc" where
  "buildArgs settings mcp p = (case settings_step settings p of
     (Inl e, p) \<Rightarrow> (Inl e, p)
   | (Inr a, p) \<Rightarrow> (case mcp_step mcp p of
        (Inl e, p) \<Rightarrow> (Inl e, p)
      | (Inr b, p) \<Rightarrow> (Inr (flag_args p @ a @ b), p)))"

text \<open>\<open>setSpawnOption\<close>: the error, if any, and the proc.\<close>

definition option_error :: "claude_env \<Rightarrow> string \<Rightarrow> string \<Rightarrow> go_error" where
  "option_error E key msg =
     runtime_error ErrorProtocol ''native.claude.config'' (''option '' @ AppendQuote (le_pr E) key @ msg)"

definition setSpawnOption :: "claude_env \<Rightarrow> string \<Rightarrow> any \<Rightarrow> claude_proc \<Rightarrow> go_error option \<times> claude_proc" where
  "setSpawnOption E key v p = (case as_string v of
     None \<Rightarrow> (Some (option_error E key '' expects a string value''), p)
   | Some s \<Rightarrow>
      if cp_spawned p then
        (Some (option_error E key '' is a spawn-time setting and the engine has already started''), p)
      else if key = ''model'' then (None, p\<lparr>cp_model := s\<rparr>)
      else if key = ''mode'' \<or> key = ''permissionMode'' then (None, p\<lparr>cp_mode := s\<rparr>)
      else (Some (option_error E key '' is not supported by the native claude transport''), p))"

section \<open>The engine\<close>

datatype claude_after = For_Prompt "content_block list" | For_Load string

datatype claude_result =
    Cl_Opened string
  | Cl_Turn_End string "usage option"
  | Cl_Refused go_error
  | Cl_Done
  | Cl_Closed

datatype claude_call =
    Cl_New new_session_request
  | Cl_Load string new_session_request
  | Cl_Load_Undo string go_error
  | Cl_Fork string "mcp_server list"
  | Cl_Prompt string "content_block list"
  | Cl_Ensure nat claude_after
  | Cl_Build nat claude_after
  | Cl_Spawn nat claude_after "string list"
  | Cl_Turn nat "content_block list"
  | Cl_Write nat nat "content_block list"
  | Cl_Wait nat nat
  | Cl_Cancel string
  | Cl_Interrupt nat
  | Cl_Option string string any
  | Cl_Set nat string any
  | Cl_Close "string list"
  | Cl_Close_Next "(string \<times> nat) list" "go_error option list"
  | Cl_Close_Done string nat "(string \<times> nat) list" "go_error option list"
  | Cl_Ended claude_result

record claude_world =
  y_closed :: bool
  y_lock :: bool
  y_procs :: "nat gomap"
  y_heap :: "claude_proc list"
  y_turns :: "claude_turn list"
  y_calls :: "claude_call list"
  y_emitted :: "(string \<times> session_update) list"
  y_panic :: bool

definition claude_init :: claude_world where
  "claude_init = \<lparr>y_closed = False, y_lock = False, y_procs = [], y_heap = [], y_turns = [],
     y_calls = [], y_emitted = [], y_panic = False\<rparr>"

definition set_proc :: "nat \<Rightarrow> claude_proc \<Rightarrow> claude_world \<Rightarrow> claude_world" where
  "set_proc p v w = w\<lparr>y_heap := (y_heap w)[p := v]\<rparr>"

definition set_claude_turn :: "nat \<Rightarrow> claude_turn \<Rightarrow> claude_world \<Rightarrow> claude_world" where
  "set_claude_turn t v w = w\<lparr>y_turns := (y_turns w)[t := v]\<rparr>"

definition add_proc :: "string \<Rightarrow> claude_proc \<Rightarrow> claude_world \<Rightarrow> claude_world" where
  "add_proc sid v w = w\<lparr>y_heap := y_heap w @ [v], y_procs := mput sid (length (y_heap w)) (y_procs w)\<rparr>"

definition writeLine :: "nat \<Rightarrow> any \<Rightarrow> claude_world \<Rightarrow> claude_world" where
  "writeLine p doc w = (let v = y_heap w ! p in
     if cp_cmd v then set_proc p (v\<lparr>cp_lines := cp_lines v @ [doc]\<rparr>) w else w)"

definition claude_emit :: "nat \<Rightarrow> session_update \<Rightarrow> claude_world \<Rightarrow> claude_world" where
  "claude_emit p u w = w\<lparr>y_emitted := y_emitted w @ [(cp_id (y_heap w ! p), u)]\<rparr>"

subsection \<open>Lines of a process\<close>

record claude_block =
  bl_Type :: string
  bl_Text :: string
  bl_Thinking :: string
  bl_ID :: string
  bl_Name :: string
  bl_Input :: bytes
  bl_ToolUseID :: string

text \<open>
  A line after \<open>json.Unmarshal\<close>; one that does not decode, or whose type is none of these, is
  ignored.
\<close>

datatype claude_event =
    Init_Line string "string list" string
  | Assistant_Line string "claude_block list"
  | User_Line "claude_block list"
  | Result_Line bool string string bytes
  | Tool_Line any string bytes

definition emitPlanFromTodoWrite ::
  "claude_env \<Rightarrow> nat \<Rightarrow> string \<Rightarrow> bytes \<Rightarrow> claude_world \<Rightarrow> claude_world" where
  "emitPlanFromTodoWrite E p tool input w = (case le_todos E input of
     None \<Rightarrow> w
   | Some entries \<Rightarrow>
       (let v = y_heap w ! p in
        claude_emit p (empty_update\<lparr>su_SessionUpdate := ''plan'', su_Entries := entries\<rparr>)
          (set_proc p (v\<lparr>cp_plans := List.insert tool (cp_plans v)\<rparr>) w)))"

definition assistant_block :: "claude_env \<Rightarrow> nat \<Rightarrow> string \<Rightarrow> claude_block \<Rightarrow> claude_world \<Rightarrow> claude_world" where
  "assistant_block E p mid b w =
     (if bl_Type b = ''text'' then
        (if bl_Text b \<noteq> [] then claude_emit p (chunk ''agent_message_chunk'' mid (bl_Text b)) w else w)
      else if bl_Type b = ''thinking'' then
        (if bl_Thinking b \<noteq> [] then claude_emit p (chunk ''agent_thought_chunk'' [] (bl_Thinking b)) w else w)
      else if bl_Type b = ''tool_use'' then
        (if bl_ID b = [] then w
         else if bl_Name b = ''TodoWrite'' then emitPlanFromTodoWrite E p (bl_ID b) (bl_Input b) w
         else claude_emit p (empty_update\<lparr>su_SessionUpdate := ''tool_call'', su_ToolCallID := bl_ID b,
                su_Title := Some (bl_Name b), su_Kind := Some (claudeToolKind (bl_Name b)),
                su_Status := Some ''pending''\<rparr>) w)
      else w)"

definition handleAssistantBlocks ::
  "claude_env \<Rightarrow> nat \<Rightarrow> string \<Rightarrow> claude_block list \<Rightarrow> claude_world \<Rightarrow> claude_world" where
  "handleAssistantBlocks E p mid bs w = fold (assistant_block E p mid) bs w"

definition user_block :: "nat \<Rightarrow> claude_block \<Rightarrow> claude_world \<Rightarrow> claude_world" where
  "user_block p b w =
     (if bl_Type b \<noteq> ''tool_result'' \<or> bl_ToolUseID b = [] then w
      else if bl_ToolUseID b \<in> set (cp_plans (y_heap w ! p)) then w
      else claude_emit p (empty_update\<lparr>su_SessionUpdate := ''tool_call_update'',
             su_ToolCallID := bl_ToolUseID b, su_Status := Some ''completed''\<rparr>) w)"

definition slash_command :: "string \<Rightarrow> available_command" where
  "slash_command name = \<lparr>cmd_Name = trim_prefix name ''/'', cmd_Description = [], cmd_Input = Nil_Value\<rparr>"

definition on_init :: "nat \<Rightarrow> string \<Rightarrow> string list \<Rightarrow> string \<Rightarrow> claude_world \<Rightarrow> claude_world" where
  "on_init p sid slash mode w =
     (let w = (if sid \<noteq> [] then set_proc p ((y_heap w ! p)\<lparr>cp_realID := sid\<rparr>) w else w);
          w = (if slash \<noteq> [] then claude_emit p (empty_update\<lparr>su_SessionUpdate := ''available_commands_update'',
                 su_AvailableCommands := map slash_command slash\<rparr>) w else w)
      in if mode \<noteq> [] then claude_emit p (empty_update\<lparr>su_SessionUpdate := ''current_mode_update'',
                 su_CurrentModeID := mode\<rparr>) w else w)"

definition on_result ::
  "claude_env \<Rightarrow> nat \<Rightarrow> bool \<Rightarrow> string \<Rightarrow> string \<Rightarrow> bytes \<Rightarrow> claude_world \<Rightarrow> claude_world" where
  "on_result E p is_error res stop usage w = (case cp_turn (y_heap w ! p) of
     None \<Rightarrow> w
   | Some t \<Rightarrow>
      (let v = y_turns w ! t in
       if lt_finished v then w
       else (set_claude_turn t (v\<lparr>lt_finished := True, lt_stop := (if stop = [] then ''end_turn'' else stop),
               lt_err := (if is_error then Some (if res = [] then ''claude turn failed'' else res) else lt_err v),
               lt_usage := claudeUsageFromRaw (le_usage E) usage, lt_done := True\<rparr>) w)
             \<lparr>y_panic := y_panic w \<or> lt_done v\<rparr>))"

text \<open>\<open>writeControlResponseWithInput\<close>.\<close>

definition control_response :: "any \<Rightarrow> string \<Rightarrow> string \<Rightarrow> meta option \<Rightarrow> any" where
  "control_response rid behavior message updated = Obj [(''type'', Str ''control_response''),
     (''response'', Obj [(''subtype'', Str ''success''), (''request_id'', rid),
       (''response'', Obj ([(''behavior'', Str behavior)] @
          (case updated of Some m \<Rightarrow> if behavior = ''allow'' then [(''updatedInput'', Obj m)] else [] | None \<Rightarrow> []) @
          (if message \<noteq> [] then [(''message'', Str message)] else [])))])]"

definition tool_permission :: "claude_env \<Rightarrow> string \<Rightarrow> any \<Rightarrow> string \<Rightarrow> permission_request" where
  "tool_permission E sid rid tool =
     \<lparr>pr_SessionID = sid, pr_ToolCallID = ''can_use_tool-'' @ le_show E rid, pr_Title = tool,
      pr_Kind = ''execute'', pr_Target = [],
      pr_Options = [\<lparr>po_ID = ''allow'', po_Name = ''Allow'', po_Kind = ''allow_once''\<rparr>,
                    \<lparr>po_ID = ''deny'', po_Name = ''Deny'', po_Kind = ''reject_once''\<rparr>]\<rparr>"

text \<open>What \<open>handleCanUseTool\<close> writes once the authority has answered.\<close>

definition tool_answer :: "claude_env \<Rightarrow> (go_error \<Rightarrow> string) \<Rightarrow> any \<Rightarrow> bytes \<Rightarrow> go_error + permission_decision \<Rightarrow> any" where
  "tool_answer E err_text rid input dec = (case dec of
     Inl e \<Rightarrow> control_response rid ''deny'' (err_text e) None
   | Inr d \<Rightarrow> if pd_Outcome d = ''selected'' \<and> pd_OptionID d = ''allow''
             then control_response rid ''allow'' [] (le_input E input)
             else control_response rid ''deny'' ''denied by host authority'' None)"

definition on_tool :: "claude_env \<Rightarrow> nat \<Rightarrow> any \<Rightarrow> bytes \<Rightarrow> claude_world \<Rightarrow> claude_world" where
  "on_tool E p rid input w =
     (if \<not> le_authority E
      then writeLine p (control_response rid ''deny'' ''no permission authority configured'' None) w
      else set_proc p ((y_heap w ! p)\<lparr>cp_asking := Some (rid, input)\<rparr>) w)"

fun claude_line :: "claude_env \<Rightarrow> nat \<Rightarrow> claude_event \<Rightarrow> claude_world \<Rightarrow> claude_world" where
  "claude_line E p (Init_Line sid slash mode) w = on_init p sid slash mode w"
| "claude_line E p (Assistant_Line mid bs) w = handleAssistantBlocks E p mid bs w"
| "claude_line E p (User_Line bs) w = fold (user_block p) bs w"
| "claude_line E p (Result_Line is_error res stop usage) w = on_result E p is_error res stop usage w"
| "claude_line E p (Tool_Line rid tool input) w = on_tool E p rid input w"

subsection \<open>Calls\<close>

datatype claude_choice =
    Cl_Go
  | Cl_Random "go_error + nat list"
  | Cl_Files "go_error + string" "go_error + string"
  | Cl_Started spawn_fault
  | Cl_Clock int
  | Cl_Exit
  | Cl_Expired go_error
  | Cl_Killed "go_error option"

definition no_proc :: "string \<Rightarrow> claude_result" where
  "no_proc sid = Cl_Refused (runtime_error ErrorProcess ''native.claude.proc''
     (''no session '' @ sid @ '' on this connection''))"

definition claude_new ::
  "new_session_request \<Rightarrow> go_error + nat list \<Rightarrow> claude_world \<Rightarrow> claude_call \<times> claude_world" where
  "claude_new req r w = (case r of
     Inl e \<Rightarrow> (Cl_Ended (Cl_Refused (wrapError ErrorCreate ''native.claude.session_id''
               ''create session identity'' (Some e))), w)
   | Inr b \<Rightarrow> (let sid = newClaudeNativeSessionID b in
       (Cl_Ended (Cl_Opened sid), add_proc sid (new_proc sid [] False req) w)))"

definition claude_load :: "string \<Rightarrow> new_session_request \<Rightarrow> claude_world \<Rightarrow> claude_call \<times> claude_world" where
  "claude_load sid req w =
     (Cl_Ensure (length (y_heap w)) (For_Load sid), add_proc sid (new_proc sid sid False req) w)"

definition claude_load_undo :: "string \<Rightarrow> go_error \<Rightarrow> claude_world \<Rightarrow> claude_call \<times> claude_world" where
  "claude_load_undo sid e w = (Cl_Ended (Cl_Refused e), w\<lparr>y_procs := mdel sid (y_procs w)\<rparr>)"

definition claude_fork ::
  "string \<Rightarrow> mcp_server list \<Rightarrow> go_error + nat list \<Rightarrow> claude_world \<Rightarrow> claude_call \<times> claude_world" where
  "claude_fork sid servers r w = (case r of
     Inl e \<Rightarrow> (Cl_Ended (Cl_Refused (wrapError ErrorFork ''native.claude.session_id''
               ''create fork identity'' (Some e))), w)
   | Inr b \<Rightarrow> (let new = newClaudeNativeSessionID b in
       (Cl_Ended (Cl_Opened new), add_proc new (new_proc new sid True
          \<lparr>nq_CWD = [], nq_MCPServers = servers, nq_AdditionalDirectories = [], nq_Meta = []\<rparr>) w)))"

definition with_proc ::
  "string \<Rightarrow> (nat \<Rightarrow> claude_call) \<Rightarrow> claude_result \<Rightarrow> claude_world \<Rightarrow> claude_call \<times> claude_world" where
  "with_proc sid f none w = (case mget (y_procs w) sid of
     None \<Rightarrow> (Cl_Ended none, w)
   | Some p \<Rightarrow> (f p, w))"

definition after_spawn :: "nat \<Rightarrow> claude_after \<Rightarrow> claude_call" where
  "after_spawn p a = (case a of For_Prompt blocks \<Rightarrow> Cl_Turn p blocks | For_Load sid \<Rightarrow> Cl_Ended (Cl_Opened sid))"

definition spawn_failed :: "claude_after \<Rightarrow> go_error \<Rightarrow> claude_call" where
  "spawn_failed a e = (case a of For_Prompt _ \<Rightarrow> Cl_Ended (Cl_Refused e) | For_Load sid \<Rightarrow> Cl_Load_Undo sid e)"

text \<open>\<open>ensureSpawned\<close>: taking the mutex, building the arguments, starting the process.\<close>

definition claude_ensure :: "nat \<Rightarrow> claude_after \<Rightarrow> claude_world \<Rightarrow> claude_call \<times> claude_world" where
  "claude_ensure p a w =
     (if y_closed w then
        (spawn_failed a (wrapError ErrorSessionClosed ''native.claude.spawn'' ''native connection is closed'' None), w)
      else if cp_spawned (y_heap w ! p) then (after_spawn p a, w)
      else (Cl_Build p a, w\<lparr>y_lock := True\<rparr>))"

definition claude_build ::
  "nat \<Rightarrow> claude_after \<Rightarrow> go_error + string \<Rightarrow> go_error + string \<Rightarrow> claude_world \<Rightarrow> claude_call \<times> claude_world" where
  "claude_build p a settings mcp w = (case buildArgs settings mcp (y_heap w ! p) of
     (Inl e, v) \<Rightarrow> (spawn_failed a e, (set_proc p v w)\<lparr>y_lock := False\<rparr>)
   | (Inr args, v) \<Rightarrow> (Cl_Spawn p a args, set_proc p v w))"

fun claude_spawn_error :: "spawn_fault \<Rightarrow> go_error option" where
  "claude_spawn_error (Stdin_Fault e) = Some (wrapError ErrorProcess ''native.claude.spawn'' ''stdin pipe'' (Some e))"
| "claude_spawn_error (Stdout_Fault e) = Some (wrapError ErrorProcess ''native.claude.spawn'' ''stdout pipe'' (Some e))"
| "claude_spawn_error (Start_Fault e) = Some (wrapError ErrorProcess ''native.claude.spawn'' ''failed to spawn claude'' (Some e))"
| "claude_spawn_error _ = None"

definition claude_spawn ::
  "claude_env \<Rightarrow> nat \<Rightarrow> claude_after \<Rightarrow> string list \<Rightarrow> spawn_fault \<Rightarrow> claude_world \<Rightarrow> claude_call \<times> claude_world" where
  "claude_spawn E p a args fault w = (case claude_spawn_error fault of
     Some e \<Rightarrow> (spawn_failed a e, w\<lparr>y_lock := False\<rparr>)
   | None \<Rightarrow> (after_spawn p a, (set_proc p ((y_heap w ! p)\<lparr>cp_cmd := True, cp_spawned := True, cp_eof := False, cp_exited := False,
        cp_argv := ag_args (le_agent E) @ args\<rparr>) w)\<lparr>y_lock := False\<rparr>))"

text \<open>\<open>prompt\<close>: installing the turn, writing the message, waiting.\<close>

definition proc_busy :: "nat \<Rightarrow> claude_world \<Rightarrow> bool" where
  "proc_busy p w = (case cp_turn (y_heap w ! p) of None \<Rightarrow> False | Some t \<Rightarrow> \<not> lt_finished (y_turns w ! t))"

definition claude_turn_error :: "string \<Rightarrow> claude_result" where
  "claude_turn_error msg = Cl_Refused (runtime_error ErrorProcess ''native.claude.turn'' msg)"

definition claude_begin :: "nat \<Rightarrow> content_block list \<Rightarrow> claude_world \<Rightarrow> claude_call \<times> claude_world" where
  "claude_begin p blocks w =
     (if proc_busy p w then (Cl_Ended (claude_turn_error ''a turn is already in flight''), w)
      else (Cl_Write p (length (y_turns w)) blocks,
            (set_proc p ((y_heap w ! p)\<lparr>cp_turn := Some (length (y_turns w))\<rparr>) w)
              \<lparr>y_turns := y_turns w @ [new_claude_turn]\<rparr>))"

definition user_message :: "claude_env \<Rightarrow> content_block list \<Rightarrow> any" where
  "user_message E blocks = Obj [(''type'', Str ''user''),
     (''message'', Obj [(''role'', Str ''user''), (''content'', Seq (claudeContentFromBlocks (le_resource E) blocks))]),
     (''parent_tool_use_id'', Nil_Value)]"

definition claude_outcome :: "nat \<Rightarrow> claude_world \<Rightarrow> claude_call" where
  "claude_outcome t w = (let v = y_turns w ! t in
     Cl_Ended (case lt_err v of Some m \<Rightarrow> claude_turn_error m | None \<Rightarrow> Cl_Turn_End (lt_stop v) (lt_usage v)))"

definition claude_wait :: "nat \<Rightarrow> nat \<Rightarrow> claude_choice \<Rightarrow> claude_world \<Rightarrow> claude_call option" where
  "claude_wait p t choice w = (case choice of
     Cl_Go \<Rightarrow> if lt_done (y_turns w ! t) then Some (claude_outcome t w) else None
   | Cl_Exit \<Rightarrow>
       if \<not> cp_exited (y_heap w ! p) then None
       else if lt_done (y_turns w ! t) then Some (claude_outcome t w)
       else Some (Cl_Ended (Cl_Refused (wrapError ErrorProcess ''native.claude.turn''
              ''Claude process stream closed before a terminal result'' (Some (Other_Error ''EOF'')))))
   | Cl_Expired e \<Rightarrow> Some (Cl_Ended (Cl_Refused e))
   | _ \<Rightarrow> None)"

definition claude_interrupt :: "nat \<Rightarrow> int \<Rightarrow> claude_world \<Rightarrow> claude_call \<times> claude_world" where
  "claude_interrupt p now w =
     (Cl_Ended Cl_Done,
      if proc_busy p w
      then writeLine p (Obj [(''type'', Str ''control_request''),
             (''request_id'', Float_Value (of_int now)), (''request'', Obj [(''subtype'', Str ''interrupt'')])]) w else w)"

definition claude_set :: "claude_env \<Rightarrow> nat \<Rightarrow> string \<Rightarrow> any \<Rightarrow> claude_world \<Rightarrow> claude_call \<times> claude_world" where
  "claude_set E p key v w = (case setSpawnOption E key v (y_heap w ! p) of
     (Some e, q) \<Rightarrow> (Cl_Ended (Cl_Refused e), w)
   | (None, q) \<Rightarrow> (Cl_Ended Cl_Done, set_proc p q w))"

definition claude_close :: "string list \<Rightarrow> claude_world \<Rightarrow> claude_call \<times> claude_world" where
  "claude_close order w =
     (Cl_Close_Next (map (\<lambda>k. (k, the (mget (y_procs w) k))) (range_order order (y_procs w))) [],
      w\<lparr>y_closed := True\<rparr>)"

definition claude_close_result :: "go_error option list \<Rightarrow> claude_result" where
  "claude_close_result errs = (case errors_join errs of None \<Rightarrow> Cl_Closed | Some e \<Rightarrow> Cl_Refused e)"

text \<open>\<open>kill\<close>: nothing is there to stop before the process has been started.\<close>

definition claude_kill ::
  "string \<Rightarrow> nat \<Rightarrow> (string \<times> nat) list \<Rightarrow> go_error option list \<Rightarrow> go_error option \<Rightarrow> claude_world \<Rightarrow>
   claude_call \<times> claude_world" where
  "claude_kill k p rest errs res w =
     (let v = y_heap w ! p in
      if \<not> cp_cmd v then (Cl_Close_Done k p rest errs, w)
      else case res of
        Some e \<Rightarrow> (Cl_Close_Next rest (errs @ [Some e]), set_proc p (v\<lparr>cp_exited := True\<rparr>) w)
      | None \<Rightarrow> (Cl_Close_Done k p rest errs, set_proc p (v\<lparr>cp_exited := True, cp_killed := True\<rparr>) w))"

definition claude_close_next ::
  "(string \<times> nat) list \<Rightarrow> go_error option list \<Rightarrow> claude_choice \<Rightarrow> claude_world \<Rightarrow>
   (claude_call \<times> claude_world) option" where
  "claude_close_next rest errs ch w = (case rest of
     [] \<Rightarrow> if ch = Cl_Go then Some (Cl_Ended (claude_close_result errs), w) else None
   | (k, p) # rest \<Rightarrow> (case ch of Cl_Killed res \<Rightarrow> Some (claude_kill k p rest errs res w) | _ \<Rightarrow> None))"

subsection \<open>Steps\<close>

text \<open>The calls that need the engine's mutex wait while \<open>ensureSpawned\<close> has it.\<close>

fun needs_lock :: "claude_call \<Rightarrow> bool" where
  "needs_lock (Cl_New _) = True"
| "needs_lock (Cl_Load _ _) = True"
| "needs_lock (Cl_Load_Undo _ _) = True"
| "needs_lock (Cl_Fork _ _) = True"
| "needs_lock (Cl_Prompt _ _) = True"
| "needs_lock (Cl_Ensure _ _) = True"
| "needs_lock (Cl_Cancel _) = True"
| "needs_lock (Cl_Option _ _ _) = True"
| "needs_lock (Cl_Close _) = True"
| "needs_lock (Cl_Close_Done _ _ _ _) = True"
| "needs_lock _ = False"

definition claude_move ::
  "claude_env \<Rightarrow> claude_choice \<Rightarrow> claude_call \<Rightarrow> claude_world \<Rightarrow> (claude_call \<times> claude_world) option" where
  "claude_move E ch c w = (case c of
     Cl_New req \<Rightarrow> (case ch of Cl_Random r \<Rightarrow> Some (claude_new req r w) | _ \<Rightarrow> None)
   | Cl_Load sid req \<Rightarrow> (if ch = Cl_Go then Some (claude_load sid req w) else None)
   | Cl_Load_Undo sid e \<Rightarrow> (if ch = Cl_Go then Some (claude_load_undo sid e w) else None)
   | Cl_Fork sid servers \<Rightarrow> (case ch of Cl_Random r \<Rightarrow> Some (claude_fork sid servers r w) | _ \<Rightarrow> None)
   | Cl_Prompt sid blocks \<Rightarrow>
       (if ch = Cl_Go then Some (with_proc sid (\<lambda>p. Cl_Ensure p (For_Prompt blocks)) (no_proc sid) w) else None)
   | Cl_Ensure p a \<Rightarrow> (if ch = Cl_Go then Some (claude_ensure p a w) else None)
   | Cl_Build p a \<Rightarrow> (case ch of Cl_Files s m \<Rightarrow> Some (claude_build p a s m w) | _ \<Rightarrow> None)
   | Cl_Spawn p a args \<Rightarrow> (case ch of Cl_Started f \<Rightarrow> Some (claude_spawn E p a args f w) | _ \<Rightarrow> None)
   | Cl_Turn p blocks \<Rightarrow> (if ch = Cl_Go then Some (claude_begin p blocks w) else None)
   | Cl_Write p t blocks \<Rightarrow>
       (if ch = Cl_Go then Some (Cl_Wait p t, writeLine p (user_message E blocks) w) else None)
   | Cl_Wait p t \<Rightarrow> map_option (\<lambda>c. (c, w)) (claude_wait p t ch w)
   | Cl_Cancel sid \<Rightarrow> (if ch = Cl_Go then Some (with_proc sid Cl_Interrupt Cl_Done w) else None)
   | Cl_Interrupt p \<Rightarrow> (case ch of Cl_Clock now \<Rightarrow> Some (claude_interrupt p now w) | _ \<Rightarrow> None)
   | Cl_Option sid key v \<Rightarrow>
       (if ch = Cl_Go then Some (with_proc sid (\<lambda>p. Cl_Set p key v) (no_proc sid) w) else None)
   | Cl_Set p key v \<Rightarrow> (if ch = Cl_Go then Some (claude_set E p key v w) else None)
   | Cl_Close order \<Rightarrow> (if ch = Cl_Go then Some (claude_close order w) else None)
   | Cl_Close_Next rest errs \<Rightarrow> claude_close_next rest errs ch w
   | Cl_Close_Done k p rest errs \<Rightarrow>
       (if ch = Cl_Go then Some (Cl_Close_Next rest errs, w\<lparr>y_procs := mdel k (y_procs w)\<rparr>) else None)
   | Cl_Ended r \<Rightarrow> None)"

datatype claude_action =
    Cl_Enter claude_call
  | Cl_Step nat claude_choice
  | Cl_Line nat claude_event
  | Cl_Answer nat "go_error + permission_decision"
  | Cl_EOF nat

fun claude_entry :: "claude_call \<Rightarrow> bool" where
  "claude_entry (Cl_New _) = True"
| "claude_entry (Cl_Load _ _) = True"
| "claude_entry (Cl_Fork _ _) = True"
| "claude_entry (Cl_Prompt _ _) = True"
| "claude_entry (Cl_Cancel _) = True"
| "claude_entry (Cl_Option _ _ _) = True"
| "claude_entry (Cl_Close _) = True"
| "claude_entry _ = False"

text \<open>The read loop runs between the start of the process and the end of its output.\<close>

definition reading :: "claude_proc \<Rightarrow> bool" where
  "reading v \<longleftrightarrow> cp_cmd v \<and> \<not> cp_eof v"

fun claude_exec :: "claude_env \<Rightarrow> (go_error \<Rightarrow> string) \<Rightarrow> claude_action \<Rightarrow> claude_world \<Rightarrow> claude_world option" where
  "claude_exec E et (Cl_Enter c) w = (if claude_entry c then Some (w\<lparr>y_calls := y_calls w @ [c]\<rparr>) else None)"
| "claude_exec E et (Cl_Step i ch) w =
     (if i < length (y_calls w) \<and> \<not> (y_lock w \<and> needs_lock (y_calls w ! i)) then
        map_option (\<lambda>(c, w'). w'\<lparr>y_calls := (y_calls w')[i := c]\<rparr>) (claude_move E ch (y_calls w ! i) w)
      else None)"
| "claude_exec E et (Cl_Line p ev) w =
     (if p < length (y_heap w) \<and> reading (y_heap w ! p) \<and> cp_asking (y_heap w ! p) = None
      then Some (claude_line E p ev w) else None)"
| "claude_exec E et (Cl_Answer p dec) w =
     (if p < length (y_heap w) then
       (case cp_asking (y_heap w ! p) of
          None \<Rightarrow> None
        | Some (rid, input) \<Rightarrow> Some (writeLine p (tool_answer E et rid input dec)
            (set_proc p ((y_heap w ! p)\<lparr>cp_asking := None\<rparr>) w)))
      else None)"
| "claude_exec E et (Cl_EOF p) w =
     (if p < length (y_heap w) \<and> reading (y_heap w ! p) \<and> cp_asking (y_heap w ! p) = None
      then Some (set_proc p ((y_heap w ! p)\<lparr>cp_eof := True, cp_exited := True\<rparr>) w) else None)"

section \<open>Session state\<close>

definition claude_modes :: "session_mode list" where
  "claude_modes = map (\<lambda>(i, n). \<lparr>sm_ID = i, sm_Name = n, sm_Description = [], sm_Meta = []\<rparr>)
     [(''default'', ''Default''), (''acceptEdits'', ''Accept Edits''), (''plan'', ''Plan''),
      (''bypassPermissions'', ''Bypass Permissions''), (''dontAsk'', ''Don'' @ [CHR 0x27] @ ''t Ask'')]"

definition claude_mode_option :: "string \<Rightarrow> session_config_option" where
  "claude_mode_option mode =
     \<lparr>so_Type = ''string'', so_ID = ''mode'', so_Name = ''Permission mode'', so_Description = None,
      so_Category = Some ''mode'', so_Value = Str mode, so_Options = [], so_Groups = [], so_Meta = []\<rparr>"

definition claude_session_state :: "claude_env \<Rightarrow> string \<Rightarrow> claude_world \<Rightarrow> new_session_response" where
  "claude_session_state E sid w = (case mget (y_procs w) sid of
     None \<Rightarrow> bare_response sid
   | Some p \<Rightarrow>
      (let v = y_heap w ! p; m = nq_Meta (cp_pending v);
           model = or_meta (cp_model v) m ''model'';
           model = (if model = [] then agent_var (le_agent E) ''ANTHROPIC_MODEL'' else model);
           mode = or_meta (cp_mode v) m ''mode'';
           mode = (if mode = [] then ''default'' else mode)
       in (bare_response sid)\<lparr>nr_Models := Some (one_model model),
            nr_Modes := Some \<lparr>sms_CurrentModeID = mode, sms_AvailableModes = claude_modes, sms_Meta = []\<rparr>,
            nr_ConfigOptions := Some [nativeModelOption model, claude_mode_option mode]\<rparr>))"

end
