(* ===== verification/Native_Claude_Laws.thy ===== *)
theory Native_Claude_Laws
  imports Native_Claude White_Space
begin

text \<open>
  Invariants of the claude engine: which cells a step can change, that a started process is only
  stopped by a call of Close that holds it, and that the turn of a process whose output has ended is
  never settled.
\<close>

section \<open>Frames\<close>

text \<open>What one line of process \<open>p\<close> leaves alone.\<close>

definition line_frame :: "nat \<Rightarrow> claude_world \<Rightarrow> claude_world \<Rightarrow> bool" where
  "line_frame p w w' \<longleftrightarrow> y_closed w' = y_closed w \<and> y_lock w' = y_lock w \<and> y_procs w' = y_procs w
     \<and> y_calls w' = y_calls w \<and> length (y_heap w') = length (y_heap w) \<and> length (y_turns w') = length (y_turns w)
     \<and> (\<forall>q. q \<noteq> p \<longrightarrow> y_heap w' ! q = y_heap w ! q)
     \<and> cp_cmd (y_heap w' ! p) = cp_cmd (y_heap w ! p) \<and> cp_killed (y_heap w' ! p) = cp_killed (y_heap w ! p)
     \<and> cp_spawned (y_heap w' ! p) = cp_spawned (y_heap w ! p) \<and> cp_turn (y_heap w' ! p) = cp_turn (y_heap w ! p)
     \<and> cp_eof (y_heap w' ! p) = cp_eof (y_heap w ! p) \<and> cp_id (y_heap w' ! p) = cp_id (y_heap w ! p)
     \<and> (\<forall>t. cp_turn (y_heap w ! p) \<noteq> Some t \<longrightarrow> y_turns w' ! t = y_turns w ! t)"

lemma line_frame_refl [simp, intro]: "line_frame p w w"
  by (simp add: line_frame_def)

lemma line_frame_trans: "line_frame p u v \<Longrightarrow> line_frame p v w \<Longrightarrow> line_frame p u w"
  unfolding line_frame_def by auto

lemma nth_set_proc: "y_heap (set_proc q v w) ! p = (if q = p \<and> p < length (y_heap w) then v else y_heap w ! p)"
  by (cases "q = p") (auto simp: set_proc_def list_update_beyond not_less)

lemma frame_set_proc:
  assumes "cp_cmd v = cp_cmd (y_heap w ! p)" "cp_killed v = cp_killed (y_heap w ! p)"
    "cp_spawned v = cp_spawned (y_heap w ! p)" "cp_turn v = cp_turn (y_heap w ! p)"
    "cp_eof v = cp_eof (y_heap w ! p)" "cp_id v = cp_id (y_heap w ! p)"
  shows "line_frame p w (set_proc p v w)"
  using assms unfolding line_frame_def nth_set_proc by (simp add: set_proc_def)

lemma frame_emit: "line_frame p w (claude_emit p u w)"
  by (simp add: line_frame_def claude_emit_def)

lemma frame_write: "line_frame p w (writeLine p doc w)"
  unfolding writeLine_def Let_def by (simp add: frame_set_proc)

lemma frame_emit_after: "line_frame p w u \<Longrightarrow> line_frame p w (claude_emit p x u)"
  using line_frame_trans frame_emit by blast

lemma frame_fold:
  "(\<And>x w. line_frame p w (f x w)) \<Longrightarrow> line_frame p w (fold f xs w)"
proof (induction xs arbitrary: w)
  case (Cons x xs)
  then show ?case using line_frame_trans [OF Cons.prems [of w x]] by simp
qed simp

lemma frame_assistant: "line_frame p w (assistant_block E p mid b w)"
  by (auto simp: assistant_block_def emitPlanFromTodoWrite_def Let_def frame_emit
      intro!: frame_emit_after frame_set_proc split: option.splits)

lemma frame_user: "line_frame p w (user_block p b w)"
  by (auto simp: user_block_def frame_emit)

lemma frame_result: "line_frame p w (on_result E p is_error res stop usage w)"
  by (auto simp: on_result_def line_frame_def set_claude_turn_def Let_def split: option.splits)

lemma frame_init: "line_frame p w (on_init p sid slash mode w)"
  unfolding on_init_def Let_def by (auto intro!: frame_emit_after frame_set_proc)

lemma claude_line_frame: "line_frame p w (claude_line E p ev w)"
  by (cases ev)
    (auto simp: handleAssistantBlocks_def on_tool_def frame_init frame_result frame_write
      intro!: frame_fold frame_assistant frame_user frame_set_proc)

section \<open>Who can stop a process\<close>

fun close_targets :: "claude_call \<Rightarrow> nat set" where
  "close_targets (Cl_Close_Next rest errs) = snd ` set rest"
| "close_targets (Cl_Close_Done k q rest errs) = snd ` set rest"
| "close_targets _ = {}"

text \<open>A running process that no table and no call of Close can reach.\<close>

definition proc_running :: "nat \<Rightarrow> claude_world \<Rightarrow> bool" where
  "proc_running p w \<longleftrightarrow> p < length (y_heap w) \<and> cp_cmd (y_heap w ! p) \<and> \<not> cp_killed (y_heap w ! p)"

definition unreachable :: "nat \<Rightarrow> claude_world \<Rightarrow> bool" where
  "unreachable p w \<longleftrightarrow> proc_running p w \<and> (\<forall>k. mget (y_procs w) k \<noteq> Some p)"

lemma unreachable_set_proc:
  assumes "unreachable p w" "q = p \<Longrightarrow> cp_cmd v \<and> \<not> cp_killed v"
  shows "unreachable p (set_proc q v w)"
  using assms unfolding unreachable_def proc_running_def nth_set_proc by (auto simp: set_proc_def)

lemma unreachable_simps [simp]:
  "unreachable p (w\<lparr>y_lock := b\<rparr>) = unreachable p w" "unreachable p (w\<lparr>y_closed := b\<rparr>) = unreachable p w"
  "unreachable p (w\<lparr>y_turns := ts\<rparr>) = unreachable p w" "unreachable p (w\<lparr>y_calls := cs\<rparr>) = unreachable p w"
  by (simp_all add: unreachable_def proc_running_def)

lemma unreachable_add: "unreachable p w \<Longrightarrow> unreachable p (add_proc sid v w)"
  by (auto simp: unreachable_def proc_running_def add_proc_def nth_append)

lemma unreachable_del: "unreachable p w \<Longrightarrow> unreachable p (w\<lparr>y_procs := mdel k (y_procs w)\<rparr>)"
  by (simp add: unreachable_def proc_running_def)

lemma unreachable_frame: "unreachable p w \<Longrightarrow> line_frame q w w' \<Longrightarrow> unreachable p w'"
  unfolding unreachable_def proc_running_def line_frame_def by metis

lemma unreachable_cell: "unreachable p w \<Longrightarrow> cp_cmd (y_heap w ! p) \<and> \<not> cp_killed (y_heap w ! p)"
  by (simp add: unreachable_def proc_running_def)

lemma settings_cell: "settings_step res p = (r, v) \<Longrightarrow> cp_cmd v = cp_cmd p \<and> cp_killed v = cp_killed p
    \<and> cp_spawned v = cp_spawned p \<and> cp_turn v = cp_turn p \<and> cp_eof v = cp_eof p \<and> cp_id v = cp_id p"
  by (auto simp: settings_step_def Let_def split: if_splits sum.splits)

lemma mcp_cell: "mcp_step res p = (r, v) \<Longrightarrow> cp_cmd v = cp_cmd p \<and> cp_killed v = cp_killed p
    \<and> cp_spawned v = cp_spawned p \<and> cp_turn v = cp_turn p \<and> cp_eof v = cp_eof p \<and> cp_id v = cp_id p"
  by (auto simp: mcp_step_def Let_def split: if_splits sum.splits)

lemma build_cell: "buildArgs s m p = (r, v) \<Longrightarrow> cp_cmd v = cp_cmd p \<and> cp_killed v = cp_killed p
    \<and> cp_spawned v = cp_spawned p \<and> cp_turn v = cp_turn p \<and> cp_eof v = cp_eof p \<and> cp_id v = cp_id p"
  unfolding buildArgs_def by (auto split: prod.splits sum.splits dest!: settings_cell mcp_cell)

lemma build_frame: "claude_build p a s m w = (c, w') \<Longrightarrow> \<exists>v b. w' = (set_proc p v w)\<lparr>y_lock := b\<rparr> \<and> cp_cmd v = cp_cmd (y_heap w ! p)
    \<and> cp_killed v = cp_killed (y_heap w ! p) \<and> cp_spawned v = cp_spawned (y_heap w ! p)
    \<and> cp_turn v = cp_turn (y_heap w ! p) \<and> cp_eof v = cp_eof (y_heap w ! p) \<and> cp_id v = cp_id (y_heap w ! p)"
proof -
  assume b: "claude_build p a s m w = (c, w')"
  obtain r v where e: "buildArgs s m (y_heap w ! p) = (r, v)" by fastforce
  have "w' = (set_proc p v w)\<lparr>y_lock := (case r of Inl _ \<Rightarrow> False | Inr _ \<Rightarrow> y_lock w)\<rparr>"
    using b e by (auto simp: claude_build_def set_proc_def split: sum.splits)
  with build_cell [OF e] show ?thesis by blast
qed

lemma set_option_cell: "setSpawnOption E k x p = (r, v) \<Longrightarrow> cp_cmd v = cp_cmd p \<and> cp_killed v = cp_killed p
    \<and> cp_spawned v = cp_spawned p \<and> cp_turn v = cp_turn p \<and> cp_eof v = cp_eof p \<and> cp_id v = cp_id p"
  by (auto simp: setSpawnOption_def split: option.splits if_splits)

lemma build_targets: "claude_build p a s m w = (c, w') \<Longrightarrow> close_targets c = {}"
  by (auto simp: claude_build_def spawn_failed_def split: prod.splits sum.splits claude_after.splits)

lemma procs_range_order:
  "p \<in> snd ` set (map (\<lambda>k. (k, the (mget m k))) (range_order order m)) \<Longrightarrow> \<exists>k. mget m k = Some p"
proof -
  assume "p \<in> snd ` set (map (\<lambda>k. (k, the (mget m k))) (range_order order m))"
  then obtain k where k: "k \<in> set (range_order order m)" "p = the (mget m k)" by auto
  then have "k \<in> mkeys m" by (auto simp: range_order_def)
  then show ?thesis using k(2) mget_eq_None [of m k] by fastforce
qed

text \<open>The steps that write cells, one by one.\<close>

lemma claude_ensure_move: "claude_ensure p a w = (c, w') \<Longrightarrow> close_targets c = {} \<and> (w' = w \<or> w' = w\<lparr>y_lock := True\<rparr>)"
  by (auto simp: claude_ensure_def spawn_failed_def after_spawn_def split: if_splits claude_after.splits)

lemma claude_spawn_move:
  "claude_spawn E p a args f w = (c, w') \<Longrightarrow> close_targets c = {} \<and>
   (w' = w\<lparr>y_lock := False\<rparr> \<or> w' = (set_proc p ((y_heap w ! p)\<lparr>cp_cmd := True, cp_spawned := True, cp_eof := False,
      cp_exited := False, cp_argv := ag_args (le_agent E) @ args\<rparr>) w)\<lparr>y_lock := False\<rparr>)"
  by (auto simp: claude_spawn_def spawn_failed_def after_spawn_def split: option.splits claude_after.splits)

lemma unreachable_move:
  assumes u: "unreachable p w" and c: "p \<notin> close_targets c" and m: "claude_move E ch c w = Some (c', w')"
  shows "unreachable p w' \<and> p \<notin> close_targets c' \<and> y_calls w' = y_calls w"
proof (cases c)
  case (Cl_Ensure q a)
  then have "claude_ensure q a w = (c', w')" using m by (auto simp: claude_move_def split: if_splits)
  from claude_ensure_move [OF this] u show ?thesis by auto
next
  case (Cl_Build q a)
  then obtain s x where b: "claude_build q a s x w = (c', w')"
    using m by (auto simp: claude_move_def split: claude_choice.splits)
  from build_frame [OF this] build_targets [OF b] u unreachable_cell [OF u] show ?thesis
    by (auto intro!: unreachable_set_proc) (auto simp: set_proc_def)
next
  case (Cl_Spawn q a args)
  then obtain f where "claude_spawn E q a args f w = (c', w')"
    using m by (auto simp: claude_move_def split: claude_choice.splits)
  from claude_spawn_move [OF this] u unreachable_cell [OF u] show ?thesis
    by (auto intro!: unreachable_set_proc) (auto simp: set_proc_def)
next
  case (Cl_Close order)
  then show ?thesis using m u procs_range_order [of p "y_procs w" order]
    by (auto simp: claude_move_def claude_close_def unreachable_def proc_running_def split: if_splits)
next
  case (Cl_Close_Next rest errs)
  show ?thesis
  proof (cases rest)
    case Nil
    then show ?thesis using m u Cl_Close_Next
      by (auto simp: claude_move_def claude_close_next_def split: if_splits)
  next
    case (Cons e rest')
    then obtain res where k: "claude_kill (fst e) (snd e) rest' errs res w = (c', w')"
      using m Cl_Close_Next by (cases e) (auto simp: claude_move_def claude_close_next_def split: claude_choice.splits)
    have "snd e \<noteq> p" "p \<notin> snd ` set rest'" using c Cl_Close_Next Cons by auto
    then show ?thesis using k u
      by (auto simp: claude_kill_def Let_def intro!: unreachable_set_proc split: if_splits option.splits)
         (auto simp: set_proc_def)
  qed
next
  case (Cl_Set q key v)
  then show ?thesis using m u unreachable_cell [OF u]
    by (auto simp: claude_move_def claude_set_def split: if_splits prod.splits option.splits
        intro!: unreachable_set_proc dest!: set_option_cell) (auto simp: set_proc_def)
next
  case (Cl_Turn q blocks)
  then show ?thesis using m u unreachable_cell [OF u]
    by (auto simp: claude_move_def claude_begin_def split: if_splits intro!: unreachable_set_proc)
       (auto simp: set_proc_def)
next
  case (Cl_Write q t blocks)
  then show ?thesis using m u unreachable_frame [OF u frame_write] frame_write [of q w]
    by (auto simp: claude_move_def line_frame_def split: if_splits)
next
  case (Cl_Interrupt q)
  then show ?thesis using m u unreachable_frame [OF u frame_write] frame_write [of q w]
    by (auto simp: claude_move_def claude_interrupt_def line_frame_def split: if_splits claude_choice.splits)
next
  case (Cl_Wait q t)
  then show ?thesis using m u
    by (auto simp: claude_move_def claude_wait_def claude_outcome_def Let_def split: claude_choice.splits if_splits)
qed (use m u c unreachable_add [OF u] unreachable_del [OF u] in
    \<open>auto simp: claude_move_def claude_new_def claude_load_def claude_load_undo_def claude_fork_def
      with_proc_def Let_def split: claude_choice.splits if_splits sum.splits option.splits\<close>,
    simp_all add: add_proc_def)

definition lost :: "nat \<Rightarrow> claude_world \<Rightarrow> bool" where
  "lost p w \<longleftrightarrow> unreachable p w \<and> (\<forall>c\<in>set (y_calls w). p \<notin> close_targets c)"

lemma lost_exec:
  assumes "lost p w" "claude_exec E et a w = Some w'"
  shows "lost p w'"
proof (cases a)
  case (Cl_Enter c)
  moreover have "claude_entry c \<Longrightarrow> close_targets c = {}" by (cases c) simp_all
  ultimately show ?thesis using assms by (auto simp: lost_def split: if_splits)
next
  case (Cl_Step i ch)
  then obtain c u where i: "i < length (y_calls w)" and m: "claude_move E ch (y_calls w ! i) w = Some (c, u)"
    and w': "w' = u\<lparr>y_calls := (y_calls u)[i := c]\<rparr>"
    using assms(2) by (auto split: if_splits)
  have "unreachable p w" "p \<notin> close_targets (y_calls w ! i)" using assms(1) i by (simp_all add: lost_def)
  from unreachable_move [OF this m] assms(1) w' set_update_subset_insert [of "y_calls w" i c]
  show ?thesis by (auto simp: lost_def)
next
  case (Cl_Line q ev)
  then have "line_frame q w w'" using assms(2) claude_line_frame [of q w E ev] by (auto split: if_splits)
  then show ?thesis using assms(1) unreachable_frame [of p w q w'] by (auto simp: lost_def line_frame_def)
next
  case (Cl_Answer q dec)
  then obtain doc where "w' = writeLine q doc (set_proc q ((y_heap w ! q)\<lparr>cp_asking := None\<rparr>) w)"
    using assms(2) by (auto split: if_splits option.splits prod.splits)
  then have "line_frame q w w'" using line_frame_trans [OF frame_set_proc frame_write, of _ w q] by simp
  then show ?thesis using assms(1) unreachable_frame [of p w q w'] by (auto simp: lost_def line_frame_def)
next
  case (Cl_EOF q)
  then have "w' = set_proc q ((y_heap w ! q)\<lparr>cp_eof := True, cp_exited := True\<rparr>) w"
    using assms(2) by (auto split: if_splits)
  then show ?thesis using assms(1) unreachable_set_proc [of p w q] unreachable_cell [of p w]
    by (auto simp: lost_def) (auto simp: set_proc_def)
qed

interpretation lost: step_invariant "claude_exec E et" "lost p" for E et p
  by unfold_locales (rule lost_exec)

section \<open>What a step keeps\<close>

text \<open>The cell for which a thread holds the engine's mutex.\<close>

fun holds :: "claude_call \<Rightarrow> nat option" where
  "holds (Cl_Build p a) = Some p"
| "holds (Cl_Spawn p a args) = Some p"
| "holds _ = None"

definition cells_kept :: "nat option \<Rightarrow> claude_world \<Rightarrow> claude_world \<Rightarrow> bool" where
  "cells_kept h w w' \<longleftrightarrow> length (y_heap w) \<le> length (y_heap w') \<and> length (y_turns w) \<le> length (y_turns w')
     \<and> y_calls w' = y_calls w
     \<and> (\<forall>t<length (y_turns w). y_turns w' ! t = y_turns w ! t)
     \<and> (\<forall>q<length (y_heap w). cp_id (y_heap w' ! q) = cp_id (y_heap w ! q)
          \<and> (cp_turn (y_heap w' ! q) = cp_turn (y_heap w ! q)
             \<or> cp_turn (y_heap w' ! q) = Some (length (y_turns w)) \<and> length (y_turns w) < length (y_turns w'))
          \<and> (h \<noteq> Some q \<longrightarrow> cp_spawned (y_heap w' ! q) = cp_spawned (y_heap w ! q)
             \<and> cp_cmd (y_heap w' ! q) = cp_cmd (y_heap w ! q) \<and> cp_eof (y_heap w' ! q) = cp_eof (y_heap w ! q)))
     \<and> (\<forall>q<length (y_heap w'). length (y_heap w) \<le> q \<longrightarrow> cp_turn (y_heap w' ! q) = None
          \<and> \<not> cp_cmd (y_heap w' ! q) \<and> \<not> cp_spawned (y_heap w' ! q))
     \<and> (\<forall>k q. mget (y_procs w') k = Some q \<longrightarrow> mget (y_procs w) k = Some q
          \<or> q = length (y_heap w) \<and> q < length (y_heap w') \<and> cp_id (y_heap w' ! q) = k)"

lemma keptD:
  assumes "cells_kept h w w'"
  shows "length (y_heap w) \<le> length (y_heap w')" "length (y_turns w) \<le> length (y_turns w')"
    "y_calls w' = y_calls w"
    "t < length (y_turns w) \<Longrightarrow> y_turns w' ! t = y_turns w ! t"
    "q < length (y_heap w) \<Longrightarrow> cp_id (y_heap w' ! q) = cp_id (y_heap w ! q)"
    "q < length (y_heap w) \<Longrightarrow> cp_turn (y_heap w' ! q) = cp_turn (y_heap w ! q)
       \<or> cp_turn (y_heap w' ! q) = Some (length (y_turns w)) \<and> length (y_turns w) < length (y_turns w')"
    "q < length (y_heap w) \<Longrightarrow> h \<noteq> Some q \<Longrightarrow> cp_spawned (y_heap w' ! q) = cp_spawned (y_heap w ! q)"
    "q < length (y_heap w) \<Longrightarrow> h \<noteq> Some q \<Longrightarrow> cp_cmd (y_heap w' ! q) = cp_cmd (y_heap w ! q)"
    "q < length (y_heap w) \<Longrightarrow> h \<noteq> Some q \<Longrightarrow> cp_eof (y_heap w' ! q) = cp_eof (y_heap w ! q)"
    "length (y_heap w) \<le> q \<Longrightarrow> q < length (y_heap w') \<Longrightarrow>
       cp_turn (y_heap w' ! q) = None \<and> \<not> cp_cmd (y_heap w' ! q) \<and> \<not> cp_spawned (y_heap w' ! q)"
    "mget (y_procs w') k = Some q \<Longrightarrow> mget (y_procs w) k = Some q
          \<or> q = length (y_heap w) \<and> q < length (y_heap w') \<and> cp_id (y_heap w' ! q) = k"
  using assms unfolding cells_kept_def by blast+

lemma kept_refl [simp, intro]: "cells_kept h w w"
  by (simp add: cells_kept_def)

lemma kept_fields:
  "cells_kept h w w' \<Longrightarrow> cells_kept h w (w'\<lparr>y_lock := b\<rparr>)" "cells_kept h w w' \<Longrightarrow> cells_kept h w (w'\<lparr>y_closed := b\<rparr>)"
  by (simp_all add: cells_kept_def)

lemma kept_set_proc:
  assumes "cp_turn v = cp_turn (y_heap w ! q)" "cp_id v = cp_id (y_heap w ! q)"
    "h \<noteq> Some q \<Longrightarrow> cp_spawned v = cp_spawned (y_heap w ! q) \<and> cp_cmd v = cp_cmd (y_heap w ! q) \<and> cp_eof v = cp_eof (y_heap w ! q)"
  shows "cells_kept h w (set_proc q v w)"
  using assms unfolding cells_kept_def nth_set_proc by (auto simp: set_proc_def)

lemma kept_add: "cp_turn v = None \<Longrightarrow> \<not> cp_cmd v \<Longrightarrow> \<not> cp_spawned v \<Longrightarrow> cp_id v = sid \<Longrightarrow> cells_kept h w (add_proc sid v w)"
  unfolding cells_kept_def by (auto simp: add_proc_def nth_append)

lemma kept_del: "cells_kept h w (w\<lparr>y_procs := mdel k (y_procs w)\<rparr>)"
  by (simp add: cells_kept_def)

lemma kept_write: "cells_kept h w (writeLine q doc w)"
  unfolding writeLine_def Let_def by (auto intro: kept_set_proc)

lemma kept_begin: "claude_begin p blocks w = (c, w') \<Longrightarrow> cells_kept h w w'"
  unfolding claude_begin_def cells_kept_def
  by (auto simp: nth_set_proc nth_append split: if_splits) (auto simp: set_proc_def)

lemma new_proc_cell [simp]:
  "cp_turn (new_proc sid r f req) = None" "\<not> cp_cmd (new_proc sid r f req)"
  "\<not> cp_spawned (new_proc sid r f req)" "cp_id (new_proc sid r f req) = sid"
  by (simp_all add: new_proc_def)

lemma kept_move:
  assumes m: "claude_move E ch c w = Some (c', w')"
  shows "cells_kept (holds c) w w'"
proof (cases c)
  case (Cl_Ensure q a)
  then have "claude_ensure q a w = (c', w')" using m by (auto simp: claude_move_def split: if_splits)
  from claude_ensure_move [OF this] show ?thesis by (auto intro: kept_fields)
next
  case (Cl_Build q a)
  then obtain s x where "claude_build q a s x w = (c', w')"
    using m by (auto simp: claude_move_def split: claude_choice.splits)
  from build_frame [OF this] show ?thesis by (auto intro!: kept_fields kept_set_proc)
next
  case (Cl_Spawn q a args)
  then obtain f where "claude_spawn E q a args f w = (c', w')"
    using m by (auto simp: claude_move_def split: claude_choice.splits)
  from claude_spawn_move [OF this] Cl_Spawn show ?thesis by (auto intro!: kept_fields kept_set_proc)
next
  case (Cl_Close_Next rest errs)
  show ?thesis
  proof (cases rest)
    case Nil
    then show ?thesis using m Cl_Close_Next
      by (auto simp: claude_move_def claude_close_next_def split: if_splits)
  next
    case (Cons e rest')
    then obtain res where "claude_kill (fst e) (snd e) rest' errs res w = (c', w')"
      using m Cl_Close_Next by (cases e) (auto simp: claude_move_def claude_close_next_def split: claude_choice.splits)
    then show ?thesis
      by (auto simp: claude_kill_def Let_def intro!: kept_set_proc split: if_splits option.splits)
  qed
next
  case (Cl_Set q key v)
  then show ?thesis using m
    by (auto simp: claude_move_def claude_set_def split: if_splits prod.splits option.splits
        intro!: kept_set_proc dest!: set_option_cell)
next
  case (Cl_Turn q blocks)
  then have "claude_begin q blocks w = (c', w')" using m by (auto simp: claude_move_def split: if_splits)
  then show ?thesis by (rule kept_begin)
next
  case (Cl_Write q t blocks)
  then show ?thesis using m kept_write by (auto simp: claude_move_def split: if_splits)
next
  case (Cl_Interrupt q)
  then show ?thesis using m kept_write
    by (auto simp: claude_move_def claude_interrupt_def split: if_splits claude_choice.splits)
next
  case (Cl_Close order)
  then show ?thesis using m kept_fields(2) [OF kept_refl]
    by (auto simp: claude_move_def claude_close_def split: if_splits)
next
  case (Cl_New req)
  then show ?thesis using m
    by (auto simp: claude_move_def claude_new_def Let_def intro!: kept_add split: claude_choice.splits sum.splits)
next
  case (Cl_Load sid req)
  then show ?thesis using m by (auto simp: claude_move_def claude_load_def intro!: kept_add split: if_splits)
next
  case (Cl_Load_Undo sid e)
  then show ?thesis using m kept_del by (auto simp: claude_move_def claude_load_undo_def split: if_splits)
next
  case (Cl_Fork sid servers)
  then show ?thesis using m
    by (auto simp: claude_move_def claude_fork_def Let_def intro!: kept_add split: claude_choice.splits sum.splits)
next
  case (Cl_Close_Done k p rest errs)
  then show ?thesis using m kept_del by (auto simp: claude_move_def split: if_splits)
qed (use m in \<open>auto simp: claude_move_def with_proc_def split: if_splits option.splits\<close>)

section \<open>Well-formedness\<close>

fun cells_of :: "claude_call \<Rightarrow> nat set" where
  "cells_of (Cl_Ensure p a) = {p}"
| "cells_of (Cl_Build p a) = {p}"
| "cells_of (Cl_Spawn p a args) = {p}"
| "cells_of (Cl_Turn p blocks) = {p}"
| "cells_of (Cl_Write p t blocks) = {p}"
| "cells_of (Cl_Wait p t) = {p}"
| "cells_of (Cl_Interrupt p) = {p}"
| "cells_of (Cl_Set p k v) = {p}"
| "cells_of _ = {}"

fun turns_of :: "claude_call \<Rightarrow> nat set" where
  "turns_of (Cl_Write p t blocks) = {t}"
| "turns_of (Cl_Wait p t) = {t}"
| "turns_of _ = {}"

definition cells_ok :: "claude_world \<Rightarrow> bool" where
  "cells_ok w \<longleftrightarrow>
     (\<forall>q<length (y_heap w). (\<forall>t. cp_turn (y_heap w ! q) = Some t \<longrightarrow> t < length (y_turns w))
        \<and> cp_spawned (y_heap w ! q) = cp_cmd (y_heap w ! q))
     \<and> (\<forall>k p. mget (y_procs w) k = Some p \<longrightarrow> p < length (y_heap w) \<and> cp_id (y_heap w ! p) = k)"

definition claude_call_ok :: "claude_world \<Rightarrow> claude_call \<Rightarrow> bool" where
  "claude_call_ok w c \<longleftrightarrow> cells_of c \<subseteq> {..<length (y_heap w)} \<and> turns_of c \<subseteq> {..<length (y_turns w)}
     \<and> (\<forall>p. holds c = Some p \<longrightarrow> y_lock w \<and> \<not> y_closed w \<and> \<not> cp_spawned (y_heap w ! p))"

definition one_holder :: "claude_world \<Rightarrow> bool" where
  "one_holder w \<longleftrightarrow> (\<forall>i<length (y_calls w). \<forall>j<length (y_calls w).
     holds (y_calls w ! i) \<noteq> None \<longrightarrow> holds (y_calls w ! j) \<noteq> None \<longrightarrow> i = j)"

definition claude_wf :: "claude_world \<Rightarrow> bool" where
  "claude_wf w \<longleftrightarrow> cells_ok w \<and> one_holder w \<and> (\<forall>c\<in>set (y_calls w). claude_call_ok w c)"

text \<open>Taking and giving back the mutex.\<close>

lemma ensure_lock:
  "claude_ensure p a w = (c, w') \<Longrightarrow> (w' = w \<and> holds c = None) \<or>
   (w' = w\<lparr>y_lock := True\<rparr> \<and> c = Cl_Build p a \<and> \<not> y_closed w \<and> \<not> cp_spawned (y_heap w ! p))"
  by (auto simp: claude_ensure_def spawn_failed_def after_spawn_def split: if_splits claude_after.splits)

lemma lock_fields [simp]:
  "y_lock (set_proc p v w) = y_lock w" "y_closed (set_proc p v w) = y_closed w"
  "y_lock (add_proc sid v w) = y_lock w" "y_closed (add_proc sid v w) = y_closed w"
  "y_lock (writeLine p doc w) = y_lock w" "y_closed (writeLine p doc w) = y_closed w"
  by (simp_all add: set_proc_def add_proc_def writeLine_def Let_def)

lemma build_lock:
  assumes "claude_build p a s m w = (c, w')"
  shows "y_closed w' = y_closed w \<and> cp_spawned (y_heap w' ! p) = cp_spawned (y_heap w ! p) \<and>
     (holds c = None \<and> \<not> y_lock w' \<or> holds c = Some p \<and> y_lock w' = y_lock w)"
proof -
  obtain r v where e: "buildArgs s m (y_heap w ! p) = (r, v)" by fastforce
  have cell: "cp_spawned (y_heap (set_proc p v w) ! p) = cp_spawned (y_heap w ! p)"
    using build_cell [OF e] by (simp add: nth_set_proc)
  show ?thesis
  proof (cases r)
    case (Inl x)
    then have "w' = (set_proc p v w)\<lparr>y_lock := False\<rparr>" "holds c = None"
      using assms by (auto simp: claude_build_def e spawn_failed_def split: claude_after.splits)
    then show ?thesis using cell by simp
  next
    case (Inr args)
    then have "w' = set_proc p v w" "c = Cl_Spawn p a args" using assms by (simp_all add: claude_build_def e)
    then show ?thesis using cell by simp
  qed
qed

lemma spawn_lock:
  "claude_spawn E p a args f w = (c, w') \<Longrightarrow> y_closed w' = y_closed w \<and> holds c = None \<and> \<not> y_lock w'"
  by (auto simp: claude_spawn_def spawn_failed_def after_spawn_def set_proc_def split: option.splits claude_after.splits)

definition lock_same :: "claude_world \<Rightarrow> claude_call \<times> claude_world \<Rightarrow> bool" where
  "lock_same w r \<longleftrightarrow> holds (fst r) = None \<and> y_lock (snd r) = y_lock w \<and> y_closed (snd r) = y_closed w"

lemma lock_same_ops:
  "lock_same w (claude_new req r w)" "lock_same w (claude_load sid req w)" "lock_same w (claude_load_undo sid e w)"
  "lock_same w (claude_fork sid servers r w)" "lock_same w (claude_begin p blocks w)"
  "lock_same w (claude_interrupt p now w)" "lock_same w (claude_set E p key v w)"
  "lock_same w (claude_kill k p rest errs res w)" "(\<And>p. holds (f p) = None) \<Longrightarrow> lock_same w (with_proc sid f none w)"
  by (auto simp: lock_same_def claude_new_def claude_load_def claude_load_undo_def claude_fork_def claude_begin_def
      claude_interrupt_def claude_set_def claude_kill_def with_proc_def Let_def
      split: sum.splits option.splits prod.splits)

lemma close_next_lock: "claude_close_next rest errs ch w = Some r \<Longrightarrow> lock_same w r"
  using lock_same_ops(8) by (auto simp: claude_close_next_def lock_same_def split: list.splits if_splits claude_choice.splits)

lemma wait_lock: "claude_wait p t ch w = Some c \<Longrightarrow> holds c = None"
  by (auto simp: claude_wait_def claude_outcome_def Let_def split: claude_choice.splits if_splits)

lemma other_lock:
  assumes m: "claude_move E ch c w = Some (c', w')" and c: "holds c = None" "\<And>p a. c \<noteq> Cl_Ensure p a"
  shows "holds c' = None \<and> y_lock w' = y_lock w \<and> (y_closed w' = y_closed w \<or> needs_lock c)"
proof -
  have "lock_same w (c', w') \<or> (\<exists>order. c = Cl_Close order)"
  proof (cases c)
    case (Cl_Close_Next rest errs)
    then show ?thesis using m close_next_lock by (simp add: claude_move_def)
  next
    case (Cl_Wait p t)
    then show ?thesis using m wait_lock by (auto simp: claude_move_def lock_same_def)
  next
    case (Cl_Prompt sid blocks)
    then show ?thesis using m lock_same_ops(9) [of "\<lambda>p. Cl_Ensure p (For_Prompt blocks)" w sid "no_proc sid"]
      by (simp add: claude_move_def split: if_splits)
  next
    case (Cl_Cancel sid)
    then show ?thesis using m lock_same_ops(9) [of Cl_Interrupt w sid Cl_Done]
      by (simp add: claude_move_def split: if_splits)
  next
    case (Cl_Option sid key v)
    then show ?thesis using m lock_same_ops(9) [of "\<lambda>p. Cl_Set p key v" w sid "no_proc sid"]
      by (simp add: claude_move_def split: if_splits)
  next
    case (Cl_New req)
    then obtain r where "claude_new req r w = (c', w')" using m by (auto simp: claude_move_def split: claude_choice.splits)
    then show ?thesis using lock_same_ops(1) by metis
  next
    case (Cl_Fork sid servers)
    then obtain r where "claude_fork sid servers r w = (c', w')" using m by (auto simp: claude_move_def split: claude_choice.splits)
    then show ?thesis using lock_same_ops(4) by metis
  next
    case (Cl_Interrupt p)
    then obtain now where "claude_interrupt p now w = (c', w')" using m by (auto simp: claude_move_def split: claude_choice.splits)
    then show ?thesis using lock_same_ops(6) by metis
  next
    case (Cl_Load sid req)
    then have "claude_load sid req w = (c', w')" using m by (simp add: claude_move_def split: if_splits)
    then show ?thesis using lock_same_ops(2) by metis
  next
    case (Cl_Load_Undo sid e)
    then have "claude_load_undo sid e w = (c', w')" using m by (simp add: claude_move_def split: if_splits)
    then show ?thesis using lock_same_ops(3) by metis
  next
    case (Cl_Turn p blocks)
    then have "claude_begin p blocks w = (c', w')" using m by (simp add: claude_move_def split: if_splits)
    then show ?thesis using lock_same_ops(5) by metis
  next
    case (Cl_Set p key v)
    then have "claude_set E p key v w = (c', w')" using m by (simp add: claude_move_def split: if_splits)
    then show ?thesis using lock_same_ops(7) by metis
  qed (use m c in \<open>auto simp: claude_move_def lock_same_def split: if_splits\<close>)
  then show ?thesis
  proof
    assume "\<exists>order. c = Cl_Close order"
    then show ?thesis using m by (auto simp: claude_move_def claude_close_def split: if_splits)
  qed (simp add: lock_same_def)
qed

lemma ensure_cells: "claude_ensure p a w = (c, w') \<Longrightarrow> cells_of c \<subseteq> {p} \<and> turns_of c = {}"
  by (auto simp: claude_ensure_def spawn_failed_def after_spawn_def split: if_splits claude_after.splits)

lemma build_cells: "claude_build p a s m w = (c, w') \<Longrightarrow> cells_of c \<subseteq> {p} \<and> turns_of c = {}"
  by (auto simp: claude_build_def spawn_failed_def split: prod.splits sum.splits claude_after.splits)

lemma spawn_cells: "claude_spawn E p a args f w = (c, w') \<Longrightarrow> cells_of c \<subseteq> {p} \<and> turns_of c = {}"
  by (auto simp: claude_spawn_def spawn_failed_def after_spawn_def split: option.splits claude_after.splits)

text \<open>The cells and turns a thread names exist: they are those it named before, one of the table, or
new.\<close>

lemma cells_move:
  assumes m: "claude_move E ch c w = Some (c', w')"
  shows "cells_of c' \<subseteq> cells_of c \<union> {p. \<exists>k. mget (y_procs w) k = Some p} \<union> {p. p < length (y_heap w')}
     \<and> turns_of c' \<subseteq> turns_of c \<union> {t. t < length (y_turns w')}"
proof (cases c)
  case (Cl_Ensure q a)
  then have "claude_ensure q a w = (c', w')" using m by (auto simp: claude_move_def split: if_splits)
  from ensure_cells [OF this] Cl_Ensure show ?thesis by auto
next
  case (Cl_Build q a)
  then obtain s x where "claude_build q a s x w = (c', w')"
    using m by (auto simp: claude_move_def split: claude_choice.splits)
  from build_cells [OF this] Cl_Build show ?thesis by auto
next
  case (Cl_Spawn q a args)
  then obtain f where "claude_spawn E q a args f w = (c', w')"
    using m by (auto simp: claude_move_def split: claude_choice.splits)
  from spawn_cells [OF this] Cl_Spawn show ?thesis by auto
next
  case (Cl_Close_Next rest errs)
  then show ?thesis using m
    by (auto simp: claude_move_def claude_close_next_def claude_kill_def Let_def
        split: if_splits list.splits prod.splits claude_choice.splits option.splits)
qed (use m in \<open>auto simp: claude_move_def claude_new_def claude_load_def claude_load_undo_def claude_fork_def
      with_proc_def Let_def claude_begin_def claude_wait_def claude_outcome_def claude_interrupt_def claude_set_def
      claude_close_def add_proc_def
      split: claude_choice.splits if_splits sum.splits option.splits prod.splits\<close>)

text \<open>Worlds with the same threads, lock and tables, in which the cells look the same.\<close>

lemma claude_wf_similar:
  assumes "claude_wf w" "y_calls w' = y_calls w" "y_lock w' = y_lock w" "y_closed w' = y_closed w"
    "y_procs w' = y_procs w" "length (y_heap w') = length (y_heap w)" "length (y_turns w') = length (y_turns w)"
    "\<And>q. cp_turn (y_heap w' ! q) = cp_turn (y_heap w ! q) \<and> cp_spawned (y_heap w' ! q) = cp_spawned (y_heap w ! q)
       \<and> cp_cmd (y_heap w' ! q) = cp_cmd (y_heap w ! q) \<and> cp_id (y_heap w' ! q) = cp_id (y_heap w ! q)"
  shows "claude_wf w'"
  using assms unfolding claude_wf_def cells_ok_def one_holder_def claude_call_ok_def by simp

lemma claude_wf_frame: "claude_wf w \<Longrightarrow> line_frame p w w' \<Longrightarrow> claude_wf w'"
proof (rule claude_wf_similar [of w w'])
  assume f: "line_frame p w w'"
  show "cp_turn (y_heap w' ! q) = cp_turn (y_heap w ! q) \<and> cp_spawned (y_heap w' ! q) = cp_spawned (y_heap w ! q)
       \<and> cp_cmd (y_heap w' ! q) = cp_cmd (y_heap w ! q) \<and> cp_id (y_heap w' ! q) = cp_id (y_heap w ! q)" for q
    using f by (cases "q = p") (simp_all add: line_frame_def)
qed (simp_all add: line_frame_def)

lemma holder_cells:
  assumes m: "claude_move E ch c w = Some (c', w')" and h: "holds c = Some p" and
    s: "cp_spawned (y_heap w ! p) = cp_cmd (y_heap w ! p)" and p: "p < length (y_heap w)"
  shows "cp_spawned (y_heap w' ! p) = cp_cmd (y_heap w' ! p)"
proof (cases c)
  case (Cl_Build q a)
  then obtain t x where "claude_build p a t x w = (c', w')"
    using m h by (auto simp: claude_move_def split: claude_choice.splits)
  from build_frame [OF this] s show ?thesis by (auto simp: nth_set_proc split: if_splits)
next
  case (Cl_Spawn q a args)
  then obtain f where "claude_spawn E p a args f w = (c', w')"
    using m h by (auto simp: claude_move_def split: claude_choice.splits)
  from claude_spawn_move [OF this] s p show ?thesis by (auto simp: nth_set_proc)
qed (use h in simp_all)

lemma move_cells_ok:
  assumes "cells_ok w" "claude_move E ch c w = Some (c', w')"
  shows "cells_ok w'"
proof -
  have k: "cells_kept (holds c) w w'" using kept_move [OF assms(2)] .
  have "(\<forall>t. cp_turn (y_heap w' ! q) = Some t \<longrightarrow> t < length (y_turns w'))
      \<and> cp_spawned (y_heap w' ! q) = cp_cmd (y_heap w' ! q)" if q: "q < length (y_heap w')" for q
  proof (cases "q < length (y_heap w)")
    case True
    have old: "cp_spawned (y_heap w ! q) = cp_cmd (y_heap w ! q)" using assms(1) True by (simp add: cells_ok_def)
    have same: "cp_spawned (y_heap w' ! q) = cp_cmd (y_heap w' ! q)"
    proof (cases "holds c = Some q")
      case h: True
      then show ?thesis by (rule holder_cells [OF assms(2) _ old True])
    next
      case False
      then show ?thesis using keptD(7,8) [OF k True] old by simp
    qed
    have "t < length (y_turns w')" if "cp_turn (y_heap w' ! q) = Some t" for t
      using that keptD(6) [OF k True] keptD(2) [OF k] assms(1) True unfolding cells_ok_def
      by (metis order_less_le_trans option.inject)
    with same show ?thesis by blast
  next
    case False
    then show ?thesis using keptD(10) [OF k _ q] by simp
  qed
  moreover have "q < length (y_heap w') \<and> cp_id (y_heap w' ! q) = n" if "mget (y_procs w') n = Some q" for n q
    using that keptD(11) [OF k that] keptD(1,5) [OF k] assms(1) unfolding cells_ok_def
    by (metis order_less_le_trans)
  ultimately show ?thesis by (simp add: cells_ok_def)
qed

lemma call_ok_move:
  assumes wf: "claude_wf w" and c: "c \<in> set (y_calls w)" and l: "\<not> (y_lock w \<and> needs_lock c)"
    and m: "claude_move E ch c w = Some (c', w')"
  shows "claude_call_ok w' c'"
proof -
  have k: "cells_kept (holds c) w w'" using kept_move [OF m] .
  have ok: "claude_call_ok w c" "cells_ok w" using wf c by (simp_all add: claude_wf_def)
  have le: "length (y_heap w) \<le> length (y_heap w')" "length (y_turns w) \<le> length (y_turns w')"
    using k by (simp_all add: cells_kept_def)
  have "mget (y_procs w) n = Some p \<Longrightarrow> p < length (y_heap w')" for p n
    using ok(2) le unfolding cells_ok_def by (metis order_less_le_trans)
  have bounds: "cells_of c' \<subseteq> {..<length (y_heap w')}" "turns_of c' \<subseteq> {..<length (y_turns w')}"
  proof -
    have "cells_of c \<subseteq> {..<length (y_heap w)}" "turns_of c \<subseteq> {..<length (y_turns w)}"
      using ok(1) by (simp_all add: claude_call_ok_def)
    then have "cells_of c \<subseteq> {..<length (y_heap w')}" "turns_of c \<subseteq> {..<length (y_turns w')}"
      using le by (auto dest: subsetD)
    then show "cells_of c' \<subseteq> {..<length (y_heap w')}" "turns_of c' \<subseteq> {..<length (y_turns w')}"
      using cells_move [OF m] \<open>\<And>p n. mget (y_procs w) n = Some p \<Longrightarrow> p < length (y_heap w')\<close> by blast+
  qed
  have "y_lock w' \<and> \<not> y_closed w' \<and> \<not> cp_spawned (y_heap w' ! p)" if h: "holds c' = Some p" for p
  proof (cases c)
    case (Cl_Ensure q a)
    then have "claude_ensure q a w = (c', w')" using m by (auto simp: claude_move_def split: if_splits)
    from ensure_lock [OF this] h show ?thesis by auto
  next
    case (Cl_Build q a)
    then obtain s x where "claude_build q a s x w = (c', w')"
      using m by (auto simp: claude_move_def split: claude_choice.splits)
    from build_lock [OF this] h Cl_Build ok(1) show ?thesis by (auto simp: claude_call_ok_def)
  next
    case (Cl_Spawn q a args)
    then obtain f where "claude_spawn E q a args f w = (c', w')"
      using m by (auto simp: claude_move_def split: claude_choice.splits)
    from spawn_lock [OF this] h show ?thesis by simp
  qed (use other_lock [OF m] h in \<open>simp_all\<close>)
  with bounds show ?thesis by (simp add: claude_call_ok_def)
qed

lemma call_ok_others:
  assumes wf: "claude_wf w" and i: "i < length (y_calls w)" and l: "\<not> (y_lock w \<and> needs_lock (y_calls w ! i))"
    and m: "claude_move E ch (y_calls w ! i) w = Some (c', w')"
    and j: "j < length (y_calls w)" "j \<noteq> i"
  shows "claude_call_ok w' (y_calls w ! j)" "holds (y_calls w ! j) \<noteq> None \<Longrightarrow> holds c' = None"
proof -
  let ?c = "y_calls w ! i" and ?d = "y_calls w ! j"
  have k: "cells_kept (holds ?c) w w'" using kept_move [OF m] .
  have okd: "claude_call_ok w ?d" using wf j by (simp add: claude_wf_def)
  have other: "y_lock w' \<and> \<not> y_closed w' \<and> \<not> cp_spawned (y_heap w' ! p) \<and> holds c' = None" if h: "holds ?d = Some p" for p
  proof -
    have w: "y_lock w" "\<not> y_closed w" "\<not> cp_spawned (y_heap w ! p)" using okd h by (simp_all add: claude_call_ok_def)
    have p: "p < length (y_heap w)" using okd h by (cases ?d) (simp_all add: claude_call_ok_def)
    have n: "holds ?c = None" using wf i j h unfolding claude_wf_def one_holder_def by blast
    have e: "?c \<noteq> Cl_Ensure q a" for q a using l w(1) by auto
    from other_lock [OF m n e] l w k n p show ?thesis by (auto simp: cells_kept_def)
  qed
  have "cells_of ?d \<subseteq> {..<length (y_heap w')}" "turns_of ?d \<subseteq> {..<length (y_turns w')}"
    using okd k by (auto simp: claude_call_ok_def cells_kept_def)
  then show "claude_call_ok w' ?d" using other by (simp add: claude_call_ok_def)
  show "holds ?d \<noteq> None \<Longrightarrow> holds c' = None" using other by blast
qed

lemma claude_call_ok_calls [simp]: "claude_call_ok (w\<lparr>y_calls := cs\<rparr>) c = claude_call_ok w c"
  by (simp add: claude_call_ok_def)

lemma cells_ok_calls [simp]: "cells_ok (w\<lparr>y_calls := cs\<rparr>) = cells_ok w"
  by (simp add: cells_ok_def)

lemma at_most_one_update:
  assumes "\<forall>j<length xs. \<forall>k<length xs. P (xs ! j) \<longrightarrow> P (xs ! k) \<longrightarrow> j = k"
    "\<And>j. j < length xs \<Longrightarrow> j \<noteq> i \<Longrightarrow> P (xs ! j) \<Longrightarrow> \<not> P x"
  shows "\<forall>j<length (xs[i := x]). \<forall>k<length (xs[i := x]). P (xs[i := x] ! j) \<longrightarrow> P (xs[i := x] ! k) \<longrightarrow> j = k"
proof (intro allI impI)
  fix j k assume "j < length (xs[i := x])" "k < length (xs[i := x])" "P (xs[i := x] ! j)" "P (xs[i := x] ! k)"
  then show "j = k"
    using assms(1) assms(2) [of j] assms(2) [of k] by (cases "j = i"; cases "k = i") simp_all
qed

lemma select_update: "y_calls (u\<lparr>y_calls := cs\<rparr>) = cs"
  by simp

lemma step_wf:
  assumes wf: "claude_wf w" and i: "i < length (y_calls w)" and l: "\<not> (y_lock w \<and> needs_lock (y_calls w ! i))"
    and m: "claude_move E ch (y_calls w ! i) w = Some (c', u)"
  shows "claude_wf (u\<lparr>y_calls := (y_calls u)[i := c']\<rparr>)"
proof -
  have calls: "y_calls u = y_calls w" using kept_move [OF m] by (simp add: cells_kept_def)
  have c': "claude_call_ok u c'" using call_ok_move [OF wf _ l m] i by simp
  have others: "claude_call_ok u (y_calls w ! j)" "holds (y_calls w ! j) \<noteq> None \<Longrightarrow> holds c' = None"
    if "j < length (y_calls w)" "j \<noteq> i" for j using call_ok_others [OF wf i l m that] .
  have "one_holder (u\<lparr>y_calls := (y_calls u)[i := c']\<rparr>)"
    unfolding one_holder_def select_update calls
  proof (rule at_most_one_update)
    show "\<forall>j<length (y_calls w). \<forall>k<length (y_calls w).
        holds (y_calls w ! j) \<noteq> None \<longrightarrow> holds (y_calls w ! k) \<noteq> None \<longrightarrow> j = k"
      using wf unfolding claude_wf_def one_holder_def by (elim conjE)
    show "\<not> holds c' \<noteq> None" if "j < length (y_calls w)" "j \<noteq> i" "holds (y_calls w ! j) \<noteq> None" for j
      using others(2) [OF that] by simp
  qed
  moreover have "claude_call_ok u d" if d: "d \<in> set ((y_calls w)[i := c'])" for d
  proof -
    obtain j where j: "j < length (y_calls w)" "(y_calls w)[i := c'] ! j = d"
      using d unfolding in_set_conv_nth by auto
    show ?thesis
    proof (cases "j = i")
      case True
      then have "d = c'" using j i by simp
      then show ?thesis using c' by simp
    next
      case False
      then have "d = y_calls w ! j" using j(2) by simp
      then show ?thesis using others(1) [OF j(1) False] by simp
    qed
  qed
  moreover have "cells_ok u" using move_cells_ok [OF _ m] wf by (simp add: claude_wf_def)
  ultimately show ?thesis unfolding claude_wf_def select_update calls by simp
qed

lemma claude_exec_wf:
  assumes wf: "claude_wf w" and e: "claude_exec E et a w = Some w'"
  shows "claude_wf w'"
proof (cases a)
  case (Cl_Enter c)
  then have c: "claude_entry c" "w' = w\<lparr>y_calls := y_calls w @ [c]\<rparr>" using e by (auto split: if_splits)
  then have "holds c = None" "cells_of c = {}" "turns_of c = {}" by (cases c; simp)+
  moreover from this have "one_holder w'" using wf by (auto simp: claude_wf_def one_holder_def c nth_append)
  ultimately show ?thesis using wf by (simp add: claude_wf_def c) (simp add: claude_call_ok_def)
next
  case (Cl_Step i ch)
  then obtain c u where "i < length (y_calls w)" "\<not> (y_lock w \<and> needs_lock (y_calls w ! i))"
    "claude_move E ch (y_calls w ! i) w = Some (c, u)" "w' = u\<lparr>y_calls := (y_calls u)[i := c]\<rparr>"
    using e by (auto split: if_splits)
  then show ?thesis using step_wf [OF wf] by simp
next
  case (Cl_Line p ev)
  then show ?thesis using e claude_wf_frame [OF wf claude_line_frame] by (auto split: if_splits)
next
  case (Cl_Answer p dec)
  then obtain doc where "w' = writeLine p doc (set_proc p ((y_heap w ! p)\<lparr>cp_asking := None\<rparr>) w)"
    using e by (auto split: if_splits option.splits prod.splits)
  then have "line_frame p w w'" using line_frame_trans [OF frame_set_proc frame_write, of _ w p] by simp
  then show ?thesis by (rule claude_wf_frame [OF wf])
next
  case (Cl_EOF p)
  then have w': "w' = set_proc p ((y_heap w ! p)\<lparr>cp_eof := True, cp_exited := True\<rparr>) w"
    using e by (auto split: if_splits)
  show ?thesis unfolding w'
    by (rule claude_wf_similar [OF wf]) (auto simp: nth_set_proc, auto simp: set_proc_def)
qed

lemma claude_init_wf: "claude_wf claude_init"
  by (simp add: claude_wf_def claude_init_def cells_ok_def one_holder_def)

interpretation claude: step_invariant "claude_exec E et" claude_wf for E et
  by unfold_locales (rule claude_exec_wf)

lemma claude_reach_wf: "reach (claude_exec E et) claude_init w \<Longrightarrow> claude_wf w"
  by (metis claude.reachable claude_init_wf)

end
