(* ===== verification/Native_Codex_Laws.thy ===== *)
theory Native_Codex_Laws
  imports Native_Codex
begin

text \<open>
  The invariant of the codex engine: addresses exist, a turn is finished exactly when its channel
  is closed, every process with a completed handshake is in the table under its key until it has
  been stopped, and no two of them have one key.
\<close>

section \<open>Well-formedness\<close>

text \<open>A live entry: a daemon that exists, has been handshaken, and has the key.\<close>

definition keyed :: "codex_world \<Rightarrow> string \<Rightarrow> nat \<Rightarrow> bool" where
  "keyed w k d \<longleftrightarrow> d < length (x_daemons w) \<and> cd_ready (x_daemons w ! d) \<and> cd_key (x_daemons w ! d) = k"

definition codex_turn_ok :: "codex_turn \<Rightarrow> bool" where
  "codex_turn_ok v \<longleftrightarrow> ct_finished v = ct_done v \<and> (\<not> ct_finished v \<longrightarrow> ct_err v = None \<and> ct_stop v = ''end_turn'')"

definition codex_turns_ok :: "codex_world \<Rightarrow> bool" where
  "codex_turns_ok w \<longleftrightarrow> (\<forall>t<length (x_turns w). codex_turn_ok (x_turns w ! t))
     \<and> (\<forall>d<length (x_daemons w). \<forall>th t. turn_at d th w = Some t \<longrightarrow> t < length (x_turns w))
     \<and> (\<forall>d<length (x_daemons w). \<forall>e<length (x_daemons w). \<forall>th th' t.
          turn_at d th w = Some t \<longrightarrow> turn_at e th' w = Some t \<longrightarrow> d = e \<and> th = th')
     \<and> \<not> x_panic w"

definition pool_ok :: "codex_world \<Rightarrow> bool" where
  "pool_ok w \<longleftrightarrow> (\<forall>k d. mget (x_table w) k = Some d \<longrightarrow> keyed w k d)
     \<and> (\<forall>k d. keyed w k d \<longrightarrow> \<not> x_closed w \<or> \<not> cd_stopped (x_daemons w ! d) \<longrightarrow> mget (x_table w) k = Some d)
     \<and> (\<forall>k d d'. keyed w k d \<longrightarrow> keyed w k d' \<longrightarrow> d = d')
     \<and> (\<forall>p\<in>set (x_sessions w). keyed w (cs_key (snd p)) (cs_daemon (snd p)))"

definition pending_ok :: "codex_world \<Rightarrow> (string \<times> nat) list \<Rightarrow> go_error option list \<Rightarrow> bool" where
  "pending_ok w rest errs \<longleftrightarrow> x_closed w \<and> (\<forall>p\<in>set rest. keyed w (fst p) (snd p)) \<and> None \<notin> set errs
     \<and> (errs = [] \<longrightarrow> (\<forall>k d. mget (x_table w) k = Some d \<longrightarrow> (k, d) \<in> set rest))"

fun call_ok :: "codex_world \<Rightarrow> codex_call \<Rightarrow> bool" where
  "call_ok w (Cx_New_Thread d model key) = keyed w key d"
| "call_ok w (Cx_Load_Thread d sid key) = keyed w key d"
| "call_ok w (Cx_Prompt_Lock d th blocks) = (d < length (x_daemons w))"
| "call_ok w (Cx_Prompt_Call d th t) = (d < length (x_daemons w) \<and> t < length (x_turns w))"
| "call_ok w (Cx_Prompt_Watch d th t) = (d < length (x_daemons w) \<and> t < length (x_turns w))"
| "call_ok w (Cx_Prompt_Select d t ch) = (d < length (x_daemons w) \<and> t < length (x_turns w))"
| "call_ok w (Cx_Prompt_Read t) = (t < length (x_turns w))"
| "call_ok w (Cx_Interrupt d th) = (d < length (x_daemons w))"
| "call_ok w (Cx_Close_Next rest errs) = pending_ok w rest errs"
| "call_ok w (Cx_Close_Kill k d rest errs) = pending_ok w ((k, d) # rest) errs"
| "call_ok w (Cx_Ended r) = (r = Cx_Closed \<longrightarrow> x_closed w \<and> (\<forall>k. mget (x_table w) k = None))"
| "call_ok w _ = True"

definition codex_wf :: "codex_world \<Rightarrow> bool" where
  "codex_wf w \<longleftrightarrow> codex_turns_ok w \<and> pool_ok w \<and> (\<forall>c\<in>set (x_calls w). call_ok w c)"

section \<open>Growth\<close>

text \<open>What no step undoes.\<close>

definition codex_later :: "codex_world \<Rightarrow> codex_world \<Rightarrow> bool" where
  "codex_later w w' \<longleftrightarrow> length (x_turns w) \<le> length (x_turns w')
     \<and> length (x_daemons w) \<le> length (x_daemons w')
     \<and> (\<forall>k d. keyed w k d \<longrightarrow> keyed w' k d)
     \<and> (x_closed w \<longrightarrow> x_closed w' \<and> (\<forall>k d. mget (x_table w') k = Some d \<longrightarrow> mget (x_table w) k = Some d))"

lemma codex_later_refl [simp, intro]: "codex_later w w"
  by (simp add: codex_later_def)

lemma codex_later_trans: "codex_later u v \<Longrightarrow> codex_later v w \<Longrightarrow> codex_later u w"
  unfolding codex_later_def by (meson le_trans)

lemma pending_later: "pending_ok w rest errs \<Longrightarrow> codex_later w w' \<Longrightarrow> pending_ok w' rest errs"
  unfolding pending_ok_def codex_later_def by blast

lemma call_later: "call_ok w c \<Longrightarrow> codex_later w w' \<Longrightarrow> call_ok w' c"
proof (induction w c rule: call_ok.induct)
  case (11 w r)
  then show ?case unfolding codex_later_def by auto
qed (auto simp: codex_later_def intro: pending_later)

text \<open>Worlds that differ only in the turn tables, the turns and what the pool does not look at.\<close>

definition same_pool :: "codex_world \<Rightarrow> codex_world \<Rightarrow> bool" where
  "same_pool w w' \<longleftrightarrow> length (x_daemons w') = length (x_daemons w)
     \<and> (\<forall>d<length (x_daemons w). cd_key (x_daemons w' ! d) = cd_key (x_daemons w ! d)
          \<and> cd_ready (x_daemons w' ! d) = cd_ready (x_daemons w ! d)
          \<and> cd_stopped (x_daemons w' ! d) = cd_stopped (x_daemons w ! d))
     \<and> x_table w' = x_table w \<and> x_sessions w' = x_sessions w \<and> x_closed w' = x_closed w
     \<and> length (x_turns w) \<le> length (x_turns w') \<and> x_calls w' = x_calls w"

lemma same_pool_refl [simp, intro]: "same_pool w w"
  by (simp add: same_pool_def)

lemma same_pool_keyed: "same_pool w w' \<Longrightarrow> keyed w' k d = keyed w k d"
  by (auto simp: same_pool_def keyed_def)

lemma same_pool_later: "same_pool w w' \<Longrightarrow> codex_later w w'"
  using same_pool_keyed [of w w'] by (simp add: codex_later_def) (simp add: same_pool_def)

lemma same_pool_pool: "same_pool w w' \<Longrightarrow> pool_ok w \<Longrightarrow> pool_ok w'"
  using same_pool_keyed [of w w'] unfolding pool_ok_def
  by (auto simp: same_pool_def keyed_def)

lemma same_pool_simps [simp]:
  "same_pool w (set_codex_turn t v w)" "same_pool w (codex_send d m p w)" "same_pool w (codex_emit th u w)"
  "same_pool w (w\<lparr>x_panic := b\<rparr>)"
  by (simp_all add: same_pool_def set_codex_turn_def codex_send_def codex_emit_def)

lemma nth_set_daemon:
  "x_daemons (set_daemon d v w) ! e = (if e = d \<and> d < length (x_daemons w) then v else x_daemons w ! e)"
  by (auto simp: set_daemon_def list_update_beyond)

lemma same_pool_daemon:
  "cd_key v = cd_key (x_daemons w ! d) \<Longrightarrow> cd_ready v = cd_ready (x_daemons w ! d) \<Longrightarrow>
   cd_stopped v = cd_stopped (x_daemons w ! d) \<Longrightarrow> same_pool w (set_daemon d v w)"
  unfolding same_pool_def nth_set_daemon by (simp add: set_daemon_def)

lemma same_pool_trans: "same_pool u v \<Longrightarrow> same_pool v w \<Longrightarrow> same_pool u w"
  unfolding same_pool_def by auto

section \<open>Turns\<close>

text \<open>Storing a turn whose channel is closed exactly when it is finished.\<close>

lemma turn_at_simps [simp]:
  "turn_at d th (set_codex_turn t v w) = turn_at d th w"
  "turn_at d th (codex_send d' m p w) = turn_at d th w"
  "turn_at d th (codex_emit th' u w) = turn_at d th w"
  "turn_at d th (w\<lparr>x_panic := b\<rparr>) = turn_at d th w"
  "turn_at d th (w\<lparr>x_calls := cs\<rparr>) = turn_at d th w"
  by (simp_all add: turn_at_def set_codex_turn_def codex_send_def codex_emit_def)

lemma codex_turns_ok_set:
  assumes "codex_turns_ok w" "codex_turn_ok v"
  shows "codex_turns_ok (set_codex_turn t v w)"
proof -
  have "codex_turn_ok (x_turns (set_codex_turn t v w) ! s)"
    if "s < length (x_turns w)" for s
    using assms that by (cases "s = t") (simp_all add: codex_turns_ok_def set_codex_turn_def)
  with assms(1) show ?thesis
    by (simp add: codex_turns_ok_def) (simp add: set_codex_turn_def)
qed

lemma codex_turns_ok_table: "codex_turns_ok w \<Longrightarrow> d < length (x_daemons w) \<Longrightarrow> turn_at d th w = Some t \<Longrightarrow> t < length (x_turns w)"
  by (simp add: codex_turns_ok_def)

lemma codex_turns_ok_inj:
  "codex_turns_ok w \<Longrightarrow> d < length (x_daemons w) \<Longrightarrow> e < length (x_daemons w) \<Longrightarrow> turn_at d th w = Some t \<Longrightarrow>
   turn_at e th' w = Some t \<Longrightarrow> d = e \<and> th = th'"
  unfolding codex_turns_ok_def by blast

lemma turns_okI:
  assumes "\<And>t. t < length (x_turns w) \<Longrightarrow> codex_turn_ok (x_turns w ! t)"
    "\<And>d th t. d < length (x_daemons w) \<Longrightarrow> turn_at d th w = Some t \<Longrightarrow> t < length (x_turns w)"
    "\<And>d e th th' t. d < length (x_daemons w) \<Longrightarrow> e < length (x_daemons w) \<Longrightarrow> turn_at d th w = Some t \<Longrightarrow>
       turn_at e th' w = Some t \<Longrightarrow> d = e \<and> th = th'"
    "\<not> x_panic w"
  shows "codex_turns_ok w"
  using assms unfolding codex_turns_ok_def by blast

lemma codex_turns_ok_daemon:
  assumes "codex_turns_ok w" "\<And>th t. mget (cd_turns v) th = Some t \<Longrightarrow> turn_at d th w = Some t"
  shows "codex_turns_ok (set_daemon d v w)"
proof -
  have sub: "turn_at e th w = Some t" if "turn_at e th (set_daemon d v w) = Some t" for e th t
    using that assms(2) [of th t] by (auto simp: turn_at_def nth_set_daemon split: if_splits)
  have len: "length (x_daemons (set_daemon d v w)) = length (x_daemons w)"
    "x_turns (set_daemon d v w) = x_turns w" "x_panic (set_daemon d v w) = x_panic w"
    by (simp_all add: set_daemon_def)
  show ?thesis
  proof (rule turns_okI)
    show "e = e' \<and> th = th'" if "e < length (x_daemons (set_daemon d v w))" "e' < length (x_daemons (set_daemon d v w))"
        "turn_at e th (set_daemon d v w) = Some t" "turn_at e' th' (set_daemon d v w) = Some t" for e e' th th' t
      using that codex_turns_ok_inj [OF assms(1), of e e' th t th'] sub [of e th t] sub [of e' th' t] by (simp add: len)
    show "t < length (x_turns (set_daemon d v w))" if "e < length (x_daemons (set_daemon d v w))"
        "turn_at e th (set_daemon d v w) = Some t" for e th t
      using codex_turns_ok_table [OF assms(1), of e th t] sub [OF that(2)] that(1) by (simp add: len)
  qed (use assms(1) in \<open>simp_all add: len codex_turns_ok_def\<close>)
qed

lemma codex_turns_ok_peerDone:
  "codex_turns_ok w \<Longrightarrow> codex_turns_ok (set_daemon d ((x_daemons w ! d)\<lparr>cd_peerDone := b\<rparr>) w)"
  by (intro codex_turns_ok_daemon) (auto simp: turn_at_def)

lemma codex_turns_ok_simps [simp]:
  "codex_turns_ok (codex_send d m p w) = codex_turns_ok w" "codex_turns_ok (codex_emit th u w) = codex_turns_ok w"
  "codex_turns_ok (w\<lparr>x_calls := cs\<rparr>) = codex_turns_ok w"
  by (simp_all add: codex_turns_ok_def codex_send_def codex_emit_def turn_at_def)

lemma settle_ok:
  assumes "codex_turns_ok w" "d < length (x_daemons w)" "turn_at d th w = Some t"
    "\<not> ct_finished (x_turns w ! t)" "ct_finished v" "ct_done v"
  shows "codex_turns_ok ((set_codex_turn t v w)\<lparr>x_panic := x_panic w \<or> ct_done (x_turns w ! t)\<rparr>)"
proof -
  have t: "t < length (x_turns w)" "\<not> ct_done (x_turns w ! t)" "\<not> x_panic w"
    using assms unfolding codex_turns_ok_def codex_turn_ok_def by auto
  then have "(set_codex_turn t v w)\<lparr>x_panic := x_panic w \<or> ct_done (x_turns w ! t)\<rparr> = set_codex_turn t v w"
    by (simp add: set_codex_turn_def)
  then show ?thesis using codex_turns_ok_set [of w v t] assms by (simp add: codex_turn_ok_def)
qed

lemma settleTurn_ok:
  assumes "codex_turns_ok w" "d < length (x_daemons w)"
  shows "codex_turns_ok (settleTurn d th stop err w)" "same_pool w (settleTurn d th stop err w)"
proof -
  show "codex_turns_ok (settleTurn d th stop err w)"
    using assms unfolding settleTurn_def Let_def
    by (auto split: option.splits intro!: settle_ok)
  show "same_pool w (settleTurn d th stop err w)"
    unfolding settleTurn_def Let_def by (auto split: option.splits intro: same_pool_trans [OF same_pool_simps(1) same_pool_simps(4)])
qed

lemma on_error_ok:
  assumes "codex_turns_ok w" "d < length (x_daemons w)"
  shows "codex_turns_ok (on_error d th msg err w)" "same_pool w (on_error d th msg err w)"
proof -
  show "codex_turns_ok (on_error d th msg err w)"
    using assms unfolding on_error_def Let_def
    by (auto split: option.splits intro!: settle_ok)
  show "same_pool w (on_error d th msg err w)"
    unfolding on_error_def Let_def by (auto split: option.splits intro: same_pool_trans [OF same_pool_simps(1) same_pool_simps(4)])
qed

lemma on_turn_completed_ok:
  assumes "codex_turns_ok w" "d < length (x_daemons w)"
  shows "codex_turns_ok (on_turn_completed d th st m w)" "same_pool w (on_turn_completed d th st m w)"
proof -
  note first = settleTurn_ok [OF assms, of th "''end_turn''" None]
  have "d < length (x_daemons (settleTurn d th ''end_turn'' None w))"
    using first(2) assms(2) by (simp add: same_pool_def)
  note second = settleTurn_ok [OF first(1) this]
  show "codex_turns_ok (on_turn_completed d th st m w)" "same_pool w (on_turn_completed d th st m w)"
    unfolding on_turn_completed_def Let_def
    using first second by (auto intro: same_pool_trans)
qed

lemma codex_notify_ok:
  assumes "codex_turns_ok w" "d < length (x_daemons w)"
  shows "codex_turns_ok (codex_notify d ev w) \<and> same_pool w (codex_notify d ev w)"
proof (cases ev)
  case (Agent_Delta th item delta)
  have ok: "codex_turns_ok (set_codex_turn t ((x_turns w ! t)\<lparr>ct_deltas := D\<rparr>) w)" if "turn_at d th w = Some t" for t D
    using assms that by (intro codex_turns_ok_set) (auto simp: codex_turns_ok_def codex_turn_ok_def)
  show ?thesis unfolding Agent_Delta
    using assms ok by (auto simp: on_agent_delta_def split: option.splits intro: same_pool_trans [OF same_pool_simps(1) same_pool_simps(3)])
next
  case (Raw_Completed th a b c d' e f)
  have ok: "codex_turns_ok (set_codex_turn t ((x_turns w ! t)\<lparr>ct_usage := u\<rparr>) w)" if "turn_at d th w = Some t" for t u
    using assms that by (intro codex_turns_ok_set) (auto simp: codex_turns_ok_def codex_turn_ok_def)
  show ?thesis unfolding Raw_Completed
    using assms ok by (auto simp: on_raw_completed_def split: option.splits)
qed (use assms in \<open>auto simp: on_item_started_def on_item_completed_def on_error_ok on_turn_completed_ok\<close>)

section \<open>The pool\<close>

lemma keyed_append:
  "keyed (w\<lparr>x_daemons := x_daemons w @ [v]\<rparr>) k d \<longleftrightarrow>
     keyed w k d \<or> (d = length (x_daemons w) \<and> cd_ready v \<and> cd_key v = k)"
  by (auto simp: keyed_def nth_append less_Suc_eq)

lemma keyed_simps [simp]:
  "keyed (w\<lparr>x_table := tb\<rparr>) k d = keyed w k d"
  "keyed (w\<lparr>x_sessions := ss\<rparr>) k d = keyed w k d"
  "keyed (w\<lparr>x_closed := b\<rparr>) k d = keyed w k d"
  "keyed (codex_send d' m p w) k d = keyed w k d"
  by (simp_all add: keyed_def codex_send_def)

lemma pool_ok_calls [simp]: "pool_ok (w\<lparr>x_calls := cs\<rparr>) = pool_ok w"
  by (simp add: pool_ok_def keyed_def)

lemma codex_turns_ok_append:
  "codex_turns_ok w \<Longrightarrow> cd_turns v = [] \<Longrightarrow> codex_turns_ok (w\<lparr>x_daemons := x_daemons w @ [v]\<rparr>)"
  unfolding codex_turns_ok_def by (simp add: turn_at_def nth_append less_Suc_eq)

lemma codex_turns_ok_pool_fields [simp]:
  "codex_turns_ok (w\<lparr>x_table := tb\<rparr>) = codex_turns_ok w" "codex_turns_ok (w\<lparr>x_sessions := ss\<rparr>) = codex_turns_ok w"
  "codex_turns_ok (w\<lparr>x_closed := b\<rparr>) = codex_turns_ok w"
  by (simp_all add: codex_turns_ok_def turn_at_def)

lemma pool_okI:
  assumes "\<And>k d. mget (x_table w) k = Some d \<Longrightarrow> keyed w k d"
    "\<And>k d. keyed w k d \<Longrightarrow> \<not> x_closed w \<or> \<not> cd_stopped (x_daemons w ! d) \<Longrightarrow> mget (x_table w) k = Some d"
    "\<And>k d d'. keyed w k d \<Longrightarrow> keyed w k d' \<Longrightarrow> d = d'"
    "\<And>p. p \<in> set (x_sessions w) \<Longrightarrow> keyed w (cs_key (snd p)) (cs_daemon (snd p))"
  shows "pool_ok w"
  using assms unfolding pool_ok_def by blast

lemma pool_okD:
  assumes "pool_ok w"
  shows "mget (x_table w) k = Some d \<Longrightarrow> keyed w k d"
    "keyed w k d \<Longrightarrow> \<not> x_closed w \<or> \<not> cd_stopped (x_daemons w ! d) \<Longrightarrow> mget (x_table w) k = Some d"
    "keyed w k d \<Longrightarrow> keyed w k d' \<Longrightarrow> d = d'"
    "p \<in> set (x_sessions w) \<Longrightarrow> keyed w (cs_key (snd p)) (cs_daemon (snd p))"
  using assms unfolding pool_ok_def by blast+

lemma keyed_bound: "keyed w k d \<Longrightarrow> d < length (x_daemons w)"
  by (simp add: keyed_def)

lemma pool_append_unready:
  assumes "pool_ok w" "\<not> cd_ready v"
  shows "pool_ok (w\<lparr>x_daemons := x_daemons w @ [v]\<rparr>)" "codex_later w (w\<lparr>x_daemons := x_daemons w @ [v]\<rparr>)"
proof -
  let ?u = "w\<lparr>x_daemons := x_daemons w @ [v]\<rparr>"
  have k: "keyed ?u k d = keyed w k d" for k d using assms(2) by (simp add: keyed_append)
  have n: "keyed w k d \<Longrightarrow> x_daemons ?u ! d = x_daemons w ! d" for k d
    by (simp add: keyed_def nth_append)
  show "pool_ok ?u"
  proof (rule pool_okI)
    show "mget (x_table ?u) k = Some d" if "keyed ?u k d" "\<not> x_closed ?u \<or> \<not> cd_stopped (x_daemons ?u ! d)" for k d
      using that pool_okD(2) [OF assms(1), of k d] n [of k d] by (simp add: k)
  qed (use assms(1) in \<open>auto simp: k dest: pool_okD\<close>)
  show "codex_later w ?u" by (simp add: codex_later_def k)
qed

lemma pool_append_ready:
  assumes "pool_ok w" "cd_ready v" "\<not> x_closed w" "mget (x_table w) (cd_key v) = None"
  defines "u \<equiv> w\<lparr>x_daemons := x_daemons w @ [v], x_table := mput (cd_key v) (length (x_daemons w)) (x_table w)\<rparr>"
  shows "pool_ok u" "codex_later w u" "keyed u (cd_key v) (length (x_daemons w))"
proof -
  have k: "keyed u k d \<longleftrightarrow> keyed w k d \<or> d = length (x_daemons w) \<and> cd_key v = k" for k d
    using assms(2) keyed_append [of w v k d] by (simp add: u_def keyed_def)
  have tab: "mget (x_table u) k = (if k = cd_key v then Some (length (x_daemons w)) else mget (x_table w) k)" for k
    by (simp add: u_def)
  have rest: "x_sessions u = x_sessions w" "x_closed u = x_closed w" by (simp_all add: u_def)
  have fresh: "\<not> keyed w (cd_key v) d" for d
    using pool_okD(2) [OF assms(1), of "cd_key v" d] assms(3,4) by auto
  show "pool_ok u"
  proof (rule pool_okI)
    show "keyed u k d" if "mget (x_table u) k = Some d" for k d
      using that pool_okD(1) [OF assms(1), of k d] by (auto simp: k tab split: if_splits)
    show "mget (x_table u) k = Some d" if "keyed u k d" for k d
      using that pool_okD(2) [OF assms(1), of k d] fresh [of d] assms(3) by (auto simp: k tab)
    show "d = d'" if "keyed u k d" "keyed u k d'" for k d d'
      using that pool_okD(3) [OF assms(1), of k d d'] fresh by (auto simp: k)
    show "keyed u (cs_key (snd p)) (cs_daemon (snd p))" if "p \<in> set (x_sessions u)" for p
      using that pool_okD(4) [OF assms(1), of p] by (simp add: k rest)
  qed
  show "codex_later w u" using assms(3) by (simp add: codex_later_def k) (simp add: u_def)
  show "keyed u (cd_key v) (length (x_daemons w))" by (simp add: k)
qed

lemma ensureDaemon_ok:
  assumes "codex_turns_ok w" "pool_ok w" "ensureDaemon E key servers fault stop w = (r, w')"
  shows "codex_turns_ok w' \<and> pool_ok w' \<and> codex_later w w' \<and> x_calls w' = x_calls w
     \<and> (\<forall>d. r = Inr d \<longrightarrow> keyed w' key d)"
proof (cases "x_closed w \<or> mget (x_table w) key \<noteq> None")
  case True
  then have "w' = w" "\<forall>d. r = Inr d \<longrightarrow> mget (x_table w) key = Some d"
    using assms(3) by (auto simp: ensureDaemon_def split: if_splits)
  then show ?thesis using assms(1,2) pool_okD(1) [OF assms(2)] by simp
next
  case False
  show ?thesis
  proof (cases "codex_spawn fault")
    case None
    let ?v = "new_daemon E key servers"
    have v: "cd_ready ?v" "cd_key ?v = key" "cd_turns ?v = []" by (simp_all add: new_daemon_def)
    have w': "w' = w\<lparr>x_daemons := x_daemons w @ [?v], x_table := mput key (length (x_daemons w)) (x_table w)\<rparr>"
      and r: "r = Inr (length (x_daemons w))"
      using assms(3) False None by (simp_all add: ensureDaemon_def)
    have "codex_turns_ok w'" unfolding w' using codex_turns_ok_append [OF assms(1) v(3)] by simp
    then show ?thesis
      using pool_append_ready [OF assms(2) v(1)] False by (simp add: w' r v)
  next
    case (Some e)
    let ?v = "(new_daemon E key servers)\<lparr>cd_cmd := process_started fault, cd_peerDone := True,
                  cd_stopped := (stop = None), cd_ready := False\<rparr>"
    have w': "w' = w\<lparr>x_daemons := x_daemons w @ [?v]\<rparr>" and r: "r = Inl e"
      using assms(3) False Some by (simp_all add: ensureDaemon_def)
    have "codex_turns_ok w'" unfolding w' using assms(1) by (intro codex_turns_ok_append) (simp_all add: new_daemon_def)
    then show ?thesis using pool_append_unready [OF assms(2), of ?v] by (simp add: w' r)
  qed
qed

lemma set_mput_subset: "set (mput k v m) \<subseteq> insert (k, v) (set m)"
  by (induction m) auto

lemma put_session_ok:
  assumes "codex_turns_ok w" "pool_ok w" "keyed w key d"
  shows "codex_turns_ok (put_session th d model key w)" "pool_ok (put_session th d model key w)"
    "codex_later w (put_session th d model key w)"
proof -
  show "codex_turns_ok (put_session th d model key w)" using assms(1) by (simp add: put_session_def)
  show "pool_ok (put_session th d model key w)"
  proof (rule pool_okI, goal_cases)
    case (2 k d) then show ?case using pool_okD(2) [OF assms(2), of k d] by (simp add: put_session_def)
  next
    case (4 p)
    have "p \<in> set (x_sessions w) \<or> snd p = \<lparr>cs_daemon = d, cs_threadID = th, cs_model = model, cs_key = key\<rparr>"
      using 4 set_mput_subset [of th _ "x_sessions w"] by (fastforce simp: put_session_def)
    then show ?case using pool_okD(4) [OF assms(2), of p] assms(3) by (auto simp: put_session_def)
  qed (auto simp: put_session_def dest: pool_okD [OF assms(2)])
  show "codex_later w (put_session th d model key w)" by (simp add: put_session_def codex_later_def)
qed

section \<open>Closing\<close>

lemma mget_range_order:
  "(k, d) \<in> set (map (\<lambda>k. (k, the (mget m k))) (range_order order m)) \<longleftrightarrow> mget m k = Some d"
proof -
  have "set (range_order order m) = mkeys m" by (auto simp: range_order_def)
  then show ?thesis using mget_eq_None [of m k] by (auto simp: image_iff)
qed

lemma codex_close_ok:
  assumes "codex_turns_ok w" "pool_ok w" "codex_close order w = (c, w')"
  shows "codex_turns_ok w' \<and> pool_ok w' \<and> codex_later w w' \<and> call_ok w' c"
proof -
  let ?l = "map (\<lambda>k. (k, the (mget (x_table w) k))) (range_order order (x_table w))"
  have w': "w' = w\<lparr>x_closed := True\<rparr>" and c: "c = Cx_Close_Next ?l []"
    using assms(3) by (simp_all add: codex_close_def)
  have "pool_ok w'"
  proof (rule pool_okI, goal_cases)
    case (2 k d) then show ?case using pool_okD(2) [OF assms(2), of k d] by (simp add: w')
  qed (auto simp: w' dest: pool_okD [OF assms(2)])
  moreover have "pending_ok w' ?l []"
  proof -
    have "\<forall>p\<in>set ?l. keyed w (fst p) (snd p)"
    proof
      fix p assume "p \<in> set ?l"
      then have "mget (x_table w) (fst p) = Some (snd p)"
        using mget_range_order [of "fst p" "snd p" "x_table w" order] by simp
      then show "keyed w (fst p) (snd p)" by (rule pool_okD(1) [OF assms(2)])
    qed
    then show ?thesis using mget_range_order [of _ _ "x_table w" order] by (simp add: pending_ok_def w')
  qed
  moreover have "codex_later w w'" by (simp add: w' codex_later_def)
  ultimately show ?thesis using assms(1) by (simp add: c w')
qed

lemma close_next_ok:
  assumes "codex_turns_ok w" "pool_ok w" "pending_ok w rest errs" "codex_close_next rest errs w = (c, w')"
  shows "codex_turns_ok w' \<and> pool_ok w' \<and> codex_later w w' \<and> x_calls w' = x_calls w \<and> call_ok w' c"
proof (cases rest)
  case Nil
  have "None \<notin> set errs" using assms(3) by (simp add: pending_ok_def)
  then have "errs \<noteq> [] \<Longrightarrow> filter (\<lambda>e. e \<noteq> None) errs \<noteq> []" by (cases errs) auto
  then have "close_result errs = Cx_Closed \<Longrightarrow> errs = []"
    by (auto simp: close_result_def errors_join_def Let_def split: if_splits)
  then show ?thesis using assms Nil unfolding pending_ok_def by (auto simp: codex_close_next_def)
next
  case (Cons p rest')
  obtain k d where p: "p = (k, d)" by (cases p)
  have d: "d < length (x_daemons w)" using assms(3) by (simp add: Cons p pending_ok_def keyed_def)
  let ?w = "set_daemon d ((x_daemons w ! d)\<lparr>cd_peerDone := True\<rparr>) w"
  have same: "same_pool w ?w" by (rule same_pool_daemon) simp_all
  have "codex_turns_ok ?w" using codex_turns_ok_peerDone [OF assms(1)] .
  then show ?thesis
    using assms same_pool_pool [OF same] same_pool_later [OF same] pending_later [OF assms(3)] same
    by (auto simp: codex_close_next_def Cons p same_pool_def)
qed

lemma close_killed_ok:
  assumes "codex_turns_ok w" "pool_ok w" "pending_ok w ((k, d) # rest) errs"
    "codex_close_killed k d rest errs res w = (c, w')"
  shows "codex_turns_ok w' \<and> pool_ok w' \<and> codex_later w w' \<and> x_calls w' = x_calls w \<and> call_ok w' c"
proof (cases res)
  case (Some e)
  then show ?thesis using assms by (auto simp: codex_close_killed_def pending_ok_def)
next
  case None
  have kd: "keyed w k d" and closed: "x_closed w" using assms(3) by (simp_all add: pending_ok_def)
  let ?v = "(x_daemons w ! d)\<lparr>cd_stopped := True\<rparr>"
  have w': "w' = (set_daemon d ?v w)\<lparr>x_table := mdel k (x_table w),
          x_sessions := filter (\<lambda>p. cs_daemon (snd p) \<noteq> d) (x_sessions w)\<rparr>"
    and c: "c = Cx_Close_Next rest errs"
    using assms(4) None by (simp_all add: codex_close_killed_def)
  have len: "length (x_daemons w') = length (x_daemons w)" by (simp add: w' set_daemon_def)
  have nth: "x_daemons w' ! e = (if e = d then ?v else x_daemons w ! e)" for e
    using keyed_bound [OF kd] nth_set_daemon [of d ?v w e] by (simp add: w')
  have keyed: "keyed w' k' e = keyed w k' e" for k' e
    by (simp add: keyed_def len nth)
  have "turn_at e th w' = turn_at e th w" for e th
    by (simp add: turn_at_def nth)
  then have turns: "codex_turns_ok w'" using assms(1) by (simp add: codex_turns_ok_def len) (simp add: w' set_daemon_def)
  have tab: "mget (x_table w') k' = (if k' = k then None else mget (x_table w) k')" for k'
    by (simp add: w')
  have pool: "pool_ok w'"
  proof (rule pool_okI)
    show "keyed w' k' e" if "mget (x_table w') k' = Some e" for k' e
      using that pool_okD(1) [OF assms(2), of k' e] by (simp add: tab keyed split: if_splits)
    show "mget (x_table w') k' = Some e" if "keyed w' k' e" "\<not> x_closed w' \<or> \<not> cd_stopped (x_daemons w' ! e)" for k' e
    proof -
      have "x_closed w'" using closed by (simp add: w' set_daemon_def)
      then have "e \<noteq> d" "\<not> cd_stopped (x_daemons w ! e)" using that(2)
        by (auto simp: nth split: if_splits)
      then show ?thesis
        using that(1) pool_okD(2) [OF assms(2), of k' e] pool_okD(3) [OF assms(2) kd, of e] by (auto simp: tab keyed)
    qed
    show "e = e'" if "keyed w' k' e" "keyed w' k' e'" for k' e e'
      using that pool_okD(3) [OF assms(2)] by (simp add: keyed)
    show "keyed w' (cs_key (snd p)) (cs_daemon (snd p))" if "p \<in> set (x_sessions w')" for p
      using that pool_okD(4) [OF assms(2), of p] by (simp add: keyed) (simp add: w')
  qed
  have later: "codex_later w w'" using closed
    by (auto simp: codex_later_def len keyed tab) (simp_all add: w' set_daemon_def)
  have "pending_ok w' rest errs"
    using assms(3) closed unfolding pending_ok_def keyed tab by (auto simp: w' set_daemon_def)
  then show ?thesis using turns pool later by (simp add: c) (simp add: w' set_daemon_def)
qed

section \<open>Every step\<close>

lemma install_turn_ok:
  assumes "codex_turns_ok w" "d < length (x_daemons w)"
  shows "codex_turns_ok (install_turn d th w)" "same_pool w (install_turn d th w)"
proof -
  let ?v = "(x_daemons w ! d)\<lparr>cd_turns := mput th (length (x_turns w)) (cd_turns (x_daemons w ! d))\<rparr>"
  have x: "x_turns (install_turn d th w) = x_turns w @ [new_codex_turn]"
    "x_daemons (install_turn d th w) = x_daemons (set_daemon d ?v w)"
    "x_panic (install_turn d th w) = x_panic w"
    by (simp_all add: install_turn_def set_daemon_def)
  have at: "turn_at e th' (install_turn d th w) =
      (if e = d \<and> th' = th then Some (length (x_turns w)) else turn_at e th' w)"
    if "e < length (x_daemons w)" for e th'
    using that assms(2) by (simp add: turn_at_def x nth_set_daemon)
  have len: "length (x_daemons (install_turn d th w)) = length (x_daemons w)"
    by (simp add: install_turn_def set_daemon_def)
  show "codex_turns_ok (install_turn d th w)"
  proof (rule turns_okI, unfold len)
    show "codex_turn_ok (x_turns (install_turn d th w) ! t)" if "t < length (x_turns (install_turn d th w))" for t
      using that assms(1) by (auto simp: x nth_append codex_turns_ok_def codex_turn_ok_def new_codex_turn_def less_Suc_eq)
    show "t < length (x_turns (install_turn d th w))" if "e < length (x_daemons w)"
        "turn_at e th' (install_turn d th w) = Some t" for e th' t
      using that codex_turns_ok_table [OF assms(1), of e th' t] by (auto simp: at x split: if_splits)
    show "e = e' \<and> a = b" if "e < length (x_daemons w)" "e' < length (x_daemons w)"
        "turn_at e a (install_turn d th w) = Some t" "turn_at e' b (install_turn d th w) = Some t" for e e' a b t
      using that codex_turns_ok_inj [OF assms(1), of e e' a t b] codex_turns_ok_table [OF assms(1), of _ _ t]
      by (auto simp: at split: if_splits)
    show "\<not> x_panic (install_turn d th w)" using assms(1) by (simp add: x codex_turns_ok_def)
  qed
  have "same_pool w (set_daemon d ?v w)" by (rule same_pool_daemon) simp_all
  then show "same_pool w (install_turn d th w)"
    by (simp add: same_pool_def install_turn_def set_daemon_def)
qed

definition step_ok :: "codex_world \<Rightarrow> codex_call \<times> codex_world \<Rightarrow> bool" where
  "step_ok w r \<longleftrightarrow> codex_turns_ok (snd r) \<and> pool_ok (snd r) \<and> codex_later w (snd r)
     \<and> x_calls (snd r) = x_calls w \<and> call_ok (snd r) (fst r)"

lemma step_okI [intro]:
  "codex_turns_ok w' \<Longrightarrow> same_pool w w' \<Longrightarrow> pool_ok w \<Longrightarrow> call_ok w' c \<Longrightarrow> step_ok w (c, w')"
  using same_pool_pool [of w w'] same_pool_later [of w w'] by (simp add: step_ok_def) (simp add: same_pool_def)

lemma step_ok_refl: "codex_turns_ok w \<Longrightarrow> pool_ok w \<Longrightarrow> call_ok w c \<Longrightarrow> step_ok w (c, w)"
  by (rule step_okI) simp_all

lemma step_ok_then:
  assumes "step_ok w (c, u)" "same_pool u v" "codex_turns_ok v" "call_ok v c'"
  shows "step_ok w (c', v)"
  using assms same_pool_pool [OF assms(2)] codex_later_trans [OF _ same_pool_later [OF assms(2)], of w]
  by (auto simp: step_ok_def same_pool_def)

lemma new_ok:
  assumes "codex_turns_ok w" "pool_ok w"
  shows "step_ok w (codex_new E m servers f k w)"
proof -
  obtain r u where e: "ensureDaemon E (codex_key E m servers) servers f k w = (r, u)" by fastforce
  note u = ensureDaemon_ok [OF assms e]
  show ?thesis
  proof (cases r)
    case (Inl x)
    then show ?thesis using u by (simp add: codex_new_def e step_ok_def)
  next
    case (Inr d)
    let ?c = "Cx_New_Thread d (nativeCodexModel (ce_model E) (ce_agent E) m) (codex_key E m servers)"
    have "step_ok w (?c, u)" using u Inr by (simp add: step_ok_def)
    then have "step_ok w (?c, codex_send d ''thread/start'' p u)" for p
      by (rule step_ok_then) (use u Inr in simp_all)
    then show ?thesis using Inr by (simp add: codex_new_def e Let_def)
  qed
qed

lemma load_daemon_ok:
  assumes "codex_turns_ok w" "pool_ok w"
  shows "step_ok w (codex_load_daemon E sid m servers f k w)"
proof -
  obtain r u where e: "ensureDaemon E (codex_key E [] servers) servers f k w = (r, u)" by fastforce
  note u = ensureDaemon_ok [OF assms e]
  show ?thesis
  proof (cases r)
    case (Inl x)
    then show ?thesis using u by (simp add: codex_load_daemon_def e step_ok_def)
  next
    case (Inr d)
    let ?c = "Cx_Load_Thread d sid (codex_key E [] servers)"
    have "step_ok w (?c, u)" using u Inr by (simp add: step_ok_def)
    then have "step_ok w (?c, codex_send d ''thread/resume'' p u)" for p
      by (rule step_ok_then) (use u Inr in simp_all)
    then show ?thesis using Inr by (simp add: codex_load_daemon_def e Let_def)
  qed
qed

lemma put_step_ok:
  "codex_turns_ok w \<Longrightarrow> pool_ok w \<Longrightarrow> keyed w key d \<Longrightarrow>
   step_ok w (Cx_Ended (Cx_Opened sid), put_session th d model key w)"
  using put_session_ok [of w key d th model] by (simp add: step_ok_def) (simp add: put_session_def)

lemma ended_ok: "codex_turns_ok w \<Longrightarrow> pool_ok w \<Longrightarrow> r \<noteq> Cx_Closed \<Longrightarrow> step_ok w (Cx_Ended r, w)"
  by (rule step_ok_refl) simp_all

lemma prompt_lock_ok:
  assumes "codex_turns_ok w" "pool_ok w" "d < length (x_daemons w)"
  shows "step_ok w (codex_prompt_lock E d th blocks w)"
proof -
  have len: "length (x_daemons (install_turn d th w)) = length (x_daemons w)"
    "length (x_turns (install_turn d th w)) = Suc (length (x_turns w))"
    by (simp_all add: install_turn_def set_daemon_def)
  have "step_ok w (Cx_Prompt_Call d th (length (x_turns w)), install_turn d th w)"
    using install_turn_ok [OF assms(1,3), of th] assms(2,3) len by (intro step_okI) simp_all
  then have "step_ok w (Cx_Prompt_Call d th (length (x_turns w)), codex_send d mth p (install_turn d th w))" for mth p
    by (rule step_ok_then) (use install_turn_ok [OF assms(1,3), of th] assms(3) len in \<open>simp_all\<close>, simp add: codex_send_def)
  then show ?thesis
    using ended_ok [OF assms(1,2)] by (simp add: codex_prompt_lock_def turn_error_def)
qed

lemma prompt_reply_ok:
  assumes "codex_turns_ok w" "pool_ok w" "d < length (x_daemons w)" "t < length (x_turns w)"
  shows "step_ok w (codex_prompt_reply d th t r w)"
proof (cases r)
  case (Inl e)
  let ?v = "(x_daemons w ! d)\<lparr>cd_turns := mdel th (cd_turns (x_daemons w ! d))\<rparr>"
  have "codex_turns_ok (set_daemon d ?v w)"
    by (intro codex_turns_ok_daemon [OF assms(1)]) (auto simp: turn_at_def split: if_splits)
  moreover have "same_pool w (set_daemon d ?v w)" by (rule same_pool_daemon) simp_all
  ultimately show ?thesis using assms(2) Inl by (auto simp: codex_prompt_reply_def)
next
  case (Inr x)
  then show ?thesis using assms by (simp add: codex_prompt_reply_def step_ok_refl)
qed

lemma interrupt_ok: "codex_turns_ok w \<Longrightarrow> pool_ok w \<Longrightarrow> step_ok w (codex_interrupt d th w)"
  unfolding codex_interrupt_def by (intro step_okI) simp_all

lemma select_ok:
  assumes "codex_turns_ok w" "pool_ok w" "t < length (x_turns w)" "codex_select d t chan ch w = Some c"
  shows "step_ok w (c, w)"
  using assms by (auto simp: codex_select_def split: codex_choice.splits if_splits intro!: step_ok_refl)

lemma load_ok: "codex_turns_ok w \<Longrightarrow> pool_ok w \<Longrightarrow> step_ok w (codex_load sid m servers w)"
  by (auto simp: codex_load_def split: option.splits intro!: step_ok_refl)

lemma cancel_ok:
  assumes "codex_turns_ok w" "pool_ok w"
  shows "step_ok w (codex_cancel sid w)" "step_ok w (codex_prompt sid blocks w)"
proof -
  have "cs_daemon s < length (x_daemons w)" if "mget (x_sessions w) sid = Some s" for s
    using pool_okD(4) [OF assms(2) map_of_SomeD [OF that]] by (simp add: keyed_def)
  then show "step_ok w (codex_cancel sid w)" "step_ok w (codex_prompt sid blocks w)"
    using assms by (auto simp: codex_cancel_def codex_prompt_def split: option.splits intro!: step_ok_refl)
qed

lemma codex_step_ok:
  assumes ok: "codex_turns_ok w" "pool_ok w" and c: "call_ok w c" and step: "codex_thread_step E ch c w = Some r"
  shows "step_ok w r"
proof (cases c)
  case (Cx_New m servers)
  then show ?thesis using step new_ok [OF ok] by (auto simp: codex_thread_step_def split: codex_choice.splits)
next
  case (Cx_New_Thread d model key)
  then show ?thesis using step c ended_ok [OF ok] put_step_ok [OF ok]
    by (auto simp: codex_thread_step_def codex_new_reply_def split: codex_choice.splits sum.splits)
next
  case (Cx_Load sid m servers)
  then show ?thesis using step load_ok [OF ok] by (auto simp: codex_thread_step_def split: if_splits)
next
  case (Cx_Load_Daemon sid m servers)
  then show ?thesis using step load_daemon_ok [OF ok] by (auto simp: codex_thread_step_def split: codex_choice.splits)
next
  case (Cx_Load_Thread d sid key)
  then show ?thesis using step c ended_ok [OF ok] put_step_ok [OF ok]
    by (auto simp: codex_thread_step_def codex_load_reply_def split: codex_choice.splits sum.splits)
next
  case (Cx_Prompt sid blocks)
  then show ?thesis using step cancel_ok [OF ok] by (auto simp: codex_thread_step_def split: if_splits)
next
  case (Cx_Prompt_Lock d th blocks)
  then show ?thesis using step c prompt_lock_ok [OF ok] by (auto simp: codex_thread_step_def split: if_splits)
next
  case (Cx_Prompt_Call d th t)
  then show ?thesis using step c prompt_reply_ok [OF ok] by (auto simp: codex_thread_step_def split: codex_choice.splits)
next
  case (Cx_Prompt_Watch d th t)
  then show ?thesis using step c ok by (auto simp: codex_thread_step_def intro!: step_ok_refl split: if_splits)
next
  case (Cx_Prompt_Select d t chan)
  then show ?thesis using step c select_ok [OF ok] by (auto simp: codex_thread_step_def)
next
  case (Cx_Prompt_Read t)
  then show ?thesis using step ended_ok [OF ok]
    by (auto simp: codex_thread_step_def codex_prompt_read_def turn_error_def Let_def split: if_splits option.splits)
next
  case (Cx_Cancel sid)
  then show ?thesis using step cancel_ok [OF ok] by (auto simp: codex_thread_step_def split: if_splits)
next
  case (Cx_Interrupt d th)
  then show ?thesis using step interrupt_ok [OF ok] by (auto simp: codex_thread_step_def split: if_splits)
next
  case (Cx_Close order)
  obtain c' w' where e: "codex_close order w = (c', w')" by fastforce
  then show ?thesis using step Cx_Close codex_close_ok [OF ok e]
    by (auto simp: codex_thread_step_def step_ok_def codex_close_def split: if_splits)
next
  case (Cx_Close_Next rest errs)
  obtain c' w' where e: "codex_close_next rest errs w = (c', w')" by fastforce
  moreover have "r = (c', w')" using step Cx_Close_Next e by (simp add: codex_thread_step_def split: if_splits)
  ultimately show ?thesis using Cx_Close_Next c close_next_ok [OF ok _ e] by (simp add: step_ok_def)
next
  case (Cx_Close_Kill k d rest errs)
  obtain res where ch: "ch = Cx_Killed res"
    using step Cx_Close_Kill by (auto simp: codex_thread_step_def split: codex_choice.splits)
  obtain c' w' where e: "codex_close_killed k d rest errs res w = (c', w')" by fastforce
  moreover have "r = (c', w')" using step Cx_Close_Kill e ch by (simp add: codex_thread_step_def)
  ultimately show ?thesis using Cx_Close_Kill c close_killed_ok [OF ok _ e] by (simp add: step_ok_def)
next
  case (Cx_Ended r)
  then show ?thesis using step by (simp add: codex_thread_step_def)
qed

lemma call_ok_calls [simp]: "call_ok (w\<lparr>x_calls := cs\<rparr>) c = call_ok w c"
  by (cases c) (simp_all add: keyed_def pending_ok_def)

lemma calls_later: "\<forall>c\<in>set cs. call_ok w c \<Longrightarrow> codex_later w w' \<Longrightarrow> \<forall>c\<in>set cs. call_ok w' c"
  using call_later by blast

lemma codex_wf_same:
  "codex_wf w \<Longrightarrow> codex_turns_ok w' \<Longrightarrow> same_pool w w' \<Longrightarrow> codex_wf w'"
  unfolding codex_wf_def using same_pool_pool [of w w'] calls_later [OF _ same_pool_later, of "x_calls w" w w']
  by (auto simp: same_pool_def)

lemma codex_exec_wf:
  assumes wf: "codex_wf w" and step: "codex_exec E a w = Some w'"
  shows "codex_wf w'"
proof (cases a)
  case (Cx_Enter c)
  then have "is_entry c" "w' = w\<lparr>x_calls := x_calls w @ [c]\<rparr>" using step by (auto split: if_splits)
  moreover from this have "call_ok w c" by (cases c) simp_all
  ultimately show ?thesis using wf by (simp add: codex_wf_def)
next
  case (Cx_Step i ch)
  then obtain c u where i: "i < length (x_calls w)" and u: "codex_thread_step E ch (x_calls w ! i) w = Some (c, u)"
    and w': "w' = u\<lparr>x_calls := (x_calls u)[i := c]\<rparr>"
    using step by (auto split: if_splits)
  have ok: "codex_turns_ok w" "pool_ok w" "call_ok w (x_calls w ! i)" using wf i by (simp_all add: codex_wf_def)
  note s = codex_step_ok [OF ok u]
  have "\<forall>c'\<in>set (x_calls u). call_ok u c'"
    using s wf calls_later [of "x_calls w" w u] by (simp add: step_ok_def codex_wf_def)
  then show ?thesis
    using s set_update_subset_insert [of "x_calls u" i c] by (auto simp: codex_wf_def step_ok_def w')
next
  case (Cx_Event d ev)
  then have "d < length (x_daemons w)" "w' = codex_notify d ev w" using step by (auto split: if_splits)
  then show ?thesis using codex_notify_ok [of w d ev] codex_wf_same [OF wf] wf by (simp add: codex_wf_def)
next
  case (Cx_Exit d)
  then have d: "d < length (x_daemons w)" "w' = set_daemon d ((x_daemons w ! d)\<lparr>cd_peerDone := True\<rparr>) w"
    using step by (auto split: if_splits)
  have "same_pool w w'" unfolding d(2) by (rule same_pool_daemon) simp_all
  then show ?thesis using codex_turns_ok_peerDone [of w d True] codex_wf_same [OF wf] wf d by (simp add: codex_wf_def)
qed

lemma codex_init_wf: "codex_wf codex_init"
  by (simp add: codex_wf_def codex_init_def codex_turns_ok_def pool_ok_def keyed_def turn_at_def)

interpretation codex: step_invariant "codex_exec E" codex_wf for E
  by unfold_locales (rule codex_exec_wf)

end
