(* ===== verification/Native_Codex_Props.thy ===== *)
theory Native_Codex_Props
  imports Native_Codex_Laws White_Space
begin

text \<open>
  Properties of the codex engine in every interleaving of its calls, its processes and their
  notifications.
\<close>

section \<open>A concrete engine\<close>

definition demo_codex :: codex_env where
  "demo_codex = \<lparr>ce_agent = empty_agent, ce_CWD = ''/w'', ce_sha = (\<lambda>b. b), ce_pr = (\<lambda>_. False),
     ce_marshal = (\<lambda>_. []), ce_fmt = (\<lambda>_. []), ce_config = (\<lambda>_. None), ce_model = (\<lambda>_. []),
     ce_resource = (\<lambda>_. None)\<rparr>"

text \<open>A session on thread \<open>t\<close>, and its first prompt up to where it waits for the turn.\<close>

definition demo_open :: "codex_action list" where
  "demo_open = [Cx_Enter (Cx_New [] []), Cx_Step 0 (Cx_Spawned No_Fault None),
     Cx_Step 0 (Cx_Reply (Inr (''t'', ''m'')))]"

definition demo_wait :: "codex_action list" where
  "demo_wait = demo_open @ [Cx_Enter (Cx_Prompt ''t'' [text_block ''hi'']), Cx_Step 1 Cx_Go, Cx_Step 1 Cx_Go,
     Cx_Step 1 (Cx_Reply (Inr ([], []))), Cx_Step 1 Cx_Go]"

lemma reached_run:
  assumes "map_option P (run exec as s) = Some True"
  obtains t where "run exec as s = Some t" "reach exec s t" "P t"
  using assms reach_run [of exec as s] by (auto simp: map_option_eq_Some)


lemma run3:
  "exec a w = Some u \<Longrightarrow> exec b u = Some v \<Longrightarrow> exec c v = Some x \<Longrightarrow> run exec [a, b, c] w = Some x"
  by simp

lemma codex_reach_wf: "reach (codex_exec E) codex_init w \<Longrightarrow> codex_wf w"
  by (metis codex.reachable codex_init_wf)

section \<open>A turn is settled once\<close>

definition codex_settled :: "codex_world \<Rightarrow> codex_world \<Rightarrow> bool" where
  "codex_settled w w' \<longleftrightarrow> length (x_turns w) \<le> length (x_turns w') \<and>
     (\<forall>t<length (x_turns w). ct_finished (x_turns w ! t) \<longrightarrow>
        ct_finished (x_turns w' ! t) \<and> ct_err (x_turns w' ! t) = ct_err (x_turns w ! t)
        \<and> ct_stop (x_turns w' ! t) = ct_stop (x_turns w ! t))"

lemma codex_settled_refl [simp]: "x_turns w' = x_turns w \<Longrightarrow> codex_settled w w'"
  by (simp add: codex_settled_def)















section \<open>A failed turn\<close>

lemma settleTurn_again:
  "turn_at d th w = Some t \<Longrightarrow> ct_finished (x_turns w ! t) \<Longrightarrow> settleTurn d th stop err w = w"
  by (simp add: settleTurn_def)

text \<open>C23. The handler of turn/completed settles the turn as ended before it looks at the status.\<close>

theorem codex_failed_turn_succeeds:
  assumes "reach (codex_exec E) codex_init w" "d < length (x_daemons w)"
    "turn_at d th w = Some t" "\<not> ct_finished (x_turns w ! t)"
    "i < length (x_calls w)" "x_calls w ! i = Cx_Prompt_Select d t (Some t)"
  shows "\<exists>w'. run (codex_exec E) [Cx_Event d (Turn_Completed th ''failed'' message), Cx_Step i Cx_Go, Cx_Step i Cx_Go] w
       = Some w' \<and> x_calls w' ! i = Cx_Ended (Cx_Turn ''end_turn'' (ct_usage (x_turns w ! t)))"
proof -
  have ok: "codex_turns_ok w" using codex_reach_wf [OF assms(1)] by (simp add: codex_wf_def)
  have t: "t < length (x_turns w)" using codex_turns_ok_table [OF ok assms(2,3)] .
  then have "codex_turn_ok (x_turns w ! t)" using ok by (simp add: codex_turns_ok_def)
  then have e: "ct_err (x_turns w ! t) = None" using assms(4) by (simp add: codex_turn_ok_def)
  define v where "v = (x_turns w ! t)\<lparr>ct_finished := True, ct_stop := ''end_turn'', ct_done := True\<rparr>"
  define u where "u = on_turn_completed d th ''failed'' message w"
  have first: "settleTurn d th ''end_turn'' None w =
      (set_codex_turn t v w)\<lparr>x_panic := x_panic w \<or> ct_done (x_turns w ! t)\<rparr>"
    using assms(3,4) by (simp add: settleTurn_def Let_def v_def)
  have "turn_at d th (settleTurn d th ''end_turn'' None w) = Some t"
    "ct_finished (x_turns (settleTurn d th ''end_turn'' None w) ! t)"
    unfolding first using assms(3) t by (simp_all add: set_codex_turn_def v_def turn_at_def)
  then have "u = settleTurn d th ''end_turn'' None w"
    unfolding u_def on_turn_completed_def Let_def by (simp add: settleTurn_again)
  then have u: "x_turns u ! t = v" "x_calls u = x_calls w"
    unfolding first using t by (simp_all add: set_codex_turn_def)
  have step1: "codex_exec E (Cx_Event d (Turn_Completed th ''failed'' message)) w = Some u"
    using assms(2) by (simp add: u_def)
  let ?u1 = "u\<lparr>x_calls := (x_calls u)[i := Cx_Prompt_Read t]\<rparr>"
  have step2: "codex_exec E (Cx_Step i Cx_Go) u = Some ?u1"
    using assms(5,6) u by (simp add: codex_thread_step_def codex_select_def channel_ready_def v_def)
  have "codex_prompt_read t ?u1 = Cx_Ended (Cx_Turn ''end_turn'' (ct_usage (x_turns w ! t)))"
    using u e by (simp add: codex_prompt_read_def Let_def v_def)
  then have step3: "codex_exec E (Cx_Step i Cx_Go) ?u1 = Some (?u1\<lparr>x_calls := (x_calls ?u1)[i :=
      Cx_Ended (Cx_Turn ''end_turn'' (ct_usage (x_turns w ! t)))]\<rparr>)"
    using assms(5) u by (simp add: codex_thread_step_def)
  from run3 [of "codex_exec E", OF step1 step2 step3] assms(5) u show ?thesis by simp
qed

lemma demo_wait_run:
  "map_option (\<lambda>w. 0 < length (x_daemons w) \<and> turn_at 0 ''t'' w = Some 0 \<and> \<not> ct_finished (x_turns w ! 0)
      \<and> 1 < length (x_calls w) \<and> x_calls w ! 1 = Cx_Prompt_Select 0 0 (Some 0))
    (run (codex_exec demo_codex) demo_wait codex_init) = Some True"
  by code_simp

lemma codex_failed_turn_succeeds_witness:
  "\<exists>w w'. reach (codex_exec demo_codex) codex_init w
     \<and> run (codex_exec demo_codex) [Cx_Event 0 (Turn_Completed ''t'' ''failed'' (Some ''quota exceeded'')),
          Cx_Step 1 Cx_Go, Cx_Step 1 Cx_Go] w = Some w'
     \<and> (\<exists>u. x_calls w' ! 1 = Cx_Ended (Cx_Turn ''end_turn'' u))"
proof -
  obtain w where w: "reach (codex_exec demo_codex) codex_init w" "0 < length (x_daemons w)"
      "turn_at 0 ''t'' w = Some 0" "\<not> ct_finished (x_turns w ! 0)"
      "1 < length (x_calls w)" "x_calls w ! 1 = Cx_Prompt_Select 0 0 (Some 0)"
    using reached_run [OF demo_wait_run] by blast
  from codex_failed_turn_succeeds [OF this, of "Some ''quota exceeded''"] w(1) show ?thesis by blast
qed

section \<open>Processes and configurations\<close>

text \<open>C21. Sessions share a process exactly when their requests have the same key.\<close>

theorem codex_pool_by_key:
  assumes "reach (codex_exec E) codex_init w"
    "mget (x_sessions w) a = Some s" "mget (x_sessions w) b = Some s'"
  shows "(cs_daemon s = cs_daemon s') = (cs_key s = cs_key s')
     \<and> cd_ready (x_daemons w ! cs_daemon s)"
proof -
  have ok: "pool_ok w" using codex_reach_wf [OF assms(1)] by (simp add: codex_wf_def)
  have "keyed w (cs_key s) (cs_daemon s)" "keyed w (cs_key s') (cs_daemon s')"
    using pool_okD(4) [OF ok map_of_SomeD] assms(2,3) by force+
  then show ?thesis using pool_okD(3) [OF ok] by (auto simp: keyed_def)
qed

definition demo_two :: "codex_action list" where
  "demo_two = demo_open @ [Cx_Enter (Cx_New [(''model'', Str ''x'')] []), Cx_Step 1 (Cx_Spawned No_Fault None),
     Cx_Step 1 (Cx_Reply (Inr (''u'', ''x'')))]"

lemma demo_two_run:
  "map_option (\<lambda>w. map_option cs_key (mget (x_sessions w) ''t'') = Some []
       \<and> map_option cs_key (mget (x_sessions w) ''u'') = Some ''|model=x'')
    (run (codex_exec demo_codex) demo_two codex_init) = Some True"
  by code_simp

lemma codex_pool_by_key_witness:
  "\<exists>w s s'. reach (codex_exec demo_codex) codex_init w \<and> mget (x_sessions w) ''t'' = Some s
     \<and> mget (x_sessions w) ''u'' = Some s' \<and> cs_daemon s \<noteq> cs_daemon s'"
proof -
  obtain w s s' where w: "reach (codex_exec demo_codex) codex_init w"
      "mget (x_sessions w) ''t'' = Some s" "mget (x_sessions w) ''u'' = Some s'" "cs_key s \<noteq> cs_key s'"
    using reached_run [OF demo_two_run] by (smt (verit, best) map_option_eq_Some list.distinct(1))
  from codex_pool_by_key [OF w(1-3)] w show ?thesis by blast
qed

text \<open>C7. When a call of Close has returned no error, every process that had completed its handshake
has been stopped, whatever ran at the same time.\<close>

theorem codex_close_stops_all:
  assumes "reach (codex_exec E) codex_init w" "Cx_Ended Cx_Closed \<in> set (x_calls w)"
    "d < length (x_daemons w)" "cd_ready (x_daemons w ! d)"
  shows "cd_stopped (x_daemons w ! d)"
proof -
  have wf: "codex_wf w" using codex_reach_wf [OF assms(1)] .
  then have "call_ok w (Cx_Ended Cx_Closed)" using assms(2) unfolding codex_wf_def by blast
  then have empty: "\<forall>k. mget (x_table w) k = None" by simp
  have "pool_ok w" using wf by (simp add: codex_wf_def)
  from pool_okD(2) [OF this, of "cd_key (x_daemons w ! d)" d] show ?thesis
    using empty assms(3,4) by (auto simp: keyed_def)
qed

definition demo_close :: "codex_action list" where
  "demo_close = demo_two @ [Cx_Enter (Cx_Close []), Cx_Step 2 Cx_Go, Cx_Step 2 Cx_Go,
     Cx_Step 2 (Cx_Killed None), Cx_Step 2 Cx_Go, Cx_Step 2 (Cx_Killed None), Cx_Step 2 Cx_Go]"

lemma demo_close_run:
  "map_option (\<lambda>w. 2 < length (x_calls w) \<and> x_calls w ! 2 = Cx_Ended Cx_Closed \<and> 1 < length (x_daemons w) \<and> cd_ready (x_daemons w ! 1))
    (run (codex_exec demo_codex) demo_close codex_init) = Some True"
  by code_simp

lemma codex_close_stops_all_witness:
  "\<exists>w. reach (codex_exec demo_codex) codex_init w \<and> cd_ready (x_daemons w ! 1) \<and> cd_stopped (x_daemons w ! 1)"
proof -
  obtain w where w: "reach (codex_exec demo_codex) codex_init w" "2 < length (x_calls w)"
      "x_calls w ! 2 = Cx_Ended Cx_Closed" "1 < length (x_daemons w)" "cd_ready (x_daemons w ! 1)"
    using reached_run [OF demo_close_run] by blast
  then have "Cx_Ended Cx_Closed \<in> set (x_calls w)" by (metis nth_mem)
  from codex_close_stops_all [OF w(1) this w(4,5)] w show ?thesis by blast
qed

section \<open>Messages\<close>

text \<open>The text a client sees of one message, and the notifications that are about it.\<close>

definition shown_text :: "string \<Rightarrow> string \<Rightarrow> (string \<times> session_update) list \<Rightarrow> string" where
  "shown_text th item es = concat (map (su_Text \<circ> snd) (filter (\<lambda>e. fst e = th \<and>
     su_MessageID (snd e) = item \<and> su_SessionUpdate (snd e) = ''agent_message_chunk'') es))"

fun about_item :: "string \<Rightarrow> string \<Rightarrow> codex_event \<Rightarrow> bool" where
  "about_item th item (Agent_Delta th' it delta) = (th' = th \<and> it = item \<and> delta \<noteq> [])"
| "about_item th item (Item_Completed th' ty it body) = (th' = th \<and> it = item \<and> ty = ''agentMessage'')"
| "about_item th item _ = False"

text \<open>What the client should see: the deltas, and the complete text when none came before it.\<close>

fun told :: "bool \<Rightarrow> codex_event list \<Rightarrow> string" where
  "told seen [] = []"
| "told seen (Agent_Delta _ _ delta # evs) = delta @ told True evs"
| "told seen (Item_Completed _ _ _ body # evs) =
     (if seen \<or> trim_space body = [] then [] else body) @ told seen evs"
| "told seen (_ # evs) = told seen evs"

definition new_emits :: "codex_world \<Rightarrow> codex_world \<Rightarrow> (string \<times> session_update) list" where
  "new_emits w w' = drop (length (x_emitted w)) (x_emitted w')"

lemma shown_text_simps [simp]:
  "shown_text th item [] = []"
  "shown_text th item (es @ fs) = shown_text th item es @ shown_text th item fs"
  by (simp_all add: shown_text_def)

lemma shown_other:
  "th' \<noteq> th \<or> su_MessageID u \<noteq> item \<or> su_SessionUpdate u \<noteq> ''agent_message_chunk'' \<Longrightarrow>
   shown_text th item [(th', u)] = []"
  by (auto simp: shown_text_def)

text \<open>One notification on a thread whose turn is \<open>t\<close>.\<close>

definition tracks :: "nat \<Rightarrow> string \<Rightarrow> nat \<Rightarrow> codex_world \<Rightarrow> bool" where
  "tracks d th t w \<longleftrightarrow> turn_at d th w = Some t \<and> t < length (x_turns w)
     \<and> (\<forall>th'. turn_at d th' w = Some t \<longrightarrow> th' = th)"

definition extends :: "codex_world \<Rightarrow> (string \<times> session_update) list \<Rightarrow> codex_world \<Rightarrow> bool" where
  "extends w es w' \<longleftrightarrow> x_emitted w' = x_emitted w @ es"

lemma tracks_table:
  "x_daemons w' = x_daemons w \<Longrightarrow> length (x_turns w') = length (x_turns w) \<Longrightarrow> tracks d th t w' = tracks d th t w"
  by (simp add: tracks_def turn_at_def)

lemma nth_update_field: "f v = f (xs ! s) \<Longrightarrow> f (xs[s := v] ! t) = f (xs ! t)"
  by (cases "s = t"; cases "t < length xs") (simp_all add: list_update_beyond)

lemma settleTurn_frame:
  "x_daemons (settleTurn d th stop err w) = x_daemons w"
  "length (x_turns (settleTurn d th stop err w)) = length (x_turns w)"
  "x_emitted (settleTurn d th stop err w) = x_emitted w"
  "ct_deltas (x_turns (settleTurn d th stop err w) ! t) = ct_deltas (x_turns w ! t)"
  by (auto simp: settleTurn_def Let_def set_codex_turn_def intro!: nth_update_field split: option.splits)

lemma on_error_frame:
  "x_daemons (on_error d th m e w) = x_daemons w"
  "length (x_turns (on_error d th m e w)) = length (x_turns w)"
  "x_emitted (on_error d th m e w) = x_emitted w"
  "ct_deltas (x_turns (on_error d th m e w) ! t) = ct_deltas (x_turns w ! t)"
  by (auto simp: on_error_def Let_def set_codex_turn_def intro!: nth_update_field split: option.splits)

definition effect_on ::
  "nat \<Rightarrow> string \<Rightarrow> nat \<Rightarrow> string \<Rightarrow> codex_world \<Rightarrow> codex_world \<Rightarrow> string \<Rightarrow> bool \<Rightarrow> bool" where
  "effect_on d th t item w w' shown seen \<longleftrightarrow> tracks d th t w'
     \<and> (\<exists>es. extends w es w' \<and> shown_text th item es = shown)
     \<and> (item \<in> set (ct_deltas (x_turns w' ! t))) = seen"

lemma effect_onI:
  "tracks d th t w' \<Longrightarrow> extends w es w' \<Longrightarrow> shown_text th item es = shown \<Longrightarrow>
   (item \<in> set (ct_deltas (x_turns w' ! t))) = seen \<Longrightarrow> effect_on d th t item w w' shown seen"
  by (auto simp: effect_on_def)

lemma effect_frame:
  assumes "tracks d th t w" "x_daemons w' = x_daemons w" "length (x_turns w') = length (x_turns w)"
    "extends w es w'" "shown_text th item es = []" "ct_deltas (x_turns w' ! t) = ct_deltas (x_turns w ! t)"
  shows "effect_on d th t item w w' [] (item \<in> set (ct_deltas (x_turns w ! t)))"
  using assms tracks_table [of w' w d th t] by (auto simp: effect_on_def)

lemma extends_simps [simp]:
  "extends w [] w' = (x_emitted w' = x_emitted w)"
  "extends w [(th, u)] (codex_emit th u w') = (x_emitted w' = x_emitted w)"
  by (auto simp: extends_def codex_emit_def)

lemma notify_about:
  fixes item :: string
  assumes "tracks d th t w"
  defines "seen \<equiv> item \<in> set (ct_deltas (x_turns w ! t))"
  shows "effect_on d th t item w (codex_notify d ev w)
     (if about_item th item ev then told seen [ev] else [])
     (seen \<or> (\<exists>delta. ev = Agent_Delta th item delta \<and> delta \<noteq> []))"
proof (cases ev)
  case (Agent_Delta th' it delta)
  show ?thesis
  proof (cases "delta = [] \<or> turn_at d th' w = None")
    case True
    then have "codex_notify d ev w = w" by (auto simp: Agent_Delta on_agent_delta_def)
    moreover have "th' \<noteq> th \<or> delta = []" using True assms(1) by (auto simp: tracks_def)
    ultimately show ?thesis
      using assms(1) by (auto simp: effect_on_def Agent_Delta seen_def intro: exI [of _ "[]"])
  next
    case False
    then obtain s where s: "turn_at d th' w = Some s" by auto
    let ?v = "(x_turns w ! s)\<lparr>ct_deltas := List.insert it (ct_deltas (x_turns w ! s))\<rparr>"
    let ?w = "codex_emit th' (chunk ''agent_message_chunk'' it delta) (set_codex_turn s ?v w)"
    have w': "codex_notify d ev w = ?w" using False s by (simp add: Agent_Delta on_agent_delta_def)
    have same: "s = t \<longleftrightarrow> th' = th" using s assms(1) unfolding tracks_def by (metis option.inject)
    have tr: "tracks d th t ?w" using assms(1) by (simp add: tracks_def) (simp add: codex_emit_def set_codex_turn_def)
    have ex: "extends w [(th', chunk ''agent_message_chunk'' it delta)] ?w"
      by (simp add: extends_def codex_emit_def set_codex_turn_def)
    have sh: "shown_text th item [(th', chunk ''agent_message_chunk'' it delta)] =
        (if th' = th \<and> it = item then delta else [])"
      by (simp add: shown_text_def chunk_def)
    have se: "(item \<in> set (ct_deltas (x_turns ?w ! t))) \<longleftrightarrow> seen \<or> (th' = th \<and> it = item)"
    proof (cases "s = t")
      case True
      moreover have "t < length (x_turns w)" using assms(1) by (simp add: tracks_def)
      ultimately show ?thesis using same by (auto simp: codex_emit_def set_codex_turn_def seen_def)
    next
      case False
      then show ?thesis using same by (simp add: codex_emit_def set_codex_turn_def seen_def)
    qed
    show ?thesis unfolding w' by (rule effect_onI [OF tr ex]) (use sh se False in \<open>auto simp: Agent_Delta\<close>)
  qed
next
  case (Item_Completed th' ty it body)
  show ?thesis
  proof (cases "th' = th \<and> it = item \<and> ty = ''agentMessage''")
    case True
    have d: "delta_seen d th item w = seen" using assms(1) by (simp add: delta_seen_def tracks_def seen_def)
    let ?u = "chunk ''agent_message_chunk'' item body"
    have "tracks d th t (codex_emit th ?u w)" using assms(1) by (simp add: tracks_def) (simp add: codex_emit_def)
    moreover have "extends w [(th, ?u)] (codex_emit th ?u w)" by simp
    moreover have "shown_text th item [(th, ?u)] = body" by (simp add: shown_text_def chunk_def)
    moreover have "x_turns (codex_emit th ?u w) = x_turns w" by (simp add: codex_emit_def)
    ultimately have "effect_on d th t item w (codex_emit th ?u w) body seen"
      by (intro effect_onI) (simp_all add: seen_def)
    moreover have "effect_on d th t item w w [] seen"
      using assms(1) by (intro effect_onI [of _ _ _ _ _ "[]"]) (simp_all add: seen_def)
    ultimately show ?thesis using True by (auto simp: Item_Completed on_item_completed_def d)
  next
    case False
    have "codex_notify d ev w = w \<or> (\<exists>u. codex_notify d ev w = codex_emit th' u w \<and>
        (su_SessionUpdate u \<noteq> ''agent_message_chunk'' \<or> ty = ''agentMessage'' \<and> su_MessageID u = it))"
      unfolding Item_Completed codex_notify.simps on_item_completed_def
      by (cases "ty = ''commandExecution''"; cases "ty = ''agentMessage''") (auto simp: chunk_def)
    then obtain es where "extends w es (codex_notify d ev w)" "shown_text th item es = []"
      "x_daemons (codex_notify d ev w) = x_daemons w" "x_turns (codex_notify d ev w) = x_turns w"
    proof (elim disjE exE conjE)
      assume same: "codex_notify d ev w = w"
      show thesis by (rule that [of "[]"]) (simp_all add: same)
    next
      fix u assume e: "codex_notify d ev w = codex_emit th' u w" and u: "su_SessionUpdate u \<noteq> ''agent_message_chunk''"
      show thesis by (rule that [of "[(th', u)]"]) (use u in \<open>simp_all add: e shown_other\<close>, simp_all add: codex_emit_def)
    next
      fix u assume e: "codex_notify d ev w = codex_emit th' u w" and u: "ty = ''agentMessage''" "su_MessageID u = it"
      then have "shown_text th item [(th', u)] = []" using False by (intro shown_other) auto
      then show thesis by (intro that [of "[(th', u)]"]) (simp_all add: e, simp_all add: codex_emit_def)
    qed
    then show ?thesis using effect_frame [OF assms(1)] False by (auto simp: Item_Completed seen_def)
  qed
next
  case (Reasoning_Delta th' delta)
  show ?thesis
    unfolding Reasoning_Delta seen_def
    using effect_frame [OF assms(1), of "codex_notify d ev w" "if delta = [] then [] else [(th', chunk ''agent_thought_chunk'' [] delta)]"]
    by (auto simp: Reasoning_Delta codex_emit_def extends_def shown_text_def chunk_def)
next
  case (Item_Started th' ty it command)
  show ?thesis
  proof (cases "ty = ''commandExecution''")
    case True
    then obtain u where "codex_notify d ev w = codex_emit th' u w" "su_SessionUpdate u = ''tool_call''"
      by (simp add: Item_Started on_item_started_def)
    moreover from this have "shown_text th item [(th', u)] = []" by (intro shown_other) simp
    ultimately show ?thesis using effect_frame [OF assms(1), of "codex_notify d ev w" "[(th', u)]"]
      by (simp add: Item_Started codex_emit_def extends_def seen_def)
  next
    case False
    then show ?thesis using effect_frame [OF assms(1), of w "[]"]
      by (simp add: Item_Started on_item_started_def seen_def)
  qed
next
  case (Turn_Completed th' st m)
  show ?thesis
    unfolding Turn_Completed seen_def
    using effect_frame [OF assms(1), of "codex_notify d ev w" "[]"]
    by (simp add: Turn_Completed on_turn_completed_def Let_def settleTurn_frame)
next
  case (Error_Event th' m e)
  show ?thesis
    unfolding Error_Event seen_def
    using effect_frame [OF assms(1), of "codex_notify d ev w" "[]"] by (simp add: Error_Event on_error_frame)
next
  case (Raw_Completed th' a b c d' e f)
  have "x_daemons (codex_notify d ev w) = x_daemons w \<and> length (x_turns (codex_notify d ev w)) = length (x_turns w)
     \<and> x_emitted (codex_notify d ev w) = x_emitted w
     \<and> ct_deltas (x_turns (codex_notify d ev w) ! t) = ct_deltas (x_turns w ! t)"
    by (auto simp: Raw_Completed on_raw_completed_def set_codex_turn_def intro!: nth_update_field split: option.splits)
  then show ?thesis using effect_frame [OF assms(1), of "codex_notify d ev w" "[]"] by (simp add: Raw_Completed seen_def)
qed

lemma told_delta: "about_item th item ev \<Longrightarrow> told seen (ev # evs) =
    told seen [ev] @ told (seen \<or> (\<exists>delta. ev = Agent_Delta th item delta \<and> delta \<noteq> [])) evs"
  by (cases ev) auto

lemma fold_about:
  "tracks d th t w \<Longrightarrow> \<exists>es. extends w es (fold (codex_notify d) evs w) \<and>
     shown_text th item es = told (item \<in> set (ct_deltas (x_turns w ! t))) (filter (about_item th item) evs)"
proof (induction evs arbitrary: w)
  case Nil
  then show ?case by (intro exI [of _ "[]"]) simp
next
  case (Cons ev evs)
  let ?w = "codex_notify d ev w" and ?seen = "item \<in> set (ct_deltas (x_turns w ! t))"
  obtain es where e: "tracks d th t ?w" "extends w es ?w"
      "shown_text th item es = (if about_item th item ev then told ?seen [ev] else [])"
      "(item \<in> set (ct_deltas (x_turns ?w ! t))) =
         (?seen \<or> (\<exists>delta. ev = Agent_Delta th item delta \<and> delta \<noteq> []))"
    using notify_about [OF Cons.prems, of item ev] unfolding effect_on_def by blast
  obtain fs where f: "extends ?w fs (fold (codex_notify d) evs ?w)"
      "shown_text th item fs = told (item \<in> set (ct_deltas (x_turns ?w ! t))) (filter (about_item th item) evs)"
    using Cons.IH [OF e(1)] by blast
  have "extends w (es @ fs) (fold (codex_notify d) (ev # evs) w)" using e(2) f(1) by (simp add: extends_def)
  moreover have "shown_text th item (es @ fs) = told ?seen (filter (about_item th item) (ev # evs))"
  proof (cases "about_item th item ev")
    case True
    have "shown_text th item (es @ fs) = told ?seen [ev] @
        told (?seen \<or> (\<exists>delta. ev = Agent_Delta th item delta \<and> delta \<noteq> [])) (filter (about_item th item) evs)"
      by (simp only: shown_text_simps e(3,4) f(2) True if_True)
    also have "\<dots> = told ?seen (ev # filter (about_item th item) evs)" by (rule told_delta [OF True, symmetric])
    finally show ?thesis using True by simp
  next
    case False
    then have eq: "(item \<in> set (ct_deltas (x_turns ?w ! t))) = ?seen" using e(4) by auto
    have "shown_text th item fs = told ?seen (filter (about_item th item) evs)" using f(2) unfolding eq .
    then show ?thesis using e(3) False by simp
  qed
  ultimately show ?case by blast
qed

lemma told_stream:
  "told seen (map (Agent_Delta th item) ds @ [Item_Completed th ty item body]) =
     concat ds @ (if seen \<or> ds \<noteq> [] \<or> trim_space body = [] then [] else body)"
  by (induction ds arbitrary: seen) auto

text \<open>C20. A message is shown once: whether the process streams it as deltas or sends it only when it
is complete, and whatever notifications come in between, the chunks of the message spell its text.\<close>

theorem codex_message_shown_once:
  assumes "reach (codex_exec E) codex_init w" "d < length (x_daemons w)" "turn_at d th w = Some t"
    "item \<notin> set (ct_deltas (x_turns w ! t))"
    "filter (about_item th item) evs = map (Agent_Delta th item) ds @ [Item_Completed th ''agentMessage'' item body]"
    "ds = [] \<or> concat ds = body" "trim_space body \<noteq> []"
  shows "shown_text th item (new_emits w (fold (codex_notify d) evs w)) = body"
proof -
  have ok: "codex_turns_ok w" using codex_reach_wf [OF assms(1)] by (simp add: codex_wf_def)
  have "tracks d th t w"
    using codex_turns_ok_table [OF ok assms(2,3)] codex_turns_ok_inj [OF ok assms(2,2,3)] assms(3) unfolding tracks_def by blast
  then obtain es where "extends w es (fold (codex_notify d) evs w)"
      "shown_text th item es = told False (filter (about_item th item) evs)"
    using fold_about [of d th t w evs item] assms(4) by force
  moreover have "told False (filter (about_item th item) evs) = body"
    unfolding assms(5) told_stream using assms(6,7) by auto
  ultimately show ?thesis by (simp add: new_emits_def extends_def)
qed

definition demo_stream :: "codex_event list" where
  "demo_stream = [Agent_Delta ''t'' ''m1'' ''he'', Reasoning_Delta ''t'' ''hm'', Agent_Delta ''t'' ''m2'' ''x'',
     Agent_Delta ''t'' ''m1'' ''y'', Item_Completed ''t'' ''agentMessage'' ''m1'' ''hey'']"

lemma demo_stream_run:
  "map_option (\<lambda>w. 0 < length (x_daemons w) \<and> turn_at 0 ''t'' w = Some 0 \<and> ct_deltas (x_turns w ! 0) = [])
    (run (codex_exec demo_codex) demo_wait codex_init) = Some True"
  by code_simp

lemma codex_message_shown_once_witness:
  "\<exists>w. reach (codex_exec demo_codex) codex_init w \<and>
     shown_text ''t'' ''m1'' (new_emits w (fold (codex_notify 0) demo_stream w)) = ''hey''"
proof -
  obtain w where w: "reach (codex_exec demo_codex) codex_init w" "0 < length (x_daemons w)"
      "turn_at 0 ''t'' w = Some 0" "ct_deltas (x_turns w ! 0) = []"
    using reached_run [OF demo_stream_run] by blast
  have "''m1'' \<notin> set (ct_deltas (x_turns w ! 0))" using w(4) by simp
  from codex_message_shown_once [OF w(1,2,3) this, of demo_stream "[''he'', ''y'']" "''hey''"] w(1)
  show ?thesis by (auto simp: demo_stream_def trim_space_graphic graphic_def)
qed

end
