(* ===== verification/Native_Claude_Props.thy ===== *)
theory Native_Claude_Props
  imports Native_Claude_Laws Native_Codex_Props
begin

text \<open>
  Properties of the claude engine: a process is started once, a process replaced by a load is never
  stopped, a session whose process has ended never runs a turn again, plans are not shown as tool
  calls, and session ids are version 4 UUIDs.
\<close>

section \<open>A concrete engine\<close>

definition demo_claude :: claude_env where
  "demo_claude = \<lparr>le_agent = empty_agent, le_authority = True, le_pr = (\<lambda>_. False), le_show = (\<lambda>_. []),
     le_todos = (\<lambda>_. Some []), le_usage = (\<lambda>_. None), le_input = (\<lambda>_. None), le_resource = (\<lambda>_. None)\<rparr>"

definition bare_request :: new_session_request where
  "bare_request = \<lparr>nq_CWD = [], nq_MCPServers = [], nq_AdditionalDirectories = [], nq_Meta = []\<rparr>"

definition demo_exec :: "claude_action \<Rightarrow> claude_world \<Rightarrow> claude_world option" where
  "demo_exec = claude_exec demo_claude (\<lambda>_. [])"

text \<open>Session \<open>s\<close> is loaded: its process runs. Then the load of the same session begins.\<close>

definition demo_load :: "nat \<Rightarrow> claude_action list" where
  "demo_load i = [Cl_Enter (Cl_Load ''s'' bare_request), Cl_Step i Cl_Go, Cl_Step i Cl_Go,
     Cl_Step i (Cl_Files (Inl Closed_Pipe) (Inl Closed_Pipe)), Cl_Step i (Cl_Started No_Fault)]"

section \<open>One process per session\<close>




section \<open>A load of an open session\<close>

text \<open>C24. Loading a session whose process is running puts a new one in its place. No later call of the
engine, Close included, ever stops the old process.\<close>

theorem claude_replaced_process_runs:
  assumes "reach (claude_exec E et) claude_init w" "mget (y_procs w) sid = Some p" "proc_running p w"
    "\<forall>c\<in>set (y_calls w). p \<notin> close_targets c"
    "i < length (y_calls w)" "y_calls w ! i = Cl_Load sid req" "claude_exec E et (Cl_Step i Cl_Go) w = Some u"
    "reach (claude_exec E et) u v"
  shows "proc_running p v \<and> (\<forall>k. mget (y_procs v) k \<noteq> Some p)"
proof -
  have wf: "cells_ok w" using claude_reach_wf [OF assms(1)] by (simp add: claude_wf_def)
  have key: "k = sid" if "mget (y_procs w) k = Some p" for k
    using that assms(2) wf unfolding cells_ok_def by metis
  have p: "p < length (y_heap w)" using assms(3) by (simp add: proc_running_def)
  have u: "u = (add_proc sid (new_proc sid sid False req) w)\<lparr>y_calls :=
      (y_calls w)[i := Cl_Ensure (length (y_heap w)) (For_Load sid)]\<rparr>"
    using assms(5,6,7) by (auto simp: claude_move_def claude_load_def add_proc_def split: if_splits)
  have "unreachable p u"
    using assms(3) key p by (auto simp: u unreachable_def proc_running_def add_proc_def nth_append split: if_splits)
  moreover have "p \<notin> close_targets c" if "c \<in> set (y_calls u)" for c
    using that assms(4) set_update_subset_insert [of "y_calls w" i] by (fastforce simp: u)
  ultimately have "lost p u" by (simp add: lost_def)
  from lost.reachable [OF assms(8) this] show ?thesis by (simp add: lost_def unreachable_def)
qed

definition demo_twice :: "claude_action list" where
  "demo_twice = demo_load 0 @ [Cl_Enter (Cl_Load ''s'' bare_request)]"

lemma demo_twice_run:
  "map_option (\<lambda>w. mget (y_procs w) ''s'' = Some 0 \<and> proc_running 0 w \<and> list_all (\<lambda>c. close_targets c = {}) (y_calls w)
      \<and> 1 < length (y_calls w) \<and> y_calls w ! 1 = Cl_Load ''s'' bare_request \<and> \<not> y_lock w)
    (run demo_exec demo_twice claude_init) = Some True"
  by code_simp

lemma claude_replaced_process_runs_witness:
  "\<exists>w u. reach demo_exec claude_init w \<and> demo_exec (Cl_Step 1 Cl_Go) w = Some u
     \<and> (\<forall>v. reach demo_exec u v \<longrightarrow> proc_running 0 v)"
proof -
  obtain w where w: "reach demo_exec claude_init w" "mget (y_procs w) ''s'' = Some 0" "proc_running 0 w"
      "list_all (\<lambda>c. close_targets c = {}) (y_calls w)" "1 < length (y_calls w)"
      "y_calls w ! 1 = Cl_Load ''s'' bare_request" "\<not> y_lock w"
    using reached_run [OF demo_twice_run] by blast
  then obtain u where u: "demo_exec (Cl_Step 1 Cl_Go) w = Some u"
    by (simp add: demo_exec_def claude_move_def claude_load_def)
  have t: "\<forall>c\<in>set (y_calls w). 0 \<notin> close_targets c" using w(4) by (auto simp: list_all_iff)
  have "proc_running 0 v" if "reach demo_exec u v" for v
    using claude_replaced_process_runs [OF w(1)[unfolded demo_exec_def] w(2,3) t w(5,6) u[unfolded demo_exec_def]
        that[unfolded demo_exec_def]] by simp
  then show ?thesis using w(1) u by blast
qed

section \<open>A session whose process has ended\<close>

text \<open>
  The output of process \<open>p\<close> has ended, and call \<open>i\<close> is a prompt on it that has not yet got to its
  turn, or waits for a turn of \<open>p\<close> that nobody will finish, or has been refused.
\<close>

definition ended_process :: "nat \<Rightarrow> claude_world \<Rightarrow> bool" where
  "ended_process p w \<longleftrightarrow> p < length (y_heap w) \<and> cp_spawned (y_heap w ! p) \<and> cp_eof (y_heap w ! p)"

definition orphan_turn :: "nat \<Rightarrow> nat \<Rightarrow> claude_world \<Rightarrow> bool" where
  "orphan_turn p t w \<longleftrightarrow> t < length (y_turns w) \<and> \<not> lt_done (y_turns w ! t)
     \<and> (\<forall>q<length (y_heap w). q \<noteq> p \<longrightarrow> cp_turn (y_heap w ! q) \<noteq> Some t)"

fun hopeless :: "nat \<Rightarrow> claude_call \<Rightarrow> claude_world \<Rightarrow> bool" where
  "hopeless p (Cl_Ensure q a) w = (q = p \<and> (case a of For_Prompt _ \<Rightarrow> True | For_Load _ \<Rightarrow> False))"
| "hopeless p (Cl_Turn q blocks) w = (q = p)"
| "hopeless p (Cl_Write q t blocks) w = (q = p \<and> orphan_turn p t w)"
| "hopeless p (Cl_Wait q t) w = (q = p \<and> orphan_turn p t w)"
| "hopeless p (Cl_Ended r) w = (case r of Cl_Refused _ \<Rightarrow> True | _ \<Rightarrow> False)"
| "hopeless p _ w = False"

definition abandoned :: "nat \<Rightarrow> nat \<Rightarrow> claude_world \<Rightarrow> bool" where
  "abandoned p i w \<longleftrightarrow> claude_wf w \<and> ended_process p w \<and> i < length (y_calls w) \<and> hopeless p (y_calls w ! i) w"

lemma hopeless_keep:
  assumes "hopeless p c w" "\<And>t. orphan_turn p t w \<Longrightarrow> orphan_turn p t w'"
  shows "hopeless p c w'"
  using assms by (cases c) (auto split: claude_after.splits claude_result.splits)

lemma orphan_calls [simp]: "orphan_turn p t (w\<lparr>y_calls := cs\<rparr>) = orphan_turn p t w"
  by (simp add: orphan_turn_def)

lemma hopeless_calls [simp]: "hopeless p c (w\<lparr>y_calls := cs\<rparr>) = hopeless p c w"
  by (cases c) simp_all

lemma orphan_kept: "cells_kept h w w' \<Longrightarrow> orphan_turn p t w \<Longrightarrow> orphan_turn p t w'"
proof -
  assume k: "cells_kept h w w'" and o: "orphan_turn p t w"
  then have t: "t < length (y_turns w)" by (simp add: orphan_turn_def)
  have "cp_turn (y_heap w' ! q) \<noteq> Some t" if q: "q < length (y_heap w')" "q \<noteq> p" for q
  proof (cases "q < length (y_heap w)")
    case True
    then show ?thesis using keptD(6) [OF k True] o that(2) t by (auto simp: orphan_turn_def)
  next
    case False
    then show ?thesis using keptD(10) [OF k _ q(1)] by simp
  qed
  then show ?thesis using o t keptD(2,4) [OF k] by (auto simp: orphan_turn_def)
qed

lemma ended_kept: "cells_kept h w w' \<Longrightarrow> h \<noteq> Some p \<Longrightarrow> ended_process p w \<Longrightarrow> ended_process p w'"
  unfolding ended_process_def using keptD(1,7,9) [of h w w'] by (metis order_less_le_trans)

lemma ended_not_held: "claude_wf w \<Longrightarrow> ended_process p w \<Longrightarrow> c \<in> set (y_calls w) \<Longrightarrow> holds c \<noteq> Some p"
  by (auto simp: claude_wf_def claude_call_ok_def ended_process_def)

text \<open>The steps of the prompt itself.\<close>

lemma hopeless_move:
  assumes wf: "claude_wf w" and e: "ended_process p w" and h: "hopeless p c w"
    and m: "claude_move E ch c w = Some (c', w')"
  shows "hopeless p c' w'"
proof (cases c)
  case (Cl_Ensure q a)
  then obtain blocks where a: "q = p" "a = For_Prompt blocks" using h by (auto split: claude_after.splits)
  then show ?thesis using m e Cl_Ensure
    by (auto simp: claude_move_def claude_ensure_def ended_process_def after_spawn_def spawn_failed_def split: if_splits)
next
  case (Cl_Turn q blocks)
  then have q: "q = p" using h by simp
  have fresh: "cp_turn (y_heap w ! r) \<noteq> Some (length (y_turns w))" if "r < length (y_heap w)" for r
    using wf that unfolding claude_wf_def cells_ok_def by blast
  have "claude_begin p blocks w = (c', w')" using m Cl_Turn q by (simp add: claude_move_def split: if_splits)
  then have "c' = Cl_Ended (claude_turn_error ''a turn is already in flight'') \<or>
      c' = Cl_Write p (length (y_turns w)) blocks \<and> w' = (set_proc p ((y_heap w ! p)\<lparr>cp_turn := Some (length (y_turns w))\<rparr>) w)
              \<lparr>y_turns := y_turns w @ [new_claude_turn]\<rparr>"
    by (auto simp: claude_begin_def split: if_splits)
  then show ?thesis
  proof
    assume "c' = Cl_Write p (length (y_turns w)) blocks \<and> w' = (set_proc p ((y_heap w ! p)\<lparr>cp_turn := Some (length (y_turns w))\<rparr>) w)
              \<lparr>y_turns := y_turns w @ [new_claude_turn]\<rparr>"
    then show ?thesis using fresh
      by (auto simp: orphan_turn_def nth_set_proc new_claude_turn_def) (auto simp: set_proc_def)
  qed (simp add: claude_turn_error_def)
next
  case (Cl_Write q t blocks)
  then show ?thesis using m h orphan_kept [OF kept_write] by (auto simp: claude_move_def split: if_splits)
next
  case (Cl_Wait q t)
  then show ?thesis using m h
    by (auto simp: claude_move_def claude_wait_def orphan_turn_def split: claude_choice.splits if_splits)
next
  case (Cl_Ended r)
  then show ?thesis using m by (simp add: claude_move_def)
qed (use h in simp_all)

lemma orphan_frame:
  assumes "orphan_turn p t w" "line_frame q w w'" "q < length (y_heap w)" "q \<noteq> p"
  shows "orphan_turn p t w'"
proof -
  have "cp_turn (y_heap w ! q) \<noteq> Some t" using assms(1,3,4) by (simp add: orphan_turn_def)
  then have "y_turns w' ! t = y_turns w ! t" using assms(2) by (simp add: line_frame_def)
  moreover have "cp_turn (y_heap w' ! r) = cp_turn (y_heap w ! r)" for r
    using assms(2) by (cases "r = q") (simp_all add: line_frame_def)
  ultimately show ?thesis using assms(1,2) by (simp add: orphan_turn_def) (simp add: line_frame_def)
qed

lemma orphan_set_proc:
  "orphan_turn p t w \<Longrightarrow> cp_turn v = cp_turn (y_heap w ! q) \<Longrightarrow> orphan_turn p t (set_proc q v w)"
  by (auto simp: orphan_turn_def nth_set_proc) (auto simp: set_proc_def)

lemma abandoned_exec:
  assumes d: "abandoned p i w" and e: "claude_exec E et a w = Some w'"
  shows "abandoned p i w'"
proof -
  have wf: "claude_wf w" "ended_process p w" "i < length (y_calls w)" "hopeless p (y_calls w ! i) w"
    using d by (simp_all add: abandoned_def)
  have wf': "claude_wf w'" by (rule claude_exec_wf [OF wf(1) e])
  have "ended_process p w' \<and> i < length (y_calls w') \<and> hopeless p (y_calls w' ! i) w'"
  proof (cases a)
    case (Cl_Enter c)
    then show ?thesis using e wf(2-4) by (auto simp: nth_append ended_process_def split: if_splits)
  next
    case (Cl_Step j ch)
    then obtain c u where j: "j < length (y_calls w)" and m: "claude_move E ch (y_calls w ! j) w = Some (c, u)"
      and w': "w' = u\<lparr>y_calls := (y_calls u)[j := c]\<rparr>"
      using e by (auto split: if_splits)
    note k = kept_move [OF m]
    have eu: "ended_process p u" using ended_kept [OF k ended_not_held [OF wf(1,2)] wf(2)] j by simp
    have calls: "y_calls u = y_calls w" using keptD(3) [OF k] .
    have "hopeless p ((y_calls w)[j := c] ! i) u"
    proof (cases "j = i")
      case True
      then show ?thesis using hopeless_move [OF wf(1,2) _ m] wf(3,4) by simp
    next
      case False
      then show ?thesis using hopeless_keep [OF wf(4)] orphan_kept [OF k] by simp
    qed
    then show ?thesis using eu calls wf(3) by (simp add: w' ended_process_def)
  next
    case (Cl_Line q ev)
    then have q: "q < length (y_heap w)" "\<not> cp_eof (y_heap w ! q)" and f: "line_frame q w w'"
      using e claude_line_frame [of q w E ev] by (auto simp: reading_def split: if_splits)
    then have "q \<noteq> p" using wf(2) by (auto simp: ended_process_def)
    from hopeless_keep [OF wf(4) orphan_frame [OF _ f q(1) this]] f wf(2,3) \<open>q \<noteq> p\<close>
    show ?thesis by (auto simp: ended_process_def line_frame_def)
  next
    case (Cl_Answer q dec)
    then obtain doc where w': "w' = writeLine q doc (set_proc q ((y_heap w ! q)\<lparr>cp_asking := None\<rparr>) w)"
      using e by (auto split: if_splits option.splits prod.splits)
    have k: "cells_kept None w (set_proc q ((y_heap w ! q)\<lparr>cp_asking := None\<rparr>) w)" by (rule kept_set_proc) simp_all
    have "orphan_turn p t w'" if "orphan_turn p t w" for t
      unfolding w' by (intro orphan_kept [OF kept_write] orphan_kept [OF k] that)
    moreover have "ended_process p w'" unfolding w'
      by (rule ended_kept [OF kept_write [of None]]) (simp_all add: ended_kept [OF k] wf(2))
    moreover have "y_calls w' = y_calls w"
      using keptD(3) [OF kept_write] keptD(3) [OF k] unfolding w' by metis
    ultimately show ?thesis using hopeless_keep [OF wf(4)] wf(3) by simp
  next
    case (Cl_EOF q)
    then have w': "w' = set_proc q ((y_heap w ! q)\<lparr>cp_eof := True, cp_exited := True\<rparr>) w"
      using e by (auto split: if_splits)
    have "hopeless p (y_calls w ! i) w'" unfolding w' by (rule hopeless_keep [OF wf(4)]) (rule orphan_set_proc, simp_all)
    then show ?thesis using wf(2,3) by (auto simp: w' ended_process_def nth_set_proc) (auto simp: set_proc_def)
  qed
  with wf' show ?thesis by (simp add: abandoned_def)
qed

interpretation abandoned: step_invariant "claude_exec E et" "abandoned p i" for E et p i
  by unfold_locales (rule abandoned_exec)






section \<open>Plans\<close>

text \<open>The updates a client is sent about one tool call.\<close>

definition tool_updates :: "string \<Rightarrow> (string \<times> session_update) list \<Rightarrow> session_update list" where
  "tool_updates tool es = filter (\<lambda>u. su_ToolCallID u = tool \<and> su_SessionUpdate u = ''tool_call_update'') (map snd es)"

definition silent :: "nat \<Rightarrow> string \<Rightarrow> claude_world \<Rightarrow> claude_world \<Rightarrow> bool" where
  "silent p tool w w' \<longleftrightarrow> (\<exists>es. y_emitted w' = y_emitted w @ es \<and> tool_updates tool es = [])
     \<and> tool \<in> set (cp_plans (y_heap w' ! p)) \<and> length (y_heap w') = length (y_heap w)"

definition planned :: "nat \<Rightarrow> string \<Rightarrow> claude_world \<Rightarrow> bool" where
  "planned p tool w \<longleftrightarrow> p < length (y_heap w) \<and> tool \<in> set (cp_plans (y_heap w ! p))"

lemma silent_refl: "planned p tool w \<Longrightarrow> silent p tool w w"
  by (auto simp: silent_def planned_def tool_updates_def)

lemma silent_trans: "silent p tool u v \<Longrightarrow> silent p tool v w \<Longrightarrow> silent p tool u w"
  by (auto simp: silent_def tool_updates_def)

lemma silent_planned: "silent p tool w w' \<Longrightarrow> planned p tool w \<Longrightarrow> planned p tool w'"
  by (simp add: silent_def planned_def)

lemma silent_emit:
  "planned p tool w \<Longrightarrow> su_ToolCallID u \<noteq> tool \<or> su_SessionUpdate u \<noteq> ''tool_call_update'' \<Longrightarrow>
   silent p tool w (claude_emit p u w)"
  by (auto simp: silent_def planned_def claude_emit_def tool_updates_def)

lemma silent_set:
  "planned p tool w \<Longrightarrow> set (cp_plans (y_heap w ! p)) \<subseteq> set (cp_plans v) \<Longrightarrow> silent p tool w (set_proc p v w)"
  by (auto simp: silent_def planned_def nth_set_proc tool_updates_def) (auto simp: set_proc_def)

lemma silent_fold:
  assumes "planned p tool w" "\<And>x w. planned p tool w \<Longrightarrow> silent p tool w (f x w)"
  shows "silent p tool w (fold f xs w)"
  using assms(1)
proof (induction xs arbitrary: w)
  case (Cons x xs)
  have "silent p tool w (f x w)" using assms(2) [OF Cons.prems] .
  moreover have "silent p tool (f x w) (fold f xs (f x w))"
    using Cons.IH silent_planned [OF assms(2) Cons.prems] Cons.prems by blast
  ultimately show ?case using silent_trans by simp
qed (simp add: silent_refl)

lemma silent_then_emit:
  "silent p tool w v \<Longrightarrow> planned p tool w \<Longrightarrow> su_ToolCallID u \<noteq> tool \<or> su_SessionUpdate u \<noteq> ''tool_call_update'' \<Longrightarrow>
   silent p tool w (claude_emit p u v)"
  using silent_trans silent_emit silent_planned by blast

lemma silent_write: "planned p tool w \<Longrightarrow> silent p tool w (writeLine p doc w)"
  unfolding writeLine_def Let_def by (auto intro: silent_set silent_refl)

lemma silent_assistant: "planned p tool w \<Longrightarrow> silent p tool w (assistant_block E p mid b w)"
  by (auto simp: assistant_block_def emitPlanFromTodoWrite_def Let_def chunk_def
      intro!: silent_emit silent_refl silent_then_emit silent_set split: option.splits)

lemma silent_user: "planned p tool w \<Longrightarrow> silent p tool w (user_block p b w)"
  by (auto simp: user_block_def planned_def intro!: silent_emit silent_refl)

lemma silent_line: "planned p tool w \<Longrightarrow> silent p tool w (claude_line E p ev w)"
proof (cases ev)
  case (Init_Line sid slash mode)
  assume p: "planned p tool w"
  have a: "silent p tool w (if sid \<noteq> [] then set_proc p ((y_heap w ! p)\<lparr>cp_realID := sid\<rparr>) w else w)"
    using p by (auto intro!: silent_set silent_refl)
  show ?thesis unfolding Init_Line claude_line.simps on_init_def Let_def
    using p by (auto intro!: silent_then_emit silent_set silent_refl)
next
  case (Result_Line is_error res stop usage)
  assume p: "planned p tool w"
  then show ?thesis unfolding Result_Line
    by (auto simp: on_result_def silent_def planned_def set_claude_turn_def tool_updates_def Let_def split: option.splits)
qed (auto simp: handleAssistantBlocks_def on_tool_def
      intro!: silent_fold silent_assistant silent_user silent_write silent_set)

text \<open>C22. The to-do list is shown as a plan only: once a process has sent it under some id, no line
ever makes an update of a tool call with that id.\<close>

theorem claude_plan_not_a_tool_call:
  assumes "p < length (y_heap w)" "bl_Type b = ''tool_use''" "bl_Name b = ''TodoWrite''" "bl_ID b \<noteq> []"
    "le_todos E (bl_Input b) = Some entries"
  shows "\<exists>es. y_emitted (fold (claude_line E p) evs (assistant_block E p mid b w)) =
       y_emitted w @ (cp_id (y_heap w ! p), empty_update\<lparr>su_SessionUpdate := ''plan'', su_Entries := entries\<rparr>) # es
     \<and> tool_updates (bl_ID b) es = []"
proof -
  let ?u = "empty_update\<lparr>su_SessionUpdate := ''plan'', su_Entries := entries\<rparr>"
  let ?w = "assistant_block E p mid b w"
  have w: "?w = claude_emit p ?u (set_proc p ((y_heap w ! p)\<lparr>cp_plans := List.insert (bl_ID b) (cp_plans (y_heap w ! p))\<rparr>) w)"
    using assms(2-5) by (simp add: assistant_block_def emitPlanFromTodoWrite_def Let_def)
  have "planned p (bl_ID b) ?w" using assms(1) unfolding w by (simp add: planned_def claude_emit_def set_proc_def)
  then have "silent p (bl_ID b) ?w (fold (claude_line E p) evs ?w)" by (rule silent_fold) (rule silent_line)
  then obtain es where "y_emitted (fold (claude_line E p) evs ?w) = y_emitted ?w @ es" "tool_updates (bl_ID b) es = []"
    by (auto simp: silent_def)
  moreover have "y_emitted ?w = y_emitted w @ [(cp_id (y_heap w ! p), ?u)]"
    unfolding w using assms(1) by (simp add: claude_emit_def set_proc_def)
  ultimately show ?thesis by simp
qed

definition todo_block :: claude_block where
  "todo_block = \<lparr>bl_Type = ''tool_use'', bl_Text = [], bl_Thinking = [], bl_ID = ''x1'', bl_Name = ''TodoWrite'',
     bl_Input = [], bl_ToolUseID = []\<rparr>"

lemma claude_plan_not_a_tool_call_witness:
  "\<exists>es. y_emitted (fold (claude_line demo_claude 0)
        [User_Line [todo_block\<lparr>bl_Type := ''tool_result'', bl_ToolUseID := ''x1''\<rparr>]]
        (assistant_block demo_claude 0 [] todo_block (claude_init\<lparr>y_heap := [new_proc ''s'' [] False bare_request]\<rparr>)))
      = (''s'', empty_update\<lparr>su_SessionUpdate := ''plan''\<rparr>) # es \<and> tool_updates ''x1'' es = []"
  using claude_plan_not_a_tool_call [of 0 "claude_init\<lparr>y_heap := [new_proc ''s'' [] False bare_request]\<rparr>" todo_block
      demo_claude "[]" "[User_Line [todo_block\<lparr>bl_Type := ''tool_result'', bl_ToolUseID := ''x1''\<rparr>]]" "[]"]
  by (simp add: todo_block_def demo_claude_def claude_init_def new_proc_def empty_update_def)

section \<open>Session ids\<close>

definition is_hex :: "char \<Rightarrow> bool" where
  "is_hex c \<longleftrightarrow> c \<in> set ''0123456789abcdef''"

definition uuid_char :: "nat \<Rightarrow> char \<Rightarrow> bool" where
  "uuid_char i c \<longleftrightarrow>
     (if i \<in> {8, 13, 18, 23} then c = CHR ''-''
      else if i = 14 then c = CHR ''4''
      else if i = 19 then c \<in> {CHR ''8'', CHR ''9'', CHR ''a'', CHR ''b''}
      else is_hex c)"

text \<open>The grammar of a version 4 UUID (RFC 9562), in lower case.\<close>

definition uuid_v4 :: "string \<Rightarrow> bool" where
  "uuid_v4 s \<longleftrightarrow> length s = 36 \<and> list_all (\<lambda>(i, c). uuid_char i c) (enumerate 0 s)"

lemma hex_digit_is_hex: "n < 16 \<Longrightarrow> is_hex (hex_digit n)"
proof -
  have every: "list_all (\<lambda>n. is_hex (hex_digit n)) [0..<16]" by code_simp
  show "n < 16 \<Longrightarrow> is_hex (hex_digit n)" using every by (simp add: list_all_iff del: upt_rec_numeral upt.simps)
qed

lemma hex_byte: "hex_digits 2 b = [hex_digit (b div 16 mod 16), hex_digit (b mod 16)]"
  by (simp add: numeral_2_eq_2)

lemma version_digit: "hex_digit ((64 + n mod 16) div 16 mod 16) = CHR ''4''"
proof -
  have "(64 + n mod 16) div 16 mod 16 = (4::nat)" by simp
  moreover have "hex_digit 4 = CHR ''4''" by code_simp
  ultimately show ?thesis by simp
qed

lemma variant_digit: "hex_digit ((128 + n mod 64) div 16 mod 16) \<in> {CHR ''8'', CHR ''9'', CHR ''a'', CHR ''b''}"
proof -
  define m where "m = n mod 64 div 16"
  have "(n mod 64 + 8 * 16) div 16 = 8 + m" unfolding m_def by (rule div_mult_self1) simp
  then have d: "(128 + n mod 64) div 16 = 8 + m" by (simp add: add.commute)
  have "n mod 64 < 4 * 16" by simp
  then have "m < 4" unfolding m_def by (rule less_mult_imp_div_less)
  then have "(8 + m) mod 16 = 8 + m" "m \<in> {0, 1, 2, 3}" by (simp, auto)
  then have "(128 + n mod 64) div 16 mod 16 \<in> {8, 9, 10, 11}" unfolding d by auto
  moreover have "\<forall>d\<in>{8, 9, 10, 11}. hex_digit d \<in> {CHR ''8'', CHR ''9'', CHR ''a'', CHR ''b''}" by code_simp
  ultimately show ?thesis by blast
qed

lemma list16: "length b = 16 \<Longrightarrow> \<exists>b0 b1 b2 b3 b4 b5 b6 b7 b8 b9 b10 b11 b12 b13 b14 b15.
    b = [b0, b1, b2, b3, b4, b5, b6, b7, b8, b9, b10, b11, b12, b13, b14, b15]"
  by (auto simp: numeral_eq_Suc length_Suc_conv)

text \<open>The session id the Claude engine makes from sixteen random bytes is a version 4 UUID of 36 characters
  (lower-case hexadecimal digits, hyphens at 8, 13, 18 and 23, the version digit 4 and a variant digit of 8 to b),
  whatever the bytes are, so that the command line accepts it as a \<open>--session-id\<close>.\<close>

theorem session_id_is_uuid:
  assumes "length b = 16"
  shows "uuid_v4 (newClaudeNativeSessionID b)"
proof -
  obtain b0 b1 b2 b3 b4 b5 b6 b7 b8 b9 b10 b11 b12 b13 b14 b15 where
    b: "b = [b0, b1, b2, b3, b4, b5, b6, b7, b8, b9, b10, b11, b12, b13, b14, b15]"
    using list16 [OF assms] by blast
  show ?thesis
    unfolding b newClaudeNativeSessionID_def stamp_version_def Let_def hex_bytes_def slice_def
    using version_digit [of b6] variant_digit [of b8]
    by (simp add: hex_byte uuid_v4_def uuid_char_def hex_digit_is_hex)
qed

lemma session_id_is_uuid_witness:
  "uuid_v4 (newClaudeNativeSessionID [0, 1, 2, 3, 4, 5, 255, 7, 8, 9, 10, 11, 12, 13, 14, 255])"
  by (rule session_id_is_uuid) simp

end
