(* ===== verification/Spec2Isabelle.thy ===== *)
theory Spec2Isabelle
  imports Peer Profile_Laws Tool_Props Service_Props Runtime_Props Gateway_Handler_Props Gateway_Stream_Props
    Native_Claude_Props
begin

text \<open>
  A verification library for acp-runtime-go, the Go host runtime of the Agent Client Protocol: a
  host starts sessions on coding agents, child processes that speak JSON-RPC over their standard
  streams, and runs turns on them; an OpenAI-compatible HTTP gateway is built on top.

  \<^bold>\<open>The program.\<close> From the wire up:

  \<^item> \<open>rpc.go\<close>: a JSON scanner and a message codec, and the \<open>Peer\<close>: calls with their pending
    table, the read loop, inbound requests, \<open>Close\<close>.
  \<^item> \<open>connection.go\<close>: the typed client side over a peer: what the host announces and answers.
  \<^item> \<open>agents.go\<close>, \<open>profiles.go\<close>, \<open>system_prompt.go\<close>: what differs from agent to agent.
  \<^item> \<open>session_service.go\<close>: starts, loads, resumes, forks and lists sessions over a connection,
    with authentication, initial configuration and cleanup.
  \<^item> \<open>session_driver.go\<close>: one session: turns, updates from the agent, the read model,
    configuration, closing.
  \<^item> \<open>runtime.go\<close>, \<open>session.go\<close>: the registry of sessions and the handles of the host.
  \<^item> \<open>openai/\<close>: the gateway: models, routing, persistent sessions shared by HTTP requests, streams.

  \<^bold>\<open>The theories.\<close> Each opens with what it holds.

  \<^item> \<open>Prelude\<close>: byte strings and slices, 64-bit wrap-around, results, and runs of a partial step
    function with the locale \<open>step_invariant\<close>. \<open>Go_Strings\<close>, \<open>Go_Maps\<close>, \<open>Go_Strconv\<close>, \<open>Utf8\<close>: the
    standard library the code calls; \<open>Go_Maps\<close> states the contract \<open>keyed_store\<close>.
  \<^item> \<open>Types\<close>, \<open>Errors\<close>: \<open>types.go\<close> and the errors, one record per struct.
  \<^item> \<open>Json_Scan\<close>, \<open>Rpc_Codec\<close>: scanner, writer, parser and line framing of \<open>rpc.go\<close>;
    \<open>Peer\<close>: the peer as steps between critical sections and channel operations.
  \<^item> \<open>Profiles\<close>, \<open>Profile_Laws\<close>: agents, profiles, prompt projection, session metadata.
  \<^item> \<open>Client_Side\<close>: \<open>connection.go\<close>.
  \<^item> \<open>Read_Model\<close>, \<open>Read_Model_Laws\<close>, \<open>Orphans\<close>: the state of a driver and what updates do to it;
    \<open>Session_Driver\<close>: the driver as a world of goroutines, closers, cancel timers and a reader;
    \<open>Driver_Laws\<close>, \<open>Driver_Model\<close>, \<open>Driver_Config\<close>: invariants of that world;
    \<open>Driver_Props\<close>, \<open>Tool_Props\<close>: its properties.
  \<^item> \<open>Session_Service\<close>: every operation of the service as a function that returns its result and
    the trace of its calls, hooks and disposals; the environment answers by functions of the trace.
    \<open>Service_Laws\<close> has the locale \<open>config_relation\<close> (a relation kept by the two configuration
    calls is kept by the whole initial configuration), \<open>Service_Props\<close> the properties.
  \<^item> \<open>Runtime_Registry\<close>, \<open>Runtime_Props\<close>: the registry and the read-write locks of the handles.
  \<^item> \<open>Gateway_Routing\<close>, \<open>Gateway_Types\<close>, \<open>Gateway_Handlers\<close>, \<open>Gateway_Streams\<close>: the sequential part of the
    gateway: model ids and the model cache, request bodies, prompts and validation, admission,
    and the frames of a streamed turn. \<open>Gateway_Sessions\<close>: persistent sessions as threads that
    stand between two critical sections; \<open>Gateway_Laws\<close> has the transitions of a thread
    (\<open>thread_effect\<close>) and the well-formedness they keep. The properties are in
    \<open>Gateway_Routing_Props\<close>, \<open>Gateway_Props\<close>, \<open>Gateway_Stream_Props\<close> and, for handlers and threads
    together, \<open>Gateway_Handler_Props\<close>.

  \<^bold>\<open>What the lemmas show.\<close>

  \<^item> Codec: the scanner accepts exactly JSON up to its depth limit, the fast paths write what the
    general path writes, and what is written is read back.
  \<^item> Peer: no interleaving closes or sends on a closed channel; a call gets its own response; calls
    return after \<open>Close\<close>; a cancel reaches its handler.
  \<^item> Driver: a turn is finished once; closing completes the turn in flight; the tables stay under
    their caps; the thread is the trailing window of what was said; configuration snapshots are only
    trusted when they are current; updates outside a turn form well-bracketed generations.
  \<^item> Service: an operation that fails has disposed of its connection once; a session whose initial
    configuration fails is deleted; the initial mode is the first alias the agent takes.
  \<^item> Runtime: no driver is lost while ids are distinct.
  \<^item> Gateway: the session cap, one turn per session, no agent session forgotten, clients with
    different tokens never on one session, every handler ends in every interleaving, a listed model
    can be requested, streams spell out the turn.
  \<^item> Where the code does something else than it means to, the property states what it does: an
    update that panics on the closed events channel, sessions without an id, a registry that
    forgets the first of two sessions of one id, a session swept away under an admitted request.

  \<^bold>\<open>Modelling.\<close> Go strings and byte slices are strings of bytes. A nil slice or map is an option only
  where the code tells it from an empty one. Go maps are association lists with distinct keys;
  where the order of \<open>range\<close> matters it is an argument. Clocks, random ids, replies of agents and of
  the host, \<open>json.Marshal\<close>, \<open>json.Unmarshal\<close> and SHA-256 are arguments. A panic is a value
  (\<open>outcome\<close>) or a flag of the state. Concurrency is interleaving of steps, each a critical section,
  a channel operation, or the return of a call.

  \<^bold>\<open>Bounds.\<close> Message size (16 MiB), scan depth (128) and the 64-slot event and 256-slot update
  channels are the code's. Call ids wrap at 64 bits and the peer's properties assume fewer than
  \<open>2^63\<close> calls; other counters are natural numbers. Nothing uses fuel: loops are structural or have
  a measure, and runs are lists of actions.

  \<^bold>\<open>Approximations.\<close> The function passed to \<open>AfterReadIdle\<close> may run at any later step, which covers
  running at once on the caller's goroutine. In \<open>Service_Laws\<close> the updates that arrive during the
  initial configuration are folded in between its calls. In \<open>Gateway_Sessions\<close> the ids that \<open>newID\<close>
  draws do not repeat, and \<open>validatePersistentSession\<close> reads the record in one step.

  \<^bold>\<open>Not modelled.\<close> \<open>registry.go\<close>, \<open>paths.go\<close> (downloads, archives, caches on disk), \<open>stdio.go\<close> and the
  process code (operating system processes and signals), the simulator, the harness and the
  commands. Of the typed wrappers in \<open>connection.go\<close> only their effect on the driver and the service
  is modelled; the terminal handlers forward to the host. Of the gateway the access log, the health
  endpoint and reply headers are left out.

  \<^bold>\<open>Plan.\<close> Next: the native bridges (\<open>native_claude.go\<close>, \<open>native_codex.go\<close>, \<open>native_bridge.go\<close>,
  \<open>native_session_state.go\<close>), then the agent resolution and the path safety of archives in
  \<open>registry.go\<close>.
\<close>

end
